(* ===== verification/Prelude.thy ===== *)
theory Prelude
  imports Main "HOL-Library.Word" "HOL-Library.Char_ord" "HOL-Library.List_Lexorder"
    "HOL-Library.AList" "HOL-Library.Code_Target_Nat"
begin

text \<open>
  Shared vocabulary of the development: the machine integers of the Rust sources, the ordered
  and unordered maps, slice access, and the list lemmas that the components share.

  Rust's \<open>u32\<close> and \<open>u64\<close> values are naturals below \<open>2 ^ 32\<close> and \<open>2 ^ 64\<close>. The plain
  operators of the release build wrap, and the wrap-around is written out (\<open>add32\<close>,
  \<open>add64\<close> and their kin); the \<open>saturating_*\<close> and \<open>checked_*\<close> methods have their own
  definitions. A subtraction that the code guards is the truncated subtraction of naturals,
  which is also \<open>saturating_sub\<close>.

  A \<open>BTreeMap\<close> is an association list sorted by key (iteration order is key order); a
  \<open>HashMap\<close> is an association list with distinct keys whose order stands for the
  unspecified iteration order.
\<close>

section \<open>Collections of rules\<close>

named_theorems idx_simps \<open>facts on range sets in terms of their members\<close>
named_theorems task_defs \<open>definitions of the task-array operations\<close>

section \<open>Machine integers\<close>

abbreviation u32_max :: nat where "u32_max \<equiv> 4294967295"
abbreviation u64_max :: nat where "u64_max \<equiv> 18446744073709551615"

definition add32 :: "nat \<Rightarrow> nat \<Rightarrow> nat" where
  "add32 a b = (a + b) mod 4294967296"

definition sub32 :: "nat \<Rightarrow> nat \<Rightarrow> nat" where
  "sub32 a b = (a + (4294967296 - b mod 4294967296)) mod 4294967296"

definition mul32 :: "nat \<Rightarrow> nat \<Rightarrow> nat" where
  "mul32 a b = (a * b) mod 4294967296"

definition as_u32 :: "nat \<Rightarrow> nat" where
  "as_u32 a = a mod 4294967296"

definition add64 :: "nat \<Rightarrow> nat \<Rightarrow> nat" where
  "add64 a b = (a + b) mod 18446744073709551616"

definition sub64 :: "nat \<Rightarrow> nat \<Rightarrow> nat" where
  "sub64 a b = (a + (18446744073709551616 - b mod 18446744073709551616)) mod 18446744073709551616"

definition mul64 :: "nat \<Rightarrow> nat \<Rightarrow> nat" where
  "mul64 a b = (a * b) mod 18446744073709551616"

definition sat_add32 :: "nat \<Rightarrow> nat \<Rightarrow> nat" where
  "sat_add32 a b = min (a + b) u32_max"

definition sat_mul32 :: "nat \<Rightarrow> nat \<Rightarrow> nat" where
  "sat_mul32 a b = min (a * b) u32_max"

definition sat_add64 :: "nat \<Rightarrow> nat \<Rightarrow> nat" where
  "sat_add64 a b = min (a + b) u64_max"

definition sat_mul64 :: "nat \<Rightarrow> nat \<Rightarrow> nat" where
  "sat_mul64 a b = min (a * b) u64_max"

definition checked_add64 :: "nat \<Rightarrow> nat \<Rightarrow> nat option" where
  "checked_add64 a b = (if a + b \<le> u64_max then Some (a + b) else None)"

definition div_ceil :: "nat \<Rightarrow> nat \<Rightarrow> nat" where
  "div_ceil a b = (if a mod b = 0 then a div b else a div b + 1)"

lemma add32_exact: "a + b \<le> u32_max \<Longrightarrow> add32 a b = a + b"
  by (simp add: add32_def)

lemma mul32_exact: "a * b \<le> u32_max \<Longrightarrow> mul32 a b = a * b"
  by (simp add: mul32_def)

lemma as_u32_exact: "a \<le> u32_max \<Longrightarrow> as_u32 a = a"
  by (simp add: as_u32_def)

lemma sub32_exact: "b \<le> a \<Longrightarrow> a \<le> u32_max \<Longrightarrow> sub32 a b = a - b"
proof -
  assume "b \<le> a" "a \<le> u32_max"
  then have "a + (4294967296 - b mod 4294967296) = (a - b) + 4294967296" by simp
  then show ?thesis using \<open>a \<le> u32_max\<close> by (simp add: sub32_def)
qed

lemma add64_exact: "a + b \<le> u64_max \<Longrightarrow> add64 a b = a + b"
  by (simp add: add64_def)

lemma mul64_exact: "a * b \<le> u64_max \<Longrightarrow> mul64 a b = a * b"
  by (simp add: mul64_def)

lemma sub64_exact: "b \<le> a \<Longrightarrow> a \<le> u64_max \<Longrightarrow> sub64 a b = a - b"
proof -
  assume "b \<le> a" "a \<le> u64_max"
  then have "a + (18446744073709551616 - b mod 18446744073709551616) = (a - b) + 18446744073709551616" by simp
  then show ?thesis using \<open>a \<le> u64_max\<close> by (simp add: sub64_def)
qed

lemma sat_add64_exact: "a + b \<le> u64_max \<Longrightarrow> sat_add64 a b = a + b"
  by (simp add: sat_add64_def)

lemma checked_add64_Some: "checked_add64 a b = Some c \<longleftrightarrow> c = a + b \<and> a + b \<le> u64_max"
  by (auto simp: checked_add64_def)

lemma div_ceil_le_iff: "0 < b \<Longrightarrow> div_ceil a b \<le> c \<longleftrightarrow> a \<le> c * b"
proof -
  assume b: "0 < b"
  have split: "a = a div b * b + a mod b" by simp
  show ?thesis
  proof (cases "a mod b = 0")
    case True
    then have "a = a div b * b" using split by simp
    then have "a \<le> c * b \<longleftrightarrow> a div b * b \<le> c * b" by simp
    then show ?thesis using b True by (simp add: div_ceil_def)
  next
    case False
    have "a \<le> c * b \<longleftrightarrow> a div b < c"
    proof
      assume "a \<le> c * b"
      moreover have "a \<noteq> c * b" using False by auto
      ultimately have "a < c * b" by simp
      then show "a div b < c" by (simp add: less_mult_imp_div_less)
    next
      assume "a div b < c"
      then have "Suc (a div b) * b \<le> c * b" by (intro mult_le_mono1) simp
      moreover have "a < Suc (a div b) * b" using b dividend_less_div_times [of b a] by simp
      ultimately show "a \<le> c * b" by simp
    qed
    then show ?thesis using False by (auto simp: div_ceil_def)
  qed
qed

lemma less_div_ceil_iff: "0 < b \<Longrightarrow> c < div_ceil a b \<longleftrightarrow> c * b < a"
  using div_ceil_le_iff [of b a c] by linarith

section \<open>Slices\<close>

text \<open>\<open>slice.get(i)\<close>, and \<open>slice.partition_point\<close> on a slice that the predicate partitions.\<close>

definition get_at :: "'a list \<Rightarrow> nat \<Rightarrow> 'a option" where
  "get_at xs i = (if i < length xs then Some (xs ! i) else None)"

definition partition_point :: "('a \<Rightarrow> bool) \<Rightarrow> 'a list \<Rightarrow> nat" where
  "partition_point p xs = length (takeWhile p xs)"

text \<open>\<open>Vec::splice(start..stop, new)\<close>.\<close>

definition splice_at :: "nat \<Rightarrow> nat \<Rightarrow> 'a list \<Rightarrow> 'a list \<Rightarrow> 'a list" where
  "splice_at start stop new xs = take start xs @ new @ drop stop xs"

lemma take_partition_point: "take (partition_point p xs) xs = takeWhile p xs"
  by (simp add: partition_point_def takeWhile_eq_take [symmetric])

lemma drop_partition_point: "drop (partition_point p xs) xs = dropWhile p xs"
  by (simp add: partition_point_def dropWhile_eq_drop [symmetric])

lemma get_at_partition_point:
  "get_at xs (partition_point p xs) =
     (case dropWhile p xs of [] \<Rightarrow> None | x # _ \<Rightarrow> Some x)"
proof (induction xs)
  case Nil
  then show ?case by (simp add: get_at_def partition_point_def)
next
  case (Cons x xs)
  then show ?case
    by (cases "p x") (simp_all add: get_at_def partition_point_def split: if_splits)
qed

text \<open>
  On a list sorted by \<open>R\<close>, a predicate that holds of everything before an element it holds of
  is exactly what \<open>partition_point\<close> asks for: it fails on all the rest.
\<close>

lemma dropWhile_none:
  assumes "sorted_wrt R xs" and "\<And>x y. x \<in> set xs \<Longrightarrow> y \<in> set xs \<Longrightarrow> R x y \<Longrightarrow> p y \<Longrightarrow> p x"
  shows "\<forall>x \<in> set (dropWhile p xs). \<not> p x"
  using assms by (induction xs) auto

lemma takeWhile_all: "x \<in> set (takeWhile p xs) \<Longrightarrow> p x \<and> x \<in> set xs"
  by (induction xs) (auto split: if_splits)

lemma partition_point_mono:
  assumes "\<And>x. x \<in> set xs \<Longrightarrow> p x \<Longrightarrow> q x"
  shows "partition_point p xs \<le> partition_point q xs"
  using assms by (induction xs) (auto simp: partition_point_def)

lemma split_two_points:
  assumes "i \<le> j"
  shows "xs = take i xs @ take (j - i) (drop i xs) @ drop j xs"
proof -
  have "drop (j - i) (drop i xs) = drop j xs" using assms by simp
  then have "take (j - i) (drop i xs) @ drop j xs = drop i xs"
    by (metis append_take_drop_id)
  then show ?thesis by simp
qed

text \<open>Two partition points, one inside the other, cut a list in three.\<close>

lemma cut_three:
  assumes imp: "\<And>x. x \<in> set xs \<Longrightarrow> p x \<Longrightarrow> q x"
    and p: "\<forall>x \<in> set (dropWhile p xs). \<not> p x" and q: "\<forall>x \<in> set (dropWhile q xs). \<not> q x"
  obtains pre mid post where "xs = pre @ mid @ post"
    "length pre = partition_point p xs" "length (pre @ mid) = partition_point q xs"
    "\<forall>x \<in> set pre. p x" "\<forall>x \<in> set mid. \<not> p x \<and> q x" "\<forall>x \<in> set post. \<not> q x"
proof
  define i j where "i = partition_point p xs" and "j = partition_point q xs"
  have ij: "i \<le> j" unfolding i_def j_def by (rule partition_point_mono [OF imp])
  have len: "j \<le> length xs" by (simp add: j_def partition_point_def length_takeWhile_le)
  show "xs = take i xs @ take (j - i) (drop i xs) @ drop j xs" by (rule split_two_points [OF ij])
  show "length (take i xs) = partition_point p xs" using ij len by (simp add: i_def)
  show "length (take i xs @ take (j - i) (drop i xs)) = partition_point q xs"
    using ij len by (simp add: j_def)
  show "\<forall>x \<in> set (take i xs). p x"
    unfolding i_def take_partition_point by (auto dest: takeWhile_all)
  show "\<forall>x \<in> set (drop j xs). \<not> q x" unfolding j_def drop_partition_point by (rule q)
  have "take (j - i) (drop i xs) = drop i (take j xs)" using ij by (simp add: take_drop)
  then have "set (take (j - i) (drop i xs)) \<subseteq> set (takeWhile q xs)"
    unfolding j_def by (metis set_drop_subset take_partition_point)
  moreover have "set (take (j - i) (drop i xs)) \<subseteq> set (dropWhile p xs)"
    unfolding i_def by (metis set_take_subset drop_partition_point)
  ultimately show "\<forall>x \<in> set (take (j - i) (drop i xs)). \<not> p x \<and> q x"
    using p by (blast dest: takeWhile_all)
qed

section \<open>Ordered maps\<close>

text \<open>\<open>BTreeMap\<close>: insert-or-replace and removal on a key-sorted association list.\<close>

fun bt_insert :: "'k::linorder \<Rightarrow> 'v \<Rightarrow> ('k \<times> 'v) list \<Rightarrow> ('k \<times> 'v) list" where
  "bt_insert k v [] = [(k, v)]"
| "bt_insert k v ((k', v') # m) =
     (if k < k' then (k, v) # (k', v') # m
      else if k = k' then (k, v) # m
      else (k', v') # bt_insert k v m)"

definition bt_remove :: "'k \<Rightarrow> ('k \<times> 'v) list \<Rightarrow> ('k \<times> 'v) list" where
  "bt_remove k m = filter (\<lambda>e. fst e \<noteq> k) m"

definition bt_ok :: "('k::linorder \<times> 'v) list \<Rightarrow> bool" where
  "bt_ok m \<longleftrightarrow> sorted_wrt (<) (map fst m)"

lemma map_of_bt_insert [simp]: "map_of (bt_insert k v m) = (map_of m)(k \<mapsto> v)"
  by (induction m) (auto simp: fun_eq_iff)

lemma map_of_bt_remove [simp]: "map_of (bt_remove k m) = (map_of m)(k := None)"
  by (induction m) (auto simp: fun_eq_iff bt_remove_def)

lemma bt_insert_twice: "bt_insert k v (bt_insert k v' m) = bt_insert k v m"
  by (induction k v m rule: bt_insert.induct) auto

lemma fst_set_bt_insert [simp]: "fst ` set (bt_insert k v m) = insert k (fst ` set m)"
  by (induction m) (force split: if_splits)+

lemma fst_set_bt_remove [simp]: "fst ` set (bt_remove k m) = fst ` set m - {k}"
  by (auto simp: bt_remove_def)

lemma bt_ok_Nil [simp]: "bt_ok []"
  by (simp add: bt_ok_def)

lemma bt_ok_Cons: "bt_ok ((k, v) # m) \<longleftrightarrow> (\<forall>k' \<in> fst ` set m. k < k') \<and> bt_ok m"
  by (auto simp: bt_ok_def)

lemma bt_ok_insert [simp]: "bt_ok m \<Longrightarrow> bt_ok (bt_insert k v m)"
proof (induction m)
  case Nil
  then show ?case by (simp add: bt_ok_Cons)
next
  case (Cons e m)
  obtain k' v' where e: "e = (k', v')" by force
  consider "k < k'" | "k = k'" | "k' < k" by (rule linorder_cases)
  then show ?case
  proof cases
    case 1
    then show ?thesis using Cons.prems by (fastforce simp: e bt_ok_Cons)
  next
    case 2
    then show ?thesis using Cons.prems by (simp add: e bt_ok_Cons)
  next
    case 3
    then show ?thesis using Cons by (auto simp: e bt_ok_Cons)
  qed
qed

lemma bt_ok_remove [simp]: "bt_ok m \<Longrightarrow> bt_ok (bt_remove k m)"
  by (induction m) (auto simp: bt_ok_Cons bt_remove_def)

lemma bt_ok_filter: "bt_ok m \<Longrightarrow> bt_ok (filter P m)"
  by (induction m) (auto simp: bt_ok_Cons)

lemma bt_ok_distinct: "bt_ok m \<Longrightarrow> distinct (map fst m)"
  by (simp add: bt_ok_def strict_sorted_iff)

lemma bt_ok_get: "bt_ok m \<Longrightarrow> map_of m k = Some v \<longleftrightarrow> (k, v) \<in> set m"
  by (simp add: bt_ok_distinct)

lemma set_bt_insert:
  assumes "bt_ok m"
  shows "set (bt_insert k v m) = insert (k, v) {e \<in> set m. fst e \<noteq> k}"
proof -
  have "e \<in> set (bt_insert k v m) \<longleftrightarrow> e \<in> insert (k, v) {e \<in> set m. fst e \<noteq> k}" for e
    using bt_ok_get [OF bt_ok_insert [OF assms], of k v "fst e" "snd e"]
      bt_ok_get [OF assms, of "fst e" "snd e"] by (cases e) (auto split: if_splits)
  then show ?thesis by blast
qed

lemma set_bt_remove: "set (bt_remove k m) = {e \<in> set m. fst e \<noteq> k}"
  by (auto simp: bt_remove_def)

lemma bt_remove_none: "map_of m k = None \<Longrightarrow> bt_remove k m = m"
  unfolding bt_remove_def by (subst filter_id_conv) (force simp: map_of_eq_None_iff)

text \<open>A sum over the values of a map, before and after an insertion or a removal.\<close>

lemma sum_list_bt_insert:
  fixes f :: "'v \<Rightarrow> nat"
  assumes "bt_ok m"
  shows "sum_list (map (f \<circ> snd) (bt_insert k v m)) +
           (case map_of m k of None \<Rightarrow> 0 | Some v' \<Rightarrow> f v') =
         sum_list (map (f \<circ> snd) m) + f v"
  using assms
proof (induction m)
  case Nil
  then show ?case by simp
next
  case (Cons e m)
  obtain k' v' where e: "e = (k', v')" by force
  have none: "map_of m k = None" if "k \<le> k'"
    using Cons.prems that by (force simp: e bt_ok_Cons map_of_eq_None_iff)
  show ?case using Cons none by (auto simp: e bt_ok_Cons)
qed

lemma sum_list_bt_remove:
  fixes f :: "'v \<Rightarrow> nat"
  assumes "bt_ok m"
  shows "sum_list (map (f \<circ> snd) (bt_remove k m)) +
           (case map_of m k of None \<Rightarrow> 0 | Some v' \<Rightarrow> f v') =
         sum_list (map (f \<circ> snd) m)"
  using assms
proof (induction m)
  case Nil
  then show ?case by (simp add: bt_remove_def)
next
  case (Cons e m)
  obtain k' v' where e: "e = (k', v')" by force
  show ?case
  proof (cases "k' = k")
    case True
    then have "map_of m k = None"
      using Cons.prems by (force simp: e bt_ok_Cons map_of_eq_None_iff)
    then have "bt_remove k (e # m) = m" using True bt_remove_none [of m k]
      by (simp add: e bt_remove_def)
    then show ?thesis using True by (simp add: e)
  next
    case False
    then show ?thesis using Cons by (auto simp: e bt_ok_Cons bt_remove_def)
  qed
qed

text \<open>The union over the values of a map, before and after an insertion or a removal.\<close>

lemma UN_bt_insert:
  assumes "bt_ok m"
  shows "(\<Union>e \<in> set (bt_insert k v m). f (snd e)) \<union> (case map_of m k of None \<Rightarrow> {} | Some v' \<Rightarrow> f v') =
    (\<Union>e \<in> set m. f (snd e)) \<union> f v"
proof -
  have "(\<Union>e \<in> set m. f (snd e)) =
      (\<Union>e \<in> {e \<in> set m. fst e \<noteq> k}. f (snd e)) \<union> (\<Union>e \<in> {e \<in> set m. fst e = k}. f (snd e))"
    by blast
  also have "(\<Union>e \<in> {e \<in> set m. fst e = k}. f (snd e)) = (case map_of m k of None \<Rightarrow> {} | Some v' \<Rightarrow> f v')"
  proof (cases "map_of m k")
    case None
    then have no_k: "{e \<in> set m. fst e = k} = {}" by (force simp: map_of_eq_None_iff)
    show ?thesis unfolding no_k using None by simp
  next
    case (Some v')
    then have mem: "(k, v') \<in> set m" using bt_ok_get [OF assms] by blast
    have uniq: "e = (k, v')" if "e \<in> set m" "fst e = k" for e
    proof -
      have "(k, snd e) \<in> set m" using that by (metis prod.collapse)
      then show ?thesis using that Some bt_ok_get [OF assms, of k "snd e"] by (simp add: prod_eq_iff)
    qed
    have only_k: "{e \<in> set m. fst e = k} = {(k, v')}"
      by (intro equalityI subsetI) (use uniq in blast, use mem in simp)
    show ?thesis unfolding only_k using Some by simp
  qed
  finally show ?thesis by (auto simp: set_bt_insert [OF assms])
qed

lemma UN_bt_insert_grow:
  assumes "bt_ok m" and "(case map_of m k of None \<Rightarrow> {} | Some v' \<Rightarrow> f v') \<subseteq> f v"
  shows "(\<Union>e \<in> set (bt_insert k v m). f (snd e)) = (\<Union>e \<in> set m. f (snd e)) \<union> f v"
proof -
  have "f v \<subseteq> (\<Union>e \<in> set (bt_insert k v m). f (snd e))" by (auto simp: set_bt_insert [OF assms(1)])
  then show ?thesis using UN_bt_insert [OF assms(1), of f k v] assms(2) by blast
qed

lemma UN_bt_remove:
  assumes "bt_ok m"
  shows "(\<Union>e \<in> set (bt_remove k m). f (snd e)) \<union> (case map_of m k of None \<Rightarrow> {} | Some v' \<Rightarrow> f v') =
    (\<Union>e \<in> set m. f (snd e))"
proof -
  have sub: "(case map_of m k of None \<Rightarrow> {} | Some v' \<Rightarrow> f v') \<subseteq> (\<Union>e \<in> set m. f (snd e))"
    using bt_ok_get [OF assms] by (force split: option.splits)
  have "f (snd e) \<subseteq> (case map_of m k of None \<Rightarrow> {} | Some v' \<Rightarrow> f v')" if "e \<in> set m" "fst e = k" for e
    using that bt_ok_get [OF assms, of k "snd e"] by (metis option.simps(5) prod.collapse subset_refl)
  then show ?thesis using sub by (fastforce simp: set_bt_remove)
qed

section \<open>Lists of finite sets\<close>

text \<open>
  A list of finite sets is pairwise disjoint as soon as their sizes add up to no more than the
  size of their union. Operations that merge sets can only lower the sum, so this form of
  disjointness survives them without a case analysis.
\<close>

lemma card_Union_le_sum_list:
  "\<forall>A \<in> set As. finite A \<Longrightarrow> card (\<Union>(set As)) \<le> sum_list (map card As)"
proof (induction As)
  case (Cons A As)
  have "card (A \<union> \<Union>(set As)) \<le> card A + card (\<Union>(set As))" by (rule card_Un_le)
  then show ?case using Cons by simp
qed simp

lemma sum_card_disjoint:
  assumes "\<forall>A \<in> set As. finite A" and "sum_list (map card As) \<le> card (\<Union>(set As))"
  shows "sorted_wrt (\<lambda>A B. A \<inter> B = {}) As"
  using assms
proof (induction As)
  case Nil
  then show ?case by simp
next
  case (Cons A As)
  let ?U = "\<Union>(set As)"
  have fin: "finite A" "finite ?U" using Cons.prems(1) by auto
  have split: "card A + card ?U = card (A \<union> ?U) + card (A \<inter> ?U)" by (rule card_Un_Int [OF fin])
  have le: "card ?U \<le> sum_list (map card As)"
    using Cons.prems(1) by (intro card_Union_le_sum_list) simp
  have "card A + sum_list (map card As) \<le> card (A \<union> ?U)" using Cons.prems(2) by simp
  then have "card (A \<inter> ?U) = 0" and "sum_list (map card As) \<le> card ?U" using split le by linarith+
  then show ?case using Cons fin by auto
qed

lemma sorted_wrt_disjoint_mem:
  assumes "sorted_wrt (\<lambda>A B. A \<inter> B = {}) (map f xs)" and "x \<in> set xs" "y \<in> set xs" and "x \<noteq> y"
  shows "f x \<inter> f y = {}"
  using assms by (induction xs) auto

lemma sum_list_map_cong_set:
  "(\<And>x. x \<in> set xs \<Longrightarrow> f x = g x) \<Longrightarrow> sum_list (map f xs) = sum_list (map g xs)"
  by (simp cong: map_cong)

text \<open>Pointwise sums of two lists of the same length.\<close>

lemma sum_list_map2_add:
  "length xs = length ys \<Longrightarrow> sum_list (map2 (+) xs ys) = sum_list xs + sum_list (ys :: nat list)"
  by (induction xs ys rule: list_induct2) auto

lemma map2_add64_exact:
  "length xs = length ys \<Longrightarrow> sum_list xs + sum_list ys \<le> u64_max \<Longrightarrow> map2 add64 xs ys = map2 (+) xs ys"
  by (induction xs ys rule: list_induct2) (auto simp: add64_exact)

lemma list_all2_map2_add:
  "list_all2 (\<le>) xs xs' \<Longrightarrow> length ys = length xs \<Longrightarrow> list_all2 (\<le>) (map2 (+) xs ys) (map2 (+) xs' (ys :: nat list))"
proof (induction xs xs' arbitrary: ys rule: list_all2_induct)
  case (Cons x xs x' xs')
  then show ?case by (cases ys) auto
qed simp

lemma list_all2_le_sum: "list_all2 (\<le>) xs ys \<Longrightarrow> sum_list xs \<le> sum_list (ys :: nat list)"
  by (induction xs ys rule: list_all2_induct) auto

section \<open>The first match\<close>

text \<open>\<open>iter_mut().find(p)\<close> followed by a change of the element found.\<close>

fun update_first :: "('a \<Rightarrow> bool) \<Rightarrow> ('a \<Rightarrow> 'a) \<Rightarrow> 'a list \<Rightarrow> 'a list" where
  "update_first p f [] = []"
| "update_first p f (x # xs) = (if p x then f x # xs else x # update_first p f xs)"

lemma update_first_map: "(\<And>x. p x \<Longrightarrow> g (f x) = g x) \<Longrightarrow> map g (update_first p f xs) = map g xs"
  by (induction xs) auto

lemma update_first_set: "set (update_first p f xs) \<subseteq> set xs \<union> f ` {x \<in> set xs. p x}"
  by (induction xs) auto

lemma update_first_id: "(\<And>x. x \<in> set xs \<Longrightarrow> \<not> p x) \<Longrightarrow> update_first p f xs = xs"
  by (induction xs) auto

lemma update_first_unique:
  assumes "distinct (map g xs)" "\<And>x. x \<in> set xs \<Longrightarrow> p x \<longleftrightarrow> g x = k"
  shows "update_first p f xs = map (\<lambda>x. if p x then f x else x) xs"
  using assms
proof (induction xs)
  case (Cons x xs)
  show ?case
  proof (cases "p x")
    case True
    then have "g x = k" using Cons.prems(2) by simp
    then have "\<not> p y" if "y \<in> set xs" for y
      using that Cons.prems(1) Cons.prems(2) [of y] by (auto simp: image_iff)
    then have "map (\<lambda>y. if p y then f y else y) xs = xs" by (intro map_idI) simp
    with True show ?thesis by simp
  next
    case False
    have "distinct (map g xs)" using Cons.prems(1) by simp
    with False show ?thesis using Cons.IH Cons.prems(2) by simp
  qed
qed simp

end
