(* ===== verification/Index_Set.thy ===== *)
theory Index_Set
  imports Prelude
begin

text \<open>
  Sets of \<open>u32\<close> indices kept as sorted, disjoint, non-adjacent inclusive ranges
  (\<open>src/src/meat/index_set.rs\<close>). Each operation is the code's own: binary search through
  \<open>partition_point\<close>, one \<open>splice\<close>, and arithmetic at the code's width. The theory shows
  that every operation keeps the representation invariant \<open>ranges_ok\<close>, that it computes
  the set operation it is named after on \<open>members\<close>, and that the representation is canonical.
  The locale \<open>index_set\<close> is the contract the task array relies on.
\<close>

section \<open>The representation\<close>

type_synonym index_range_set = "(nat \<times> nat) list"

datatype index_set_error = Reversed nat nat nat | Unordered nat

definition members :: "index_range_set \<Rightarrow> nat set" where
  "members s = (\<Union>r \<in> set s. {fst r..snd r})"

definition ranges_ok :: "index_range_set \<Rightarrow> bool" where
  "ranges_ok s \<longleftrightarrow> (\<forall>r \<in> set s. fst r \<le> snd r \<and> snd r \<le> u32_max) \<and>
     sorted_wrt (\<lambda>r q. snd r + 1 < fst q) s"

section \<open>Operations\<close>

definition set_new :: index_range_set where
  "set_new = []"

definition is_empty_set :: "index_range_set \<Rightarrow> bool" where
  "is_empty_set s \<longleftrightarrow> s = []"

definition set_len :: "index_range_set \<Rightarrow> nat" where
  "set_len s = sum_list (map (\<lambda>(first, final). final - first + 1) s)"

definition range_count :: "index_range_set \<Rightarrow> nat" where
  "range_count s = length s"

definition first_of :: "index_range_set \<Rightarrow> nat option" where
  "first_of s = map_option fst (get_at s 0)"

definition contains :: "index_range_set \<Rightarrow> nat \<Rightarrow> bool" where
  "contains s index =
     (case get_at s (partition_point (\<lambda>(_, final). final < index) s) of
        None \<Rightarrow> False
      | Some (first, _) \<Rightarrow> first \<le> index)"

definition contains_range :: "index_range_set \<Rightarrow> nat \<Rightarrow> nat \<Rightarrow> bool" where
  "contains_range s first final =
     (if first > final then True
      else case get_at s (partition_point (\<lambda>(_, end). end < first) s) of
             None \<Rightarrow> False
           | Some (start, end) \<Rightarrow> start \<le> first \<and> final \<le> end)"

definition insert_range :: "nat \<Rightarrow> nat \<Rightarrow> index_range_set \<Rightarrow> index_range_set" where
  "insert_range first final s =
     (if first > final then s
      else let start = partition_point (\<lambda>(_, end). end + 1 < first) s;
               stop = partition_point (\<lambda>(begin, _). begin \<le> final + 1) s;
               merged = (if start < stop
                         then (min first (fst (s ! start)), max final (snd (s ! (stop - 1))))
                         else (first, final))
           in splice_at start stop [merged] s)"

definition from_range :: "nat \<Rightarrow> nat \<Rightarrow> index_range_set" where
  "from_range first final = insert_range first final set_new"

definition insert_index :: "nat \<Rightarrow> index_range_set \<Rightarrow> bool \<times> index_range_set" where
  "insert_index index s =
     (if contains s index then (False, s) else (True, insert_range index index s))"

definition remove_range :: "nat \<Rightarrow> nat \<Rightarrow> index_range_set \<Rightarrow> index_range_set" where
  "remove_range first final s =
     (if first > final then s
      else let start = partition_point (\<lambda>(_, end). end < first) s;
               stop = partition_point (\<lambda>(begin, _). begin \<le> final) s
           in if start \<ge> stop then s
              else let head_first = fst (s ! start);
                       tail_last = snd (s ! (stop - 1));
                       pieces = (if head_first < first then [(head_first, sub32 first 1)] else [])
                              @ (if tail_last > final then [(add32 final 1, tail_last)] else [])
                   in splice_at start stop pieces s)"

definition remove_index :: "nat \<Rightarrow> index_range_set \<Rightarrow> bool \<times> index_range_set" where
  "remove_index index s =
     (if \<not> contains s index then (False, s) else (True, remove_range index index s))"

definition extend_from :: "index_range_set \<Rightarrow> index_range_set \<Rightarrow> index_range_set" where
  "extend_from s other = fold (\<lambda>(first, final) acc. insert_range first final acc) other s"

fun count_whole :: "nat \<Rightarrow> nat \<Rightarrow> index_range_set \<Rightarrow> nat \<times> nat" where
  "count_whole remaining whole [] = (remaining, whole)"
| "count_whole remaining whole ((first, final) # rest) =
     (let width = final - first + 1
      in if width > remaining then (remaining, whole)
         else count_whole (remaining - width) (whole + 1) rest)"

text \<open>The taken set and what is left of the drained one.\<close>

definition take_first :: "nat \<Rightarrow> index_range_set \<Rightarrow> index_range_set \<times> index_range_set" where
  "take_first wanted s =
     (let (remaining, whole) = count_whole wanted 0 s;
          taken = take whole s;
          left = drop whole s
      in case left of
           [] \<Rightarrow> (taken, left)
         | head # rest \<Rightarrow>
             if remaining > 0
             then let cut = sub32 (add32 (fst head) (as_u32 remaining)) 1
                  in (taken @ [(fst head, cut)], (add32 cut 1, snd head) # rest)
             else (taken, left))"

definition set_iter :: "index_range_set \<Rightarrow> nat list" where
  "set_iter s = concat (map (\<lambda>(first, final). [first..<final + 1]) s)"

fun try_from_at :: "nat \<Rightarrow> index_range_set \<Rightarrow> (nat \<times> nat) list \<Rightarrow> index_set_error + index_range_set"
where
  "try_from_at position ranges [] = Inr ranges"
| "try_from_at position ranges ((first, final) # pairs) =
     (if first > final then Inl (Reversed position first final)
      else if ranges \<noteq> [] \<and> first \<le> snd (List.last ranges) + 1 then Inl (Unordered position)
      else try_from_at (position + 1) (ranges @ [(first, final)]) pairs)"

definition try_from :: "(nat \<times> nat) list \<Rightarrow> index_set_error + index_range_set" where
  "try_from pairs = try_from_at 0 [] pairs"

definition into_pairs :: "index_range_set \<Rightarrow> (nat \<times> nat) list" where
  "into_pairs s = map (\<lambda>(first, final). (first, final)) s"

section \<open>The invariant\<close>

lemma members_simps [simp]:
  "members [] = {}"
  "members (r # s) = {fst r..snd r} \<union> members s"
  "members (s @ t) = members s \<union> members t"
  by (auto simp: members_def)

lemma ranges_ok_Nil [simp]: "ranges_ok []"
  by (simp add: ranges_ok_def)

lemma ranges_ok_Cons:
  "ranges_ok (r # s) \<longleftrightarrow>
     fst r \<le> snd r \<and> snd r \<le> u32_max \<and> (\<forall>q \<in> set s. snd r + 1 < fst q) \<and> ranges_ok s"
  by (auto simp: ranges_ok_def)

lemma ranges_ok_append:
  "ranges_ok (s @ t) \<longleftrightarrow>
     ranges_ok s \<and> ranges_ok t \<and> (\<forall>r \<in> set s. \<forall>q \<in> set t. snd r + 1 < fst q)"
  by (auto simp: ranges_ok_def sorted_wrt_append)

lemma ranges_ok_range: "ranges_ok s \<Longrightarrow> r \<in> set s \<Longrightarrow> fst r \<le> snd r \<and> snd r \<le> u32_max"
  by (auto simp: ranges_ok_def)

lemma finite_members [simp]: "finite (members s)"
  by (simp add: members_def)

lemma members_bound: "ranges_ok s \<Longrightarrow> i \<in> members s \<Longrightarrow> i \<le> u32_max"
  by (fastforce simp: members_def ranges_ok_def)

lemma members_empty_iff: "ranges_ok s \<Longrightarrow> members s = {} \<longleftrightarrow> s = []"
  by (cases s) (auto simp: ranges_ok_Cons)

lemma members_gap: "ranges_ok s \<Longrightarrow> r \<in> set s \<Longrightarrow> snd r + 1 \<notin> members s"
proof (induction s)
  case Nil
  then show ?case by simp
next
  case (Cons q s)
  show ?case
  proof (cases "r = q")
    case True
    then show ?thesis using Cons.prems by (force simp: ranges_ok_Cons members_def)
  next
    case False
    then have r: "r \<in> set s" "fst r \<le> snd r" "snd q + 1 < fst r"
      using Cons.prems by (auto simp: ranges_ok_Cons dest: ranges_ok_range)
    then show ?thesis using Cons by (auto simp: ranges_ok_Cons)
  qed
qed

text \<open>Every predicate the code hands to \<open>partition_point\<close> partitions an ordered range list.\<close>

lemma end_less_none:
  "ranges_ok s \<Longrightarrow> \<forall>r \<in> set (dropWhile (\<lambda>(_, e). e < i) s). \<not> (\<lambda>(_, e). e < i) r"
  by (rule dropWhile_none [of "\<lambda>r q. snd r + 1 < fst q"])
    (auto simp: case_prod_beta ranges_ok_def dest!: ranges_ok_range)

lemma end_touch_none:
  "ranges_ok s \<Longrightarrow> \<forall>r \<in> set (dropWhile (\<lambda>(_, e). e + 1 < i) s). \<not> (\<lambda>(_, e). e + 1 < i) r"
  by (rule dropWhile_none [of "\<lambda>r q. snd r + 1 < fst q"])
    (auto simp: case_prod_beta ranges_ok_def dest!: ranges_ok_range)

lemma begin_none:
  "ranges_ok s \<Longrightarrow> \<forall>r \<in> set (dropWhile (\<lambda>(b, _). b \<le> i) s). \<not> (\<lambda>(b, _). b \<le> i) r"
  by (rule dropWhile_none [of "\<lambda>r q. snd r + 1 < fst q"])
    (auto simp: case_prod_beta ranges_ok_def dest!: ranges_ok_range)

lemma dropWhile_end_less: "ranges_ok s \<Longrightarrow> r \<in> set (dropWhile (\<lambda>(_, e). e < i) s) \<Longrightarrow> i \<le> snd r"
  using end_less_none [of s i] by (simp add: case_prod_beta not_less)

section \<open>Membership\<close>

lemma contains_members [idx_simps]:
  assumes ok: "ranges_ok s"
  shows "contains s i \<longleftrightarrow> i \<in> members s"
proof -
  let ?p = "\<lambda>(_, e). e < i"
  have s: "s = takeWhile ?p s @ dropWhile ?p s" by simp
  have before: "i \<notin> members (takeWhile ?p s)"
    by (auto simp: members_def dest!: takeWhile_all)
  show ?thesis
  proof (cases "dropWhile ?p s")
    case Nil
    then have "i \<notin> members s" using before s by (metis append_Nil2)
    then show ?thesis using Nil
      by (simp add: contains_def get_at_partition_point del: dropWhile_eq_Nil_conv)
  next
    case (Cons r rest)
    have "ranges_ok (r # rest)" using ok s Cons by (metis ranges_ok_append)
    moreover have "i \<le> snd r" using dropWhile_end_less [OF ok, of r i] Cons by simp
    ultimately have "i \<in> members (r # rest) \<longleftrightarrow> fst r \<le> i"
      by (force simp: ranges_ok_Cons members_def)
    moreover have "members s = members (takeWhile ?p s) \<union> members (r # rest)"
      using s Cons by (metis members_simps(3))
    ultimately show ?thesis
      using before Cons by (auto simp: contains_def get_at_partition_point split: prod.splits)
  qed
qed

lemma contains_range_members [idx_simps]:
  assumes ok: "ranges_ok s"
  shows "contains_range s i j \<longleftrightarrow> {i..j} \<subseteq> members s"
proof (cases "i \<le> j")
  case False
  then show ?thesis by (simp add: contains_range_def)
next
  case True
  let ?p = "\<lambda>(_, e). e < i"
  have found: "contains s i \<longleftrightarrow> i \<in> members s" by (rule contains_members [OF ok])
  show ?thesis
  proof (cases "dropWhile ?p s")
    case Nil
    then have "\<not> contains s i"
      by (simp add: contains_def get_at_partition_point del: dropWhile_eq_Nil_conv)
    then show ?thesis using Nil True found
      by (auto simp: contains_range_def get_at_partition_point simp del: dropWhile_eq_Nil_conv)
  next
    case (Cons r rest)
    have r: "r \<in> set s" using Cons by (metis list.set_intros(1) set_dropWhileD)
    have i: "i \<le> snd r" using dropWhile_end_less [OF ok, of r i] Cons by simp
    have lhs: "contains_range s i j \<longleftrightarrow> fst r \<le> i \<and> j \<le> snd r"
      using True Cons by (auto simp: contains_range_def get_at_partition_point split: prod.splits)
    have start: "fst r \<le> i \<longleftrightarrow> i \<in> members s"
      using found Cons by (auto simp: contains_def get_at_partition_point split: prod.splits)
    have gap: "snd r + 1 \<notin> members s" by (rule members_gap [OF ok r])
    have "j \<le> snd r" if sub: "{i..j} \<subseteq> members s"
    proof (rule ccontr)
      assume "\<not> j \<le> snd r"
      then have "snd r + 1 \<in> {i..j}" using i by simp
      with sub gap show False by blast
    qed
    moreover have "{i..j} \<subseteq> members s" if "fst r \<le> i" "j \<le> snd r"
    proof -
      have "{i..j} \<subseteq> {fst r..snd r}" using that by simp
      then show ?thesis using r by (auto simp: members_def)
    qed
    ultimately show ?thesis using lhs start True by auto
  qed
qed

section \<open>Insertion\<close>

text \<open>
  A range to insert cuts an ordered list in three: the ranges that end before it, the ranges
  that overlap or touch it, and the ranges that begin after it.
\<close>

lemma members_span:
  assumes "ranges_ok mid" and "mid \<noteq> []"
  shows "fst (hd mid) \<in> members mid" "snd (last mid) \<in> members mid"
    "members mid \<subseteq> {fst (hd mid)..snd (last mid)}"
  using assms
proof (induction mid)
  case (Cons r mid)
  {
    case 1
    then show ?case by (simp add: ranges_ok_Cons)
  next
    case 2
    then show ?case using Cons.IH(2) by (auto simp: ranges_ok_Cons)
  next
    case 3
    show ?case
    proof (cases "mid = []")
      case True
      then show ?thesis by simp
    next
      case False
      then have "members mid \<subseteq> {fst (hd mid)..snd (last mid)}" "snd (last mid) \<in> members mid"
        using Cons.IH(2,3) 3 by (auto simp: ranges_ok_Cons)
      moreover have "snd r + 1 < fst (hd mid)" "fst r \<le> snd r"
        using 3 False by (auto simp: ranges_ok_Cons)
      ultimately show ?thesis using False by fastforce
    qed
  }
qed auto

lemma insert_range_shape:
  assumes ok: "ranges_ok s" and le: "i \<le> j"
  obtains pre mid post where "s = pre @ mid @ post"
    "insert_range i j s =
       pre @ (if mid = [] then (i, j) else (min i (fst (hd mid)), max j (snd (last mid)))) # post"
    "\<forall>r \<in> set pre. snd r + 1 < i" "\<forall>r \<in> set mid. i \<le> snd r + 1 \<and> fst r \<le> j + 1"
    "\<forall>r \<in> set post. j + 1 < fst r"
proof -
  let ?p = "\<lambda>(_, e). e + 1 < i" and ?q = "\<lambda>(b, _). b \<le> j + 1"
  have nested: "\<And>r. r \<in> set s \<Longrightarrow> ?p r \<Longrightarrow> ?q r"
    using le by (force simp: case_prod_beta dest!: ranges_ok_range [OF ok])
  obtain pre mid post where sp: "s = pre @ mid @ post"
      "length pre = partition_point ?p s" "length (pre @ mid) = partition_point ?q s"
      and cut: "\<forall>r \<in> set pre. ?p r" "\<forall>r \<in> set mid. \<not> ?p r \<and> ?q r" "\<forall>r \<in> set post. \<not> ?q r"
    by (rule cut_three [OF nested end_touch_none [OF ok] begin_none [OF ok]])
  have side: "\<forall>r \<in> set pre. snd r + 1 < i" "\<forall>r \<in> set mid. i \<le> snd r + 1 \<and> fst r \<le> j + 1"
    "\<forall>r \<in> set post. j + 1 < fst r"
    using cut by (auto simp: case_prod_beta)
  have hd: "mid \<noteq> [] \<Longrightarrow> s ! length pre = hd mid"
    by (simp add: sp(1) nth_append hd_conv_nth)
  have last: "mid \<noteq> [] \<Longrightarrow> s ! (length (pre @ mid) - 1) = last mid"
    by (cases mid rule: rev_cases) (simp_all add: sp(1) nth_append)
  have "insert_range i j s =
      pre @ (if mid = [] then (i, j) else (min i (fst (hd mid)), max j (snd (last mid)))) # post"
    unfolding insert_range_def sp(2) [symmetric] sp(3) [symmetric] Let_def splice_at_def
    using le hd last sp(1) by auto
  then show ?thesis by (rule that [OF sp(1) _ side])
qed

lemma insert_range_members [idx_simps]:
  assumes ok: "ranges_ok s"
  shows "members (insert_range i j s) = members s \<union> {i..j}"
proof (cases "i \<le> j")
  case False
  then show ?thesis by (simp add: insert_range_def)
next
  case True
  then obtain pre mid post where s: "s = pre @ mid @ post"
      and ins: "insert_range i j s =
        pre @ (if mid = [] then (i, j) else (min i (fst (hd mid)), max j (snd (last mid)))) # post"
      and mid: "\<forall>r \<in> set mid. i \<le> snd r + 1 \<and> fst r \<le> j + 1"
    by (rule insert_range_shape [OF ok])
  show ?thesis
  proof (cases "mid = []")
    case True
    then show ?thesis using s ins by auto
  next
    case False
    have okm: "ranges_ok mid" using ok s by (simp add: ranges_ok_append)
    note span = members_span [OF okm False]
    have hd: "hd mid \<in> set mid" and last: "last mid \<in> set mid" using False by auto
    have "{min i (fst (hd mid))..max j (snd (last mid))} = members mid \<union> {i..j}"
    proof (intro equalityI subsetI)
      fix x assume x: "x \<in> {min i (fst (hd mid))..max j (snd (last mid))}"
      consider "x < i" | "j < x" | "i \<le> x" "x \<le> j" by linarith
      then show "x \<in> members mid \<union> {i..j}"
      proof cases
        case 1
        then have "x \<in> {fst (hd mid)..snd (hd mid)}" using x mid hd by fastforce
        then show ?thesis using hd by (auto simp: members_def)
      next
        case 2
        then have "x \<in> {fst (last mid)..snd (last mid)}" using x mid last by fastforce
        then show ?thesis using last by (auto simp: members_def)
      qed simp
    next
      fix x assume "x \<in> members mid \<union> {i..j}"
      then show "x \<in> {min i (fst (hd mid))..max j (snd (last mid))}" using span(3)
        by (fastforce simp: min_le_iff_disj le_max_iff_disj)
    qed
    then show ?thesis using s ins False by auto
  qed
qed

lemma insert_range_ok [idx_simps]:
  assumes ok: "ranges_ok s" and j: "j \<le> u32_max"
  shows "ranges_ok (insert_range i j s)"
proof (cases "i \<le> j")
  case False
  then show ?thesis using ok by (simp add: insert_range_def)
next
  case True
  then obtain pre mid post where s: "s = pre @ mid @ post"
      and ins: "insert_range i j s =
        pre @ (if mid = [] then (i, j) else (min i (fst (hd mid)), max j (snd (last mid)))) # post"
      and pre: "\<forall>r \<in> set pre. snd r + 1 < i" and post: "\<forall>r \<in> set post. j + 1 < fst r"
    by (rule insert_range_shape [OF ok])
  have oks: "ranges_ok pre" "ranges_ok mid" "ranges_ok post"
    and cross: "\<forall>r \<in> set pre. \<forall>q \<in> set mid \<union> set post. snd r + 1 < fst q"
      "\<forall>r \<in> set mid. \<forall>q \<in> set post. snd r + 1 < fst q"
    using ok s by (auto simp: ranges_ok_append)
  show ?thesis
  proof (cases "mid = []")
    case True
    then show ?thesis using ins oks pre post cross j \<open>i \<le> j\<close>
      by (auto simp: ranges_ok_append ranges_ok_Cons)
  next
    case False
    then have in_mid: "hd mid \<in> set mid" "last mid \<in> set mid" by auto
    then have "\<forall>q \<in> set post. snd (last mid) + 1 < fst q" "snd (last mid) \<le> u32_max"
      "\<forall>r \<in> set pre. snd r + 1 < fst (hd mid)"
      using cross ranges_ok_range [OF oks(2)] by blast+
    then show ?thesis using ins oks pre post cross j \<open>i \<le> j\<close> False
      by (auto simp: ranges_ok_append ranges_ok_Cons max_def min_def)
  qed
qed

section \<open>Removal\<close>

lemma remove_range_shape:
  assumes ok: "ranges_ok s" and le: "i \<le> j"
  obtains pre mid post where "s = pre @ mid @ post"
    "remove_range i j s =
       (if mid = [] then s
        else pre @ (if fst (hd mid) < i then [(fst (hd mid), sub32 i 1)] else [])
                 @ (if snd (last mid) > j then [(add32 j 1, snd (last mid))] else []) @ post)"
    "\<forall>r \<in> set pre. snd r < i" "\<forall>r \<in> set mid. i \<le> snd r \<and> fst r \<le> j" "\<forall>r \<in> set post. j < fst r"
proof -
  let ?p = "\<lambda>(_, e). e < i" and ?q = "\<lambda>(b, _). b \<le> j"
  have nested: "\<And>r. r \<in> set s \<Longrightarrow> ?p r \<Longrightarrow> ?q r"
    using le by (force simp: case_prod_beta dest!: ranges_ok_range [OF ok])
  obtain pre mid post where sp: "s = pre @ mid @ post"
      "length pre = partition_point ?p s" "length (pre @ mid) = partition_point ?q s"
      and cut: "\<forall>r \<in> set pre. ?p r" "\<forall>r \<in> set mid. \<not> ?p r \<and> ?q r" "\<forall>r \<in> set post. \<not> ?q r"
    by (rule cut_three [OF nested end_less_none [OF ok] begin_none [OF ok]])
  have side: "\<forall>r \<in> set pre. snd r < i" "\<forall>r \<in> set mid. i \<le> snd r \<and> fst r \<le> j"
    "\<forall>r \<in> set post. j < fst r"
    using cut by (auto simp: case_prod_beta)
  have hd: "mid \<noteq> [] \<Longrightarrow> s ! length pre = hd mid"
    by (simp add: sp(1) nth_append hd_conv_nth)
  have last: "mid \<noteq> [] \<Longrightarrow> s ! (length (pre @ mid) - 1) = last mid"
    by (cases mid rule: rev_cases) (simp_all add: sp(1) nth_append)
  have "remove_range i j s =
       (if mid = [] then s
        else pre @ (if fst (hd mid) < i then [(fst (hd mid), sub32 i 1)] else [])
                 @ (if snd (last mid) > j then [(add32 j 1, snd (last mid))] else []) @ post)"
    unfolding remove_range_def sp(2) [symmetric] sp(3) [symmetric] Let_def splice_at_def
    using le hd last sp(1) by auto
  then show ?thesis by (rule that [OF sp(1) _ side])
qed

text \<open>The pieces that survive at the two ends do not wrap: each is guarded by a strict bound.\<close>

lemma remove_pieces:
  assumes ok: "ranges_ok mid" and ne: "mid \<noteq> []"
    and mid: "\<forall>r \<in> set mid. i \<le> snd r \<and> fst r \<le> j"
  defines "pieces \<equiv> (if fst (hd mid) < i then [(fst (hd mid), sub32 i 1)] else [])
                 @ (if snd (last mid) > j then [(add32 j 1, snd (last mid))] else [])"
  assumes le: "i \<le> j"
  shows "ranges_ok pieces" "members pieces = members mid - {i..j}"
    "\<forall>r \<in> set pieces. fst (hd mid) \<le> fst r \<and> snd r \<le> snd (last mid)"
proof -
  have in_mid: "hd mid \<in> set mid" "last mid \<in> set mid" using ne by auto
  have b: "snd (last mid) \<le> u32_max" "snd (hd mid) \<le> u32_max"
    using ranges_ok_range [OF ok] in_mid by auto
  have sub: "fst (hd mid) < i \<Longrightarrow> sub32 i 1 = i - 1"
    using mid in_mid b by (intro sub32_exact) fastforce+
  have add: "snd (last mid) > j \<Longrightarrow> add32 j 1 = j + 1"
    using b by (intro add32_exact) simp
  have ends: "i \<le> snd (last mid)" "fst (hd mid) \<le> j" using mid in_mid by auto
  note span = members_span [OF ok ne]
  show "ranges_ok pieces"
    using sub add b le mid in_mid by (fastforce simp: pieces_def ranges_ok_Cons)
  show "\<forall>r \<in> set pieces. fst (hd mid) \<le> fst r \<and> snd r \<le> snd (last mid)"
    using sub add ends by (auto simp: pieces_def)
  have left: "{fst (hd mid)..<i} \<subseteq> members mid"
  proof
    fix x assume "x \<in> {fst (hd mid)..<i}"
    then have "x \<in> {fst (hd mid)..snd (hd mid)}" using mid in_mid by fastforce
    then show "x \<in> members mid" using in_mid by (auto simp: members_def)
  qed
  have right: "{j<..snd (last mid)} \<subseteq> members mid"
  proof
    fix x assume "x \<in> {j<..snd (last mid)}"
    then have "x \<in> {fst (last mid)..snd (last mid)}" using mid in_mid by fastforce
    then show "x \<in> members mid" using in_mid by (auto simp: members_def)
  qed
  have "members pieces = {fst (hd mid)..<i} \<union> {j<..snd (last mid)}"
    using sub add by (auto simp: pieces_def)
  also have "\<dots> = members mid - {i..j}" using left right span(3) le by force
  finally show "members pieces = members mid - {i..j}" .
qed

lemma remove_range_spec:
  assumes ok: "ranges_ok s" and le: "i \<le> j"
  shows "ranges_ok (remove_range i j s) \<and> members (remove_range i j s) = members s - {i..j}"
proof -
  obtain pre mid post where s: "s = pre @ mid @ post"
    and rem: "remove_range i j s =
       (if mid = [] then s
        else pre @ (if fst (hd mid) < i then [(fst (hd mid), sub32 i 1)] else [])
                 @ (if snd (last mid) > j then [(add32 j 1, snd (last mid))] else []) @ post)"
    and side: "\<forall>r \<in> set pre. snd r < i" "\<forall>r \<in> set mid. i \<le> snd r \<and> fst r \<le> j"
      "\<forall>r \<in> set post. j < fst r"
    by (rule remove_range_shape [OF ok le])
  have oks: "ranges_ok pre" "ranges_ok mid" "ranges_ok post"
    and cross: "\<forall>r \<in> set pre. \<forall>q \<in> set mid \<union> set post. snd r + 1 < fst q"
      "\<forall>r \<in> set mid. \<forall>q \<in> set post. snd r + 1 < fst q"
    using ok s by (auto simp: ranges_ok_append)
  have outer: "members pre \<inter> {i..j} = {}" "members post \<inter> {i..j} = {}"
    using side(1,3) by (fastforce simp: members_def)+
  show ?thesis
  proof (cases "mid = []")
    case True
    then show ?thesis using ok rem s outer by auto
  next
    case False
    define pieces where "pieces = (if fst (hd mid) < i then [(fst (hd mid), sub32 i 1)] else [])
                 @ (if snd (last mid) > j then [(add32 j 1, snd (last mid))] else [])"
    note pcs = remove_pieces [OF oks(2) False side(2) le, folded pieces_def]
    have eq: "remove_range i j s = pre @ pieces @ post" using rem False by (simp add: pieces_def)
    have in_mid: "hd mid \<in> set mid" "last mid \<in> set mid" using False by auto
    have lo: "\<forall>r \<in> set pre. \<forall>q \<in> set pieces. snd r + 1 < fst q"
      using cross(1) pcs(3) in_mid by (meson UnI1 order_less_le_trans)
    have hi: "\<forall>r \<in> set pieces. \<forall>q \<in> set post. snd r + 1 < fst q"
      using cross(2) pcs(3) in_mid by (meson add_le_mono1 order_le_less_trans)
    show ?thesis unfolding eq using oks cross pcs(1,2) lo hi outer s
      by (auto simp: ranges_ok_append)
  qed
qed

lemma remove_range_ok [idx_simps]: "ranges_ok s \<Longrightarrow> ranges_ok (remove_range i j s)"
  using remove_range_spec [of s i j] by (cases "i \<le> j") (auto simp: remove_range_def)

lemma remove_range_members [idx_simps]:
  "ranges_ok s \<Longrightarrow> members (remove_range i j s) = members s - {i..j}"
  using remove_range_spec [of s i j] by (cases "i \<le> j") (auto simp: remove_range_def)

section \<open>Counting, iteration and canonicity\<close>

lemma members_disjoint_Cons: "ranges_ok (r # s) \<Longrightarrow> {fst r..snd r} \<inter> members s = {}"
  by (fastforce simp: ranges_ok_Cons members_def)

lemma set_len_card [idx_simps]: "ranges_ok s \<Longrightarrow> set_len s = card (members s)"
proof (induction s)
  case Nil
  then show ?case by (simp add: set_len_def)
next
  case (Cons r s)
  have "card (members (r # s)) = card {fst r..snd r} + card (members s)"
    using members_disjoint_Cons [OF Cons.prems] by (simp add: card_Un_disjoint)
  then show ?case using Cons by (auto simp: set_len_def case_prod_beta ranges_ok_Cons)
qed

lemma set_len_simps [simp]:
  "set_len [] = 0"
  "set_len (r # s) = snd r - fst r + 1 + set_len s"
  "set_len (s @ t) = set_len s + set_len t"
  by (auto simp: set_len_def case_prod_beta)

lemma set_len_bound: "ranges_ok s \<Longrightarrow> set_len s \<le> u32_max + 1"
proof -
  assume ok: "ranges_ok s"
  have "card (members s) \<le> card {0..u32_max}"
    by (rule card_mono) (auto dest: members_bound [OF ok])
  then show ?thesis using set_len_card [OF ok] by simp
qed

lemma set_iter_set: "set (set_iter s) = members s"
  by (induction s) (auto simp: set_iter_def case_prod_beta)

lemma set_iter_sorted: "ranges_ok s \<Longrightarrow> sorted_wrt (<) (set_iter s)"
proof (induction s)
  case Nil
  then show ?case by (simp add: set_iter_def)
next
  case (Cons r s)
  have "set_iter (r # s) = [fst r..<snd r + 1] @ set_iter s"
    by (simp add: set_iter_def case_prod_beta)
  moreover have "\<forall>x \<in> set [fst r..<snd r + 1]. \<forall>y \<in> members s. x < y"
    using Cons.prems by (fastforce simp: ranges_ok_Cons members_def)
  ultimately show ?case
    using Cons by (simp add: sorted_wrt_append ranges_ok_Cons set_iter_set)
qed

lemma first_of_Min: "ranges_ok s \<Longrightarrow> s \<noteq> [] \<Longrightarrow> first_of s = Some (Min (members s))"
proof -
  assume ok: "ranges_ok s" and ne: "s \<noteq> []"
  note span = members_span [OF ok ne]
  have "Min (members s) = fst (hd s)"
    by (rule Min_eqI) (use span in \<open>auto dest: subsetD\<close>)
  then show ?thesis using ne by (simp add: first_of_def get_at_def hd_conv_nth)
qed

lemma ranges_ok_head_unique:
  assumes ok: "ranges_ok (r # s)" "ranges_ok (q # t)" and eq: "members (r # s) = members (q # t)"
  shows "fst r = fst q" "snd r \<le> snd q"
proof -
  have "fst r \<in> members (q # t)" "fst q \<in> members (r # s)"
    using eq members_span(1) [OF ok(1)] members_span(1) [OF ok(2)] by auto
  then show same: "fst r = fst q"
    using members_span(3) [OF ok(1)] members_span(3) [OF ok(2)] by force
  show "snd r \<le> snd q"
  proof (rule ccontr)
    assume "\<not> snd r \<le> snd q"
    then have "snd q + 1 \<in> {fst r..snd r}"
      using same ok(2) by (auto simp: ranges_ok_Cons)
    then have "snd q + 1 \<in> members (r # s)" by simp
    then have "snd q + 1 \<in> members (q # t)" unfolding eq .
    then show False using members_gap [OF ok(2), of q] by simp
  qed
qed

lemma ranges_canonical: "ranges_ok s \<Longrightarrow> ranges_ok t \<Longrightarrow> members s = members t \<Longrightarrow> s = t"
proof (induction s arbitrary: t)
  case Nil
  then show ?case using members_empty_iff [of t] by simp
next
  case (Cons r s)
  then obtain q t' where t: "t = q # t'"
    using members_empty_iff [of "r # s"] by (cases t) auto
  have okt: "ranges_ok (q # t')" and eq: "members (r # s) = members (q # t')"
    using Cons.prems t by auto
  have rq: "r = q"
    using ranges_ok_head_unique [OF Cons.prems(1) okt eq]
      ranges_ok_head_unique [OF okt Cons.prems(1) eq [symmetric]] by (simp add: prod_eq_iff)
  have "members s = members (r # s) - {fst r..snd r}"
    using members_disjoint_Cons [OF Cons.prems(1)] by auto
  also have "\<dots> = members t'"
    using members_disjoint_Cons [OF okt] unfolding eq by (auto simp: rq)
  finally have "members s = members t'" .
  with rq show ?case using Cons t by (simp add: ranges_ok_Cons)
qed

section \<open>Union, single elements and the smallest members\<close>

lemma extend_from_spec:
  assumes "ranges_ok s" and "ranges_ok t"
  shows "ranges_ok (extend_from s t) \<and> members (extend_from s t) = members s \<union> members t"
  using assms
proof (induction t arbitrary: s)
  case Nil
  then show ?case by (simp add: extend_from_def)
next
  case (Cons r t)
  have "ranges_ok (insert_range (fst r) (snd r) s)"
    using Cons.prems by (auto intro: insert_range_ok simp: ranges_ok_Cons)
  then show ?case
    using Cons insert_range_members [OF Cons.prems(1)]
    by (auto simp: extend_from_def case_prod_beta ranges_ok_Cons)
qed

lemma extend_from_ok [idx_simps]:
  "ranges_ok s \<Longrightarrow> ranges_ok t \<Longrightarrow> ranges_ok (extend_from s t)"
  by (simp add: extend_from_spec)

lemma extend_from_members [idx_simps]:
  "ranges_ok s \<Longrightarrow> ranges_ok t \<Longrightarrow> members (extend_from s t) = members s \<union> members t"
  by (simp add: extend_from_spec)

lemma insert_index_spec:
  assumes "ranges_ok s" and "i \<le> u32_max"
  shows "ranges_ok (snd (insert_index i s))"
    and "members (snd (insert_index i s)) = insert i (members s)"
    and "fst (insert_index i s) \<longleftrightarrow> i \<notin> members s"
  using assms by (auto simp: insert_index_def idx_simps)

lemma remove_index_spec:
  assumes "ranges_ok s"
  shows "ranges_ok (snd (remove_index i s))"
    and "members (snd (remove_index i s)) = members s - {i}"
    and "fst (remove_index i s) \<longleftrightarrow> i \<in> members s"
  using assms by (auto simp: remove_index_def idx_simps)

lemma from_range_spec:
  assumes "j \<le> u32_max"
  shows "ranges_ok (from_range i j)" and "members (from_range i j) = {i..j}"
  using assms by (auto simp: from_range_def set_new_def idx_simps)

lemma count_whole_spec:
  "count_whole n k s = (n', k') \<Longrightarrow>
     \<exists>m \<le> length s. k' = k + m \<and> n = n' + set_len (take m s) \<and>
       (\<forall>r rest. drop m s = r # rest \<longrightarrow> n' < snd r - fst r + 1)"
proof (induction n k s rule: count_whole.induct)
  case (1 n k)
  then show ?case by simp
next
  case (2 n k a b s)
  show ?case
  proof (cases "n < b - a + 1")
    case True
    then show ?thesis using 2(2) by (intro exI [of _ 0]) (simp add: Let_def)
  next
    case False
    then obtain m where "m \<le> length s" "k' = k + 1 + m" "n - (b - a + 1) = n' + set_len (take m s)"
      "\<forall>r rest. drop m s = r # rest \<longrightarrow> n' < snd r - fst r + 1"
      using 2(1) [OF refl] 2(2) by (auto simp: Let_def)
    then show ?thesis using False by (intro exI [of _ "Suc m"]) auto
  qed
qed

lemma ranges_ok_take_drop:
  assumes "ranges_ok s"
  shows "ranges_ok (take n s)" "ranges_ok (drop n s)"
    "members s = members (take n s) \<union> members (drop n s)"
    "\<forall>r \<in> set (take n s). \<forall>q \<in> set (drop n s). snd r + 1 < fst q"
proof -
  have s: "s = take n s @ drop n s" by simp
  show "ranges_ok (take n s)" "ranges_ok (drop n s)"
    "\<forall>r \<in> set (take n s). \<forall>q \<in> set (drop n s). snd r + 1 < fst q"
    using assms s by (metis ranges_ok_append)+
  show "members s = members (take n s) \<union> members (drop n s)"
    using s by (metis members_simps(3))
qed

lemma ranges_apart:
  "\<forall>r \<in> set s. \<forall>q \<in> set t. snd r + 1 < fst q \<Longrightarrow> x \<in> members s \<Longrightarrow> y \<in> members t \<Longrightarrow> x < y"
  by (fastforce simp: members_def)

lemma take_first_spec:
  assumes ok: "ranges_ok s" and tf: "take_first n s = (t, u)"
  shows "ranges_ok t \<and> ranges_ok u \<and> members t \<union> members u = members s \<and>
    (\<forall>x \<in> members t. \<forall>y \<in> members u. x < y) \<and> set_len t = min n (set_len s)"
proof -
  obtain n' k' where cw: "count_whole n 0 s = (n', k')" by force
  then have k: "k' \<le> length s" and n: "n = n' + set_len (take k' s)"
    and head: "\<And>r rest. drop k' s = r # rest \<Longrightarrow> n' < snd r - fst r + 1"
    using count_whole_spec [of n 0 s n' k'] by auto
  note td = ranges_ok_take_drop [OF ok, of k']
  have len: "set_len s = set_len (take k' s) + set_len (drop k' s)"
    by (metis append_take_drop_id set_len_simps(3))
  show ?thesis
  proof (cases "drop k' s")
    case Nil
    then have "take k' s = s" using k by (simp add: nle_le)
    moreover have "t = take k' s" "u = []" using tf cw Nil by (auto simp: take_first_def)
    ultimately show ?thesis using ok n by simp
  next
    case (Cons r rest)
    have okr: "ranges_ok (r # rest)" using td(2) Cons by simp
    note h = head [OF Cons]
    show ?thesis
    proof (cases "n' = 0")
      case True
      then have "t = take k' s" "u = r # rest" using tf cw Cons by (auto simp: take_first_def)
      then show ?thesis using td n len Cons True ranges_apart [OF td(4)] by auto
    next
      case False
      define cut where "cut = fst r + n' - 1"
      have r: "fst r \<le> snd r" "snd r \<le> u32_max" "\<forall>q \<in> set rest. snd r + 1 < fst q" "ranges_ok rest"
        using okr by (auto simp: ranges_ok_Cons)
      have cut: "fst r \<le> cut" "cut < snd r" "cut + 1 = fst r + n'"
        using h False r by (auto simp: cut_def)
      have "add32 cut 1 = cut + 1" using cut r by (intro add32_exact) simp
      moreover have "as_u32 n' = n'" "add32 (fst r) n' = fst r + n'" "sub32 (fst r + n') 1 = cut"
        using h False r by (auto simp: cut_def intro!: as_u32_exact add32_exact sub32_exact)
      ultimately have width: "as_u32 n' = n'" "add32 (fst r) n' = fst r + n'"
        "sub32 (fst r + n') 1 = cut" "add32 cut 1 = cut + 1" by auto
      have tu: "t = take k' s @ [(fst r, cut)]" "u = (cut + 1, snd r) # rest"
        using tf cw Cons False width by (auto simp: take_first_def Let_def)
      have apart: "\<forall>q \<in> set (take k' s). snd q + 1 < fst r"
        "\<forall>q \<in> set (take k' s). \<forall>q' \<in> set rest. snd q + 1 < fst q'"
        using td(4) Cons by auto
      have "ranges_ok t" using td(1) apart r cut by (auto simp: tu ranges_ok_append ranges_ok_Cons)
      moreover have "ranges_ok u" using r cut by (auto simp: tu ranges_ok_Cons)
      moreover have "{fst r..snd r} = {fst r..cut} \<union> {cut + 1..snd r}" using cut by auto
      then have "members t \<union> members u = members s" using td(3) Cons by (auto simp: tu)
      moreover have "\<forall>x \<in> members t. \<forall>y \<in> members u. x < y"
        using apart cut r by (fastforce simp: tu members_def)
      moreover have "set_len t = min n (set_len s)"
        using n len Cons cut r by (simp add: tu)
      ultimately show ?thesis by blast
    qed
  qed
qed

section \<open>Serialised form\<close>

lemma last_bounds_all:
  assumes "ranges_ok s"
  shows "(\<forall>r \<in> set s. snd r + 1 < f) \<longleftrightarrow> s = [] \<or> snd (last s) + 1 < f"
proof (cases s rule: rev_cases)
  case (snoc t r)
  then have "\<forall>q \<in> set t. snd q + 1 < fst r" "fst r \<le> snd r"
    using assms by (auto simp: ranges_ok_append ranges_ok_Cons)
  then show ?thesis using snoc by fastforce
qed simp

lemma try_from_at_ok:
  assumes "ranges_ok acc" and "\<forall>r \<in> set pairs. snd r \<le> u32_max"
  shows "try_from_at pos acc pairs = Inr s \<longleftrightarrow> s = acc @ pairs \<and> ranges_ok (acc @ pairs)"
  using assms
proof (induction pairs arbitrary: pos acc)
  case Nil
  then show ?case by auto
next
  case (Cons r pairs)
  obtain a b where r: "r = (a, b)" by force
  have ext: "ranges_ok (acc @ [r]) \<longleftrightarrow> a \<le> b \<and> (acc = [] \<or> snd (last acc) + 1 < a)"
    using Cons.prems last_bounds_all [OF Cons.prems(1), of a]
    by (auto simp: r ranges_ok_append ranges_ok_Cons)
  have pre: "ranges_ok (acc @ r # pairs) \<Longrightarrow> ranges_ok (acc @ [r])"
    by (auto simp: ranges_ok_append ranges_ok_Cons)
  show ?case
  proof (cases "ranges_ok (acc @ [r])")
    case True
    then show ?thesis using Cons.IH [OF True, of "pos + 1"] Cons.prems ext
      by (auto simp: r not_less)
  next
    case False
    then show ?thesis using ext pre by (auto simp: r not_less)
  qed
qed

section \<open>The contract of an index set\<close>

text \<open>
  What the task array asks of a set of chunk ids: the observers and updates it calls, each
  with its meaning on an abstract set of naturals. The lemmas inside are the client's: folding
  several sets into one, and telling an overlap from the lengths alone, which is how a reopened
  snapshot is checked.
\<close>

locale index_set =
  fixes empty :: 's
    and mem :: "'s \<Rightarrow> nat \<Rightarrow> bool"
    and mem_range :: "'s \<Rightarrow> nat \<Rightarrow> nat \<Rightarrow> bool"
    and add_range :: "nat \<Rightarrow> nat \<Rightarrow> 's \<Rightarrow> 's"
    and del_range :: "nat \<Rightarrow> nat \<Rightarrow> 's \<Rightarrow> 's"
    and union :: "'s \<Rightarrow> 's \<Rightarrow> 's"
    and len :: "'s \<Rightarrow> nat"
    and elems :: "'s \<Rightarrow> nat set"
    and invar :: "'s \<Rightarrow> bool"
    and top :: nat
  assumes elems_empty: "elems empty = {}"
    and invar_empty: "invar empty"
    and elems_finite: "finite (elems s)"
    and elems_top: "invar s \<Longrightarrow> i \<in> elems s \<Longrightarrow> i \<le> top"
    and mem_elems: "invar s \<Longrightarrow> mem s i \<longleftrightarrow> i \<in> elems s"
    and mem_range_elems: "invar s \<Longrightarrow> mem_range s i j \<longleftrightarrow> {i..j} \<subseteq> elems s"
    and elems_add: "invar s \<Longrightarrow> elems (add_range i j s) = elems s \<union> {i..j}"
    and invar_add: "invar s \<Longrightarrow> j \<le> top \<Longrightarrow> invar (add_range i j s)"
    and elems_del: "invar s \<Longrightarrow> elems (del_range i j s) = elems s - {i..j}"
    and invar_del: "invar s \<Longrightarrow> invar (del_range i j s)"
    and elems_union: "invar s \<Longrightarrow> invar t \<Longrightarrow> elems (union s t) = elems s \<union> elems t"
    and invar_union: "invar s \<Longrightarrow> invar t \<Longrightarrow> invar (union s t)"
    and len_elems: "invar s \<Longrightarrow> len s = card (elems s)"
begin

lemma fold_union:
  assumes "invar s" and "\<forall>t \<in> set ts. invar t"
  shows "invar (fold (\<lambda>t acc. union acc t) ts s)"
    and "elems (fold (\<lambda>t acc. union acc t) ts s) = elems s \<union> (\<Union>t \<in> set ts. elems t)"
  using assms by (induction ts arbitrary: s) (auto simp: invar_union elems_union)

lemma len_union_disjoint:
  assumes "invar s" and "invar t"
  shows "len (union s t) = len s + len t \<longleftrightarrow> elems s \<inter> elems t = {}"
proof -
  have "card (elems s) + card (elems t) = card (elems s \<union> elems t) + card (elems s \<inter> elems t)"
    by (rule card_Un_Int) (simp_all add: elems_finite)
  then show ?thesis
    using assms by (simp add: len_elems invar_union elems_union elems_finite)
qed

lemma len_union_le: "invar s \<Longrightarrow> invar t \<Longrightarrow> len (union s t) \<le> len s + len t"
  by (simp add: len_elems invar_union elems_union card_Un_le)

lemma len_fold_disjoint:
  assumes "invar s" and "\<forall>t \<in> set ts. invar t"
  shows "len (fold (\<lambda>t acc. union acc t) ts s) = len s + sum_list (map len ts) \<longleftrightarrow>
    sorted_wrt (\<lambda>t u. elems t \<inter> elems u = {}) (s # ts)"
  using assms
proof (induction ts arbitrary: s)
  case Nil
  then show ?case by simp
next
  case (Cons t ts)
  have inv: "invar (union s t)" using Cons.prems by (simp add: invar_union)
  have le: "len (fold (\<lambda>t acc. union acc t) ts (union s t)) \<le> len (union s t) + sum_list (map len ts)"
    using inv Cons.prems(2)
  proof (induction ts arbitrary: s t)
    case Nil
    then show ?case by simp
  next
    case (Cons u ts)
    have "len (fold (\<lambda>t acc. union acc t) ts (union (union s t) u)) \<le>
        len (union (union s t) u) + sum_list (map len ts)"
      by (rule Cons.IH) (use Cons.prems in \<open>auto simp: invar_union\<close>)
    then show ?case using len_union_le [of "union s t" u] Cons.prems by simp
  qed
  have el: "elems (union s t) = elems s \<union> elems t" using Cons.prems by (simp add: elems_union)
  have "len (fold (\<lambda>t acc. union acc t) (t # ts) s) = len s + sum_list (map len (t # ts)) \<longleftrightarrow>
      len (union s t) = len s + len t \<and>
      len (fold (\<lambda>t acc. union acc t) ts (union s t)) = len (union s t) + sum_list (map len ts)"
    using le len_union_le [of s t] Cons.prems by auto
  also have "\<dots> \<longleftrightarrow> elems s \<inter> elems t = {} \<and>
      sorted_wrt (\<lambda>t u. elems t \<inter> elems u = {}) (union s t # ts)"
    using len_union_disjoint [of s t] Cons.IH [OF inv] Cons.prems by auto
  also have "\<dots> \<longleftrightarrow> sorted_wrt (\<lambda>t u. elems t \<inter> elems u = {}) (s # t # ts)"
    by (auto simp: el)
  finally show ?case .
qed

end

interpretation ranges: index_set set_new contains contains_range insert_range remove_range
  extend_from set_len members ranges_ok u32_max
  by unfold_locales
    (auto simp: set_new_def contains_members contains_range_members insert_range_members
      insert_range_ok remove_range_members remove_range_ok extend_from_ok extend_from_members
      set_len_card dest: members_bound)

section \<open>Properties\<close>

text \<open>
  \<open>insert_range\<close> keeps the set sorted, disjoint and non-adjacent and adds exactly the
  indices of the range, merging with every range it overlaps or touches.
\<close>

lemma insert_range_correct:
  assumes "ranges_ok s" and "last_index \<le> u32_max"
  shows "ranges_ok (insert_range first last_index s) \<and>
    members (insert_range first last_index s) = members s \<union> {first..last_index}"
  using assms by (simp add: insert_range_ok insert_range_members)


text \<open>
  \<open>remove_range\<close> keeps the invariant and removes exactly the indices of the range; the
  pieces it leaves at either end neither wrap nor touch.
\<close>

lemma remove_range_correct:
  assumes "ranges_ok s"
  shows "ranges_ok (remove_range first last_index s) \<and>
    members (remove_range first last_index s) = members s - {first..last_index}"
  using assms by (simp add: remove_range_ok remove_range_members)


text \<open>
  \<open>take_first\<close> hands out the smallest members: the taken set and the rest are well formed,
  together they are the old set, everything taken is below everything left, and exactly
  \<open>count\<close> members are taken (all of them if there are fewer).
\<close>

lemma take_first_smallest:
  assumes "ranges_ok s" and "take_first wanted s = (taken, left)"
  shows "ranges_ok taken \<and> ranges_ok left \<and> members taken \<union> members left = members s \<and>
    (\<forall>x \<in> members taken. \<forall>y \<in> members left. x < y) \<and>
    card (members taken) = min wanted (card (members s))"
  using take_first_spec [OF assms] assms(1) by (metis set_len_card)



end
