(* ===== verification/Task_Array.thy ===== *)
theory Task_Array
  imports Index_Set
begin

text \<open>
  The shape of a task array (\<open>src/src/meat/task_array.rs\<close>): the count and policy of a
  submission, its validation, and the arithmetic that groups task indices into chunks. The
  theory shows that the chunks of a validated array partition its indices, with no wrap-around
  in the \<open>u32\<close> arithmetic.
\<close>

section \<open>Limits\<close>

definition MAX_TASK_COUNT :: nat where "MAX_TASK_COUNT = 2 ^ 24"
definition MAX_CHUNK_SIZE :: nat where "MAX_CHUNK_SIZE = 2 ^ 16"
definition MAX_CHUNKS :: nat where "MAX_CHUNKS = 2 ^ 16"
definition DEFAULT_CHUNK_SIZE :: nat where "DEFAULT_CHUNK_SIZE = 1024"
definition MAX_ATTEMPTS :: nat where "MAX_ATTEMPTS = 10"
definition DEFAULT_MAX_ATTEMPTS :: nat where "DEFAULT_MAX_ATTEMPTS = 3"
definition MAX_TASK_TIMEOUT_SECS :: nat where "MAX_TASK_TIMEOUT_SECS = 86400"
definition DEFAULT_TASK_TIMEOUT_SECS :: nat where "DEFAULT_TASK_TIMEOUT_SECS = 600"

lemmas task_array_limits = MAX_TASK_COUNT_def MAX_CHUNK_SIZE_def MAX_CHUNKS_def
  DEFAULT_CHUNK_SIZE_def MAX_ATTEMPTS_def DEFAULT_MAX_ATTEMPTS_def MAX_TASK_TIMEOUT_SECS_def
  DEFAULT_TASK_TIMEOUT_SECS_def

section \<open>The specification of an array\<close>

record task_array_spec =
  task_count :: nat
  chunk_size :: nat
  max_attempts :: nat
  max_failed_indexes :: "nat option"
  task_timeout_secs :: nat
  per_node_concurrency :: "nat option"

datatype template_fault =
    ProcessWithImage
  | ProcessNeedsOneCommand
  | ContainerNeedsImage
  | ContainerWithHostCommand
  | TemplateTooLarge
  | ZeroRequest
  | HasSchedule
  | HasRunBefore
  | HasRunPolicy

datatype task_array_spec_error =
    CountOutOfRange nat
  | ChunkSizeOutOfRange nat
  | TooManyChunks nat nat nat
  | AttemptsOutOfRange nat
  | TimeoutOutOfRange nat
  | ZeroConcurrency
  | UnsupportedTemplate
  | TemplateField template_fault

definition with_count :: "nat \<Rightarrow> task_array_spec" where
  "with_count n =
     \<lparr>task_count = n, chunk_size = DEFAULT_CHUNK_SIZE, max_attempts = DEFAULT_MAX_ATTEMPTS,
      max_failed_indexes = None, task_timeout_secs = DEFAULT_TASK_TIMEOUT_SECS,
      per_node_concurrency = None\<rparr>"

definition chunk_count :: "task_array_spec \<Rightarrow> nat" where
  "chunk_count spec = div_ceil (task_count spec) (max (chunk_size spec) 1)"

definition validate :: "task_array_spec \<Rightarrow> task_array_spec_error + unit" where
  "validate spec =
     (if task_count spec = 0 \<or> task_count spec > MAX_TASK_COUNT
      then Inl (CountOutOfRange (task_count spec))
      else if chunk_size spec = 0 \<or> chunk_size spec > MAX_CHUNK_SIZE
      then Inl (ChunkSizeOutOfRange (chunk_size spec))
      else let chunks = chunk_count spec
      in if chunks > MAX_CHUNKS
      then Inl (TooManyChunks (task_count spec) (chunk_size spec) chunks)
      else if max_attempts spec = 0 \<or> max_attempts spec > MAX_ATTEMPTS
      then Inl (AttemptsOutOfRange (max_attempts spec))
      else if task_timeout_secs spec > MAX_TASK_TIMEOUT_SECS
      then Inl (TimeoutOutOfRange (task_timeout_secs spec))
      else if per_node_concurrency spec = Some 0 then Inl ZeroConcurrency
      else Inr ())"

text \<open>The indices of a chunk, as the pair of its inclusive bounds.\<close>

definition chunk_range :: "task_array_spec \<Rightarrow> nat \<Rightarrow> (nat \<times> nat) option" where
  "chunk_range spec chunk =
     (if chunk \<ge> chunk_count spec then None
      else let first = mul32 chunk (chunk_size spec);
               final = min (sat_add32 first (sub32 (chunk_size spec) 1)) (sub32 (task_count spec) 1)
           in Some (first, final))"

definition chunk_of :: "task_array_spec \<Rightarrow> nat \<Rightarrow> nat option" where
  "chunk_of spec index =
     (if index \<ge> task_count spec \<or> chunk_size spec = 0 then None
      else Some (index div chunk_size spec))"

section \<open>Chunk arithmetic\<close>

lemma validate_bounds:
  assumes "validate spec = Inr ()"
  shows "0 < task_count spec" "task_count spec \<le> 16777216" "0 < chunk_size spec"
    "chunk_size spec \<le> 65536" "chunk_count spec \<le> 65536"
  using assms by (auto simp: validate_def task_array_limits Let_def split: if_splits)

lemma less_chunk_count:
  assumes "validate spec = Inr ()"
  shows "chunk < chunk_count spec \<longleftrightarrow> chunk * chunk_size spec < task_count spec"
proof -
  have "max (chunk_size spec) 1 = chunk_size spec" using validate_bounds(3) [OF assms] by simp
  then show ?thesis
    using less_div_ceil_iff [OF validate_bounds(3) [OF assms]] by (simp add: chunk_count_def)
qed

lemma chunk_count_pos: "validate spec = Inr () \<Longrightarrow> 0 < chunk_count spec"
  by (simp add: less_chunk_count validate_bounds)

lemma chunk_range_exact:
  assumes "validate spec = Inr ()"
  shows "chunk_range spec chunk =
    (if chunk < chunk_count spec
     then Some (chunk * chunk_size spec,
                min (chunk * chunk_size spec + chunk_size spec - 1) (task_count spec - 1))
     else None)"
proof (cases "chunk < chunk_count spec")
  case True
  note b = validate_bounds [OF assms]
  have lt: "chunk * chunk_size spec < task_count spec" using True less_chunk_count [OF assms] by simp
  have "mul32 chunk (chunk_size spec) = chunk * chunk_size spec"
    using lt b by (intro mul32_exact) simp
  moreover have "sub32 (chunk_size spec) 1 = chunk_size spec - 1"
    "sub32 (task_count spec) 1 = task_count spec - 1"
    using b by (auto intro!: sub32_exact)
  ultimately show ?thesis
    using True b lt by (simp add: chunk_range_def sat_add32_def Let_def)
qed (simp add: chunk_range_def)

lemma chunk_range_bounds:
  assumes "validate spec = Inr ()" and "chunk_range spec chunk = Some (a, b)"
  shows "a \<le> b" "b < task_count spec" "b - a + 1 \<le> chunk_size spec" "chunk < chunk_count spec"
  using assms validate_bounds [OF assms(1)] less_chunk_count [OF assms(1), of chunk]
  by (auto simp: chunk_range_exact split: if_splits)

lemma chunk_of_iff_range:
  assumes v: "validate spec = Inr ()"
  shows "chunk_of spec i = Some c \<longleftrightarrow> (\<exists>a b. chunk_range spec c = Some (a, b) \<and> a \<le> i \<and> i \<le> b)"
proof -
  note b = validate_bounds [OF v]
  have "i < task_count spec \<and> i div chunk_size spec = c \<longleftrightarrow>
      c * chunk_size spec < task_count spec \<and> c * chunk_size spec \<le> i \<and>
      i \<le> min (c * chunk_size spec + chunk_size spec - 1) (task_count spec - 1)" (is "?l \<longleftrightarrow> ?r")
  proof
    assume ?l
    then have "c * chunk_size spec \<le> i" "i < c * chunk_size spec + chunk_size spec"
      using b(3) by (auto simp: dividend_less_div_times add.commute)
    with \<open>?l\<close> show ?r by auto
  next
    assume r: ?r
    then have "i div chunk_size spec = c"
      using b(3) by (intro div_nat_eqI) (auto simp: mult.commute)
    with r b show ?l by auto
  qed
  then show ?thesis
    using b less_chunk_count [OF v, of c] by (auto simp: chunk_of_def chunk_range_exact [OF v])
qed

text \<open>Every chunk is full, except possibly the last one.\<close>

lemma chunk_range_full:
  assumes v: "validate spec = Inr ()" and c: "chunk_range spec c = Some (a, b)"
    and notlast: "c \<noteq> chunk_count spec - 1"
  shows "b - a + 1 = chunk_size spec"
proof -
  note bd = validate_bounds [OF v]
  have "c + 1 < chunk_count spec"
    using chunk_range_bounds(4) [OF v c] notlast chunk_count_pos [OF v] by linarith
  then have "(c + 1) * chunk_size spec < task_count spec" using less_chunk_count [OF v] by blast
  then show ?thesis using c bd by (auto simp: chunk_range_exact [OF v] split: if_splits)
qed

section \<open>Properties\<close>

text \<open>
  C29: the chunks of a validated array partition its task indices: every chunk id below the
  chunk count names a non-empty range inside the array, an index belongs to exactly the
  chunk \<open>chunk_of\<close> returns, and an index has a chunk exactly when it is below the count.
\<close>

theorem chunks_partition_tasks:
  assumes "validate spec = Inr ()"
  shows "(\<forall>c a b. chunk_range spec c = Some (a, b) \<longrightarrow> a \<le> b \<and> b < task_count spec) \<and>
    (\<forall>i c. chunk_of spec i = Some c \<longleftrightarrow>
       (\<exists>a b. chunk_range spec c = Some (a, b) \<and> a \<le> i \<and> i \<le> b)) \<and>
    (\<forall>i. (\<exists>c. chunk_of spec i = Some c) \<longleftrightarrow> i < task_count spec) \<and>
    (\<forall>c. chunk_range spec c \<noteq> None \<longleftrightarrow> c < chunk_count spec)"
proof (intro conjI allI)
  show "chunk_range spec c = Some (a, b) \<longrightarrow> a \<le> b \<and> b < task_count spec" for c a b
    using chunk_range_bounds [OF assms] by blast
  show "chunk_of spec i = Some c \<longleftrightarrow>
      (\<exists>a b. chunk_range spec c = Some (a, b) \<and> a \<le> i \<and> i \<le> b)" for i c
    by (rule chunk_of_iff_range [OF assms])
  show "(\<exists>c. chunk_of spec i = Some c) \<longleftrightarrow> i < task_count spec" for i
    using validate_bounds(3) [OF assms] by (simp add: chunk_of_def)
  show "chunk_range spec c \<noteq> None \<longleftrightarrow> c < chunk_count spec" for c
    by (simp add: chunk_range_exact [OF assms])
qed

theorem chunks_partition_tasks_witness:
  "validate (with_count 2500) = Inr () \<and> chunk_range (with_count 2500) 2 = Some (2048, 2499) \<and>
   chunk_of (with_count 2500) 2300 = Some 2"
proof -
  have v: "validate (with_count 2500) = Inr ()"
    by (simp add: validate_def with_count_def chunk_count_def div_ceil_def task_array_limits)
  have r: "chunk_range (with_count 2500) 2 = Some (2048, 2499)"
    by (simp add: chunk_range_def with_count_def chunk_count_def div_ceil_def task_array_limits
        mul32_def sat_add32_def sub32_def)
  have "chunk_of (with_count 2500) 2300 = Some 2"
    using chunks_partition_tasks [OF v] r by simp
  then show ?thesis using v r by simp
qed

end
