(* ===== verification/Task_Array_State.thy ===== *)
theory Task_Array_State
  imports Task_Array
begin

text \<open>
  The leader's view of one task array (\<open>src/src/meat/task_array_state.rs\<close>): which chunks are
  queued, which node holds which, what the finished ones produced, and the operations the
  replicated log applies to it. The type \<open>task_array_state\<close> has the fields of the Rust struct,
  each operation is one definition with the code's guards in the code's order, and an early
  return is an \<open>Inl\<close> value. \<open>u64\<close> counters use the wrapping \<open>add64\<close> of the release build.
\<close>

section \<open>Bounds and data\<close>

definition MAX_FAILED_RANGES :: nat where "MAX_FAILED_RANGES = 10000"
definition MAX_CHUNK_FAILED_RANGES :: nat where "MAX_CHUNK_FAILED_RANGES = 256"
definition MAX_ACCEPTED_RANGES :: nat where "MAX_ACCEPTED_RANGES = 4096"
definition RECENT_DURATION_SAMPLES :: nat where "RECENT_DURATION_SAMPLES = 4096"

datatype stop_reason = StopCancelled | StopTooManyFailures | StopUnrunnable

datatype task_array_status =
  Running | Stopping | Succeeded | CompletedWithFailures | Failed | Cancelled

definition is_terminal :: "task_array_status \<Rightarrow> bool" where
  "is_terminal st \<longleftrightarrow> \<not> (st = Running \<or> st = Stopping)"

record retry_causes =
  rc_exit_code :: nat
  rc_signal :: nat
  rc_timeout :: nat
  rc_unknown :: nat
  rc_launch :: nat
  rc_unrecorded :: nat

definition retry_causes_default :: retry_causes where
  "retry_causes_default = \<lparr>rc_exit_code = 0, rc_signal = 0, rc_timeout = 0, rc_unknown = 0,
     rc_launch = 0, rc_unrecorded = 0\<rparr>"

definition rc_total :: "retry_causes \<Rightarrow> nat option" where
  "rc_total c = foldl (\<lambda>acc n. Option.bind acc (\<lambda>a. checked_add64 a n)) (Some (rc_exit_code c))
     [rc_signal c, rc_timeout c, rc_unknown c, rc_launch c, rc_unrecorded c]"

definition rc_add :: "retry_causes \<Rightarrow> retry_causes \<Rightarrow> retry_causes" where
  "rc_add self other =
     \<lparr>rc_exit_code = sat_add64 (rc_exit_code self) (rc_exit_code other),
      rc_signal = sat_add64 (rc_signal self) (rc_signal other),
      rc_timeout = sat_add64 (rc_timeout self) (rc_timeout other),
      rc_unknown = sat_add64 (rc_unknown self) (rc_unknown other),
      rc_launch = sat_add64 (rc_launch self) (rc_launch other),
      rc_unrecorded = sat_add64 (rc_unrecorded self) (rc_unrecorded other)\<rparr>"

record chunk_result =
  cr_duration_counts :: "nat list"
  cr_chunk :: nat
  cr_attempt :: nat
  cr_succeeded :: nat
  cr_failed_count :: nat
  cr_failed_indices :: index_range_set
  cr_not_run :: nat
  cr_retried :: nat
  cr_retry_causes :: retry_causes

record accepted_grant =
  ag_owner :: "string option"
  ag_attempt :: nat

datatype completion_outcome = Applied | Duplicate

datatype task_array_error =
    UnknownChunk nat
  | NotQueued nat
  | NotHeld nat string
  | StaleAttempt nat nat nat
  | CountMismatch nat nat nat
  | IndexOutsideChunk nat
  | FailurePreviewTooLarge nat
  | Stopped
  | InvalidOwner
  | RetryCauseMismatch nat nat nat

record task_array_state =
  ta_spec :: task_array_spec
  ta_submitted_at :: nat
  ta_queued :: index_range_set
  ta_grants :: "(string \<times> index_range_set) list"
  ta_attempts :: "(nat \<times> nat) list"
  ta_done :: index_range_set
  ta_accepted :: "(string \<times> (nat \<times> index_range_set) list) list"
  ta_accepted_folded :: "(nat \<times> index_range_set) list"
  ta_failed_indices :: index_range_set
  ta_failed_overflow :: nat
  ta_succeeded :: nat
  ta_failed :: nat
  ta_not_run :: nat
  ta_retried :: nat
  ta_retry_causes :: retry_causes
  ta_stopped :: "stop_reason option"
  ta_duration_counts :: "nat list"
  ta_recent_duration_counts :: "nat list"

record task_array_summary =
  sm_total :: nat
  sm_succeeded :: nat
  sm_failed :: nat
  sm_not_run :: nat
  sm_retried :: nat
  sm_retry_causes :: retry_causes
  sm_queued :: nat
  sm_held :: nat
  sm_chunks_done :: nat
  sm_status :: task_array_status

text \<open>
  A node name is a UTF-8 byte string. \<open>char::is_control\<close> holds of U+0000 to U+001F, U+007F and
  U+0080 to U+009F; the last group is the byte \<open>0xC2\<close> followed by a byte below \<open>0xA0\<close>.
\<close>

fun has_control :: "string \<Rightarrow> bool" where
  "has_control [] = False"
| "has_control (c # cs) =
     ((of_char c :: nat) < 32 \<or> (of_char c :: nat) = 127 \<or>
      ((of_char c :: nat) = 194 \<and> cs \<noteq> [] \<and> (of_char (hd cs) :: nat) < 160) \<or> has_control cs)"

definition valid_node_id :: "string \<Rightarrow> bool" where
  "valid_node_id node \<longleftrightarrow> node \<noteq> [] \<and> length node \<le> 128 \<and> \<not> has_control node"

section \<open>Task counts of chunk sets\<close>

definition tasks_in_chunk :: "task_array_spec \<Rightarrow> nat \<Rightarrow> nat" where
  "tasks_in_chunk spec chunk =
     (case chunk_range spec chunk of None \<Rightarrow> 0 | Some (first, final) \<Rightarrow> (final - first) + 1)"

definition tasks_in :: "task_array_spec \<Rightarrow> index_range_set \<Rightarrow> nat" where
  "tasks_in spec chunks =
     (let last_chunk = chunk_count spec - 1;
          tasks = mul64 (set_len chunks) (chunk_size spec)
      in if contains chunks last_chunk
         then sub64 tasks (chunk_size spec - tasks_in_chunk spec last_chunk)
         else tasks)"

section \<open>Construction and observers\<close>

definition ta_new :: "task_array_spec \<Rightarrow> nat \<Rightarrow> task_array_spec_error + task_array_state" where
  "ta_new spec at =
     (case validate spec of
        Inl e \<Rightarrow> Inl e
      | Inr _ \<Rightarrow> Inr
          \<lparr>ta_spec = spec, ta_submitted_at = at,
           ta_queued = from_range 0 (chunk_count spec - 1),
           ta_grants = [], ta_attempts = [], ta_done = set_new, ta_accepted = [],
           ta_accepted_folded = [], ta_failed_indices = set_new, ta_failed_overflow = 0,
           ta_succeeded = 0, ta_failed = 0, ta_not_run = 0, ta_retried = 0,
           ta_retry_causes = retry_causes_default, ta_stopped = None,
           ta_duration_counts = replicate 16 0, ta_recent_duration_counts = replicate 16 0\<rparr>)"

definition held_by :: "task_array_state \<Rightarrow> string \<Rightarrow> index_range_set option" where
  "held_by s node = map_of (ta_grants s) node"

definition attempt_of :: "task_array_state \<Rightarrow> nat \<Rightarrow> nat" where
  "attempt_of s chunk = (case map_of (ta_attempts s) chunk of None \<Rightarrow> 1 | Some a \<Rightarrow> a)"

definition accepted_in :: "(nat \<times> index_range_set) list \<Rightarrow> nat \<Rightarrow> nat option" where
  "accepted_in generations chunk =
     map_option fst (find (\<lambda>(_, chunks). contains chunks chunk) generations)"

definition accepted_grant_of :: "task_array_state \<Rightarrow> nat \<Rightarrow> accepted_grant option" where
  "accepted_grant_of s chunk =
     (case find (\<lambda>(_, gens). accepted_in gens chunk \<noteq> None) (ta_accepted s) of
        Some (node, gens) \<Rightarrow>
          map_option (\<lambda>a. \<lparr>ag_owner = Some node, ag_attempt = a\<rparr>) (accepted_in gens chunk)
      | None \<Rightarrow>
          map_option (\<lambda>a. \<lparr>ag_owner = None, ag_attempt = a\<rparr>)
            (accepted_in (ta_accepted_folded s) chunk))"

definition status :: "task_array_state \<Rightarrow> task_array_status" where
  "status s =
     (let drained = (is_empty_set (ta_queued s) \<and> ta_grants s = [])
      in case ta_stopped s of
           Some reason \<Rightarrow>
             if \<not> drained then Stopping
             else (case reason of StopCancelled \<Rightarrow> Cancelled | _ \<Rightarrow> Failed)
         | None \<Rightarrow>
             if \<not> drained then Running
             else if ta_failed s = 0 then Succeeded else CompletedWithFailures)"

definition summary :: "task_array_state \<Rightarrow> task_array_summary" where
  "summary s =
     \<lparr>sm_total = task_count (ta_spec s), sm_succeeded = ta_succeeded s, sm_failed = ta_failed s,
      sm_not_run = ta_not_run s, sm_retried = ta_retried s,
      sm_retry_causes = ta_retry_causes s,
      sm_queued = tasks_in (ta_spec s) (ta_queued s),
      sm_held = foldl add64 0 (map (\<lambda>e. tasks_in (ta_spec s) (snd e)) (ta_grants s)),
      sm_chunks_done = set_len (ta_done s), sm_status = status s\<rparr>"

section \<open>Stopping, granting and taking back\<close>

definition stop :: "stop_reason \<Rightarrow> task_array_state \<Rightarrow> task_array_state" where
  "stop reason s =
     (if ta_stopped s \<noteq> None then s
      else let queued = ta_queued s
           in s\<lparr>ta_stopped := Some reason, ta_queued := set_new,
                ta_attempts := filter (\<lambda>e. \<not> contains queued (fst e)) (ta_attempts s),
                ta_not_run := add64 (ta_not_run s) (tasks_in (ta_spec s) queued),
                ta_done := extend_from (ta_done s) queued\<rparr>)"

definition cancel :: "task_array_state \<Rightarrow> task_array_state" where
  "cancel s = stop StopCancelled s"

definition refuse_unrunnable :: "task_array_state \<Rightarrow> task_array_state" where
  "refuse_unrunnable s = stop StopUnrunnable s"

definition not_queued_error :: "task_array_state \<Rightarrow> nat \<Rightarrow> task_array_error" where
  "not_queued_error s chunk =
     (if chunk \<ge> chunk_count (ta_spec s) then UnknownChunk chunk else NotQueued chunk)"

definition grant ::
  "string \<Rightarrow> index_range_set \<Rightarrow> task_array_state \<Rightarrow> task_array_error + task_array_state" where
  "grant node chunks s =
     (if \<not> valid_node_id node then Inl InvalidOwner
      else if ta_stopped s \<noteq> None then Inl Stopped
      else case find (\<lambda>(first, final). \<not> contains_range (ta_queued s) first final) chunks of
        Some (first, final) \<Rightarrow>
          Inl (not_queued_error s
            (case find (\<lambda>c. \<not> contains (ta_queued s) c) [first..<final + 1] of
               Some c \<Rightarrow> c | None \<Rightarrow> first))
      | None \<Rightarrow>
          if is_empty_set chunks then Inr s
          else Inr (s\<lparr>
            ta_queued := fold (\<lambda>(first, final) q. remove_range first final q) chunks (ta_queued s),
            ta_grants := bt_insert node
              (extend_from (case map_of (ta_grants s) node of None \<Rightarrow> set_new | Some g \<Rightarrow> g) chunks)
              (ta_grants s)\<rparr>))"

definition requeue_node :: "string \<Rightarrow> task_array_state \<Rightarrow> index_range_set \<times> task_array_state" where
  "requeue_node node s =
     (case map_of (ta_grants s) node of
        None \<Rightarrow> (set_new, s)
      | Some chunks \<Rightarrow>
          let s1 = s\<lparr>ta_grants := bt_remove node (ta_grants s)\<rparr>
          in if ta_stopped s1 \<noteq> None
             then (chunks, s1\<lparr>
               ta_not_run := add64 (ta_not_run s1) (tasks_in (ta_spec s1) chunks),
               ta_attempts := fold bt_remove (set_iter chunks) (ta_attempts s1),
               ta_done := extend_from (ta_done s1) chunks\<rparr>)
             else (chunks, s1\<lparr>
               ta_attempts := fold (\<lambda>chunk m. bt_insert chunk
                   (sat_add64 (case map_of m chunk of None \<Rightarrow> 1 | Some a \<Rightarrow> a) 1) m)
                 (set_iter chunks) (ta_attempts s1),
               ta_queued := extend_from (ta_queued s1) chunks\<rparr>))"

section \<open>Completion\<close>

definition release :: "string \<Rightarrow> nat \<Rightarrow> task_array_state \<Rightarrow> task_array_state" where
  "release node chunk s =
     (case map_of (ta_grants s) node of
        None \<Rightarrow> s
      | Some held \<Rightarrow>
          let held' = snd (remove_index chunk held)
          in if is_empty_set held' then s\<lparr>ta_grants := bt_remove node (ta_grants s)\<rparr>
             else s\<lparr>ta_grants := bt_insert node held' (ta_grants s)\<rparr>)"

definition accept_chunk :: "string \<Rightarrow> nat \<Rightarrow> nat \<Rightarrow> task_array_state \<Rightarrow> task_array_state" where
  "accept_chunk node attempt chunk s =
     (let gens = (case map_of (ta_accepted s) node of None \<Rightarrow> [] | Some g \<Rightarrow> g);
          chunks = (case map_of gens attempt of None \<Rightarrow> set_new | Some c \<Rightarrow> c)
      in s\<lparr>ta_accepted := bt_insert node
             (bt_insert attempt (snd (insert_index chunk chunks)) gens) (ta_accepted s)\<rparr>)"

definition fold_generation ::
  "nat \<times> index_range_set \<Rightarrow> (nat \<times> index_range_set) list \<Rightarrow> (nat \<times> index_range_set) list" where
  "fold_generation g folded =
     bt_insert (fst g)
       (extend_from (case map_of folded (fst g) of None \<Rightarrow> set_new | Some c \<Rightarrow> c) (snd g)) folded"

definition fold_accepted_when_full :: "task_array_state \<Rightarrow> task_array_state" where
  "fold_accepted_when_full s =
     (if sum_list (map range_count (map snd (concat (map snd (ta_accepted s))))) \<le> MAX_ACCEPTED_RANGES
      then s
      else s\<lparr>ta_accepted := [],
             ta_accepted_folded :=
               fold (\<lambda>(_, gens) folded. fold fold_generation gens folded)
                 (ta_accepted s) (ta_accepted_folded s)\<rparr>)"

definition sum64 :: "nat list \<Rightarrow> nat" where
  "sum64 xs = foldl add64 0 xs"

lemma sum64_eq: "sum64 xs = sum_list xs mod 18446744073709551616"
proof -
  have "foldl add64 (a mod 18446744073709551616) xs = (a + sum_list xs) mod 18446744073709551616" for a
    by (induction xs arbitrary: a) (simp_all add: add64_def mod_simps add.assoc)
  from this [of 0] show ?thesis by (simp add: sum64_def)
qed

lemma sum_halves_le: "sum_list (map (\<lambda>c. c div 2) xs) \<le> sum_list (xs :: nat list)"
  by (induction xs) auto

lemma sum_halves_less: "0 < sum_list (xs :: nat list) \<Longrightarrow> sum_list (map (\<lambda>c. c div 2) xs) < sum_list xs"
proof (induction xs)
  case (Cons x xs)
  show ?case using Cons sum_halves_le [of xs] by (cases "x = 0") auto
qed simp

function decay_recent :: "nat list \<Rightarrow> nat list" where
  "decay_recent recent =
     (if sum64 recent > RECENT_DURATION_SAMPLES then decay_recent (map (\<lambda>c. c div 2) recent)
      else recent)"
  by pat_completeness auto
termination
proof (relation "measure sum_list")
  fix recent :: "nat list"
  assume "sum64 recent > RECENT_DURATION_SAMPLES"
  then have "0 < sum_list recent" by (cases "sum_list recent = 0") (auto simp: sum64_eq)
  then show "(map (\<lambda>c. c div 2) recent, recent) \<in> measure sum_list"
    by (simp add: sum_halves_less)
qed simp

declare decay_recent.simps [simp del]

fun record_failures :: "index_range_set \<Rightarrow> task_array_state \<Rightarrow> task_array_state" where
  "record_failures [] s = s"
| "record_failures ((first, final) # rest) s =
     record_failures rest
       (if range_count (ta_failed_indices s) \<ge> MAX_FAILED_RANGES
        then s\<lparr>ta_failed_overflow := add64 (ta_failed_overflow s) ((final - first) + 1)\<rparr>
        else s\<lparr>ta_failed_indices := insert_range first final (ta_failed_indices s)\<rparr>)"

text \<open>What an accepted report changes, after every check has passed.\<close>

definition apply_result :: "string \<Rightarrow> chunk_result \<Rightarrow> task_array_state \<Rightarrow> task_array_state" where
  "apply_result node result s =
     (let chunk = cr_chunk result;
          failed = cr_failed_count result;
          s1 = release node chunk s;
          s2 = s1\<lparr>ta_attempts := bt_remove chunk (ta_attempts s1),
                  ta_done := snd (insert_index chunk (ta_done s1))\<rparr>;
          s3 = fold_accepted_when_full (accept_chunk node (cr_attempt result) chunk s2);
          s4 = s3\<lparr>ta_duration_counts := map2 add64 (ta_duration_counts s3) (cr_duration_counts result),
                  ta_recent_duration_counts :=
                    decay_recent (map2 add64 (ta_recent_duration_counts s3) (cr_duration_counts result)),
                  ta_succeeded := add64 (ta_succeeded s3) (cr_succeeded result),
                  ta_failed := add64 (ta_failed s3) failed,
                  ta_not_run := add64 (ta_not_run s3) (cr_not_run result),
                  ta_retried := add64 (ta_retried s3) (cr_retried result),
                  ta_retry_causes := rc_add (ta_retry_causes s3) (cr_retry_causes result)\<rparr>;
          s5 = record_failures (cr_failed_indices result) s4;
          s6 = s5\<lparr>ta_failed_overflow :=
                 add64 (ta_failed_overflow s5) (failed - set_len (cr_failed_indices result))\<rparr>
      in case max_failed_indexes (ta_spec s6) of
           Some limit \<Rightarrow> if ta_failed s6 > limit then stop StopTooManyFailures s6 else s6
         | None \<Rightarrow> s6)"

definition complete ::
  "string \<Rightarrow> chunk_result \<Rightarrow> task_array_state \<Rightarrow>
     task_array_error + (completion_outcome \<times> task_array_state)" where
  "complete node result s =
     (let chunk = cr_chunk result
      in case chunk_range (ta_spec s) chunk of
           None \<Rightarrow> Inl (UnknownChunk chunk)
         | Some (first, final) \<Rightarrow>
           if contains (ta_done s) chunk then Inr (Duplicate, s)
           else if \<not> (case map_of (ta_grants s) node of None \<Rightarrow> False | Some held \<Rightarrow> contains held chunk)
           then Inl (NotHeld chunk node)
           else let current = attempt_of s chunk
           in if cr_attempt result \<noteq> current then Inl (StaleAttempt chunk (cr_attempt result) current)
           else if range_count (cr_failed_indices result) > MAX_CHUNK_FAILED_RANGES
           then Inl (FailurePreviewTooLarge chunk)
           else let expected = (final - first) + 1;
                    reported = cr_succeeded result + cr_failed_count result + cr_not_run result
           in if reported \<noteq> expected \<or> set_len (cr_failed_indices result) > cr_failed_count result
           then Inl (CountMismatch chunk expected reported)
           else if list_ex (\<lambda>(a, b). a < first \<or> b > final) (cr_failed_indices result)
           then Inl (IndexOutsideChunk chunk)
           else let causes = (case rc_total (cr_retry_causes result) of None \<Rightarrow> u64_max | Some n \<Rightarrow> n)
           in if causes \<noteq> cr_retried result then Inl (RetryCauseMismatch chunk (cr_retried result) causes)
           else Inr (Applied, apply_result node result s))"

section \<open>Checking a reopened snapshot\<close>

datatype snapshot_error =
    SnapshotSpec task_array_spec_error
  | ProgressExceedsRun
  | PartitionOverflow
  | PartitionIncomplete
  | SnapshotInvalidOwner
  | InvalidGrantAttempt
  | AcceptedWithoutProgress
  | AcceptedOverlap
  | CounterOverflow
  | CountersDisagree
  | DurationsExceedTasks
  | RecentExceedsTotal
  | StoppedWithQueuedWork
  | RetryCausesDisagree

definition valid_ranges :: "index_range_set \<Rightarrow> nat \<Rightarrow> bool" where
  "valid_ranges ranges bound \<longleftrightarrow> list_all (\<lambda>(_, final). final < bound) ranges"

fun check_partition ::
  "nat \<Rightarrow> index_range_set list \<Rightarrow> index_range_set \<Rightarrow> nat \<Rightarrow> snapshot_error + (index_range_set \<times> nat)" where
  "check_partition chunks [] parts seen = Inr (parts, seen)"
| "check_partition chunks (ranges # rest) parts seen =
     (if \<not> valid_ranges ranges chunks then Inl ProgressExceedsRun
      else case checked_add64 seen (set_len ranges) of
             None \<Rightarrow> Inl PartitionOverflow
           | Some seen' \<Rightarrow> check_partition chunks rest (extend_from parts ranges) seen')"

fun check_accepted ::
  "index_range_set \<Rightarrow> (nat \<times> index_range_set) list \<Rightarrow> index_range_set \<Rightarrow> snapshot_error + unit" where
  "check_accepted retired [] acc = Inr ()"
| "check_accepted retired ((attempt, ranges) # rest) acc =
     (if attempt = 0 \<or> is_empty_set ranges \<or>
         \<not> list_all (\<lambda>(first, final). contains_range retired first final) ranges
      then Inl AcceptedWithoutProgress
      else let expected = add64 (set_len acc) (set_len ranges);
               acc' = extend_from acc ranges
           in if set_len acc' \<noteq> expected then Inl AcceptedOverlap
              else check_accepted retired rest acc')"

definition counters_disagree :: "task_array_state \<Rightarrow> nat \<Rightarrow> bool" where
  "counters_disagree s accounted \<longleftrightarrow>
     accounted \<noteq> tasks_in (ta_spec s) (ta_done s) \<or>
     range_count (ta_failed_indices s) > MAX_FAILED_RANGES \<or>
     \<not> valid_ranges (ta_failed_indices s) (task_count (ta_spec s)) \<or>
     checked_add64 (set_len (ta_failed_indices s)) (ta_failed_overflow s) \<noteq> Some (ta_failed s)"

definition durations_exceed :: "task_array_state \<Rightarrow> bool" where
  "durations_exceed s \<longleftrightarrow>
     (case foldl (\<lambda>acc n. Option.bind acc (\<lambda>a. checked_add64 a n)) (Some 0) (ta_duration_counts s) of
        None \<Rightarrow> True
      | Some counted \<Rightarrow> counted > add64 (ta_succeeded s) (ta_failed s))"

definition validate_snapshot :: "task_array_state \<Rightarrow> snapshot_error + unit" where
  "validate_snapshot s =
     (case validate (ta_spec s) of
        Inl e \<Rightarrow> Inl (SnapshotSpec e)
      | Inr _ \<Rightarrow>
        let chunks = chunk_count (ta_spec s)
        in case check_partition chunks (ta_queued s # map snd (ta_grants s) @ [ta_done s]) set_new 0 of
             Inl e \<Rightarrow> Inl e
           | Inr (parts, seen) \<Rightarrow>
             if seen \<noteq> chunks \<or> set_len parts \<noteq> seen then Inl PartitionIncomplete
             else if list_ex (\<lambda>node. \<not> valid_node_id node) (map fst (ta_grants s) @ map fst (ta_accepted s))
             then Inl SnapshotInvalidOwner
             else if list_ex (\<lambda>(chunk, attempt). chunk \<ge> chunks \<or> attempt < 2 \<or> contains (ta_done s) chunk)
                       (ta_attempts s)
             then Inl InvalidGrantAttempt
             else case check_accepted (ta_done s)
                         (concat (map snd (ta_accepted s)) @ ta_accepted_folded s) set_new of
               Inl e \<Rightarrow> Inl e
             | Inr _ \<Rightarrow>
               case Option.bind (checked_add64 (ta_succeeded s) (ta_failed s))
                      (\<lambda>n. checked_add64 n (ta_not_run s)) of
                 None \<Rightarrow> Inl CounterOverflow
               | Some accounted \<Rightarrow>
                 if counters_disagree s accounted then Inl CountersDisagree
                 else if durations_exceed s then Inl DurationsExceedTasks
                 else if list_ex (\<lambda>(recent, all_time). recent > all_time)
                           (zip (ta_recent_duration_counts s) (ta_duration_counts s))
                 then Inl RecentExceedsTotal
                 else if ta_stopped s \<noteq> None \<and> \<not> is_empty_set (ta_queued s) then Inl StoppedWithQueuedWork
                 else if rc_total (ta_retry_causes s) \<noteq> Some (ta_retried s) then Inl RetryCausesDisagree
                 else Inr ())"

end
