(* ===== verification/Task_Array_Invariant.thy ===== *)
theory Task_Array_Invariant
  imports Task_Array_State
begin

text \<open>
  The invariant of a task array and its preservation by every operation. \<open>ta_wf\<close> is the
  strengthening of the code's own \<open>validate_snapshot\<close> that the operations keep; the theory ends
  with the step relation of the replicated log, whose reachable states all pass
  \<open>validate_snapshot\<close>.
\<close>

section \<open>The invariant\<close>

definition tasks_of :: "task_array_spec \<Rightarrow> nat set \<Rightarrow> nat" where
  "tasks_of spec C = (\<Sum>c \<in> C. tasks_in_chunk spec c)"

definition held_chunks :: "task_array_state \<Rightarrow> nat set" where
  "held_chunks s = (\<Union>e \<in> set (ta_grants s). members (snd e))"

definition accepted_list :: "task_array_state \<Rightarrow> (nat \<times> index_range_set) list" where
  "accepted_list s = concat (map snd (ta_accepted s)) @ ta_accepted_folded s"

definition rc_sum :: "retry_causes \<Rightarrow> nat" where
  "rc_sum c = rc_exit_code c + rc_signal c + rc_timeout c + rc_unknown c + rc_launch c + rc_unrecorded c"

definition wf_partition :: "task_array_state \<Rightarrow> bool" where
  "wf_partition s \<longleftrightarrow>
     ranges_ok (ta_queued s) \<and> ranges_ok (ta_done s) \<and> bt_ok (ta_grants s) \<and>
     (\<forall>e \<in> set (ta_grants s). ranges_ok (snd e) \<and> snd e \<noteq> [] \<and> valid_node_id (fst e)) \<and>
     members (ta_queued s) \<union> held_chunks s \<union> members (ta_done s) = {..<chunk_count (ta_spec s)} \<and>
     set_len (ta_queued s) + sum_list (map (set_len \<circ> snd) (ta_grants s)) + set_len (ta_done s)
       \<le> chunk_count (ta_spec s)"

definition wf_attempts :: "task_array_state \<Rightarrow> bool" where
  "wf_attempts s \<longleftrightarrow> bt_ok (ta_attempts s) \<and>
     (\<forall>e \<in> set (ta_attempts s). fst e < chunk_count (ta_spec s) \<and> 2 \<le> snd e \<and> snd e \<le> u64_max \<and>
        fst e \<notin> members (ta_done s))"

definition gens_ok :: "nat set \<Rightarrow> (nat \<times> index_range_set) list \<Rightarrow> bool" where
  "gens_ok retired gens \<longleftrightarrow>
     (\<forall>g \<in> set gens. 0 < fst g \<and> snd g \<noteq> [] \<and> ranges_ok (snd g) \<and> members (snd g) \<subseteq> retired) \<and>
     sum_list (map (set_len \<circ> snd) gens) \<le> card (\<Union>g \<in> set gens. members (snd g))"

definition wf_accepted :: "task_array_state \<Rightarrow> bool" where
  "wf_accepted s \<longleftrightarrow>
     bt_ok (ta_accepted s) \<and> bt_ok (ta_accepted_folded s) \<and>
     (\<forall>e \<in> set (ta_accepted s). valid_node_id (fst e) \<and> bt_ok (snd e)) \<and>
     gens_ok (members (ta_done s)) (accepted_list s)"

definition wf_counts :: "task_array_state \<Rightarrow> bool" where
  "wf_counts s \<longleftrightarrow>
     ta_succeeded s + ta_failed s + ta_not_run s = tasks_of (ta_spec s) (members (ta_done s))"

definition wf_failures :: "task_array_state \<Rightarrow> bool" where
  "wf_failures s \<longleftrightarrow>
     ranges_ok (ta_failed_indices s) \<and> range_count (ta_failed_indices s) \<le> MAX_FAILED_RANGES \<and>
     (\<forall>i \<in> members (ta_failed_indices s). \<exists>c \<in> members (ta_done s). chunk_of (ta_spec s) i = Some c) \<and>
     set_len (ta_failed_indices s) + ta_failed_overflow s = ta_failed s"

definition wf_durations :: "task_array_state \<Rightarrow> bool" where
  "wf_durations s \<longleftrightarrow>
     length (ta_duration_counts s) = 16 \<and> length (ta_recent_duration_counts s) = 16 \<and>
     sum_list (ta_duration_counts s) \<le> ta_succeeded s + ta_failed s \<and>
     list_all2 (\<le>) (ta_recent_duration_counts s) (ta_duration_counts s)"

definition wf_retries :: "task_array_state \<Rightarrow> bool" where
  "wf_retries s \<longleftrightarrow> rc_sum (ta_retry_causes s) = ta_retried s \<and>
     ta_retried s \<le> set_len (ta_done s) * u32_max"

definition ta_wf :: "task_array_state \<Rightarrow> bool" where
  "ta_wf s \<longleftrightarrow> validate (ta_spec s) = Inr () \<and> wf_partition s \<and> wf_attempts s \<and> wf_accepted s \<and>
     wf_counts s \<and> wf_failures s \<and> wf_durations s \<and> wf_retries s \<and>
     (ta_stopped s \<noteq> None \<longrightarrow> ta_queued s = [])"

lemmas wf_parts = wf_partition_def wf_attempts_def wf_accepted_def wf_counts_def wf_failures_def
  wf_durations_def wf_retries_def

text \<open>
  The values a report can hold by its Rust types: \<open>u32\<close> counts, a deserialised index set and
  sixteen duration buckets. \<open>durations_fit\<close> is what an honest node also guarantees: it counts at
  most one duration for each task it ran.
\<close>

definition result_typed :: "chunk_result \<Rightarrow> bool" where
  "result_typed r \<longleftrightarrow> length (cr_duration_counts r) = 16 \<and> cr_chunk r \<le> u32_max \<and>
     cr_attempt r \<le> u64_max \<and> cr_succeeded r \<le> u32_max \<and> cr_failed_count r \<le> u32_max \<and>
     cr_not_run r \<le> u32_max \<and> cr_retried r \<le> u32_max \<and> ranges_ok (cr_failed_indices r)"

definition durations_fit :: "chunk_result \<Rightarrow> bool" where
  "durations_fit r \<longleftrightarrow> sum_list (cr_duration_counts r) \<le> cr_succeeded r + cr_failed_count r"

definition bump_attempts :: "nat list \<Rightarrow> (nat \<times> nat) list \<Rightarrow> (nat \<times> nat) list" where
  "bump_attempts = fold (\<lambda>chunk m. bt_insert chunk
     (sat_add64 (case map_of m chunk of None \<Rightarrow> 1 | Some a \<Rightarrow> a) 1) m)"

section \<open>Counting tasks\<close>

lemma tasks_in_chunk_full:
  assumes "validate spec = Inr ()" and "c < chunk_count spec" and "c \<noteq> chunk_count spec - 1"
  shows "tasks_in_chunk spec c = chunk_size spec"
proof -
  obtain a b where "chunk_range spec c = Some (a, b)"
    using assms chunk_range_exact [OF assms(1), of c] by auto
  then show ?thesis
    using chunk_range_full [OF assms(1) _ assms(3)] by (simp add: tasks_in_chunk_def)
qed

lemma tasks_in_chunk_le:
  assumes "validate spec = Inr ()"
  shows "tasks_in_chunk spec c \<le> chunk_size spec"
  using chunk_range_bounds(3) [OF assms] by (auto simp: tasks_in_chunk_def split: option.splits)

lemma tasks_of_insert: "finite C \<Longrightarrow> c \<notin> C \<Longrightarrow> tasks_of spec (insert c C) = tasks_in_chunk spec c + tasks_of spec C"
  by (simp add: tasks_of_def)

lemma tasks_of_Un: "finite A \<Longrightarrow> finite B \<Longrightarrow> A \<inter> B = {} \<Longrightarrow> tasks_of spec (A \<union> B) = tasks_of spec A + tasks_of spec B"
  by (simp add: tasks_of_def sum.union_disjoint)

lemma tasks_of_empty [simp]: "tasks_of spec {} = 0"
  by (simp add: tasks_of_def)

lemma tasks_of_full:
  assumes v: "validate spec = Inr ()" and C: "finite C" "C \<subseteq> {..<chunk_count spec}"
    and notlast: "chunk_count spec - 1 \<notin> C"
  shows "tasks_of spec C = card C * chunk_size spec"
proof -
  have "tasks_of spec C = (\<Sum>c \<in> C. chunk_size spec)"
    unfolding tasks_of_def
  proof (rule sum.cong)
    fix c assume "c \<in> C"
    then have "c < chunk_count spec" "c \<noteq> chunk_count spec - 1" using C notlast by auto
    then show "tasks_in_chunk spec c = chunk_size spec" by (rule tasks_in_chunk_full [OF v])
  qed simp
  then show ?thesis by simp
qed

lemma card_chunks_le:
  assumes "validate spec = Inr ()" and "C \<subseteq> {..<chunk_count spec}"
  shows "card C \<le> 65536" "card C * chunk_size spec \<le> 4294967296"
proof -
  have "card C \<le> chunk_count spec" using assms(2) by (metis card_lessThan card_mono finite_lessThan)
  then show card: "card C \<le> 65536" using validate_bounds(5) [OF assms(1)] by simp
  have "card C * chunk_size spec \<le> 65536 * 65536"
    by (rule mult_le_mono [OF card validate_bounds(4) [OF assms(1)]])
  then show "card C * chunk_size spec \<le> 4294967296" by simp
qed

lemma tasks_in_exact:
  assumes v: "validate spec = Inr ()" and ok: "ranges_ok cs"
    and sub: "members cs \<subseteq> {..<chunk_count spec}"
  shows "tasks_in spec cs = tasks_of spec (members cs)"
proof -
  let ?L = "chunk_count spec - 1" and ?C = "members cs"
  have len: "mul64 (set_len cs) (chunk_size spec) = card ?C * chunk_size spec"
    using card_chunks_le [OF v sub] set_len_card [OF ok] by (simp add: mul64_exact)
  show ?thesis
  proof (cases "?L \<in> ?C")
    case False
    then show ?thesis
      using tasks_of_full [OF v _ sub False] len by (simp add: tasks_in_def contains_members [OF ok])
  next
    case True
    have sub': "?C - {?L} \<subseteq> {..<chunk_count spec}" using sub by blast
    have "tasks_of spec (?C - {?L}) = card (?C - {?L}) * chunk_size spec"
      by (rule tasks_of_full [OF v _ sub']) auto
    moreover have "tasks_of spec (insert ?L (?C - {?L})) = tasks_in_chunk spec ?L + tasks_of spec (?C - {?L})"
      by (rule tasks_of_insert) auto
    ultimately have "tasks_of spec ?C = tasks_in_chunk spec ?L + card (?C - {?L}) * chunk_size spec"
      using insert_Diff [OF True] by simp
    moreover have "card ?C = card (?C - {?L}) + 1" using card.remove [OF _ True] by simp
    moreover note tasks_in_chunk_le [OF v, of ?L]
    ultimately have "tasks_of spec ?C = card ?C * chunk_size spec - (chunk_size spec - tasks_in_chunk spec ?L)"
      and "chunk_size spec - tasks_in_chunk spec ?L \<le> card ?C * chunk_size spec"
      by (auto simp: algebra_simps)
    then show ?thesis
      using len True card_chunks_le [OF v sub]
      by (simp add: tasks_in_def contains_members [OF ok] sub64_exact)
  qed
qed

lemma tasks_of_prefix:
  assumes v: "validate spec = Inr ()"
  shows "k \<le> chunk_count spec \<Longrightarrow> tasks_of spec {..<k} = min (k * chunk_size spec) (task_count spec)"
proof (induction k)
  case 0
  then show ?case by simp
next
  case (Suc k)
  have lt: "k * chunk_size spec < task_count spec" using less_chunk_count [OF v, of k] Suc.prems by simp
  have "tasks_in_chunk spec k =
      min (k * chunk_size spec + chunk_size spec - 1) (task_count spec - 1) - k * chunk_size spec + 1"
    using Suc.prems by (simp add: tasks_in_chunk_def chunk_range_exact [OF v])
  then have "tasks_in_chunk spec k + k * chunk_size spec = min (Suc k * chunk_size spec) (task_count spec)"
    using lt validate_bounds(3) [OF v] by (simp add: min_def) linarith
  moreover have "tasks_of spec {..<Suc k} = tasks_in_chunk spec k + tasks_of spec {..<k}"
    using tasks_of_insert [of "{..<k}" k spec] by (simp add: lessThan_Suc)
  ultimately show ?case using Suc lt by simp
qed

lemma tasks_of_all: "validate spec = Inr () \<Longrightarrow> tasks_of spec {..<chunk_count spec} = task_count spec"
  using tasks_of_prefix [of spec "chunk_count spec"] less_chunk_count [of spec "chunk_count spec"]
  by (simp add: min_def)

lemma tasks_of_mono: "finite B \<Longrightarrow> A \<subseteq> B \<Longrightarrow> tasks_of spec A \<le> tasks_of spec B"
  unfolding tasks_of_def by (rule sum_mono2) auto

lemma tasks_of_le_count:
  "validate spec = Inr () \<Longrightarrow> C \<subseteq> {..<chunk_count spec} \<Longrightarrow> tasks_of spec C \<le> task_count spec"
  using tasks_of_mono [of "{..<chunk_count spec}" C spec] tasks_of_all [of spec] by simp

section \<open>Consequences of the invariant\<close>

text \<open>Every chunk is in exactly one place.\<close>

lemma wf_partition_disjoint:
  assumes "wf_partition s"
  shows "members (ta_queued s) \<inter> held_chunks s = {}"
    and "members (ta_queued s) \<inter> members (ta_done s) = {}"
    and "held_chunks s \<inter> members (ta_done s) = {}"
    and "e \<in> set (ta_grants s) \<Longrightarrow> e' \<in> set (ta_grants s) \<Longrightarrow> e \<noteq> e' \<Longrightarrow> members (snd e) \<inter> members (snd e') = {}"
    and "set_len (ta_queued s) + sum_list (map (set_len \<circ> snd) (ta_grants s)) + set_len (ta_done s)
       = chunk_count (ta_spec s)"
proof -
  let ?G = "map (members \<circ> snd) (ta_grants s)"
  let ?As = "members (ta_queued s) # ?G @ [members (ta_done s)]"
  have ok: "ranges_ok (ta_queued s)" "ranges_ok (ta_done s)" "\<forall>e \<in> set (ta_grants s). ranges_ok (snd e)"
    and cover: "members (ta_queued s) \<union> held_chunks s \<union> members (ta_done s) = {..<chunk_count (ta_spec s)}"
    and len: "set_len (ta_queued s) + sum_list (map (set_len \<circ> snd) (ta_grants s)) + set_len (ta_done s)
       \<le> chunk_count (ta_spec s)"
    using assms by (auto simp: wf_partition_def)
  have UN: "\<Union>(set ?As) = {..<chunk_count (ta_spec s)}"
    unfolding cover [symmetric] by (auto simp: held_chunks_def)
  have "sum_list (map card ?G) = sum_list (map (set_len \<circ> snd) (ta_grants s))"
    using ok(3) unfolding map_map by (intro sum_list_map_cong_set) (simp add: set_len_card)
  then have sum: "sum_list (map card ?As) = set_len (ta_queued s) +
      sum_list (map (set_len \<circ> snd) (ta_grants s)) + set_len (ta_done s)"
    using ok by (simp add: set_len_card)
  have fin: "\<forall>A \<in> set ?As. finite A" by auto
  have "sorted_wrt (\<lambda>A B. A \<inter> B = {}) ?As"
    using sum_card_disjoint [OF fin] UN sum len by simp
  then have q: "\<forall>e \<in> set (ta_grants s). members (ta_queued s) \<inter> members (snd e) = {}"
    and qd: "members (ta_queued s) \<inter> members (ta_done s) = {}"
    and g: "sorted_wrt (\<lambda>A B. A \<inter> B = {}) ?G"
    and d: "\<forall>e \<in> set (ta_grants s). members (snd e) \<inter> members (ta_done s) = {}"
    by (auto simp: sorted_wrt_append)
  show "members (ta_queued s) \<inter> held_chunks s = {}" "held_chunks s \<inter> members (ta_done s) = {}"
    using q d by (auto simp: held_chunks_def)
  show "members (ta_queued s) \<inter> members (ta_done s) = {}" by (rule qd)
  show "members (snd e) \<inter> members (snd e') = {}"
    if "e \<in> set (ta_grants s)" "e' \<in> set (ta_grants s)" "e \<noteq> e'"
    using sorted_wrt_disjoint_mem [OF g that] by simp
  have "chunk_count (ta_spec s) \<le> sum_list (map card ?As)"
    using card_Union_le_sum_list [OF fin] unfolding UN by simp
  then show "set_len (ta_queued s) + sum_list (map (set_len \<circ> snd) (ta_grants s)) + set_len (ta_done s)
       = chunk_count (ta_spec s)" using len unfolding sum by simp
qed

lemma wf_subsets:
  assumes "wf_partition s"
  shows "members (ta_queued s) \<subseteq> {..<chunk_count (ta_spec s)}"
    "held_chunks s \<subseteq> {..<chunk_count (ta_spec s)}"
    "members (ta_done s) \<subseteq> {..<chunk_count (ta_spec s)}"
    "e \<in> set (ta_grants s) \<Longrightarrow> members (snd e) \<subseteq> {..<chunk_count (ta_spec s)}"
  using assms by (auto simp: wf_partition_def held_chunks_def)

lemma wf_held:
  assumes "wf_partition s" and "map_of (ta_grants s) node = Some g"
  shows "ranges_ok g" "g \<noteq> []" "valid_node_id node" "members g \<subseteq> held_chunks s" "(node, g) \<in> set (ta_grants s)"
proof -
  show mem: "(node, g) \<in> set (ta_grants s)" using assms by (simp add: wf_partition_def bt_ok_get)
  show "ranges_ok g" "g \<noteq> []" "valid_node_id node" "members g \<subseteq> held_chunks s"
    using assms(1) mem by (auto simp: wf_partition_def held_chunks_def)
qed

lemma wf_counts_le:
  assumes "ta_wf s"
  shows "ta_succeeded s + ta_failed s + ta_not_run s \<le> task_count (ta_spec s)"
    and "task_count (ta_spec s) \<le> 16777216"
  using assms tasks_of_le_count [of "ta_spec s" "members (ta_done s)"] wf_subsets(3) [of s] validate_bounds(2)
  by (auto simp: ta_wf_def wf_counts_def)

section \<open>Creation, stopping and granting keep the invariant\<close>

lemma new_wf:
  assumes "ta_new spec at = Inr s"
  shows "ta_wf s" and "ta_spec s = spec" and "ta_stopped s = None"
proof -
  have v: "validate spec = Inr ()" using assms by (auto simp: ta_new_def split: sum.splits)
  have s: "s = \<lparr>ta_spec = spec, ta_submitted_at = at, ta_queued = from_range 0 (chunk_count spec - 1),
           ta_grants = [], ta_attempts = [], ta_done = [], ta_accepted = [],
           ta_accepted_folded = [], ta_failed_indices = [], ta_failed_overflow = 0,
           ta_succeeded = 0, ta_failed = 0, ta_not_run = 0, ta_retried = 0,
           ta_retry_causes = retry_causes_default, ta_stopped = None,
           ta_duration_counts = replicate 16 0, ta_recent_duration_counts = replicate 16 0\<rparr>"
    using assms v by (simp add: ta_new_def set_new_def)
  have "chunk_count spec - 1 \<le> u32_max" using validate_bounds(5) [OF v] by simp
  note q = from_range_spec [OF this, of 0]
  have "{0..chunk_count spec - 1} = {..<chunk_count spec}" using chunk_count_pos [OF v] by auto
  then have cover: "members (from_range 0 (chunk_count spec - 1)) = {..<chunk_count spec}" using q by simp
  have partition: "wf_partition s"
    using q(1) cover by (simp add: wf_partition_def s held_chunks_def set_len_card)
  show "ta_wf s" using v partition
    by (simp add: ta_wf_def wf_attempts_def wf_accepted_def gens_ok_def wf_counts_def wf_failures_def wf_durations_def
        wf_retries_def s accepted_list_def range_count_def rc_sum_def retry_causes_default_def sum_list_replicate list_all2_same)
  show "ta_spec s = spec" "ta_stopped s = None" by (simp_all add: s)
qed

text \<open>Retiring a set of chunks that were not yet done: what \<open>stop\<close> and a post-stop requeue share.\<close>

lemma retire_counts:
  assumes v: "validate (ta_spec s) = Inr ()" and wf: "wf_partition s" "wf_counts s"
    and cs: "ranges_ok cs" "members cs \<subseteq> {..<chunk_count (ta_spec s)}" "members cs \<inter> members (ta_done s) = {}"
  shows "ta_succeeded s + ta_failed s + add64 (ta_not_run s) (tasks_in (ta_spec s) cs) =
    tasks_of (ta_spec s) (members (extend_from (ta_done s) cs))"
proof -
  let ?spec = "ta_spec s"
  have ok: "ranges_ok (ta_done s)" using wf by (simp add: wf_partition_def)
  have eq: "tasks_of ?spec (members (extend_from (ta_done s) cs)) =
      tasks_of ?spec (members (ta_done s)) + tasks_of ?spec (members cs)"
    using cs by (simp add: extend_from_members ok tasks_of_Un Int_commute)
  have "members (extend_from (ta_done s) cs) \<subseteq> {..<chunk_count ?spec}"
    using cs wf_subsets(3) [OF wf(1)] by (simp add: extend_from_members ok)
  then have "tasks_of ?spec (members (extend_from (ta_done s) cs)) \<le> 16777216"
    using tasks_of_le_count [OF v] validate_bounds(2) [OF v] le_trans by blast
  then show ?thesis
    using wf(2) eq by (simp add: wf_counts_def tasks_in_exact [OF v cs(1,2)] add64_exact)
qed

lemma set_len_extend_le: "ranges_ok s \<Longrightarrow> ranges_ok t \<Longrightarrow> set_len (extend_from s t) \<le> set_len s + set_len t"
  by (rule ranges.len_union_le)

lemma gens_ok_mono: "gens_ok A gens \<Longrightarrow> A \<subseteq> B \<Longrightarrow> gens_ok B gens"
  by (auto simp: gens_ok_def)

lemma set_len_mono: "ranges_ok s \<Longrightarrow> ranges_ok t \<Longrightarrow> members s \<subseteq> members t \<Longrightarrow> set_len s \<le> set_len t"
  by (simp add: set_len_card card_mono)

lemma stop_wf:
  assumes "ta_wf s"
  shows "ta_wf (stop reason s)"
proof (cases "ta_stopped s = None")
  case False
  then show ?thesis using assms by (simp add: stop_def)
next
  case True
  let ?q = "ta_queued s" and ?d = "ta_done s"
  have v: "validate (ta_spec s) = Inr ()" and wp: "wf_partition s" and wc: "wf_counts s"
    using assms by (simp_all add: ta_wf_def)
  have ok: "ranges_ok ?q" "ranges_ok ?d" using wp by (simp_all add: wf_partition_def)
  note disj = wf_partition_disjoint [OF wp]
  have d': "ranges_ok (extend_from ?d ?q)" "members (extend_from ?d ?q) = members ?d \<union> members ?q"
    using ok by (simp_all add: extend_from_ok extend_from_members)
  define s' where "s' = stop reason s"
  have s': "s' = s\<lparr>ta_stopped := Some reason, ta_queued := [],
      ta_attempts := filter (\<lambda>e. \<not> contains ?q (fst e)) (ta_attempts s),
      ta_not_run := add64 (ta_not_run s) (tasks_in (ta_spec s) ?q), ta_done := extend_from ?d ?q\<rparr>"
    using True by (simp add: s'_def stop_def set_new_def Let_def)
  have "wf_partition s'"
    using wp d' set_len_extend_le [OF ok(2,1)] by (auto simp: wf_partition_def s' held_chunks_def)
  moreover have "wf_attempts s'"
    using assms d' by (auto simp: ta_wf_def wf_attempts_def s' bt_ok_filter contains_members [OF ok(1)])
  moreover have "wf_accepted s'"
    using assms d'(2) gens_ok_mono [of "members ?d" "accepted_list s"]
    by (simp add: ta_wf_def wf_accepted_def s' accepted_list_def)
  moreover have "wf_counts s'"
    using retire_counts [OF v wp wc ok(1) wf_subsets(1) [OF wp]] disj(2) by (simp add: wf_counts_def s')
  moreover have "wf_failures s'" using assms d'(2) by (auto simp: ta_wf_def wf_failures_def s')
  moreover have "wf_durations s'" using assms by (simp add: ta_wf_def wf_durations_def s')
  moreover have "wf_retries s'"
    using assms set_len_mono [OF ok(2) d'(1)] d'(2)
    by (auto simp: ta_wf_def wf_retries_def s' intro: order_trans)
  ultimately show ?thesis using v unfolding s'_def [symmetric] by (simp add: ta_wf_def s')
qed

lemma fold_remove_ranges:
  "ranges_ok q \<Longrightarrow> ranges_ok (fold (\<lambda>(first, final) q. remove_range first final q) cs q) \<and>
     members (fold (\<lambda>(first, final) q. remove_range first final q) cs q) = members q - members cs"
  by (induction cs arbitrary: q) (auto simp: remove_range_ok remove_range_members)

lemma contained_members:
  "ranges_ok q \<Longrightarrow> (\<forall>r \<in> set cs. contains_range q (fst r) (snd r)) \<Longrightarrow> members cs \<subseteq> members q"
  by (induction cs) (auto simp: contains_range_members)

lemma contained_iff:
  "ranges_ok q \<Longrightarrow> list_all (\<lambda>(first, final). contains_range q first final) cs \<longleftrightarrow> members cs \<subseteq> members q"
  by (induction cs) (simp_all add: contains_range_members case_prod_beta)

lemma grant_Inr:
  assumes wp: "wf_partition s" and g: "grant node chunks s = Inr s'"
  shows "valid_node_id node" "ta_stopped s = None" "members chunks \<subseteq> members (ta_queued s)"
    and "s' = (if chunks = [] then s else s\<lparr>
            ta_queued := fold (\<lambda>(first, final) q. remove_range first final q) chunks (ta_queued s),
            ta_grants := bt_insert node
              (extend_from (case map_of (ta_grants s) node of None \<Rightarrow> [] | Some g \<Rightarrow> g) chunks)
              (ta_grants s)\<rparr>)"
proof -
  have ok: "ranges_ok (ta_queued s)" using wp by (simp add: wf_partition_def)
  show "valid_node_id node" "ta_stopped s = None"
    using g by (auto simp: grant_def split: if_splits)
  then have none: "find (\<lambda>(first, final). \<not> contains_range (ta_queued s) first final) chunks = None"
    using g by (auto simp: grant_def split: option.splits)
  then have "\<forall>r \<in> set chunks. contains_range (ta_queued s) (fst r) (snd r)"
    by (auto simp: find_None_iff)
  then show "members chunks \<subseteq> members (ta_queued s)" by (rule contained_members [OF ok])
  show "s' = (if chunks = [] then s else s\<lparr>
            ta_queued := fold (\<lambda>(first, final) q. remove_range first final q) chunks (ta_queued s),
            ta_grants := bt_insert node
              (extend_from (case map_of (ta_grants s) node of None \<Rightarrow> [] | Some g \<Rightarrow> g) chunks)
              (ta_grants s)\<rparr>)"
    using g none \<open>valid_node_id node\<close> \<open>ta_stopped s = None\<close>
    unfolding grant_def set_new_def by (simp add: is_empty_set_def split: if_splits)
qed

lemma grant_partition:
  assumes wp: "wf_partition s" and ok: "ranges_ok chunks" and g: "grant node chunks s = Inr s'"
  shows "wf_partition s'"
proof (cases "chunks = []")
  case True
  then show ?thesis using grant_Inr(4) [OF wp g] wp by simp
next
  case False
  note gi = grant_Inr [OF wp g]
  let ?old = "case map_of (ta_grants s) node of None \<Rightarrow> [] | Some g \<Rightarrow> g"
  let ?new = "extend_from ?old chunks"
  let ?q = "fold (\<lambda>(first, final) q. remove_range first final q) chunks (ta_queued s)"
  have qok: "ranges_ok (ta_queued s)" and bt: "bt_ok (ta_grants s)" using wp by (simp_all add: wf_partition_def)
  have old: "ranges_ok ?old" using wf_held(1) [OF wp] by (auto split: option.splits)
  have new: "ranges_ok ?new" "members ?new = members ?old \<union> members chunks"
    using old ok by (simp_all add: extend_from_ok extend_from_members)
  have "members ?new \<noteq> {}" using False members_empty_iff [OF ok] new(2) by auto
  then have ne: "?new \<noteq> []" using members_empty_iff [OF new(1)] by blast
  have q: "ranges_ok ?q" "members ?q = members (ta_queued s) - members chunks"
    using fold_remove_ranges [OF qok] by simp_all
  have s': "s' = s\<lparr>ta_queued := ?q, ta_grants := bt_insert node ?new (ta_grants s)\<rparr>"
    using gi(4) False by simp
  have "card (members (ta_queued s) - members chunks) = card (members (ta_queued s)) - card (members chunks)"
    by (rule card_Diff_subset) (simp_all add: gi(3))
  moreover have "card (members chunks) \<le> card (members (ta_queued s))"
    by (rule card_mono) (simp_all add: gi(3))
  ultimately have qlen: "set_len ?q + set_len chunks = set_len (ta_queued s)"
    using q qok ok by (simp add: set_len_card)
  have held: "held_chunks s' = held_chunks s \<union> members chunks"
    using UN_bt_insert_grow [OF bt, of members node ?new] new(2) wf_held(4) [OF wp, of node]
    by (auto simp: held_chunks_def s' split: option.splits)
  have "sum_list (map (set_len \<circ> snd) (ta_grants s')) + set_len ?old =
      sum_list (map (set_len \<circ> snd) (ta_grants s)) + set_len ?new"
    using sum_list_bt_insert [OF bt, of set_len node ?new] by (simp add: s' split: option.splits)
  then have sum: "sum_list (map (set_len \<circ> snd) (ta_grants s')) \<le>
      sum_list (map (set_len \<circ> snd) (ta_grants s)) + set_len chunks"
    using set_len_extend_le [OF old ok] by linarith
  have "\<forall>e \<in> set (ta_grants s'). ranges_ok (snd e) \<and> snd e \<noteq> [] \<and> valid_node_id (fst e)"
    using wp gi(1) new(1) ne by (auto simp: s' set_bt_insert [OF bt] wf_partition_def)
  moreover have "members (ta_queued s') \<union> held_chunks s' \<union> members (ta_done s') = {..<chunk_count (ta_spec s')}"
    unfolding held using wp gi(3) by (auto simp: wf_partition_def s' q(2))
  moreover have "ranges_ok (ta_queued s')" "ranges_ok (ta_done s')" "bt_ok (ta_grants s')"
    using wp q(1) bt by (simp_all add: s' wf_partition_def)
  ultimately show ?thesis using wp sum qlen by (simp add: wf_partition_def s')
qed

lemma grant_wf:
  assumes "ta_wf s" and "ranges_ok chunks" and g: "grant node chunks s = Inr s'"
  shows "ta_wf s'"
proof -
  have wp: "wf_partition s" using assms(1) by (simp add: ta_wf_def)
  have "ta_spec s' = ta_spec s" "ta_attempts s' = ta_attempts s" "ta_done s' = ta_done s"
    "ta_accepted s' = ta_accepted s" "ta_accepted_folded s' = ta_accepted_folded s"
    "ta_failed_indices s' = ta_failed_indices s" "ta_failed_overflow s' = ta_failed_overflow s"
    "ta_succeeded s' = ta_succeeded s" "ta_failed s' = ta_failed s" "ta_not_run s' = ta_not_run s"
    "ta_retried s' = ta_retried s" "ta_retry_causes s' = ta_retry_causes s" "ta_stopped s' = None"
    "ta_duration_counts s' = ta_duration_counts s"
    "ta_recent_duration_counts s' = ta_recent_duration_counts s"
    using grant_Inr(4) [OF wp g] grant_Inr(2) [OF wp g] by simp_all
  then show ?thesis
    using assms(1) grant_partition [OF wp assms(2) g]
    by (simp add: ta_wf_def wf_attempts_def wf_accepted_def wf_counts_def wf_failures_def wf_durations_def
        wf_retries_def accepted_list_def)
qed

section \<open>Taking back a lost node's work keeps the invariant\<close>

lemma bump_attempts_keep:
  assumes "bt_ok m" and "\<forall>e \<in> set m. P (fst e) \<and> 2 \<le> snd e \<and> snd e \<le> u64_max" and "\<forall>c \<in> set cs. P c"
  shows "bt_ok (bump_attempts cs m) \<and>
    (\<forall>e \<in> set (bump_attempts cs m). P (fst e) \<and> 2 \<le> snd e \<and> snd e \<le> u64_max)"
  using assms
proof (induction cs arbitrary: m)
  case Nil
  then show ?case by (simp add: bump_attempts_def)
next
  case (Cons c cs)
  let ?a = "case map_of m c of None \<Rightarrow> 1 | Some a \<Rightarrow> a"
  have "1 \<le> ?a"
    using Cons.prems(2) bt_ok_get [OF Cons.prems(1), of c] by (force split: option.splits)
  then have "2 \<le> sat_add64 ?a 1 \<and> sat_add64 ?a 1 \<le> u64_max" by (simp add: sat_add64_def)
  then have "\<forall>e \<in> set (bt_insert c (sat_add64 ?a 1) m). P (fst e) \<and> 2 \<le> snd e \<and> snd e \<le> u64_max"
    using Cons.prems by (auto simp: set_bt_insert)
  note step = Cons.IH [OF bt_ok_insert [OF Cons.prems(1)] this]
  have "bump_attempts (c # cs) m = bump_attempts cs (bt_insert c (sat_add64 ?a 1) m)"
    by (simp add: bump_attempts_def)
  then show ?case using step Cons.prems(3) by simp
qed

lemma bump_attempts_get:
  "distinct cs \<Longrightarrow> map_of (bump_attempts cs m) c =
     (if c \<in> set cs then Some (sat_add64 (case map_of m c of None \<Rightarrow> 1 | Some a \<Rightarrow> a) 1) else map_of m c)"
  by (induction cs arbitrary: m) (auto simp: bump_attempts_def)

lemma forget_attempts:
  "set (fold bt_remove cs m) = {e \<in> set m. fst e \<notin> set cs}"
  "bt_ok m \<Longrightarrow> bt_ok (fold bt_remove cs m)"
  by (induction cs arbitrary: m) (auto simp: set_bt_remove)

lemma drop_node:
  assumes wp: "wf_partition s" and g: "map_of (ta_grants s) node = Some g"
  shows "sum_list (map (set_len \<circ> snd) (bt_remove node (ta_grants s))) + set_len g =
      sum_list (map (set_len \<circ> snd) (ta_grants s))"
    and "(\<Union>e \<in> set (bt_remove node (ta_grants s)). members (snd e)) \<union> members g = held_chunks s"
    and "bt_ok (bt_remove node (ta_grants s))"
    and "\<forall>e \<in> set (bt_remove node (ta_grants s)). ranges_ok (snd e) \<and> snd e \<noteq> [] \<and> valid_node_id (fst e)"
proof -
  have bt: "bt_ok (ta_grants s)" using wp by (simp add: wf_partition_def)
  show "sum_list (map (set_len \<circ> snd) (bt_remove node (ta_grants s))) + set_len g =
      sum_list (map (set_len \<circ> snd) (ta_grants s))"
    using sum_list_bt_remove [OF bt, of set_len node] g by simp
  show "(\<Union>e \<in> set (bt_remove node (ta_grants s)). members (snd e)) \<union> members g = held_chunks s"
    using UN_bt_remove [OF bt, of members node] g by (simp add: held_chunks_def)
  show "bt_ok (bt_remove node (ta_grants s))" using bt by simp
  show "\<forall>e \<in> set (bt_remove node (ta_grants s)). ranges_ok (snd e) \<and> snd e \<noteq> [] \<and> valid_node_id (fst e)"
    using wp by (simp add: wf_partition_def set_bt_remove)
qed

lemma requeue_live_wf:
  assumes wf: "ta_wf s" and g: "map_of (ta_grants s) node = Some g" and live: "ta_stopped s = None"
  shows "ta_wf (snd (requeue_node node s))"
proof -
  have v: "validate (ta_spec s) = Inr ()" and wp: "wf_partition s" using wf by (simp_all add: ta_wf_def)
  note dn = drop_node [OF wp g] and gh = wf_held [OF wp g] and disj = wf_partition_disjoint [OF wp]
  have qok: "ranges_ok (ta_queued s)" using wp by (simp add: wf_partition_def)
  define s' where "s' = snd (requeue_node node s)"
  have s': "s' = s\<lparr>ta_grants := bt_remove node (ta_grants s),
      ta_attempts := bump_attempts (set_iter g) (ta_attempts s),
      ta_queued := extend_from (ta_queued s) g\<rparr>"
    using g live by (simp add: s'_def requeue_node_def Let_def bump_attempts_def)
  have q: "ranges_ok (extend_from (ta_queued s) g)"
      "members (extend_from (ta_queued s) g) = members (ta_queued s) \<union> members g"
    using qok gh(1) by (simp_all add: extend_from_ok extend_from_members)
  have "members (ta_queued s') \<union> held_chunks s' \<union> members (ta_done s') = {..<chunk_count (ta_spec s)}"
    using wp dn(2) by (auto simp: wf_partition_def s' q(2) held_chunks_def)
  then have "wf_partition s'"
    using wp dn q(1) set_len_extend_le [OF qok gh(1)]
    by (simp add: wf_partition_def s')
  moreover have "wf_attempts s'"
  proof -
    have "\<forall>c \<in> set (set_iter g). c < chunk_count (ta_spec s) \<and> c \<notin> members (ta_done s)"
      using gh(4) disj(3) wf_subsets(2) [OF wp] by (auto simp: set_iter_set)
    then show ?thesis
      using bump_attempts_keep [of "ta_attempts s" "\<lambda>c. c < chunk_count (ta_spec s) \<and> c \<notin> members (ta_done s)"]
        wf by (auto simp: ta_wf_def wf_attempts_def s')
  qed
  ultimately show ?thesis
    using wf live unfolding s'_def [symmetric]
    by (simp add: ta_wf_def s' wf_accepted_def wf_counts_def wf_failures_def wf_durations_def
        wf_retries_def accepted_list_def)
qed

lemma requeue_stopped_wf:
  assumes wf: "ta_wf s" and g: "map_of (ta_grants s) node = Some g" and st: "ta_stopped s \<noteq> None"
  shows "ta_wf (snd (requeue_node node s))"
proof -
  have v: "validate (ta_spec s) = Inr ()" and wp: "wf_partition s" and wc: "wf_counts s"
    using wf by (simp_all add: ta_wf_def)
  note dn = drop_node [OF wp g] and gh = wf_held [OF wp g] and disj = wf_partition_disjoint [OF wp]
  have dok: "ranges_ok (ta_done s)" using wp by (simp add: wf_partition_def)
  define s' where "s' = snd (requeue_node node s)"
  have s': "s' = s\<lparr>ta_grants := bt_remove node (ta_grants s),
      ta_not_run := add64 (ta_not_run s) (tasks_in (ta_spec s) g),
      ta_attempts := fold bt_remove (set_iter g) (ta_attempts s),
      ta_done := extend_from (ta_done s) g\<rparr>"
    using g st by (simp add: s'_def requeue_node_def Let_def)
  have d: "ranges_ok (extend_from (ta_done s) g)"
      "members (extend_from (ta_done s) g) = members (ta_done s) \<union> members g"
    using dok gh(1) by (simp_all add: extend_from_ok extend_from_members)
  have "members (ta_queued s') \<union> held_chunks s' \<union> members (ta_done s') = {..<chunk_count (ta_spec s)}"
    using wp dn(2) by (auto simp: wf_partition_def s' d(2) held_chunks_def)
  then have "wf_partition s'"
    using wp dn d(1) set_len_extend_le [OF dok gh(1)] by (simp add: wf_partition_def s')
  moreover have "wf_attempts s'"
    using wf by (auto simp: ta_wf_def wf_attempts_def s' d(2) forget_attempts set_iter_set)
  moreover have "wf_accepted s'"
    using wf d(2) gens_ok_mono [of "members (ta_done s)" "accepted_list s"]
    by (simp add: ta_wf_def wf_accepted_def s' accepted_list_def)
  moreover have "wf_counts s'"
    using retire_counts [OF v wp wc gh(1)] gh(4) disj(3) wf_subsets(2) [OF wp]
    by (auto simp: wf_counts_def s')
  moreover have "wf_failures s'" using wf d(2) by (auto simp: ta_wf_def wf_failures_def s')
  moreover have "wf_durations s'" using wf by (simp add: ta_wf_def wf_durations_def s')
  moreover have "wf_retries s'"
    using wf set_len_mono [OF dok d(1)] d(2)
    by (auto simp: ta_wf_def wf_retries_def s' intro: order_trans)
  ultimately show ?thesis using wf unfolding s'_def [symmetric] by (simp add: ta_wf_def s')
qed

lemma requeue_wf: "ta_wf s \<Longrightarrow> ta_wf (snd (requeue_node node s))"
  using requeue_live_wf requeue_stopped_wf
  by (cases "map_of (ta_grants s) node"; cases "ta_stopped s = None") (auto simp: requeue_node_def)

section \<open>Accepting a report keeps the invariant\<close>

lemma release_spec:
  assumes wp: "wf_partition s" and g: "map_of (ta_grants s) node = Some g" and c: "c \<in> members g"
  obtains G where "release node c s = s\<lparr>ta_grants := G\<rparr>" "bt_ok G"
    "\<forall>e \<in> set G. ranges_ok (snd e) \<and> snd e \<noteq> [] \<and> valid_node_id (fst e)"
    "sum_list (map (set_len \<circ> snd) G) + 1 = sum_list (map (set_len \<circ> snd) (ta_grants s))"
    "(\<Union>e \<in> set G. members (snd e)) \<union> {c} = held_chunks s"
proof -
  note gh = wf_held [OF wp g] and dn = drop_node [OF wp g]
  have bt: "bt_ok (ta_grants s)" using wp by (simp add: wf_partition_def)
  define h where "h = snd (remove_index c g)"
  have h: "ranges_ok h" "members h = members g - {c}"
    using remove_index_spec [OF gh(1), of c] by (simp_all add: h_def)
  have "card (members g) = card (members g - {c}) + 1" using card.remove [OF _ c] by simp
  then have len: "set_len h + 1 = set_len g" using h gh(1) by (simp add: set_len_card)
  show thesis
  proof (cases "h = []")
    case True
    then have "members g = {c}" using h(2) c by auto
    then show ?thesis
      using that [of "bt_remove node (ta_grants s)"] dn g True len
      by (simp add: release_def Let_def h_def is_empty_set_def)
  next
    case False
    let ?G = "bt_insert node h (ta_grants s)"
    have rel: "release node c s = s\<lparr>ta_grants := ?G\<rparr>"
      using g False by (simp add: release_def Let_def h_def is_empty_set_def)
    have sum: "sum_list (map (set_len \<circ> snd) ?G) + 1 = sum_list (map (set_len \<circ> snd) (ta_grants s))"
      using sum_list_bt_insert [OF bt, of set_len node h] g len by simp
    have "(\<Union>e \<in> set ?G. members (snd e)) \<union> members g = held_chunks s \<union> members h"
      using UN_bt_insert [OF bt, of members node h] g by (simp add: held_chunks_def)
    moreover have "members h \<subseteq> (\<Union>e \<in> set ?G. members (snd e))" by (auto simp: set_bt_insert [OF bt])
    ultimately have un: "(\<Union>e \<in> set ?G. members (snd e)) \<union> {c} = held_chunks s"
      using h(2) c gh(4) by blast
    have "\<forall>e \<in> set ?G. ranges_ok (snd e) \<and> snd e \<noteq> [] \<and> valid_node_id (fst e)"
      using wp gh(3) h(1) False by (auto simp: set_bt_insert [OF bt] wf_partition_def)
    then show ?thesis using that [OF rel _ _ sum un] bt by simp
  qed
qed

lemma accept_sum:
  fixes node :: "'k::linorder" and a :: nat and acc :: "('k \<times> (nat \<times> index_range_set) list) list"
  assumes bt: "bt_ok acc" and inner: "\<forall>e \<in> set acc. bt_ok (snd e)"
  defines "gens \<equiv> case map_of acc node of None \<Rightarrow> [] | Some g \<Rightarrow> g"
  defines "old \<equiv> case map_of gens a of None \<Rightarrow> [] | Some c \<Rightarrow> c"
  shows "bt_ok gens"
    and "sum_list (map (set_len \<circ> snd) (concat (map snd (bt_insert node (bt_insert a cs gens) acc)))) + set_len old =
      sum_list (map (set_len \<circ> snd) (concat (map snd acc))) + set_len cs"
proof -
  let ?f = "\<lambda>gens. sum_list (map (set_len \<circ> snd) gens)"
  show gens: "bt_ok gens"
    using inner bt_ok_get [OF bt, of node] by (force simp: gens_def split: option.splits)
  have cat: "sum_list (map (set_len \<circ> snd) (concat (map snd m))) = sum_list (map (?f \<circ> snd) m)"
    for m :: "('k \<times> (nat \<times> index_range_set) list) list"
    by (induction m) auto
  have "sum_list (map (?f \<circ> snd) (bt_insert node (bt_insert a cs gens) acc)) + ?f gens =
      sum_list (map (?f \<circ> snd) acc) + ?f (bt_insert a cs gens)"
    using sum_list_bt_insert [OF bt, of ?f node "bt_insert a cs gens"]
    by (auto simp: gens_def split: option.splits)
  moreover have "?f (bt_insert a cs gens) + set_len old = ?f gens + set_len cs"
    using sum_list_bt_insert [OF gens, of set_len a cs] by (auto simp: old_def split: option.splits)
  ultimately show "sum_list (map (set_len \<circ> snd) (concat (map snd (bt_insert node (bt_insert a cs gens) acc)))) + set_len old =
      sum_list (map (set_len \<circ> snd) (concat (map snd acc))) + set_len cs"
    unfolding cat by linarith
qed

lemma accept_union:
  fixes node :: "'k::linorder" and a :: nat and acc :: "('k \<times> (nat \<times> index_range_set) list) list"
  assumes bt: "bt_ok acc" and inner: "\<forall>e \<in> set acc. bt_ok (snd e)"
  defines "gens \<equiv> case map_of acc node of None \<Rightarrow> [] | Some g \<Rightarrow> g"
  defines "old \<equiv> case map_of gens a of None \<Rightarrow> [] | Some c \<Rightarrow> c"
  assumes grow: "members old \<subseteq> members cs"
  shows "(\<Union>g \<in> set (concat (map snd (bt_insert node (bt_insert a cs gens) acc))). members (snd g)) =
    (\<Union>g \<in> set (concat (map snd acc)). members (snd g)) \<union> members cs"
proof -
  let ?f = "\<lambda>gens. (\<Union>g \<in> set gens. members (snd g))"
  have gens: "bt_ok gens"
    using inner bt_ok_get [OF bt, of node] by (force simp: gens_def split: option.splits)
  have one: "?f (bt_insert a cs gens) = ?f gens \<union> members cs"
    using UN_bt_insert_grow [OF gens, of members a cs] grow by (auto simp: old_def split: option.splits)
  have "(case map_of acc node of None \<Rightarrow> {} | Some gens \<Rightarrow> ?f gens) \<subseteq> ?f (bt_insert a cs gens)"
    unfolding one by (auto simp: gens_def split: option.splits)
  note two = UN_bt_insert_grow [OF bt this]
  have "?f gens \<subseteq> (\<Union>e \<in> set acc. ?f (snd e))"
    using bt_ok_get [OF bt, of node] by (force simp: gens_def split: option.splits)
  then have "(\<Union>e \<in> set (bt_insert node (bt_insert a cs gens) acc). ?f (snd e)) =
      (\<Union>e \<in> set acc. ?f (snd e)) \<union> members cs"
    unfolding two one by blast
  then show ?thesis by simp
qed

lemma accept_chunk_wf:
  assumes wa: "wf_accepted s" and node: "valid_node_id node" and a: "0 < a"
    and c: "c \<le> u32_max" "c \<in> members (ta_done s)"
    and fresh: "c \<notin> (\<Union>g \<in> set (accepted_list s). members (snd g))"
  shows "wf_accepted (accept_chunk node a c s)"
proof -
  let ?acc = "ta_accepted s"
  define gens where "gens = (case map_of ?acc node of None \<Rightarrow> [] | Some g \<Rightarrow> g)"
  define old where "old = (case map_of gens a of None \<Rightarrow> [] | Some c \<Rightarrow> c)"
  define new where "new = snd (insert_index c old)"
  define acc' where "acc' = bt_insert node (bt_insert a new gens) ?acc"
  have s': "accept_chunk node a c s = s\<lparr>ta_accepted := acc'\<rparr>"
    unfolding accept_chunk_def Let_def acc'_def new_def old_def gens_def set_new_def ..
  have bt: "bt_ok ?acc" "\<forall>e \<in> set ?acc. bt_ok (snd e)" using wa by (auto simp: wf_accepted_def)
  have gens_bt: "bt_ok gens" using accept_sum(1) [OF bt, of node] by (simp add: gens_def)
  have gens_sub: "set gens \<subseteq> set (concat (map snd ?acc))"
    using bt_ok_get [OF bt(1), of node] by (force simp: gens_def split: option.splits)
  have "old = [] \<or> (a, old) \<in> set gens"
    using bt_ok_get [OF gens_bt, of a] by (auto simp: old_def split: option.splits)
  then have old: "old = [] \<or> (a, old) \<in> set (accepted_list s)"
    using gens_sub unfolding accepted_list_def set_append by blast
  have "\<forall>g \<in> set (accepted_list s). 0 < fst g \<and> snd g \<noteq> [] \<and> ranges_ok (snd g) \<and> members (snd g) \<subseteq> members (ta_done s)"
    and len: "sum_list (map (set_len \<circ> snd) (accepted_list s)) \<le> card (\<Union>g \<in> set (accepted_list s). members (snd g))"
    using wa by (simp_all add: wf_accepted_def gens_ok_def)
  note all = this(1)
  have old_ok: "ranges_ok old" "members old \<subseteq> members (ta_done s)" "c \<notin> members old"
    using old bspec [OF all, of "(a, old)"] fresh by force+
  have new: "ranges_ok new" "members new = insert c (members old)"
    using insert_index_spec [OF old_ok(1) c(1)] by (simp_all add: new_def)
  have new_len: "set_len new = set_len old + 1" "new \<noteq> []"
    using new old_ok by (auto simp: set_len_card)
  have list': "accepted_list (s\<lparr>ta_accepted := acc'\<rparr>) = concat (map snd acc') @ ta_accepted_folded s"
    by (simp add: accepted_list_def)
  have "sum_list (map (set_len \<circ> snd) (concat (map snd acc'))) =
      sum_list (map (set_len \<circ> snd) (concat (map snd ?acc))) + 1"
    using accept_sum(2) [OF bt, of node a new] new_len(1) unfolding acc'_def old_def gens_def by linarith
  then have sum': "sum_list (map (set_len \<circ> snd) (accepted_list (s\<lparr>ta_accepted := acc'\<rparr>))) =
      sum_list (map (set_len \<circ> snd) (accepted_list s)) + 1"
    unfolding list' by (simp add: accepted_list_def)
  have "(\<Union>g \<in> set (concat (map snd acc')). members (snd g)) =
      (\<Union>g \<in> set (concat (map snd ?acc)). members (snd g)) \<union> members new"
    using accept_union [OF bt, of node a new] new(2) unfolding acc'_def old_def gens_def by blast
  then have "(\<Union>g \<in> set (accepted_list (s\<lparr>ta_accepted := acc'\<rparr>)). members (snd g)) =
      (\<Union>g \<in> set (accepted_list s). members (snd g)) \<union> insert c (members old)"
    unfolding list' by (simp only: accepted_list_def set_append UN_Un new(2) Un_ac)
  moreover have "members old \<subseteq> (\<Union>g \<in> set (accepted_list s). members (snd g))" using old by force
  ultimately have un': "(\<Union>g \<in> set (accepted_list (s\<lparr>ta_accepted := acc'\<rparr>)). members (snd g)) =
      insert c (\<Union>g \<in> set (accepted_list s). members (snd g))" by blast
  have "set (concat (map snd acc')) \<subseteq> insert (a, new) (set (concat (map snd ?acc)))"
    using gens_sub by (auto simp: acc'_def set_bt_insert [OF bt(1)] set_bt_insert [OF gens_bt])
  then have sub: "set (accepted_list (s\<lparr>ta_accepted := acc'\<rparr>)) \<subseteq> insert (a, new) (set (accepted_list s))"
    unfolding list' unfolding accepted_list_def set_append by blast
  have "0 < fst (a, new) \<and> snd (a, new) \<noteq> [] \<and> ranges_ok (snd (a, new)) \<and> members (snd (a, new)) \<subseteq> members (ta_done s)"
    using a new new_len(2) old_ok(2) c(2) by simp
  then have "\<forall>g \<in> set (accepted_list (s\<lparr>ta_accepted := acc'\<rparr>)). 0 < fst g \<and> snd g \<noteq> [] \<and> ranges_ok (snd g) \<and>
      members (snd g) \<subseteq> members (ta_done s)"
    using all sub by blast
  then have "gens_ok (members (ta_done s)) (accepted_list (s\<lparr>ta_accepted := acc'\<rparr>))"
    using len fresh unfolding gens_ok_def sum' un' by simp
  moreover have "\<forall>e \<in> set acc'. valid_node_id (fst e) \<and> bt_ok (snd e)"
    using wa node gens_bt by (auto simp: acc'_def set_bt_insert [OF bt(1)] wf_accepted_def)
  ultimately show ?thesis using wa unfolding s' by (simp add: wf_accepted_def acc'_def)
qed

lemma fold_generations:
  assumes "bt_ok folded" and "\<forall>g \<in> set (gens @ folded). 0 < fst g \<and> snd g \<noteq> [] \<and> ranges_ok (snd g)"
  defines "folded' \<equiv> fold fold_generation gens folded"
  shows "bt_ok folded'" and "\<forall>g \<in> set folded'. 0 < fst g \<and> snd g \<noteq> [] \<and> ranges_ok (snd g)"
    and "(\<Union>g \<in> set folded'. members (snd g)) = (\<Union>g \<in> set (gens @ folded). members (snd g))"
    and "sum_list (map (set_len \<circ> snd) folded') \<le> sum_list (map (set_len \<circ> snd) (gens @ folded))"
proof -
  have "bt_ok folded' \<and> (\<forall>g \<in> set folded'. 0 < fst g \<and> snd g \<noteq> [] \<and> ranges_ok (snd g)) \<and>
    (\<Union>g \<in> set folded'. members (snd g)) = (\<Union>g \<in> set (gens @ folded). members (snd g)) \<and>
    sum_list (map (set_len \<circ> snd) folded') \<le> sum_list (map (set_len \<circ> snd) (gens @ folded))"
    using assms(1,2) unfolding folded'_def
  proof (induction gens arbitrary: folded)
    case Nil
    then show ?case by simp
  next
    case (Cons g gens)
    let ?old = "case map_of folded (fst g) of None \<Rightarrow> [] | Some c \<Rightarrow> c"
    let ?new = "extend_from ?old (snd g)"
    let ?f = "bt_insert (fst g) ?new folded"
    have fg: "fold_generation g folded = ?f" unfolding fold_generation_def set_new_def ..
    have g: "0 < fst g" "snd g \<noteq> []" "ranges_ok (snd g)" using Cons.prems(2) by simp_all
    have old: "ranges_ok ?old"
      using Cons.prems(2) bt_ok_get [OF Cons.prems(1), of "fst g"] by (force split: option.splits)
    have new: "ranges_ok ?new" "members ?new = members ?old \<union> members (snd g)"
      using old g(3) by (simp_all add: extend_from_ok extend_from_members)
    have "members ?new \<noteq> {}" using members_empty_iff [OF g(3)] g(2) new(2) by blast
    then have ne: "?new \<noteq> []" using members_empty_iff [OF new(1)] by blast
    have "(case map_of folded (fst g) of None \<Rightarrow> {} | Some c \<Rightarrow> members c) \<subseteq> members ?new"
      unfolding new(2) by (cases "map_of folded (fst g)") simp_all
    note un = UN_bt_insert_grow [OF Cons.prems(1), of members "fst g" ?new, OF this]
    have old_sub: "members ?old \<subseteq> (\<Union>e \<in> set folded. members (snd e))"
      using UN_bt_remove [OF Cons.prems(1), of members "fst g"] by (cases "map_of folded (fst g)") auto
    have shuffle: "A \<union> (F \<union> (O' \<union> G)) = G \<union> (A \<union> F)" if "O' \<subseteq> F" for A F O' G :: "nat set"
      using that by blast
    have un': "(\<Union>e \<in> set (gens @ ?f). members (snd e)) = (\<Union>e \<in> set ((g # gens) @ folded). members (snd e))"
      unfolding append_Cons list.set(2) set_append UN_insert UN_Un un new(2) by (rule shuffle [OF old_sub])
    have "sum_list (map (set_len \<circ> snd) ?f) + set_len ?old = sum_list (map (set_len \<circ> snd) folded) + set_len ?new"
      using sum_list_bt_insert [OF Cons.prems(1), of set_len "fst g" ?new] by (simp split: option.splits)
    then have sum': "sum_list (map (set_len \<circ> snd) (gens @ ?f)) \<le> sum_list (map (set_len \<circ> snd) ((g # gens) @ folded))"
      using set_len_extend_le [OF old g(3)] by simp
    have "\<forall>e \<in> set (gens @ ?f). 0 < fst e \<and> snd e \<noteq> [] \<and> ranges_ok (snd e)"
      using Cons.prems(2) g(1) new(1) ne by (auto simp: set_bt_insert [OF Cons.prems(1)])
    note step = Cons.IH [OF bt_ok_insert [OF Cons.prems(1)] this]
    have eq: "fold fold_generation (g # gens) folded = fold fold_generation gens ?f" by (simp add: fg)
    show ?case unfolding eq using step sum' unfolding un' by linarith
  qed
  then show "bt_ok folded'" "\<forall>g \<in> set folded'. 0 < fst g \<and> snd g \<noteq> [] \<and> ranges_ok (snd g)"
    "(\<Union>g \<in> set folded'. members (snd g)) = (\<Union>g \<in> set (gens @ folded). members (snd g))"
    "sum_list (map (set_len \<circ> snd) folded') \<le> sum_list (map (set_len \<circ> snd) (gens @ folded))"
    by blast+
qed

lemma fold_nested: "fold (\<lambda>(_, gens) acc. fold f gens acc) xs acc = fold f (concat (map snd xs)) acc"
  by (induction xs arbitrary: acc) auto

lemma fold_accepted_wf:
  assumes wa: "wf_accepted s"
  shows "wf_accepted (fold_accepted_when_full s)"
proof (cases "sum_list (map range_count (map snd (concat (map snd (ta_accepted s))))) \<le> MAX_ACCEPTED_RANGES")
  case True
  then show ?thesis using wa by (simp add: fold_accepted_when_full_def)
next
  case False
  let ?gens = "concat (map snd (ta_accepted s))" and ?D = "members (ta_done s)"
  let ?folded = "fold fold_generation ?gens (ta_accepted_folded s)"
  have s': "fold_accepted_when_full s = s\<lparr>ta_accepted := [], ta_accepted_folded := ?folded\<rparr>"
    using False by (simp add: fold_accepted_when_full_def fold_nested)
  have gens: "gens_ok ?D (?gens @ ta_accepted_folded s)" and bt: "bt_ok (ta_accepted_folded s)"
    using wa by (simp_all add: wf_accepted_def accepted_list_def)
  have "\<forall>g \<in> set (?gens @ ta_accepted_folded s). 0 < fst g \<and> snd g \<noteq> [] \<and> ranges_ok (snd g)"
    using gens unfolding gens_ok_def by blast
  note fg = fold_generations [OF bt this]
  have "(\<Union>g \<in> set ?folded. members (snd g)) \<subseteq> ?D" using gens unfolding gens_ok_def fg(3) by blast
  then have "\<forall>g \<in> set ?folded. 0 < fst g \<and> snd g \<noteq> [] \<and> ranges_ok (snd g) \<and> members (snd g) \<subseteq> ?D"
    using fg(2) by blast
  moreover have "sum_list (map (set_len \<circ> snd) ?folded) \<le> card (\<Union>g \<in> set ?folded. members (snd g))"
    using gens fg(4) unfolding gens_ok_def fg(3) by linarith
  ultimately have "gens_ok ?D ?folded" by (simp add: gens_ok_def)
  then show ?thesis using fg(1) by (simp add: wf_accepted_def s' accepted_list_def)
qed

lemma range_count_insert: "ranges_ok s \<Longrightarrow> i \<le> j \<Longrightarrow> range_count (insert_range i j s) \<le> range_count s + 1"
  by (erule (1) insert_range_shape) (simp add: range_count_def)

lemma record_failures_spec:
  assumes "ranges_ok (ta_failed_indices s)" and "ranges_ok rs"
    and "members rs \<inter> members (ta_failed_indices s) = {}"
    and "range_count (ta_failed_indices s) \<le> MAX_FAILED_RANGES"
    and "set_len (ta_failed_indices s) + ta_failed_overflow s + set_len rs \<le> u64_max"
  obtains fi ov where "record_failures rs s = s\<lparr>ta_failed_indices := fi, ta_failed_overflow := ov\<rparr>"
    "ranges_ok fi" "members fi \<subseteq> members (ta_failed_indices s) \<union> members rs"
    "range_count fi \<le> MAX_FAILED_RANGES"
    "set_len fi + ov = set_len (ta_failed_indices s) + ta_failed_overflow s + set_len rs"
  using assms
proof (induction rs arbitrary: s thesis)
  case Nil
  show ?case
    by (rule Nil(1) [where fi = "ta_failed_indices s" and ov = "ta_failed_overflow s"]) (use Nil(2-) in auto)
next
  case (Cons r rs)
  obtain a b where r: "r = (a, b)" by force
  let ?fi = "ta_failed_indices s"
  define s' where "s' = (if range_count ?fi \<ge> MAX_FAILED_RANGES
    then s\<lparr>ta_failed_overflow := add64 (ta_failed_overflow s) ((b - a) + 1)\<rparr>
    else s\<lparr>ta_failed_indices := insert_range a b ?fi\<rparr>)"
  have ok: "a \<le> b" "b \<le> u32_max" "ranges_ok rs" using Cons.prems(3) by (auto simp: r ranges_ok_Cons)
  have apart: "{a..b} \<inter> members rs = {}" using members_disjoint_Cons [OF Cons.prems(3)] by (simp add: r)
  have ins: "ranges_ok (insert_range a b ?fi)" "members (insert_range a b ?fi) = members ?fi \<union> {a..b}"
    using Cons.prems(2) ok by (simp_all add: insert_range_ok insert_range_members)
  have "card (members ?fi \<union> {a..b}) = card (members ?fi) + card {a..b}"
    using Cons.prems(4) by (intro card_Un_disjoint) (auto simp: r)
  then have ins_len: "set_len (insert_range a b ?fi) = set_len ?fi + (b - a + 1)"
    using ins Cons.prems(2) ok(1) by (simp add: set_len_card)
  have s'_fi: "ranges_ok (ta_failed_indices s')" "members (ta_failed_indices s') \<subseteq> members ?fi \<union> {a..b}"
    using ins Cons.prems(2) by (auto simp: s'_def)
  have s'_len: "set_len (ta_failed_indices s') + ta_failed_overflow s' = set_len ?fi + ta_failed_overflow s + (b - a + 1)"
    using ins_len Cons.prems(6) by (auto simp: s'_def r add64_exact)
  have s'_count: "range_count (ta_failed_indices s') \<le> MAX_FAILED_RANGES"
    using range_count_insert [OF Cons.prems(2) ok(1)] Cons.prems(5) by (auto simp: s'_def)
  have "members rs \<inter> members (ta_failed_indices s') = {}"
    using s'_fi(2) apart Cons.prems(4) by (auto simp: r)
  moreover have "set_len (ta_failed_indices s') + ta_failed_overflow s' + set_len rs \<le> u64_max"
    using s'_len Cons.prems(6) by (simp add: r)
  ultimately obtain fi ov where rf: "record_failures rs s' = s'\<lparr>ta_failed_indices := fi, ta_failed_overflow := ov\<rparr>"
    and fi: "ranges_ok fi" "members fi \<subseteq> members (ta_failed_indices s') \<union> members rs"
      "range_count fi \<le> MAX_FAILED_RANGES"
      "set_len fi + ov = set_len (ta_failed_indices s') + ta_failed_overflow s' + set_len rs"
    using Cons.IH [of s', OF _ s'_fi(1) ok(3) _ s'_count] by blast
  have "s'\<lparr>ta_failed_indices := fi, ta_failed_overflow := ov\<rparr> = s\<lparr>ta_failed_indices := fi, ta_failed_overflow := ov\<rparr>"
    by (simp add: s'_def)
  then have "record_failures (r # rs) s = s\<lparr>ta_failed_indices := fi, ta_failed_overflow := ov\<rparr>"
    using rf by (simp add: r s'_def)
  moreover have "members fi \<subseteq> members ?fi \<union> members (r # rs)" using fi(2) s'_fi(2) by (auto simp: r)
  moreover have "set_len fi + ov = set_len ?fi + ta_failed_overflow s + set_len (r # rs)"
    using fi(4) s'_len by (simp add: r)
  ultimately show ?case using Cons.prems(1) fi(1,3) by blast
qed

lemma decay_recent_le: "list_all2 (\<le>) (decay_recent xs) xs"
proof (induction xs rule: decay_recent.induct)
  case (1 xs)
  have half: "list_all2 (\<le>) (map (\<lambda>c. c div 2) xs) xs"
    by (induction xs) auto
  show ?case
  proof (cases "sum64 xs > RECENT_DURATION_SAMPLES")
    case True
    then have "list_all2 (\<le>) (decay_recent xs) (map (\<lambda>c. c div 2) xs)"
      using 1 by (subst decay_recent.simps) simp
    then show ?thesis using half by (rule list_all2_trans [rotated 1]) auto
  next
    case False
    then show ?thesis by (subst decay_recent.simps) (simp add: list_all2_same)
  qed
qed

lemma rc_total_Some:
  "rc_total c = Some n \<longleftrightarrow> n = rc_sum c \<and> rc_sum c \<le> u64_max"
  by (auto simp: rc_total_def rc_sum_def checked_add64_def split: if_splits)

lemma rc_add_sum:
  assumes "rc_sum a + rc_sum b \<le> u64_max"
  shows "rc_sum (rc_add a b) = rc_sum a + rc_sum b"
  using assms by (simp add: rc_sum_def rc_add_def sat_add64_exact)

text \<open>The facts a report has established once every check of \<open>complete\<close> has passed.\<close>

lemma complete_Applied:
  assumes wf: "ta_wf s" and r: "result_typed r" and c: "complete node r s = Inr (Applied, s')"
  obtains g first final where "s' = apply_result node r s"
    "chunk_range (ta_spec s) (cr_chunk r) = Some (first, final)" "cr_chunk r \<notin> members (ta_done s)"
    "map_of (ta_grants s) node = Some g" "cr_chunk r \<in> members g"
    "cr_attempt r = attempt_of s (cr_chunk r)"
    "cr_succeeded r + cr_failed_count r + cr_not_run r = final - first + 1"
    "set_len (cr_failed_indices r) \<le> cr_failed_count r" "members (cr_failed_indices r) \<subseteq> {first..final}"
    "rc_sum (cr_retry_causes r) = cr_retried r"
proof -
  have dok: "ranges_ok (ta_done s)" and wp: "wf_partition s" using wf by (simp_all add: ta_wf_def wf_partition_def)
  note c = c [unfolded complete_def Let_def]
  obtain first final where range: "chunk_range (ta_spec s) (cr_chunk r) = Some (first, final)"
    using c by (auto split: option.splits)
  note c = c [unfolded range option.case prod.case]
  have fresh: "cr_chunk r \<notin> members (ta_done s)"
    using c by (auto simp: contains_members [OF dok] split: if_splits)
  obtain g where g: "map_of (ta_grants s) node = Some g" "contains g (cr_chunk r)"
    using c by (cases "map_of (ta_grants s) node") (auto split: if_splits)
  have held: "cr_chunk r \<in> members g" using g(2) contains_members [OF wf_held(1) [OF wp g(1)]] by simp
  have inside: "\<not> list_ex (\<lambda>(a, b). a < first \<or> b > final) (cr_failed_indices r)"
    using c by (auto split: if_splits)
  have "members rs \<subseteq> {first..final}" if "\<not> list_ex (\<lambda>(a, b). a < first \<or> b > final) rs" for rs
    using that by (induction rs) auto
  note sub = this [OF inside]
  have causes: "(case rc_total (cr_retry_causes r) of None \<Rightarrow> u64_max | Some n \<Rightarrow> n) = cr_retried r"
    using c by (auto split: if_splits)
  have "rc_sum (cr_retry_causes r) = cr_retried r"
    using causes r by (cases "rc_total (cr_retry_causes r)") (auto simp: rc_total_Some result_typed_def)
  moreover have "s' = apply_result node r s" "cr_attempt r = attempt_of s (cr_chunk r)"
    "cr_succeeded r + cr_failed_count r + cr_not_run r = final - first + 1"
    "set_len (cr_failed_indices r) \<le> cr_failed_count r"
    using c by (auto split: if_splits)
  ultimately show thesis using that [OF _ range fresh g(1) held _ _ _ sub] by blast
qed

text \<open>Retiring the reported chunk: its release, its attempt entry and the retired set.\<close>

lemma retire_chunk:
  assumes wf: "ta_wf s" and g: "map_of (ta_grants s) node = Some g" and held: "c \<in> members g"
  obtains G where "release node c s = s\<lparr>ta_grants := G\<rparr>"
    "wf_partition (s\<lparr>ta_grants := G, ta_attempts := bt_remove c (ta_attempts s),
       ta_done := snd (insert_index c (ta_done s))\<rparr>)"
    "wf_attempts (s\<lparr>ta_grants := G, ta_attempts := bt_remove c (ta_attempts s),
       ta_done := snd (insert_index c (ta_done s))\<rparr>)"
proof -
  have wp: "wf_partition s" and wa: "wf_attempts s" and v: "validate (ta_spec s) = Inr ()"
    using wf by (simp_all add: ta_wf_def)
  have dok: "ranges_ok (ta_done s)" using wp by (simp add: wf_partition_def)
  have "c < chunk_count (ta_spec s)" using held wf_held(4) [OF wp g] wf_subsets(2) [OF wp] by auto
  then have c: "c \<le> u32_max" using validate_bounds(5) [OF v] by simp
  have fresh: "c \<notin> members (ta_done s)" using held wf_held(4) [OF wp g] wf_partition_disjoint(3) [OF wp] by auto
  note ins = insert_index_spec [OF dok c]
  have len: "set_len (snd (insert_index c (ta_done s))) = set_len (ta_done s) + 1"
    using ins dok fresh by (simp add: set_len_card)
  obtain G where G: "release node c s = s\<lparr>ta_grants := G\<rparr>" "bt_ok G"
    "\<forall>e \<in> set G. ranges_ok (snd e) \<and> snd e \<noteq> [] \<and> valid_node_id (fst e)"
    "sum_list (map (set_len \<circ> snd) G) + 1 = sum_list (map (set_len \<circ> snd) (ta_grants s))"
    "(\<Union>e \<in> set G. members (snd e)) \<union> {c} = held_chunks s"
    using release_spec [OF wp g held] .
  have "members (ta_queued s) \<union> (\<Union>e \<in> set G. members (snd e)) \<union> insert c (members (ta_done s)) = {..<chunk_count (ta_spec s)}"
    using wp G(5) unfolding wf_partition_def by blast
  then have "wf_partition (s\<lparr>ta_grants := G, ta_attempts := bt_remove c (ta_attempts s),
       ta_done := snd (insert_index c (ta_done s))\<rparr>)"
    using wp G(2-4) ins(1,2) len by (simp add: wf_partition_def held_chunks_def)
  moreover have "wf_attempts (s\<lparr>ta_grants := G, ta_attempts := bt_remove c (ta_attempts s),
       ta_done := snd (insert_index c (ta_done s))\<rparr>)"
    using wa ins(2) by (auto simp: wf_attempts_def set_bt_remove)
  ultimately show thesis using that G(1) by blast
qed

lemma accept_fields:
  obtains acc fol where "fold_accepted_when_full (accept_chunk node a c s) =
    s\<lparr>ta_accepted := acc, ta_accepted_folded := fol\<rparr>"
proof -
  let ?s' = "fold_accepted_when_full (accept_chunk node a c s)"
  have "?s' = s\<lparr>ta_accepted := ta_accepted ?s', ta_accepted_folded := ta_accepted_folded ?s'\<rparr>"
    by (rule task_array_state.equality; simp add: accept_chunk_def fold_accepted_when_full_def Let_def)
  then show thesis by (rule that)
qed

lemma wf_accepted_cong:
  "ta_accepted s' = ta_accepted s \<Longrightarrow> ta_accepted_folded s' = ta_accepted_folded s \<Longrightarrow>
   ta_done s' = ta_done s \<Longrightarrow> wf_accepted s' = wf_accepted s"
  by (simp add: wf_accepted_def accepted_list_def)

lemma wf_partition_cong:
  "ta_spec s' = ta_spec s \<Longrightarrow> ta_queued s' = ta_queued s \<Longrightarrow> ta_grants s' = ta_grants s \<Longrightarrow>
   ta_done s' = ta_done s \<Longrightarrow> wf_partition s' = wf_partition s"
  by (simp add: wf_partition_def held_chunks_def)

lemma wf_attempts_cong:
  "ta_spec s' = ta_spec s \<Longrightarrow> ta_attempts s' = ta_attempts s \<Longrightarrow> ta_done s' = ta_done s \<Longrightarrow>
   wf_attempts s' = wf_attempts s"
  by (simp add: wf_attempts_def)

text \<open>An existing failed index and one of a chunk that is not yet done are different.\<close>

lemma failures_apart:
  assumes wf: "ta_wf s" and range: "chunk_range (ta_spec s) c = Some (first, final)"
    and fresh: "c \<notin> members (ta_done s)" and fs: "members fs \<subseteq> {first..final}"
  shows "members fs \<inter> members (ta_failed_indices s) = {}"
    and "\<forall>i \<in> members fs. chunk_of (ta_spec s) i = Some c"
proof -
  have v: "validate (ta_spec s) = Inr ()" using wf by (simp add: ta_wf_def)
  show of_c: "\<forall>i \<in> members fs. chunk_of (ta_spec s) i = Some c"
    using chunk_of_iff_range [OF v] range fs by fastforce
  have "\<forall>i \<in> members (ta_failed_indices s). \<exists>d \<in> members (ta_done s). chunk_of (ta_spec s) i = Some d"
    using wf by (simp add: ta_wf_def wf_failures_def)
  then show "members fs \<inter> members (ta_failed_indices s) = {}" using of_c fresh by fastforce
qed

lemma apply_durations:
  assumes wf: "ta_wf s" and typed: "result_typed r" and fit: "durations_fit r"
    and small: "cr_succeeded r + cr_failed_count r \<le> 65536"
  shows "length (map2 add64 (ta_duration_counts s) (cr_duration_counts r)) = 16"
    "length (decay_recent (map2 add64 (ta_recent_duration_counts s) (cr_duration_counts r))) = 16"
    "sum_list (map2 add64 (ta_duration_counts s) (cr_duration_counts r)) \<le>
      ta_succeeded s + ta_failed s + (cr_succeeded r + cr_failed_count r)"
    "list_all2 (\<le>) (decay_recent (map2 add64 (ta_recent_duration_counts s) (cr_duration_counts r)))
      (map2 add64 (ta_duration_counts s) (cr_duration_counts r))"
proof -
  let ?d = "ta_duration_counts s" and ?e = "ta_recent_duration_counts s" and ?r = "cr_duration_counts r"
  have len: "length ?d = 16" "length ?e = 16" "length ?r = 16"
    and le: "sum_list ?d \<le> ta_succeeded s + ta_failed s" "list_all2 (\<le>) ?e ?d"
    using wf typed by (simp_all add: ta_wf_def wf_durations_def result_typed_def)
  have r: "sum_list ?r \<le> cr_succeeded r + cr_failed_count r" using fit by (simp add: durations_fit_def)
  have bound: "sum_list ?d + sum_list ?r \<le> u64_max"
    using le(1) r small wf_counts_le [OF wf] by linarith
  have d: "map2 add64 ?d ?r = map2 (+) ?d ?r" using len bound by (simp add: map2_add64_exact)
  have e: "map2 add64 ?e ?r = map2 (+) ?e ?r"
    using len bound list_all2_le_sum [OF le(2)] by (simp add: map2_add64_exact)
  show "length (map2 add64 ?d ?r) = 16" using len by simp
  show "length (decay_recent (map2 add64 ?e ?r)) = 16"
    using len list_all2_lengthD [OF decay_recent_le] by simp
  show "sum_list (map2 add64 ?d ?r) \<le> ta_succeeded s + ta_failed s + (cr_succeeded r + cr_failed_count r)"
    unfolding d using len le(1) r by (simp add: sum_list_map2_add)
  have "list_all2 (\<le>) (map2 add64 ?e ?r) (map2 add64 ?d ?r)"
    unfolding d e using le(2) len by (simp add: list_all2_map2_add)
  then show "list_all2 (\<le>) (decay_recent (map2 add64 ?e ?r)) (map2 add64 ?d ?r)"
    using list_all2_trans [of "(\<le>)" "(\<le>)" "(\<le>)", OF _ decay_recent_le] by force
qed

lemma apply_retries:
  assumes wf: "ta_wf s" and typed: "result_typed r" and causes: "rc_sum (cr_retry_causes r) = cr_retried r"
  shows "rc_sum (rc_add (ta_retry_causes s) (cr_retry_causes r)) = ta_retried s + cr_retried r"
    and "add64 (ta_retried s) (cr_retried r) = ta_retried s + cr_retried r"
    and "ta_retried s + cr_retried r \<le> (set_len (ta_done s) + 1) * u32_max"
proof -
  have v: "validate (ta_spec s) = Inr ()" and wp: "wf_partition s" and wr: "wf_retries s"
    using wf by (simp_all add: ta_wf_def)
  have "set_len (ta_done s) \<le> chunk_count (ta_spec s)" using wp by (simp add: wf_partition_def)
  then have "set_len (ta_done s) \<le> 65536" using validate_bounds(5) [OF v] by simp
  then have "set_len (ta_done s) * u32_max \<le> 65536 * u32_max" by (rule mult_le_mono1)
  moreover have r: "cr_retried r \<le> u32_max" using typed by (simp add: result_typed_def)
  ultimately have bound: "ta_retried s + cr_retried r \<le> u64_max"
    using wr unfolding wf_retries_def by linarith
  show "rc_sum (rc_add (ta_retry_causes s) (cr_retry_causes r)) = ta_retried s + cr_retried r"
    using rc_add_sum [of "ta_retry_causes s" "cr_retry_causes r"] wr causes bound
    by (simp add: wf_retries_def)
  show "add64 (ta_retried s) (cr_retried r) = ta_retried s + cr_retried r"
    using bound by (rule add64_exact)
  show "ta_retried s + cr_retried r \<le> (set_len (ta_done s) + 1) * u32_max"
    using wr r by (simp add: wf_retries_def)
qed

lemma apply_result_shape:
  assumes wf: "ta_wf s" and typed: "result_typed r" and c: "complete node r s = Inr (Applied, s')"
  obtains G acc fol fi ov t where
    "t = s\<lparr>ta_grants := G, ta_attempts := bt_remove (cr_chunk r) (ta_attempts s),
       ta_done := snd (insert_index (cr_chunk r) (ta_done s)), ta_accepted := acc, ta_accepted_folded := fol,
       ta_duration_counts := map2 add64 (ta_duration_counts s) (cr_duration_counts r),
       ta_recent_duration_counts :=
         decay_recent (map2 add64 (ta_recent_duration_counts s) (cr_duration_counts r)),
       ta_succeeded := add64 (ta_succeeded s) (cr_succeeded r),
       ta_failed := add64 (ta_failed s) (cr_failed_count r),
       ta_not_run := add64 (ta_not_run s) (cr_not_run r),
       ta_retried := add64 (ta_retried s) (cr_retried r),
       ta_retry_causes := rc_add (ta_retry_causes s) (cr_retry_causes r),
       ta_failed_indices := fi,
       ta_failed_overflow := add64 ov (cr_failed_count r - set_len (cr_failed_indices r))\<rparr>"
    "s' = t \<or> s' = stop StopTooManyFailures t"
    "wf_partition t" "wf_attempts t" "wf_accepted t"
    "ranges_ok fi" "members fi \<subseteq> members (ta_failed_indices s) \<union> members (cr_failed_indices r)"
    "range_count fi \<le> MAX_FAILED_RANGES"
    "set_len fi + ov = ta_failed s + set_len (cr_failed_indices r)"
proof -
  have v: "validate (ta_spec s) = Inr ()" and wp: "wf_partition s" using wf by (simp_all add: ta_wf_def)
  obtain g first final where ap: "s' = apply_result node r s"
    "chunk_range (ta_spec s) (cr_chunk r) = Some (first, final)" "cr_chunk r \<notin> members (ta_done s)"
    "map_of (ta_grants s) node = Some g" "cr_chunk r \<in> members g" "cr_attempt r = attempt_of s (cr_chunk r)"
    "members (cr_failed_indices r) \<subseteq> {first..final}"
    by (rule complete_Applied [OF wf typed c])
  obtain G where G: "release node (cr_chunk r) s = s\<lparr>ta_grants := G\<rparr>"
    "wf_partition (s\<lparr>ta_grants := G, ta_attempts := bt_remove (cr_chunk r) (ta_attempts s),
       ta_done := snd (insert_index (cr_chunk r) (ta_done s))\<rparr>)"
    "wf_attempts (s\<lparr>ta_grants := G, ta_attempts := bt_remove (cr_chunk r) (ta_attempts s),
       ta_done := snd (insert_index (cr_chunk r) (ta_done s))\<rparr>)"
    by (rule retire_chunk [OF wf ap(4,5)])
  let ?s2 = "s\<lparr>ta_grants := G, ta_attempts := bt_remove (cr_chunk r) (ta_attempts s),
       ta_done := snd (insert_index (cr_chunk r) (ta_done s))\<rparr>"
  obtain acc fol where s3: "fold_accepted_when_full (accept_chunk node (cr_attempt r) (cr_chunk r) ?s2) =
      ?s2\<lparr>ta_accepted := acc, ta_accepted_folded := fol\<rparr>"
    by (rule accept_fields)
  have dok: "ranges_ok (ta_done s)" using wp by (simp add: wf_partition_def)
  have c32: "cr_chunk r \<le> u32_max" using typed by (simp add: result_typed_def)
  note ins = insert_index_spec [OF dok c32]
  have attempt: "0 < cr_attempt r"
    using wf bt_ok_get [of "ta_attempts s" "cr_chunk r"]
    by (force simp: ap(6) attempt_of_def ta_wf_def wf_attempts_def split: option.splits)
  have "wf_accepted s" using wf by (simp add: ta_wf_def)
  then have acc2: "wf_accepted ?s2"
    using ins(2) gens_ok_mono [of "members (ta_done s)" "accepted_list s"]
    by (auto simp: wf_accepted_def accepted_list_def)
  have "(\<Union>g \<in> set (accepted_list s). members (snd g)) \<subseteq> members (ta_done s)"
    using \<open>wf_accepted s\<close> unfolding wf_accepted_def gens_ok_def by blast
  moreover have "accepted_list ?s2 = accepted_list s" by (simp add: accepted_list_def)
  ultimately have unseen: "cr_chunk r \<notin> (\<Union>g \<in> set (accepted_list ?s2). members (snd g))" using ap(3) by auto
  have "wf_accepted (?s2\<lparr>ta_accepted := acc, ta_accepted_folded := fol\<rparr>)"
    unfolding s3 [symmetric]
    by (intro fold_accepted_wf accept_chunk_wf acc2 wf_held(3) [OF wp ap(4)] attempt c32 unseen) (simp add: ins(2))
  note acc3 = this
  define s4 where "s4 = ?s2\<lparr>ta_accepted := acc, ta_accepted_folded := fol,
       ta_duration_counts := map2 add64 (ta_duration_counts s) (cr_duration_counts r),
       ta_recent_duration_counts :=
         decay_recent (map2 add64 (ta_recent_duration_counts s) (cr_duration_counts r)),
       ta_succeeded := add64 (ta_succeeded s) (cr_succeeded r),
       ta_failed := add64 (ta_failed s) (cr_failed_count r),
       ta_not_run := add64 (ta_not_run s) (cr_not_run r),
       ta_retried := add64 (ta_retried s) (cr_retried r),
       ta_retry_causes := rc_add (ta_retry_causes s) (cr_retry_causes r)\<rparr>"
  have wfail: "wf_failures s" using wf by (simp add: ta_wf_def)
  have fok: "ranges_ok (cr_failed_indices r)" using typed by (simp add: result_typed_def)
  have sum_le: "set_len (ta_failed_indices s) + ta_failed_overflow s + set_len (cr_failed_indices r) \<le> u64_max"
    using wfail wf_counts_le [OF wf] set_len_bound [OF fok] by (simp add: wf_failures_def)
  obtain fi ov where rf: "record_failures (cr_failed_indices r) s4 = s4\<lparr>ta_failed_indices := fi, ta_failed_overflow := ov\<rparr>"
    and fi: "ranges_ok fi" "members fi \<subseteq> members (ta_failed_indices s4) \<union> members (cr_failed_indices r)"
      "range_count fi \<le> MAX_FAILED_RANGES"
      "set_len fi + ov = set_len (ta_failed_indices s4) + ta_failed_overflow s4 + set_len (cr_failed_indices r)"
    by (rule record_failures_spec [of s4 "cr_failed_indices r"])
      (use wfail fok sum_le failures_apart(1) [OF wf ap(2,3,7)] in \<open>auto simp: s4_def wf_failures_def\<close>)
  let ?t = "s4\<lparr>ta_failed_indices := fi,
    ta_failed_overflow := add64 ov (cr_failed_count r - set_len (cr_failed_indices r))\<rparr>"
  have s1_fields: "ta_attempts (s\<lparr>ta_grants := G\<rparr>) = ta_attempts s" "ta_done (s\<lparr>ta_grants := G\<rparr>) = ta_done s"
    by simp_all
  let ?s3 = "?s2\<lparr>ta_accepted := acc, ta_accepted_folded := fol\<rparr>"
  have s3_fields: "ta_duration_counts ?s3 = ta_duration_counts s"
    "ta_recent_duration_counts ?s3 = ta_recent_duration_counts s" "ta_succeeded ?s3 = ta_succeeded s"
    "ta_failed ?s3 = ta_failed s" "ta_not_run ?s3 = ta_not_run s" "ta_retried ?s3 = ta_retried s"
    "ta_retry_causes ?s3 = ta_retry_causes s"
    by simp_all
  have "apply_result node r s = (case max_failed_indexes (ta_spec ?t) of
      Some limit \<Rightarrow> if ta_failed ?t > limit then stop StopTooManyFailures ?t else ?t | None \<Rightarrow> ?t)"
    by (simp only: apply_result_def Let_def G(1) s1_fields s3 s3_fields s4_def [symmetric] rf)
      (simp split: option.splits)
  then have s': "s' = ?t \<or> s' = stop StopTooManyFailures ?t"
    using ap(1) by (auto split: option.splits if_splits)
  show thesis
  proof (rule that [where t = ?t and G = G and acc = acc and fol = fol and fi = fi and ov = ov])
    show "wf_partition ?t" using G(2) by (simp add: s4_def wf_partition_def held_chunks_def)
    show "wf_attempts ?t" using G(3) by (simp add: s4_def wf_attempts_def)
    show "wf_accepted ?t" using acc3 by (simp add: s4_def wf_accepted_def accepted_list_def)
    show "set_len fi + ov = ta_failed s + set_len (cr_failed_indices r)"
      using fi(4) wfail by (simp add: s4_def wf_failures_def)
  qed (use fi s' in \<open>simp_all add: s4_def\<close>)
qed

lemma complete_wf:
  assumes wf: "ta_wf s" and typed: "result_typed r" and fit: "durations_fit r"
    and c: "complete node r s = Inr (Applied, s')"
  shows "ta_wf s'"
proof -
  let ?c = "cr_chunk r"
  have v: "validate (ta_spec s) = Inr ()" and wp: "wf_partition s" and wc: "wf_counts s" and wfail: "wf_failures s"
    using wf by (simp_all add: ta_wf_def)
  have dok: "ranges_ok (ta_done s)" using wp by (simp add: wf_partition_def)
  obtain first final where ap: "chunk_range (ta_spec s) ?c = Some (first, final)" "?c \<notin> members (ta_done s)"
    "cr_succeeded r + cr_failed_count r + cr_not_run r = final - first + 1"
    "set_len (cr_failed_indices r) \<le> cr_failed_count r" "members (cr_failed_indices r) \<subseteq> {first..final}"
    "rc_sum (cr_retry_causes r) = cr_retried r"
    by (rule complete_Applied [OF wf typed c])
  note bounds = chunk_range_bounds [OF v ap(1)] wf_counts_le [OF wf]
  have small: "final - first + 1 \<le> 65536" using bounds(3) validate_bounds(4) [OF v] by linarith
  note ins = insert_index_spec [OF dok, of ?c]
  have c32: "?c \<le> u32_max" using typed by (simp add: result_typed_def)
  obtain G acc fol fi ov t where t: "t = s\<lparr>ta_grants := G, ta_attempts := bt_remove ?c (ta_attempts s),
       ta_done := snd (insert_index ?c (ta_done s)), ta_accepted := acc, ta_accepted_folded := fol,
       ta_duration_counts := map2 add64 (ta_duration_counts s) (cr_duration_counts r),
       ta_recent_duration_counts :=
         decay_recent (map2 add64 (ta_recent_duration_counts s) (cr_duration_counts r)),
       ta_succeeded := add64 (ta_succeeded s) (cr_succeeded r),
       ta_failed := add64 (ta_failed s) (cr_failed_count r),
       ta_not_run := add64 (ta_not_run s) (cr_not_run r),
       ta_retried := add64 (ta_retried s) (cr_retried r),
       ta_retry_causes := rc_add (ta_retry_causes s) (cr_retry_causes r),
       ta_failed_indices := fi,
       ta_failed_overflow := add64 ov (cr_failed_count r - set_len (cr_failed_indices r))\<rparr>"
    and s': "s' = t \<or> s' = stop StopTooManyFailures t"
    and tw: "wf_partition t" "wf_attempts t" "wf_accepted t"
    and fi: "ranges_ok fi" "members fi \<subseteq> members (ta_failed_indices s) \<union> members (cr_failed_indices r)"
      "range_count fi \<le> MAX_FAILED_RANGES" "set_len fi + ov = ta_failed s + set_len (cr_failed_indices r)"
    by (rule apply_result_shape [OF wf typed c])
  have exact: "add64 (ta_succeeded s) (cr_succeeded r) = ta_succeeded s + cr_succeeded r"
    "add64 (ta_failed s) (cr_failed_count r) = ta_failed s + cr_failed_count r"
    "add64 (ta_not_run s) (cr_not_run r) = ta_not_run s + cr_not_run r"
    "add64 ov (cr_failed_count r - set_len (cr_failed_indices r)) = ov + (cr_failed_count r - set_len (cr_failed_indices r))"
    using bounds(5,6) ap(3,4) small fi(4) by (simp_all add: add64_exact)
  have "tasks_of (ta_spec s) (insert ?c (members (ta_done s))) = final - first + 1 + tasks_of (ta_spec s) (members (ta_done s))"
    using tasks_of_insert [OF _ ap(2), of "ta_spec s"] ap(1) by (simp add: tasks_in_chunk_def)
  then have "wf_counts t" using wc ap(3) ins(2) [OF c32] by (simp add: wf_counts_def t exact)
  moreover have "wf_failures t"
    using wfail fi ap(4) ins(2) [OF c32] failures_apart(2) [OF wf ap(1,2,5)]
    by (auto simp: wf_failures_def t exact)
  moreover have "wf_durations t"
    using apply_durations [OF wf typed fit] ap(3) small by (simp add: wf_durations_def t exact)
  moreover have "set_len (snd (insert_index ?c (ta_done s))) = set_len (ta_done s) + 1"
    using ins(1,2) [OF c32] dok ap(2) by (simp add: set_len_card)
  then have "wf_retries t"
    using apply_retries [OF wf typed ap(6)] by (simp add: wf_retries_def t)
  moreover have "ta_spec t = ta_spec s" "ta_stopped t = ta_stopped s" "ta_queued t = ta_queued s" by (simp_all add: t)
  ultimately have "ta_wf t" using wf tw by (simp add: ta_wf_def)
  then show ?thesis using s' stop_wf by blast
qed

end
