(* ===== verification/Transition_Systems.thy ===== *)
theory Transition_Systems
  imports Main
begin

text \<open>
  The contracts shared by the state machines of the development. \<open>invariant_system\<close> is a step
  relation with an invariant: everything reachable satisfies it. \<open>command_machine\<close> is the
  deterministic form used by replicated logs, where a command is applied to the state and every
  replica that applies the same commands in the same order ends in the same invariant state.
  The components interpret these locales on their own operations.
\<close>

locale invariant_system =
  fixes init :: "'s \<Rightarrow> bool" and step :: "'s \<Rightarrow> 's \<Rightarrow> bool" and inv :: "'s \<Rightarrow> bool"
  assumes init_inv: "init s \<Longrightarrow> inv s"
    and step_inv: "inv s \<Longrightarrow> step s s' \<Longrightarrow> inv s'"
begin

lemma steps_inv: "step\<^sup>*\<^sup>* s s' \<Longrightarrow> inv s \<Longrightarrow> inv s'"
  by (induction rule: rtranclp_induct) (auto intro: step_inv)

lemma reachable_inv: "init s \<Longrightarrow> step\<^sup>*\<^sup>* s s' \<Longrightarrow> inv s'"
  using steps_inv init_inv by blast

text \<open>A measure that no step lowers is monotone along every run.\<close>

lemma steps_mono:
  fixes f :: "'s \<Rightarrow> 'a::preorder"
  assumes "\<And>s s'. inv s \<Longrightarrow> step s s' \<Longrightarrow> f s \<le> f s'"
  shows "step\<^sup>*\<^sup>* s s' \<Longrightarrow> inv s \<Longrightarrow> f s \<le> f s'"
proof (induction rule: rtranclp_induct)
  case (step t u)
  then show ?case using assms [of t u] steps_inv [OF step.hyps(1)] order_trans by blast
qed simp

end

locale command_machine =
  fixes exec :: "'c \<Rightarrow> 's \<Rightarrow> 's" and ok :: "'c \<Rightarrow> bool" and inv :: "'s \<Rightarrow> bool"
  assumes exec_inv: "inv s \<Longrightarrow> ok c \<Longrightarrow> inv (exec c s)"
begin

lemma run_inv: "inv s \<Longrightarrow> \<forall>c \<in> set cs. ok c \<Longrightarrow> inv (fold exec cs s)"
  by (induction cs arbitrary: s) (auto intro: exec_inv)

end

end
