(* ===== verification/Task_Array_Safety.thy ===== *)
theory Task_Array_Safety
  imports Task_Array_Invariant Transition_Systems
begin

text \<open>
  What the invariant of a task array gives: every state the replicated log can build is one that
  \<open>validate_snapshot\<close> accepts when a store reopens it, every task is counted exactly once in the
  summary, a granted chunk has exactly one accepted result, and a report from a grant that was
  taken back is refused.
\<close>

section \<open>The step relation of the replicated log\<close>

inductive ta_step :: "task_array_state \<Rightarrow> task_array_state \<Rightarrow> bool" where
  step_grant: "ranges_ok chunks \<Longrightarrow> grant node chunks s = Inr s' \<Longrightarrow> ta_step s s'"
| step_requeue: "ta_step s (snd (requeue_node node s))"
| step_complete: "result_typed r \<Longrightarrow> durations_fit r \<Longrightarrow> complete node r s = Inr (out, s') \<Longrightarrow> ta_step s s'"
| step_cancel: "ta_step s (cancel s)"
| step_refuse: "ta_step s (refuse_unrunnable s)"

definition ta_init :: "task_array_state \<Rightarrow> bool" where
  "ta_init s \<longleftrightarrow> ta_new (ta_spec s) (ta_submitted_at s) = Inr s"

inductive_cases ta_stepE: "ta_step s s'"

text \<open>
  A small array for the examples: three tasks in three chunks, the first two of them granted to
  node \<open>n1\<close>, which reports a success.
\<close>

definition demo_spec :: task_array_spec where
  "demo_spec = (with_count 3)\<lparr>chunk_size := 1\<rparr>"

definition demo_state :: "index_range_set \<Rightarrow> (string \<times> index_range_set) list \<Rightarrow> task_array_state" where
  "demo_state queued grants =
      \<lparr>ta_spec = demo_spec, ta_submitted_at = 7, ta_queued = queued,
       ta_grants = grants, ta_attempts = [], ta_done = [], ta_accepted = [],
       ta_accepted_folded = [], ta_failed_indices = [], ta_failed_overflow = 0,
       ta_succeeded = 0, ta_failed = 0, ta_not_run = 0, ta_retried = 0,
       ta_retry_causes = retry_causes_default, ta_stopped = None,
       ta_duration_counts = replicate 16 0, ta_recent_duration_counts = replicate 16 0\<rparr>"

definition demo_granted :: task_array_state where
  "demo_granted = demo_state [(2, 2)] [(''n1'', [(0, 1)])]"

definition demo_result :: "nat \<Rightarrow> nat \<Rightarrow> chunk_result" where
  "demo_result chunk attempt = \<lparr>cr_duration_counts = 1 # replicate 15 0, cr_chunk = chunk,
     cr_attempt = attempt, cr_succeeded = 1, cr_failed_count = 0, cr_failed_indices = [], cr_not_run = 0,
     cr_retried = 0, cr_retry_causes = retry_causes_default\<rparr>"

definition demo_regranted :: task_array_state where
  "demo_regranted = demo_granted\<lparr>ta_attempts := [(0, 2), (1, 2)]\<rparr>"

definition demo_done :: task_array_state where
  "demo_done = apply_result ''n1'' (demo_result 1 1) demo_granted"

section \<open>A well-formed state passes its snapshot check\<close>

lemma check_partition_ok:
  assumes "\<forall>t \<in> set ts. valid_ranges t n" and "seen + sum_list (map set_len ts) \<le> u64_max"
  shows "check_partition n ts parts seen = Inr (fold (\<lambda>t acc. extend_from acc t) ts parts, seen + sum_list (map set_len ts))"
  using assms
proof (induction ts arbitrary: parts seen)
  case (Cons t ts)
  then show ?case by (simp add: checked_add64_def add.assoc)
qed simp

lemma valid_ranges_iff: "ranges_ok s \<Longrightarrow> valid_ranges s n \<longleftrightarrow> members s \<subseteq> {..<n}"
proof (induction s)
  case (Cons r s)
  have "(case r of (_, final) \<Rightarrow> final < n) \<longleftrightarrow> {fst r..snd r} \<subseteq> {..<n}"
    using Cons.prems by (auto simp: ranges_ok_Cons case_prod_beta)
  then show ?case using Cons by (simp add: valid_ranges_def ranges_ok_Cons)
qed (simp add: valid_ranges_def)

lemma check_accepted_ok:
  assumes "ranges_ok retired" and "ranges_ok acc"
    and "\<forall>g \<in> set gens. 0 < fst g \<and> snd g \<noteq> [] \<and> ranges_ok (snd g) \<and> members (snd g) \<subseteq> members retired"
    and "sorted_wrt (\<lambda>A B. A \<inter> B = {}) (members acc # map (members \<circ> snd) gens)"
  shows "check_accepted retired gens acc = Inr ()"
  using assms
proof (induction gens arbitrary: acc)
  case (Cons g gens)
  obtain a t where g: "g = (a, t)" by force
  have t: "0 < a" "t \<noteq> []" "ranges_ok t" "members t \<subseteq> members retired" using Cons.prems(3) by (auto simp: g)
  have apart: "members acc \<inter> members t = {}" using Cons.prems(4) by (simp add: g)
  have ext: "ranges_ok (extend_from acc t)" "members (extend_from acc t) = members acc \<union> members t"
    using Cons.prems(2) t(3) by (simp_all add: extend_from_ok extend_from_members)
  have "set_len (extend_from acc t) = set_len acc + set_len t"
    using ranges.len_union_disjoint [OF Cons.prems(2) t(3)] apart by simp
  moreover have "add64 (set_len acc) (set_len t) = set_len acc + set_len t"
    using set_len_bound [OF Cons.prems(2)] set_len_bound [OF t(3)] by (simp add: add64_exact)
  moreover have "list_all (\<lambda>(first, final). contains_range retired first final) t"
    using contained_iff [OF Cons.prems(1)] t(4) by blast
  ultimately have "check_accepted retired (g # gens) acc = check_accepted retired gens (extend_from acc t)"
    using t(1,2) by (simp add: g is_empty_set_def)
  moreover have "sorted_wrt (\<lambda>A B. A \<inter> B = {}) (members (extend_from acc t) # map (members \<circ> snd) gens)"
    using Cons.prems(4) by (auto simp: g ext(2) comp_def)
  ultimately show ?case using Cons.IH [OF Cons.prems(1) ext(1)] Cons.prems(3) by (simp add: comp_def)
qed simp

lemma gens_disjoint:
  assumes "gens_ok D gens"
  shows "sorted_wrt (\<lambda>A B. A \<inter> B = {}) (map (members \<circ> snd) gens)"
proof (rule sum_card_disjoint)
  have "sum_list (map card (map (members \<circ> snd) gens)) = sum_list (map (set_len \<circ> snd) gens)"
    unfolding map_map using assms by (intro sum_list_map_cong_set) (simp add: gens_ok_def set_len_card)
  moreover have "\<Union>(set (map (members \<circ> snd) gens)) = (\<Union>g \<in> set gens. members (snd g))" by auto
  ultimately show "sum_list (map card (map (members \<circ> snd) gens)) \<le> card (\<Union>(set (map (members \<circ> snd) gens)))"
    using assms by (simp add: gens_ok_def)
qed auto

lemma foldl_checked:
  "a + sum_list xs \<le> u64_max \<Longrightarrow>
   foldl (\<lambda>acc n. Option.bind acc (\<lambda>a. checked_add64 a n)) (Some a) xs = Some (a + sum_list xs)"
  by (induction xs arbitrary: a) (auto simp: checked_add64_def)

lemma wf_passes_partition:
  assumes wf: "ta_wf s"
  defines "ts \<equiv> ta_queued s # map snd (ta_grants s) @ [ta_done s]"
  obtains parts where "check_partition (chunk_count (ta_spec s)) ts set_new 0 = Inr (parts, chunk_count (ta_spec s))"
    "set_len parts = chunk_count (ta_spec s)"
proof -
  let ?n = "chunk_count (ta_spec s)"
  have wp: "wf_partition s" and v: "validate (ta_spec s) = Inr ()" using wf by (simp_all add: ta_wf_def)
  have ok: "\<forall>t \<in> set ts. ranges_ok t" using wp by (auto simp: ts_def wf_partition_def)
  have valid: "\<forall>t \<in> set ts. valid_ranges t ?n"
    using wf_subsets [OF wp] ok by (auto simp: ts_def valid_ranges_iff)
  have sum: "sum_list (map set_len ts) = ?n"
    using wf_partition_disjoint(5) [OF wp] by (simp add: ts_def)
  have "(\<Union>t \<in> set ts. members t) = {..<?n}"
    using wp unfolding wf_partition_def ts_def held_chunks_def by auto
  then have "members (fold (\<lambda>t acc. extend_from acc t) ts []) = {..<?n}"
    "ranges_ok (fold (\<lambda>t acc. extend_from acc t) ts [])"
    using ranges.fold_union [of "[]" ts] ok by simp_all
  then have "set_len (fold (\<lambda>t acc. extend_from acc t) ts []) = ?n" by (simp add: set_len_card)
  moreover have "check_partition ?n ts [] 0 = Inr (fold (\<lambda>t acc. extend_from acc t) ts [], 0 + sum_list (map set_len ts))"
    using check_partition_ok [OF valid, of 0 "[]"] validate_bounds(5) [OF v] unfolding sum by simp
  ultimately show thesis using that by (simp add: sum set_new_def)
qed

lemma wf_validate_snapshot:
  assumes wf: "ta_wf s"
  shows "validate_snapshot s = Inr ()"
proof -
  have v: "validate (ta_spec s) = Inr ()" and wp: "wf_partition s" and wa: "wf_accepted s"
    using wf by (simp_all add: ta_wf_def)
  have dok: "ranges_ok (ta_done s)" using wp by (simp add: wf_partition_def)
  obtain parts where parts: "check_partition (chunk_count (ta_spec s)) (ta_queued s # map snd (ta_grants s) @ [ta_done s])
      set_new 0 = Inr (parts, chunk_count (ta_spec s))" "set_len parts = chunk_count (ta_spec s)"
    by (rule wf_passes_partition [OF wf])
  have owners: "\<not> list_ex (\<lambda>node. \<not> valid_node_id node) (map fst (ta_grants s) @ map fst (ta_accepted s))"
    using wp wa by (auto simp: list_ex_iff wf_partition_def wf_accepted_def)
  have attempts: "\<not> list_ex (\<lambda>(chunk, attempt). chunk \<ge> chunk_count (ta_spec s) \<or> attempt < 2 \<or> contains (ta_done s) chunk)
      (ta_attempts s)"
    using wf by (auto simp: list_ex_iff ta_wf_def wf_attempts_def contains_members [OF dok] dest!: bspec)
  have gens: "gens_ok (members (ta_done s)) (accepted_list s)" using wa by (simp add: wf_accepted_def)
  have accepted: "check_accepted (ta_done s) (accepted_list s) set_new = Inr ()"
    using gens_disjoint [OF gens] gens by (intro check_accepted_ok [OF dok]) (auto simp: gens_ok_def set_new_def)
  note le = wf_counts_le [OF wf]
  have counted: "Option.bind (checked_add64 (ta_succeeded s) (ta_failed s)) (\<lambda>n. checked_add64 n (ta_not_run s)) =
      Some (ta_succeeded s + ta_failed s + ta_not_run s)"
    using le by (simp add: checked_add64_def)
  have fvalid: "members (ta_failed_indices s) \<subseteq> {..<task_count (ta_spec s)}"
    using wf chunk_of_iff_range [OF v] chunk_range_bounds(2) [OF v]
    by (fastforce simp: ta_wf_def wf_failures_def)
  have counters: "\<not> counters_disagree s (ta_succeeded s + ta_failed s + ta_not_run s)"
    using wf fvalid le wf_subsets(3) [OF wp]
    by (auto simp: counters_disagree_def ta_wf_def wf_counts_def wf_failures_def valid_ranges_iff
        checked_add64_def tasks_in_exact [OF v dok])
  have durations: "\<not> durations_exceed s"
    using wf le foldl_checked [of 0 "ta_duration_counts s"]
    by (auto simp: durations_exceed_def ta_wf_def wf_durations_def add64_exact)
  have recent: "\<not> list_ex (\<lambda>(recent, all_time). recent > all_time)
      (zip (ta_recent_duration_counts s) (ta_duration_counts s))"
    using wf by (auto simp: list_ex_iff ta_wf_def wf_durations_def list_all2_iff leD dest!: bspec)
  have "rc_sum (ta_retry_causes s) \<le> u64_max"
  proof -
    have "set_len (ta_done s) \<le> 65536"
      using wp validate_bounds(5) [OF v] by (simp add: wf_partition_def)
    then have "set_len (ta_done s) * u32_max \<le> 65536 * u32_max" by (rule mult_le_mono1)
    then show ?thesis using wf by (simp add: ta_wf_def wf_retries_def)
  qed
  then have causes: "rc_total (ta_retry_causes s) = Some (ta_retried s)"
    using wf by (simp add: rc_total_Some ta_wf_def wf_retries_def)
  have queued: "\<not> (ta_stopped s \<noteq> None \<and> \<not> is_empty_set (ta_queued s))"
    using wf by (auto simp: ta_wf_def is_empty_set_def)
  show ?thesis
    using owners attempts accepted counters durations recent queued causes
    unfolding validate_snapshot_def v Let_def parts counted accepted_list_def
    by (simp add: parts(2))
qed

section \<open>The task array as a transition system\<close>

lemma complete_cases:
  "complete node r s = Inr (out, s') \<Longrightarrow> out = Applied \<and> s' = apply_result node r s \<or> out = Duplicate \<and> s' = s"
  unfolding complete_def Let_def by (auto split: option.splits if_splits prod.splits)

lemma complete_step_wf:
  "ta_wf s \<Longrightarrow> result_typed r \<Longrightarrow> durations_fit r \<Longrightarrow> complete node r s = Inr (out, s') \<Longrightarrow> ta_wf s'"
  using complete_cases complete_wf by (metis (full_types))

interpretation ta_sys: invariant_system ta_init ta_step ta_wf
proof
  show "ta_wf s" if "ta_init s" for s using that new_wf(1) by (auto simp: ta_init_def)
  show "ta_wf s'" if "ta_wf s" "ta_step s s'" for s s'
    using that(2,1)
    by (cases rule: ta_step.cases)
      (auto intro: grant_wf requeue_wf complete_step_wf stop_wf simp: cancel_def refuse_unrunnable_def)
qed

lemma new_init: "ta_new spec at = Inr s \<Longrightarrow> ta_init s"
  by (auto simp: ta_init_def ta_new_def split: sum.splits)

lemma reachable_wf: "ta_new spec at = Inr s0 \<Longrightarrow> ta_step\<^sup>*\<^sup>* s0 s \<Longrightarrow> ta_wf s"
  by (rule ta_sys.reachable_inv [OF new_init])

text \<open>Every field that an operation does not touch, and how the retired set grows.\<close>

lemma stop_done:
  "ta_wf s \<Longrightarrow> members (ta_done (stop reason s)) = members (ta_done s) \<union> members (ta_queued s)"
  by (auto simp: stop_def Let_def ta_wf_def wf_partition_def extend_from_members)

lemma stop_spec [simp]: "ta_spec (stop reason s) = ta_spec s"
  by (simp add: stop_def Let_def)

lemma requeue_done:
  assumes "ta_wf s"
  shows "members (ta_done (snd (requeue_node node s))) =
     members (ta_done s) \<union> (if ta_stopped s = None then {} else case held_by s node of None \<Rightarrow> {} | Some g \<Rightarrow> members g)"
proof (cases "map_of (ta_grants s) node")
  case (Some g)
  then have "ranges_ok g" "ranges_ok (ta_done s)"
    using assms wf_held(1) [of s node g] by (simp_all add: ta_wf_def wf_partition_def)
  then show ?thesis using Some by (simp add: requeue_node_def held_by_def Let_def extend_from_members)
qed (simp add: requeue_node_def held_by_def)

lemma complete_done:
  assumes "ta_wf s" and "result_typed r" and "complete node r s = Inr (Applied, s')"
  shows "insert (cr_chunk r) (members (ta_done s)) \<subseteq> members (ta_done s')"
    and "ta_spec s' = ta_spec s"
    and "\<And>c. c \<noteq> cr_chunk r \<Longrightarrow> c \<in> members (ta_done s') \<or> map_of (ta_attempts s') c = map_of (ta_attempts s) c"
proof -
  have dok: "ranges_ok (ta_done s)" "ranges_ok (ta_queued s)" using assms(1) by (simp_all add: ta_wf_def wf_partition_def)
  have c32: "cr_chunk r \<le> u32_max" using assms(2) by (simp add: result_typed_def)
  note ins = insert_index_spec [OF dok(1) c32]
  obtain t where t: "s' = t \<or> s' = stop StopTooManyFailures t" "wf_partition t"
    "ta_done t = snd (insert_index (cr_chunk r) (ta_done s))" "ta_spec t = ta_spec s"
    "ta_attempts t = bt_remove (cr_chunk r) (ta_attempts s)" "ta_queued t = ta_queued s"
    by (rule apply_result_shape [OF assms]) simp
  have retired: "members (ta_done t) = insert (cr_chunk r) (members (ta_done s))" using ins(2) t(3) by simp
  have tok: "ranges_ok (ta_done t)" using ins(1) t(3) by simp
  have stop: "members (ta_done (stop StopTooManyFailures t)) \<supseteq> members (ta_done t)"
    using tok dok(2) t(6) by (auto simp: stop_def Let_def extend_from_members)
  show "insert (cr_chunk r) (members (ta_done s)) \<subseteq> members (ta_done s')" using t(1) retired stop by auto
  show "ta_spec s' = ta_spec s" using t(1,4) by auto
  show "c \<in> members (ta_done s') \<or> map_of (ta_attempts s') c = map_of (ta_attempts s) c" if "c \<noteq> cr_chunk r" for c
  proof -
    have filtered: "map_of (filter (\<lambda>e. \<not> contains q (fst e)) m) c = map_of m c" if "\<not> contains q c"
      for q and m :: "(nat \<times> nat) list"
      using that by (induction m) auto
    have "map_of (ta_attempts t) c = map_of (ta_attempts s) c" using that by (simp add: t(5))
    moreover have "c \<in> members (ta_done (stop StopTooManyFailures t)) \<or>
        map_of (ta_attempts (stop StopTooManyFailures t)) c = map_of (ta_attempts t) c"
      using filtered [of "ta_queued t" "ta_attempts t"] tok dok(2) t(6)
      by (auto simp: stop_def Let_def extend_from_members contains_members)
    ultimately show ?thesis using t(1) by auto
  qed
qed

lemma step_done_mono: "ta_wf s \<Longrightarrow> ta_step s s' \<Longrightarrow> members (ta_done s) \<subseteq> members (ta_done s')"
proof (erule ta_stepE)
  fix chunks node assume wf: "ta_wf s" and "ranges_ok chunks" and "grant node chunks s = Inr s'"
  then show ?thesis using grant_Inr(4) [of s node chunks s'] by (auto simp: ta_wf_def)
next
  fix node assume "ta_wf s" "s' = snd (requeue_node node s)"
  then show ?thesis using requeue_done by auto
next
  fix r node out assume wf: "ta_wf s" and r: "result_typed r" and c: "complete node r s = Inr (out, s')"
  show ?thesis using complete_cases [OF c] complete_done(1) [OF wf r, of node s'] c by auto
qed (simp_all add: stop_done cancel_def refuse_unrunnable_def)

lemma steps_done_mono: "ta_wf s \<Longrightarrow> ta_step\<^sup>*\<^sup>* s s' \<Longrightarrow> members (ta_done s) \<subseteq> members (ta_done s')"
  using ta_sys.steps_mono [of "\<lambda>s. members (ta_done s)" s s'] step_done_mono by blast

section \<open>Attempts only grow\<close>

lemma attempt_of_le: "ta_wf s \<Longrightarrow> attempt_of s c \<le> u64_max"
  using bt_ok_get [of "ta_attempts s" c]
  by (force simp: attempt_of_def ta_wf_def wf_attempts_def split: option.splits)

lemma stop_attempts:
  assumes "ta_wf s"
  shows "c \<in> members (ta_done (stop reason s)) \<or> attempt_of (stop reason s) c = attempt_of s c"
proof -
  have "map_of (filter (\<lambda>e. \<not> contains q (fst e)) m) c = map_of m c" if "\<not> contains q c"
    for q and m :: "(nat \<times> nat) list"
    using that by (induction m) auto
  note this [of "ta_queued s" "ta_attempts s"]
  moreover have "contains (ta_queued s) c \<longleftrightarrow> c \<in> members (ta_queued s)"
    using assms by (simp add: ta_wf_def wf_partition_def contains_members)
  ultimately show ?thesis
    using stop_done [OF assms] by (auto simp: attempt_of_def stop_def Let_def)
qed

lemma requeue_live_attempts:
  "map_of (ta_grants s) node = Some g \<Longrightarrow> ta_stopped s = None \<Longrightarrow>
   ta_attempts (snd (requeue_node node s)) = bump_attempts (set_iter g) (ta_attempts s)"
  by (simp add: requeue_node_def Let_def bump_attempts_def)

lemma requeue_attempt:
  assumes wf: "ta_wf s" and g: "held_by s node = Some g" and c: "c \<in> members g" and live: "ta_stopped s = None"
  shows "attempt_of (snd (requeue_node node s)) c = sat_add64 (attempt_of s c) 1"
proof -
  have g': "map_of (ta_grants s) node = Some g" using g by (simp add: held_by_def)
  then have "distinct (set_iter g)"
    using wf_held(1) [of s node g] wf set_iter_sorted strict_sorted_iff by (auto simp: ta_wf_def)
  then show ?thesis
    using c g' live bump_attempts_get [of "set_iter g" "ta_attempts s" c]
    by (simp add: requeue_live_attempts attempt_of_def set_iter_set)
qed

lemma requeue_attempt_le:
  assumes wf: "ta_wf s"
  shows "c \<in> members (ta_done (snd (requeue_node node s))) \<or>
    attempt_of s c \<le> attempt_of (snd (requeue_node node s)) c"
proof (cases "map_of (ta_grants s) node")
  case None
  then show ?thesis by (simp add: requeue_node_def)
next
  case (Some g)
  have gok: "ranges_ok g" "distinct (set_iter g)"
    using wf_held(1) [OF _ Some] wf set_iter_sorted strict_sorted_iff by (auto simp: ta_wf_def)
  show ?thesis
  proof (cases "ta_stopped s = None")
    case True
    show ?thesis
    proof (cases "c \<in> members g")
      case c: True
      then show ?thesis
        using requeue_attempt [OF wf _ c True] Some attempt_of_le [OF wf, of c]
        by (simp add: held_by_def sat_add64_def min_def)
    next
      case False
      then show ?thesis
        using Some True bump_attempts_get [OF gok(2), of "ta_attempts s" c]
        by (simp add: requeue_live_attempts attempt_of_def set_iter_set)
    qed
  next
    case False
    have "map_of (fold bt_remove cs m) c = map_of m c" if "c \<notin> set cs" for cs and m :: "(nat \<times> nat) list"
      using that by (induction cs arbitrary: m) auto
    note this [of "set_iter g" "ta_attempts s"]
    then show ?thesis
      using False Some requeue_done [OF wf, of node]
      by (auto simp: held_by_def requeue_node_def Let_def attempt_of_def set_iter_set)
  qed
qed

lemma step_attempt:
  "ta_wf s \<Longrightarrow> ta_step s s' \<Longrightarrow> c \<in> members (ta_done s') \<or> attempt_of s c \<le> attempt_of s' c"
proof (erule ta_stepE)
  fix chunks node assume wf: "ta_wf s" and "ranges_ok chunks" and "grant node chunks s = Inr s'"
  then show ?thesis using grant_Inr(4) [of s node chunks s'] by (auto simp: ta_wf_def attempt_of_def)
next
  fix node assume "ta_wf s" "s' = snd (requeue_node node s)"
  then show ?thesis using requeue_attempt_le by auto
next
  fix r node out assume wf: "ta_wf s" and r: "result_typed r" and c: "complete node r s = Inr (out, s')"
  show ?thesis
  proof (cases "out = Applied")
    case True
    note cd = complete_done [OF wf r c [unfolded True]]
    show ?thesis using cd(1) cd(3) [of c] by (cases "c = cr_chunk r") (auto simp: attempt_of_def)
  next
    case False
    then show ?thesis using complete_cases [OF c] by auto
  qed
next
  assume "ta_wf s" "s' = cancel s"
  then show ?thesis using stop_attempts [of s c StopCancelled] by (auto simp: cancel_def)
next
  assume "ta_wf s" "s' = refuse_unrunnable s"
  then show ?thesis using stop_attempts [of s c StopUnrunnable] by (auto simp: refuse_unrunnable_def)
qed

lemma steps_attempt:
  assumes "ta_step\<^sup>*\<^sup>* s s'" and "ta_wf s"
  shows "c \<in> members (ta_done s') \<or> attempt_of s c \<le> attempt_of s' c"
  using assms
proof (induction rule: rtranclp_induct)
  case (step t u)
  have "ta_wf t" using step.hyps(1) step.prems ta_sys.steps_inv by blast
  then show ?case
    using step_attempt [OF _ step.hyps(2), of c] step_done_mono [OF _ step.hyps(2)] step.IH [OF step.prems]
    by (meson le_trans subsetD)
qed simp

section \<open>Counting the summary\<close>

lemma foldl_add64: "a + sum_list xs \<le> u64_max \<Longrightarrow> foldl add64 a xs = a + sum_list xs"
  by (induction xs arbitrary: a) (auto simp: add64_exact)

lemma tasks_of_grants:
  assumes "\<forall>e \<in> set G. finite (members (snd e))"
    and "sorted_wrt (\<lambda>A B. A \<inter> B = {}) (map (members \<circ> snd) G)"
  shows "sum_list (map (\<lambda>e. tasks_of spec (members (snd e))) G) = tasks_of spec (\<Union>e \<in> set G. members (snd e))"
  using assms
proof (induction G)
  case (Cons e G)
  have "members (snd e) \<inter> (\<Union>e \<in> set G. members (snd e)) = {}" using Cons.prems(2) by auto
  then have "tasks_of spec (members (snd e) \<union> (\<Union>e \<in> set G. members (snd e))) =
      tasks_of spec (members (snd e)) + tasks_of spec (\<Union>e \<in> set G. members (snd e))"
    by (intro tasks_of_Un) auto
  then show ?case using Cons by (simp add: comp_def)
qed simp

lemma grants_disjoint:
  assumes "wf_partition s"
  shows "sorted_wrt (\<lambda>A B. A \<inter> B = {}) (map (members \<circ> snd) (ta_grants s))"
proof -
  have "distinct (ta_grants s)" using assms bt_ok_distinct distinct_map by (auto simp: wf_partition_def)
  then show ?thesis
    using wf_partition_disjoint(4) [OF assms] unfolding sorted_wrt_iff_nth_less
    by (auto simp: nth_eq_iff_index_eq)
qed

lemma summary_counts:
  assumes wf: "ta_wf s"
  shows "sm_queued (summary s) = tasks_of (ta_spec s) (members (ta_queued s))"
    and "sm_held (summary s) = tasks_of (ta_spec s) (held_chunks s)"
proof -
  have wp: "wf_partition s" and v: "validate (ta_spec s) = Inr ()" using wf by (simp_all add: ta_wf_def)
  have ok: "ranges_ok (ta_queued s)" "\<forall>e \<in> set (ta_grants s). ranges_ok (snd e)"
    using wp by (auto simp: wf_partition_def)
  show "sm_queued (summary s) = tasks_of (ta_spec s) (members (ta_queued s))"
    using tasks_in_exact [OF v ok(1) wf_subsets(1) [OF wp]] by (simp add: summary_def)
  have "map (\<lambda>e. tasks_in (ta_spec s) (snd e)) (ta_grants s) = map (\<lambda>e. tasks_of (ta_spec s) (members (snd e))) (ta_grants s)"
    using tasks_in_exact [OF v] ok(2) wf_subsets(4) [OF wp] by auto
  moreover have "sum_list (map (\<lambda>e. tasks_of (ta_spec s) (members (snd e))) (ta_grants s)) = tasks_of (ta_spec s) (held_chunks s)"
    using tasks_of_grants [OF _ grants_disjoint [OF wp]] by (simp add: held_chunks_def)
  moreover have "tasks_of (ta_spec s) (held_chunks s) \<le> 16777216"
    using tasks_of_le_count [OF v wf_subsets(2) [OF wp]] validate_bounds(2) [OF v] by simp
  ultimately show "sm_held (summary s) = tasks_of (ta_spec s) (held_chunks s)"
    by (simp add: summary_def foldl_add64 cong: map_cong)
qed

lemma summary_total:
  assumes wf: "ta_wf s"
  shows "sm_succeeded (summary s) + sm_failed (summary s) + sm_not_run (summary s) +
    sm_queued (summary s) + sm_held (summary s) = sm_total (summary s)"
proof -
  have wp: "wf_partition s" and v: "validate (ta_spec s) = Inr ()" and wc: "wf_counts s"
    using wf by (simp_all add: ta_wf_def)
  let ?Q = "members (ta_queued s)" and ?H = "held_chunks s" and ?D = "members (ta_done s)"
  note disj = wf_partition_disjoint [OF wp]
  have fin: "finite ?H" by (simp add: held_chunks_def)
  have "tasks_of (ta_spec s) (?Q \<union> ?H \<union> ?D) =
      tasks_of (ta_spec s) ?Q + tasks_of (ta_spec s) ?H + tasks_of (ta_spec s) ?D"
    using disj(1-3) fin by (simp add: tasks_of_Un Int_Un_distrib2)
  moreover have "?Q \<union> ?H \<union> ?D = {..<chunk_count (ta_spec s)}" using wp by (simp add: wf_partition_def)
  ultimately have "tasks_of (ta_spec s) ?Q + tasks_of (ta_spec s) ?H + tasks_of (ta_spec s) ?D = task_count (ta_spec s)"
    using tasks_of_all [OF v] by simp
  then show ?thesis
    using wc unfolding summary_counts [OF wf] by (simp add: summary_def wf_counts_def)
qed

section \<open>The example run\<close>

lemma demo_new: "ta_new demo_spec 7 = Inr (demo_state [(0, 2)] [])"
  by code_simp

lemma demo_grant: "grant ''n1'' [(0, 1)] (demo_state [(0, 2)] []) = Inr demo_granted"
  by code_simp

lemma demo_complete: "complete ''n1'' (demo_result 1 1) demo_granted = Inr (Applied, demo_done)"
  by code_simp

lemma demo_result_ok: "result_typed (demo_result 1 1)" "durations_fit (demo_result 1 1)"
  by (simp_all add: result_typed_def durations_fit_def demo_result_def sum_list_replicate)

lemma demo_reach: "ta_step\<^sup>*\<^sup>* (demo_state [(0, 2)] []) demo_granted"
  using ta_step.step_grant [OF _ demo_grant] by (auto simp: ranges_ok_def)

lemma demo_reach_done: "ta_step\<^sup>*\<^sup>* (demo_state [(0, 2)] []) demo_done"
  using demo_reach ta_step.step_complete [OF demo_result_ok demo_complete] by (rule rtranclp.rtrancl_into_rtrancl)

lemma demo_regrant: "grant ''n1'' [(0, 1)] (snd (requeue_node ''n1'' demo_granted)) = Inr demo_regranted"
  by code_simp

lemma demo_reach_regranted: "ta_step\<^sup>*\<^sup>* (snd (requeue_node ''n1'' demo_granted)) demo_regranted"
  using ta_step.step_grant [OF _ demo_regrant] by (auto simp: ranges_ok_def)

section \<open>Properties\<close>



text \<open>
  C23: no task is lost or counted twice. In every reachable state the tasks that succeeded, failed
  and were not run, together with those still queued and those held by nodes, add up to the size
  of the array.
\<close>

theorem summary_conserves_tasks:
  assumes "ta_new spec at = Inr s0" and "ta_step\<^sup>*\<^sup>* s0 s"
  shows "sm_succeeded (summary s) + sm_failed (summary s) + sm_not_run (summary s) +
    sm_queued (summary s) + sm_held (summary s) = sm_total (summary s)"
  using reachable_wf [OF assms] by (rule summary_total)

theorem summary_conserves_tasks_witness:
  "sm_succeeded (summary demo_done) = 1 \<and> sm_queued (summary demo_done) = 1 \<and>
   1 + sm_failed (summary demo_done) + sm_not_run (summary demo_done) + 1 + sm_held (summary demo_done) = 3"
proof -
  have "sm_succeeded (summary demo_done) = 1" "sm_queued (summary demo_done) = 1" "sm_total (summary demo_done) = 3"
    by code_simp+
  then show ?thesis using summary_conserves_tasks [OF demo_new demo_reach_done] by simp
qed

text \<open>
  C22: a chunk is completed at most once. After a report for a chunk has been applied, whatever
  else the log applies, any further report for that chunk, from any node and with any attempt, is
  answered as a duplicate and changes nothing.
\<close>

theorem completed_chunk_is_final:
  assumes "ta_new spec at = Inr s0" and "ta_step\<^sup>*\<^sup>* s0 s"
    and "result_typed r" and "durations_fit r" and "complete node r s = Inr (Applied, s1)"
    and "ta_step\<^sup>*\<^sup>* s1 s2" and "cr_chunk r' = cr_chunk r"
  shows "complete node' r' s2 = Inr (Duplicate, s2)"
proof -
  have wf: "ta_wf s" by (rule reachable_wf [OF assms(1,2)])
  have wf1: "ta_wf s1" by (rule complete_wf [OF wf assms(3-5)])
  have wf2: "ta_wf s2" by (rule ta_sys.steps_inv [OF assms(6) wf1])
  have done2: "cr_chunk r \<in> members (ta_done s2)"
    using complete_done(1) [OF wf assms(3,5)] steps_done_mono [OF wf1 assms(6)] by blast
  have "validate (ta_spec s2) = Inr ()" "wf_partition s2" "ranges_ok (ta_done s2)"
    using wf2 by (simp_all add: ta_wf_def wf_partition_def)
  moreover have "cr_chunk r < chunk_count (ta_spec s2)"
    using wf_subsets(3) [OF \<open>wf_partition s2\<close>] done2 by blast
  ultimately show ?thesis using done2 assms(7)
    by (simp add: complete_def Let_def chunk_range_exact contains_members)
qed

theorem completed_chunk_is_final_witness:
  "complete ''n1'' (demo_result 1 1) demo_granted = Inr (Applied, demo_done) \<and>
   complete ''n2'' (demo_result 1 5) demo_done = Inr (Duplicate, demo_done)"
  using demo_complete completed_chunk_is_final [OF demo_new demo_reach demo_result_ok demo_complete, of demo_done]
  by (simp add: demo_result_def)

text \<open>
  C16: a grant that was taken back is fenced. After a node's work was requeued, a report that
  carries the attempt under which the node held the chunk is never applied, whoever sends it and
  whatever the log applied in between, even if the same node was granted the chunk again.
\<close>

theorem requeued_attempt_is_fenced:
  assumes "ta_new spec at = Inr s0" and "ta_step\<^sup>*\<^sup>* s0 s"
    and "held_by s node = Some g" and "contains g chunk" and "attempt_of s chunk < u64_max"
    and "ta_step\<^sup>*\<^sup>* (snd (requeue_node node s)) s2"
    and "cr_chunk r = chunk" and "cr_attempt r = attempt_of s chunk"
  shows "complete node' r s2 \<noteq> Inr (Applied, s3)"
proof
  assume applied: "complete node' r s2 = Inr (Applied, s3)"
  have wf: "ta_wf s" by (rule reachable_wf [OF assms(1,2)])
  have wp: "wf_partition s" using wf by (simp add: ta_wf_def)
  let ?s1 = "snd (requeue_node node s)"
  have wf1: "ta_wf ?s1" by (rule requeue_wf [OF wf])
  have wf2: "ta_wf s2" by (rule ta_sys.steps_inv [OF assms(6) wf1])
  have c: "chunk \<in> members g"
    using assms(3,4) wf_held(1) [OF wp, of node g] by (simp add: held_by_def contains_members)
  have "chunk \<in> members (ta_done ?s1) \<or> attempt_of s chunk < attempt_of ?s1 chunk"
  proof (cases "ta_stopped s = None")
    case True
    then show ?thesis using requeue_attempt [OF wf assms(3) c] assms(5) by (simp add: sat_add64_def)
  next
    case False
    then show ?thesis using requeue_done [OF wf, of node] assms(3) c by auto
  qed
  then have "chunk \<in> members (ta_done s2) \<or> attempt_of s chunk < attempt_of s2 chunk"
    using steps_done_mono [OF wf1 assms(6)] steps_attempt [OF assms(6) wf1, of chunk] by (meson less_le_trans subsetD)
  moreover have "contains (ta_done s2) chunk \<longleftrightarrow> chunk \<in> members (ta_done s2)"
    using wf2 by (simp add: ta_wf_def wf_partition_def contains_members)
  ultimately show False
    using applied assms(7,8) by (auto simp: complete_def Let_def split: option.splits if_splits)
qed

theorem requeued_attempt_is_fenced_witness:
  "held_by demo_granted ''n1'' = Some [(0, 1)] \<and> attempt_of demo_granted 1 = 1 \<and>
   complete ''n1'' (demo_result 1 1) demo_regranted = Inl (StaleAttempt 1 1 2) \<and>
   complete ''n1'' (demo_result 1 1) demo_regranted \<noteq> Inr (Applied, demo_done)"
proof -
  have held: "held_by demo_granted ''n1'' = Some [(0, 1)]" and in_g: "contains [(0, 1)] 1"
    and att: "attempt_of demo_granted 1 = 1"
    and stale: "complete ''n1'' (demo_result 1 1) demo_regranted = Inl (StaleAttempt 1 1 2)"
    by code_simp+
  have lt: "attempt_of demo_granted 1 < u64_max" and r: "cr_chunk (demo_result 1 1) = 1"
    "cr_attempt (demo_result 1 1) = attempt_of demo_granted 1"
    using att by (simp_all add: demo_result_def)
  show ?thesis
    using requeued_attempt_is_fenced [OF demo_new demo_reach held in_g lt demo_reach_regranted r, of "''n1''" demo_done]
      held att stale by blast
qed

text \<open>
  C27: a grant is all or nothing. On a reachable array that is not stopped and for a valid node
  name, it succeeds exactly when every chunk asked for is queued; then the chunks move from the
  queue to the node and every other node keeps what it held. Otherwise it names a chunk that was
  asked for and is not queued, as unknown exactly when it lies outside the array.
\<close>

theorem grant_all_or_nothing:
  assumes "ta_new spec at = Inr s0" and "ta_step\<^sup>*\<^sup>* s0 s"
    and "valid_node_id node" and "ta_stopped s = None" and "ranges_ok chunks" and "chunks \<noteq> []"
  shows "if members chunks \<subseteq> members (ta_queued s)
    then \<exists>s'. grant node chunks s = Inr s' \<and>
      members (ta_queued s') = members (ta_queued s) - members chunks \<and>
      (\<exists>g. held_by s' node = Some g \<and>
         members g = (case held_by s node of None \<Rightarrow> {} | Some h \<Rightarrow> members h) \<union> members chunks) \<and>
      (\<forall>other. other \<noteq> node \<longrightarrow> held_by s' other = held_by s other) \<and> ta_done s' = ta_done s
    else \<exists>c \<in> members chunks - members (ta_queued s).
      grant node chunks s = Inl (if c < chunk_count (ta_spec s) then NotQueued c else UnknownChunk c)"
proof -
  have wp: "wf_partition s" using reachable_wf [OF assms(1,2)] by (simp add: ta_wf_def)
  have qok: "ranges_ok (ta_queued s)" using wp by (simp add: wf_partition_def)
  let ?bad = "\<lambda>(first, final). \<not> contains_range (ta_queued s) first final"
  show ?thesis
  proof (cases "members chunks \<subseteq> members (ta_queued s)")
    case True
    then have none: "find ?bad chunks = None"
      using contained_iff [OF qok, of chunks] by (auto simp: find_None_iff list_all_iff)
    let ?old = "case map_of (ta_grants s) node of None \<Rightarrow> [] | Some g \<Rightarrow> g"
    obtain s' where g: "grant node chunks s = Inr s'"
      using none assms(3,4,6) by (simp add: grant_def is_empty_set_def)
    note s' = grant_Inr(4) [OF wp g]
    have "ranges_ok ?old" using wf_held(1) [OF wp] by (auto split: option.splits)
    then have "members (extend_from ?old chunks) = members ?old \<union> members chunks"
      using assms(5) by (simp add: extend_from_members)
    then have "\<exists>g. held_by s' node = Some g \<and>
         members g = (case held_by s node of None \<Rightarrow> {} | Some h \<Rightarrow> members h) \<union> members chunks"
      using s' assms(6) by (auto simp: held_by_def split: option.splits)
    then show ?thesis
      using True g s' assms(6) fold_remove_ranges [OF qok, of chunks] by (auto simp: held_by_def)
  next
    case False
    then obtain r where found: "find ?bad chunks = Some r"
      using contained_iff [OF qok, of chunks] by (cases "find ?bad chunks") (auto simp: find_None_iff list_all_iff)
    obtain a b where r: "r = (a, b)" by force
    have "?bad (a, b)" and rin: "(a, b) \<in> set chunks"
      using found unfolding r find_Some_iff by (metis nth_mem)+
    then have "\<not> {a..b} \<subseteq> members (ta_queued s)" by (simp add: contains_range_members [OF qok])
    then obtain c where c: "find (\<lambda>c. \<not> contains (ta_queued s) c) [a..<b + 1] = Some c"
      by (cases "find (\<lambda>c. \<not> contains (ta_queued s) c) [a..<b + 1]")
        (auto simp: find_None_iff contains_members [OF qok])
    then have "c \<in> {a..b}" "c \<notin> members (ta_queued s)"
      by (auto simp: find_Some_iff contains_members [OF qok] simp del: upt_Suc)
    moreover have "{a..b} \<subseteq> members chunks" using rin by (force simp: members_def)
    moreover have "grant node chunks s = Inl (not_queued_error s c)"
      using found c assms(3,4) by (simp add: grant_def r)
    ultimately have "c \<in> members chunks - members (ta_queued s)"
      "grant node chunks s = Inl (if c < chunk_count (ta_spec s) then NotQueued c else UnknownChunk c)"
      by (auto simp: not_queued_error_def)
    then show ?thesis using False by auto
  qed
qed

theorem grant_all_or_nothing_witness:
  "(\<exists>s'. grant ''n2'' [(2, 2)] demo_granted = Inr s' \<and> members (ta_queued s') = {} \<and>
     held_by s' ''n1'' = held_by demo_granted ''n1'') \<and>
   grant ''n2'' [(1, 2)] demo_granted = Inl (NotQueued 1)"
proof -
  have v: "valid_node_id ''n2''" and live: "ta_stopped demo_granted = None" and ne: "''n1'' \<noteq> ''n2''"
    and q: "ta_queued demo_granted = [(2, 2)]"
    and bad: "grant ''n2'' [(1, 2)] demo_granted = Inl (NotQueued 1)" by code_simp+
  have "ranges_ok [(2, 2)]" by (simp add: ranges_ok_def)
  from grant_all_or_nothing [OF demo_new demo_reach v live this] show ?thesis
    using q bad ne by auto
qed

text \<open>
  C26: the status is final exactly when the whole array is retired: a reachable array reports a
  terminal status if and only if every chunk is done, and then its counters account for every
  task. It reports success only if no task failed.
\<close>

theorem terminal_means_accounted:
  assumes "ta_new spec at = Inr s0" and "ta_step\<^sup>*\<^sup>* s0 s"
  shows "(is_terminal (status s) \<longleftrightarrow> members (ta_done s) = {..<chunk_count (ta_spec s)}) \<and>
    (is_terminal (status s) \<longrightarrow> ta_succeeded s + ta_failed s + ta_not_run s = task_count (ta_spec s)) \<and>
    (status s = Succeeded \<longrightarrow> ta_failed s = 0 \<and> ta_stopped s = None)"
proof -
  have wf: "ta_wf s" by (rule reachable_wf [OF assms])
  have wp: "wf_partition s" and v: "validate (ta_spec s) = Inr ()" and wc: "wf_counts s"
    using wf by (simp_all add: ta_wf_def)
  note disj = wf_partition_disjoint [OF wp]
  have terminal: "is_terminal (status s) \<longleftrightarrow> ta_queued s = [] \<and> ta_grants s = []"
    by (auto simp: status_def is_terminal_def is_empty_set_def Let_def split: option.splits stop_reason.splits)
  have held: "ta_grants s = [] \<longleftrightarrow> held_chunks s = {}"
  proof
    assume none: "held_chunks s = {}"
    show "ta_grants s = []"
    proof (rule ccontr)
      assume "ta_grants s \<noteq> []"
      then obtain e where "e \<in> set (ta_grants s)" by (cases "ta_grants s") auto
      then show False
        using wp none members_empty_iff [of "snd e"] by (auto simp: wf_partition_def held_chunks_def)
    qed
  qed (simp add: held_chunks_def)
  have queued: "ta_queued s = [] \<longleftrightarrow> members (ta_queued s) = {}"
    using wp members_empty_iff [of "ta_queued s"] by (auto simp: wf_partition_def)
  have cover: "members (ta_queued s) \<union> held_chunks s \<union> members (ta_done s) = {..<chunk_count (ta_spec s)}"
    using wp by (simp add: wf_partition_def)
  have iff: "is_terminal (status s) \<longleftrightarrow> members (ta_done s) = {..<chunk_count (ta_spec s)}"
    unfolding terminal held queued using cover disj(2,3) by blast
  moreover have "ta_succeeded s + ta_failed s + ta_not_run s = task_count (ta_spec s)" if "is_terminal (status s)"
    using that wc tasks_of_all [OF v] unfolding iff wf_counts_def by simp
  moreover have "ta_failed s = 0 \<and> ta_stopped s = None" if "status s = Succeeded"
    using that by (auto simp: status_def Let_def split: option.splits if_splits stop_reason.splits)
  ultimately show ?thesis by blast
qed

theorem terminal_means_accounted_witness:
  "status (cancel (demo_state [(0, 2)] [])) = Cancelled \<and>
   ta_succeeded (cancel (demo_state [(0, 2)] [])) + ta_failed (cancel (demo_state [(0, 2)] [])) +
   ta_not_run (cancel (demo_state [(0, 2)] [])) = 3"
proof -
  have st: "status (cancel (demo_state [(0, 2)] [])) = Cancelled"
    and n: "task_count (ta_spec (cancel (demo_state [(0, 2)] []))) = 3" by code_simp+
  have "ta_step\<^sup>*\<^sup>* (demo_state [(0, 2)] []) (cancel (demo_state [(0, 2)] []))"
    using ta_step.step_cancel by (rule r_into_rtranclp)
  from terminal_means_accounted [OF demo_new this] show ?thesis using st n by (simp add: is_terminal_def)
qed

section \<open>A report the snapshot check rejects\<close>


end
