(* ===== verification/Grant_Plan.thy ===== *)
theory Grant_Plan
  imports Task_Array_Safety "HOL-Library.Product_Lexorder" "HOL-Library.Sublist"
begin

text \<open>
  The grant policy of the leader (the second half of \<open>src/src/meat/task_array_state.rs\<close>): how
  many chunks a node should hold, how outstanding chunks are shared between nodes, which queued
  chunks go to which node, and how a plan is trimmed to a namespace's remaining quota. The
  \<open>u128\<close> intermediate values of the code cannot overflow (a \<open>u32\<close> times a \<open>u64\<close> sum times 2000
  stays below \<open>2 ^ 128\<close>), so they are plain naturals here.
\<close>

section \<open>The policy\<close>

definition MIN_GRANT_DEPTH :: nat where "MIN_GRANT_DEPTH = 2"
definition MAX_LEARNED_GRANT_DEPTH :: nat where "MAX_LEARNED_GRANT_DEPTH = 16"
definition LOOKAHEAD_MILLISECONDS :: nat where "LOOKAHEAD_MILLISECONDS = 2000"
definition SLOW_OVERFLOW_RATIO :: nat where "SLOW_OVERFLOW_RATIO = 16"

record node_slots =
  ns_node :: string
  ns_slots :: nat

definition grant_depth :: "nat \<Rightarrow> nat \<Rightarrow> nat" where
  "grant_depth slots per_chunk = max (div_ceil (2 * slots) (max per_chunk 1)) MIN_GRANT_DEPTH"

definition observed_grant_depth :: "task_array_state \<Rightarrow> nat \<Rightarrow> nat \<Rightarrow> nat" where
  "observed_grant_depth s slots share =
     (let baseline = grant_depth slots (chunk_size (ta_spec s));
          recent = ta_recent_duration_counts s;
          overflow = recent ! 15;
          everything = sum_list recent
      in if overflow * SLOW_OVERFLOW_RATIO > everything then baseline
         else let samples = sum_list (take 15 recent);
                  milliseconds = sum_list (map (\<lambda>(bucket, n). n * 2 ^ bucket) (zip [0..<15] (take 15 recent)))
         in if milliseconds = 0 then baseline
         else let tasks = slots * LOOKAHEAD_MILLISECONDS * samples div milliseconds;
                  chunks = div_ceil tasks (max (chunk_size (ta_spec s)) 1);
                  learned = min chunks (min MAX_LEARNED_GRANT_DEPTH share)
         in max baseline learned)"

fun hand_out :: "nat \<Rightarrow> nat list \<Rightarrow> nat list \<Rightarrow> nat list" where
  "hand_out left [] shares = shares"
| "hand_out left (index # rest) shares =
     (if left = 0 then shares else hand_out (left - 1) rest (shares[index := add64 (shares ! index) 1]))"

definition capacity_shares :: "nat \<Rightarrow> nat list \<Rightarrow> nat list" where
  "capacity_shares outstanding slots =
     (let whole = sum_list slots
      in if whole = 0 then replicate (length slots) 0
         else let exact = map (\<lambda>n. outstanding * n) slots;
                  shares = map (\<lambda>e. if e div whole \<le> u64_max then e div whole else u64_max) exact;
                  left = outstanding - sum64 shares;
                  by_fraction = sort_key (\<lambda>index. - int (exact ! index mod whole)) [0..<length slots]
              in hand_out left by_fraction shares)"

definition held_len :: "task_array_state \<Rightarrow> string \<Rightarrow> nat" where
  "held_len s node = (case held_by s node of None \<Rightarrow> 0 | Some g \<Rightarrow> set_len g)"

definition plan_order :: "task_array_state \<Rightarrow> node_slots list \<Rightarrow> node_slots list" where
  "plan_order s nodes =
     sort_key (\<lambda>c. (held_len s (ns_node c), ns_node c))
       (foldl (\<lambda>order c. if ns_slots c > 0 \<and> \<not> list_ex (\<lambda>n. ns_node n = ns_node c) order
                         then order @ [c] else order) [] nodes)"

fun plan_loop ::
  "task_array_state \<Rightarrow> bool \<Rightarrow> (node_slots \<times> nat) list \<Rightarrow> index_range_set \<Rightarrow> (string \<times> index_range_set) list" where
  "plan_loop s lookahead [] queue = []"
| "plan_loop s lookahead ((candidate, share) # rest) queue =
     (if is_empty_set queue then []
      else let depth = (if lookahead then observed_grant_depth s (ns_slots candidate) share
                        else grant_depth (ns_slots candidate) (chunk_size (ta_spec s)));
               wanted = depth - held_len s (ns_node candidate);
               (chunks, queue') = take_first wanted queue;
               plan = plan_loop s lookahead rest queue'
           in if is_empty_set chunks then plan else (ns_node candidate, chunks) # plan)"

definition plan_grants ::
  "task_array_state \<Rightarrow> node_slots list \<Rightarrow> bool \<Rightarrow> (string \<times> index_range_set) list" where
  "plan_grants s nodes lookahead =
     (if ta_stopped s \<noteq> None then []
      else let order = plan_order s nodes;
               outstanding = foldl (\<lambda>sum c. sat_add64 sum (held_len s (ns_node c))) (set_len (ta_queued s)) order;
               shares = capacity_shares outstanding (map ns_slots order)
           in plan_loop s lookahead (zip order shares) (ta_queued s))"

definition held_tasks :: "task_array_state \<Rightarrow> string \<Rightarrow> nat" where
  "held_tasks s node = (case held_by s node of None \<Rightarrow> 0 | Some chunks \<Rightarrow> tasks_in (ta_spec s) chunks)"

definition in_flight_on :: "task_array_state \<Rightarrow> string \<Rightarrow> nat \<Rightarrow> nat" where
  "in_flight_on s node slots = min (held_tasks s node) slots"

record fitted_grants =
  fg_grants :: "(string \<times> index_range_set) list"
  fg_started :: nat
  fg_held_back :: "nat option"

fun fit_chunks ::
  "task_array_state \<Rightarrow> nat \<Rightarrow> nat \<Rightarrow> nat \<Rightarrow> nat list \<Rightarrow> nat \<Rightarrow> index_range_set \<Rightarrow> nat \<Rightarrow>
     index_range_set \<times> nat \<times> nat option" where
  "fit_chunks s slots before room [] held kept added = (kept, added, None)"
| "fit_chunks s slots before room (chunk # rest) held kept added =
     (let tasks = tasks_in (ta_spec s) (from_range chunk chunk);
          after = min (sat_add64 held tasks) slots;
          cost = after - before
      in if cost > room then (kept, added, Some (cost - added))
         else fit_chunks s slots before room rest (sat_add64 held tasks) (snd (insert_index chunk kept)) cost)"

definition slots_of :: "node_slots list \<Rightarrow> string \<Rightarrow> nat" where
  "slots_of nodes node =
     (case find (\<lambda>candidate. ns_node candidate = node) nodes of None \<Rightarrow> 0 | Some candidate \<Rightarrow> ns_slots candidate)"

fun fit_loop ::
  "task_array_state \<Rightarrow> node_slots list \<Rightarrow> (string \<times> index_range_set) list \<Rightarrow> nat \<Rightarrow> fitted_grants \<Rightarrow> fitted_grants" where
  "fit_loop s nodes [] room fitted = fitted"
| "fit_loop s nodes ((node, chunks) # rest) room fitted =
     (if fg_held_back fitted \<noteq> None then fitted
      else let slots = slots_of nodes node;
               before = in_flight_on s node slots;
               (kept, added, held_back) =
                 fit_chunks s slots before room (set_iter chunks) (held_tasks s node) set_new 0
           in fit_loop s nodes rest (room - added)
                \<lparr>fg_grants = fg_grants fitted @ (if is_empty_set kept then [] else [(node, kept)]),
                 fg_started = add64 (fg_started fitted) added, fg_held_back = held_back\<rparr>)"

definition fit_grants ::
  "task_array_state \<Rightarrow> (string \<times> index_range_set) list \<Rightarrow> node_slots list \<Rightarrow> nat \<Rightarrow> fitted_grants" where
  "fit_grants s plan nodes room =
     fit_loop s nodes plan room \<lparr>fg_grants = [], fg_started = 0, fg_held_back = None\<rparr>"

text \<open>The caller applies a plan one grant at a time.\<close>

fun apply_plan ::
  "(string \<times> index_range_set) list \<Rightarrow> task_array_state \<Rightarrow> task_array_error + task_array_state" where
  "apply_plan [] s = Inr s"
| "apply_plan ((node, chunks) # rest) s =
     (case grant node chunks s of Inl e \<Rightarrow> Inl e | Inr s' \<Rightarrow> apply_plan rest s')"

section \<open>Shares\<close>

lemma hand_out_length [simp]: "length (hand_out left order shares) = length shares"
  by (induction left order shares rule: hand_out.induct) auto

lemma hand_out_spec:
  assumes "distinct order" and "set order \<subseteq> {..<length shares}" and "left \<le> length order"
    and "\<forall>i \<in> set order. shares ! i < u64_max"
  shows "sum_list (hand_out left order shares) = sum_list shares + left"
    and "i < length shares \<Longrightarrow> shares ! i \<le> hand_out left order shares ! i \<and> hand_out left order shares ! i \<le> shares ! i + 1"
proof -
  have "sum_list (hand_out left order shares) = sum_list shares + left \<and>
    (\<forall>i < length shares. hand_out left order shares ! i = shares ! i + (if i \<in> set (take left order) then 1 else 0))"
    using assms
  proof (induction left order shares rule: hand_out.induct)
    case (2 left index rest shares)
    show ?case
    proof (cases "left = 0")
      case False
      let ?shares = "shares[index := shares ! index + 1]"
      have idx: "index < length shares" and rest: "distinct rest" "index \<notin> set rest" "set rest \<subseteq> {..<length ?shares}"
        and small: "shares ! index < u64_max" "\<forall>i \<in> set rest. ?shares ! i < u64_max"
        and left: "left - 1 \<le> length rest"
        using "2.prems" by (auto simp: nth_list_update)
      have upd: "shares[index := add64 (shares ! index) 1] = ?shares" using small(1) by (simp add: add64_exact)
      have IH: "sum_list (hand_out (left - 1) rest ?shares) = sum_list ?shares + (left - 1)"
        "\<forall>i < length shares. hand_out (left - 1) rest ?shares ! i = ?shares ! i + (if i \<in> set (take (left - 1) rest) then 1 else 0)"
        using "2.IH" [OF False] rest small(2) left unfolding upd by auto
      have sum: "sum_list ?shares = sum_list shares + 1"
        using idx by (simp add: sum_list_update elem_le_sum_list)
      have "take left (index # rest) = index # take (left - 1) rest" using False by (cases left) auto
      moreover have "index \<notin> set (take (left - 1) rest)" using rest(2) in_set_takeD by fastforce
      moreover have step: "hand_out left (index # rest) shares = hand_out (left - 1) rest ?shares"
        using False by (simp only: hand_out.simps upd if_False)
      ultimately show ?thesis
        using False IH sum idx unfolding step by (auto simp: nth_list_update)
    qed simp
  qed simp
  then show "sum_list (hand_out left order shares) = sum_list shares + left"
    and "i < length shares \<Longrightarrow> shares ! i \<le> hand_out left order shares ! i \<and> hand_out left order shares ! i \<le> shares ! i + 1"
    by auto
qed

lemma sum_list_div_mod:
  "sum_list xs = sum_list (map (\<lambda>x. x div t) xs) * t + sum_list (map (\<lambda>x. x mod t) xs)" for t :: nat
  by (induction xs) (auto simp: algebra_simps)

lemma capacity_shares_sum:
  assumes pos: "0 < sum_list slots" and fits: "outstanding < u64_max"
  shows "length (capacity_shares outstanding slots) = length slots"
    and "sum_list (capacity_shares outstanding slots) = outstanding"
    and "i < length slots \<Longrightarrow> outstanding * slots ! i div sum_list slots \<le> capacity_shares outstanding slots ! i \<and>
      capacity_shares outstanding slots ! i \<le> outstanding * slots ! i div sum_list slots + 1"
proof -
  let ?T = "sum_list slots" and ?n = "length slots"
  define exact where "exact = map (\<lambda>n. outstanding * n) slots"
  define shares where "shares = map (\<lambda>e. e div ?T) exact"
  define order where "order = sort_key (\<lambda>index. - int (exact ! index mod ?T)) [0..<?n]"
  have each: "e div ?T \<le> outstanding" if "e \<in> set exact" for e
  proof -
    obtain n where "n \<in> set slots" "e = outstanding * n" using \<open>e \<in> set exact\<close> by (auto simp: exact_def)
    moreover have "n \<le> ?T" using \<open>n \<in> set slots\<close> by (simp add: member_le_sum_list)
    ultimately show ?thesis
      using div_le_mono [of "outstanding * n" "outstanding * ?T" ?T] pos by simp
  qed
  have sum_exact: "sum_list exact = outstanding * ?T" by (simp add: exact_def sum_list_const_mult)
  have split: "outstanding * ?T = sum_list shares * ?T + sum_list (map (\<lambda>x. x mod ?T) exact)"
    using sum_list_div_mod [of exact ?T] by (simp add: sum_exact shares_def)
  then have "sum_list shares * ?T \<le> outstanding * ?T" by simp
  then have le: "sum_list shares \<le> outstanding" using pos by simp
  have "sum_list (map (\<lambda>x. x mod ?T) exact) \<le> sum_list (map (\<lambda>_. ?T) exact)"
    by (rule sum_list_mono) (simp add: pos less_imp_le)
  also have "\<dots> = ?n * ?T" by (simp add: sum_list_triv exact_def map_replicate_const sum_list_replicate comp_def)
  finally have "outstanding * ?T \<le> (sum_list shares + ?n) * ?T" using split by (simp add: algebra_simps)
  then have left: "outstanding - sum_list shares \<le> ?n" using pos by simp
  have clip: "map (\<lambda>e. if e div ?T \<le> u64_max then e div ?T else u64_max) exact = shares"
    using each fits by (fastforce simp: shares_def)
  have s64: "sum64 shares = sum_list shares" using le fits by (simp add: sum64_eq)
  have out: "capacity_shares outstanding slots = hand_out (outstanding - sum_list shares) order shares"
    unfolding capacity_shares_def Let_def exact_def [symmetric] order_def [symmetric] clip s64
    by (rule if_not_P) (use pos in linarith)
  have len: "length shares = ?n" by (simp add: shares_def exact_def)
  have "\<forall>x \<in> set shares. x < u64_max" using each fits by (auto simp: shares_def intro: le_less_trans)
  then have "\<forall>i \<in> set order. shares ! i < u64_max" by (simp add: order_def len)
  note spec = hand_out_spec [of order shares "outstanding - sum_list shares", OF _ _ _ this]
  show "length (capacity_shares outstanding slots) = length slots" by (simp add: out len)
  show "sum_list (capacity_shares outstanding slots) = outstanding"
    using spec(1) left le by (simp add: out len order_def atLeast0LessThan)
  show "outstanding * slots ! i div ?T \<le> capacity_shares outstanding slots ! i \<and>
      capacity_shares outstanding slots ! i \<le> outstanding * slots ! i div ?T + 1" if "i < length slots"
    using spec(2) [of i] left that by (simp add: out len order_def atLeast0LessThan shares_def exact_def)
qed

section \<open>Plans\<close>

lemma plan_order_props:
  "distinct (map ns_node (plan_order s nodes))"
  "\<forall>c \<in> set (plan_order s nodes). c \<in> set nodes \<and> 0 < ns_slots c"
proof -
  define add where "add = (\<lambda>order (c :: node_slots). if ns_slots c > 0 \<and> \<not> list_ex (\<lambda>n. ns_node n = ns_node c) order
    then order @ [c] else order)"
  have "distinct (map ns_node (foldl add acc cs)) \<and> (\<forall>c \<in> set (foldl add acc cs). c \<in> set acc \<union> set cs \<and> 0 < ns_slots c)"
    if "distinct (map ns_node acc)" "\<forall>c \<in> set acc. 0 < ns_slots c" for acc cs
    using that
  proof (induction cs arbitrary: acc)
    case (Cons c cs)
    have "distinct (map ns_node (add acc c))" "\<forall>c \<in> set (add acc c). 0 < ns_slots c"
      using Cons.prems by (auto simp: add_def list_ex_iff)
    note Cons.IH [OF this]
    moreover have "set (add acc c) \<subseteq> set acc \<union> {c}" by (auto simp: add_def)
    ultimately show ?case by auto
  qed simp
  from this [of "[]" nodes] show "distinct (map ns_node (plan_order s nodes))"
    "\<forall>c \<in> set (plan_order s nodes). c \<in> set nodes \<and> 0 < ns_slots c"
    unfolding plan_order_def add_def [symmetric] by (auto simp: distinct_map)
qed

text \<open>A plan hands out pairwise disjoint, non-empty pieces of the queue, lowest chunks first.\<close>

definition plan_ok :: "(string \<times> index_range_set) list \<Rightarrow> nat set \<Rightarrow> bool" where
  "plan_ok plan queue \<longleftrightarrow>
     (\<forall>e \<in> set plan. ranges_ok (snd e) \<and> snd e \<noteq> [] \<and> members (snd e) \<subseteq> queue) \<and>
     sorted_wrt (\<lambda>e e'. \<forall>x \<in> members (snd e). \<forall>y \<in> members (snd e'). x < y) plan \<and>
     (\<forall>e \<in> set plan. \<forall>x \<in> members (snd e). \<forall>y \<in> queue. y \<notin> (\<Union>e \<in> set plan. members (snd e)) \<longrightarrow> x < y)"

lemma plan_ok_Cons:
  assumes "ranges_ok cs" and "cs \<noteq> []" and "members cs \<union> Q' = Q" and "\<forall>x \<in> members cs. \<forall>y \<in> Q'. x < y"
    and plan: "plan_ok plan Q'"
  shows "plan_ok ((node, cs) # plan) Q"
proof -
  have "\<forall>e \<in> set plan. members (snd e) \<subseteq> Q'" using plan by (simp add: plan_ok_def)
  then show ?thesis
    using assms unfolding plan_ok_def by (auto 0 4)
qed

lemma plan_loop_ok:
  "ranges_ok queue \<Longrightarrow> plan_ok (plan_loop s lookahead cs queue) (members queue)"
proof (induction s lookahead cs queue rule: plan_loop.induct)
  case (1 s lookahead queue)
  then show ?case by (simp add: plan_ok_def)
next
  case (2 s lookahead candidate share rest queue)
  define wanted where "wanted = (if lookahead then observed_grant_depth s (ns_slots candidate) share
                        else grant_depth (ns_slots candidate) (chunk_size (ta_spec s))) - held_len s (ns_node candidate)"
  obtain chunks queue' where tf: "take_first wanted queue = (chunks, queue')" by force
  note spec = take_first_spec [OF "2.prems" tf]
  show ?case
  proof (cases "is_empty_set queue")
    case True
    then show ?thesis by (simp add: plan_ok_def)
  next
    case False
    have IH: "plan_ok (plan_loop s lookahead rest queue') (members queue')"
      using "2.IH" [OF False refl refl tf [symmetric, unfolded wanted_def] refl] spec by simp
    have eq: "plan_loop s lookahead ((candidate, share) # rest) queue =
        (if is_empty_set chunks then plan_loop s lookahead rest queue'
         else (ns_node candidate, chunks) # plan_loop s lookahead rest queue')"
      using False tf by (simp add: wanted_def)
    show ?thesis
    proof (cases "chunks = []")
      case True
      then show ?thesis using IH spec unfolding eq by (simp add: is_empty_set_def)
    next
      case False
      then show ?thesis using plan_ok_Cons [of chunks "members queue'" "members queue"] IH spec
        unfolding eq by (simp add: is_empty_set_def)
    qed
  qed
qed

lemma subseq_set: "subseq xs ys \<Longrightarrow> set xs \<subseteq> set ys"
  by (induction rule: list_emb.induct) auto

lemma subseq_distinct: "subseq xs ys \<Longrightarrow> distinct ys \<Longrightarrow> distinct xs"
  by (induction rule: list_emb.induct) (auto dest: subseq_set)

lemma plan_loop_nodes: "subseq (map fst (plan_loop s lookahead cs queue)) (map (ns_node \<circ> fst) cs)"
proof (induction s lookahead cs queue rule: plan_loop.induct)
  case (2 s lookahead candidate share rest queue)
  then show ?case by (auto simp: Let_def split: prod.splits)
qed simp

lemma plan_loop_depth:
  "ranges_ok queue \<Longrightarrow> (node, chunks) \<in> set (plan_loop s lookahead cs queue) \<Longrightarrow>
   \<exists>c \<in> set (map fst cs). ns_node c = node \<and>
     held_len s node + set_len chunks \<le> max (grant_depth (ns_slots c) (chunk_size (ta_spec s))) MAX_LEARNED_GRANT_DEPTH"
proof (induction s lookahead cs queue rule: plan_loop.induct)
  case (1 s lookahead queue)
  then show ?case by simp
next
  case (2 s lookahead candidate share rest queue)
  let ?base = "grant_depth (ns_slots candidate) (chunk_size (ta_spec s))"
  define depth where "depth = (if lookahead then observed_grant_depth s (ns_slots candidate) share else ?base)"
  have depth: "depth \<le> max ?base MAX_LEARNED_GRANT_DEPTH"
    by (auto simp: depth_def observed_grant_depth_def Let_def)
  obtain taken queue' where tf: "take_first (depth - held_len s (ns_node candidate)) queue = (taken, queue')" by force
  note spec = take_first_spec [OF "2.prems"(1) tf]
  show ?case
  proof (cases "is_empty_set queue")
    case True
    then show ?thesis using "2.prems" by simp
  next
    case False
    have eq: "plan_loop s lookahead ((candidate, share) # rest) queue =
        (if is_empty_set taken then plan_loop s lookahead rest queue'
         else (ns_node candidate, taken) # plan_loop s lookahead rest queue')"
      using False tf by (simp add: depth_def)
    then consider "(node, chunks) \<in> set (plan_loop s lookahead rest queue')"
      | "node = ns_node candidate" "chunks = taken" "taken \<noteq> []"
      using "2.prems"(2) by (auto simp: is_empty_set_def split: if_splits)
    then show ?thesis
    proof cases
      case 1
      then show ?thesis
        using "2.IH" [OF False refl refl tf [symmetric, unfolded depth_def] refl] spec by auto
    next
      case 2
      have "ranges_ok taken" using spec by blast
      then have "set_len taken \<noteq> 0" using 2(3) members_empty_iff [of taken] set_len_card [of taken] by simp
      then have "held_len s node + set_len taken \<le> depth" using spec 2(1) by (auto simp: min_def split: if_splits)
      then show ?thesis using 2 depth by auto
    qed
  qed
qed

lemma grant_succeeds:
  assumes wp: "wf_partition s" and "valid_node_id node" "ta_stopped s = None"
    and ok: "ranges_ok cs" and sub: "members cs \<subseteq> members (ta_queued s)"
  obtains s' where "grant node cs s = Inr s'" "members (ta_queued s') = members (ta_queued s) - members cs"
    "ta_stopped s' = None"
proof -
  have qok: "ranges_ok (ta_queued s)" using wp by (simp add: wf_partition_def)
  have "find (\<lambda>(first, final). \<not> contains_range (ta_queued s) first final) cs = None"
    using contained_iff [OF qok, of cs] sub by (auto simp: find_None_iff list_all_iff)
  then obtain s' where g: "grant node cs s = Inr s'"
    using assms(2,3) by (cases "is_empty_set cs") (simp_all add: grant_def)
  note s' = grant_Inr(4) [OF wp g]
  have "members (ta_queued s') = members (ta_queued s) - members cs"
    using fold_remove_ranges [OF qok, of cs] by (auto simp: s')
  moreover have "ta_stopped s' = None" using assms(3) by (simp add: s')
  ultimately show thesis using that g by blast
qed

lemma apply_plan_ok:
  assumes "ta_wf s" and "ta_stopped s = None"
    and "\<forall>e \<in> set plan. valid_node_id (fst e) \<and> ranges_ok (snd e) \<and> members (snd e) \<subseteq> members (ta_queued s)"
    and "sorted_wrt (\<lambda>e e'. members (snd e) \<inter> members (snd e') = {}) plan"
  shows "\<exists>s'. apply_plan plan s = Inr s' \<and> ta_wf s' \<and>
    members (ta_queued s') = members (ta_queued s) - (\<Union>e \<in> set plan. members (snd e))"
  using assms
proof (induction plan arbitrary: s)
  case Nil
  then show ?case by simp
next
  case (Cons e plan)
  obtain node cs where e: "e = (node, cs)" by force
  have cs: "valid_node_id node" "ranges_ok cs" "members cs \<subseteq> members (ta_queued s)" using Cons.prems(3) by (auto simp: e)
  have wp: "wf_partition s" using Cons.prems(1) by (simp add: ta_wf_def)
  obtain s1 where s1: "grant node cs s = Inr s1" "members (ta_queued s1) = members (ta_queued s) - members cs"
    "ta_stopped s1 = None"
    by (rule grant_succeeds [OF wp cs(1) Cons.prems(2) cs(2,3)])
  have wf1: "ta_wf s1" by (rule grant_wf [OF Cons.prems(1) cs(2) s1(1)])
  have "\<forall>e \<in> set plan. valid_node_id (fst e) \<and> ranges_ok (snd e) \<and> members (snd e) \<subseteq> members (ta_queued s1)"
    using Cons.prems(3,4) by (auto simp: s1(2) e)
  from Cons.IH [OF wf1 s1(3) this] Cons.prems(4) obtain s' where "apply_plan plan s1 = Inr s'" "ta_wf s'"
    "members (ta_queued s') = members (ta_queued s1) - (\<Union>e \<in> set plan. members (snd e))" by auto
  then show ?case using s1 by (auto simp: e)
qed

section \<open>Trimming a plan to a quota\<close>

abbreviation one_chunk :: "task_array_state \<Rightarrow> nat \<Rightarrow> nat" where
  "one_chunk s c \<equiv> tasks_in (ta_spec s) (from_range c c)"

text \<open>
  The loop keeps a prefix of the node's chunks. \<open>hold\<close> is the exact number of held tasks; the
  code's saturating sum only differs from it above the slot count.
\<close>

lemma fit_chunks_spec:
  assumes "slots \<le> u64_max" and "held = min hold u64_max" and "added = min hold slots - before"
    and "added \<le> room" and "ranges_ok kept" and "\<forall>c \<in> set cs. c \<le> u32_max"
    and "fit_chunks s slots before room cs held kept added = (kept', added', refused)"
  shows "ranges_ok kept' \<and> added' \<le> room \<and>
    (\<exists>k \<le> length cs. members kept' = members kept \<union> set (take k cs) \<and>
       added' = min (hold + sum_list (map (one_chunk s) (take k cs))) slots - before \<and>
       (case refused of
          None \<Rightarrow> k = length cs
        | Some extra \<Rightarrow> k < length cs \<and> 0 < extra \<and>
            added' + extra = min (hold + sum_list (map (one_chunk s) (take (Suc k) cs))) slots - before \<and>
            room < added' + extra))"
  using assms
proof (induction cs arbitrary: held hold kept added)
  case Nil
  then show ?case by auto
next
  case (Cons c cs)
  let ?t = "one_chunk s c"
  have after: "min (sat_add64 held ?t) slots = min (hold + ?t) slots"
    using Cons.prems(1,2) by (simp add: sat_add64_def min_def)
  have held': "sat_add64 held ?t = min (hold + ?t) u64_max"
    using Cons.prems(2) by (simp add: sat_add64_def min_def)
  show ?case
  proof (cases "min (hold + ?t) slots - before > room")
    case True
    define cost where "cost = min (hold + ?t) slots - before"
    have res: "kept' = kept" "added' = added" "refused = Some (cost - added)"
      using Cons.prems(7) after True by (auto simp: Let_def cost_def)
    have le: "added \<le> cost"
      unfolding Cons.prems(3) cost_def by (intro diff_le_mono min.mono) simp_all
    have over: "room < cost" using True by (simp add: cost_def)
    have now: "added = min (hold + sum_list (map (one_chunk s) (take 0 (c # cs)))) slots - before"
      and then': "min (hold + sum_list (map (one_chunk s) (take (Suc 0) (c # cs)))) slots - before = cost"
      using Cons.prems(3) by (simp_all add: cost_def)
    show ?thesis
      unfolding res option.case then'
    proof (intro conjI exI [of _ 0])
      show "added = min (hold + sum_list (map (one_chunk s) (take 0 (c # cs)))) slots - before" by (rule now)
      show "0 < cost - added" "added + (cost - added) = min (hold + sum_list (map (one_chunk s) (take (Suc 0) (c # cs)))) slots - before"
        "room < added + (cost - added)"
        using le over Cons.prems(4) unfolding then' by linarith+
    qed (use Cons.prems(4,5) in simp_all)
  next
    case False
    have ok: "ranges_ok (snd (insert_index c kept))" "members (snd (insert_index c kept)) = insert c (members kept)"
      using insert_index_spec [OF Cons.prems(5), of c] Cons.prems(6) by auto
    have run: "fit_chunks s slots before room cs (sat_add64 held ?t) (snd (insert_index c kept))
        (min (hold + ?t) slots - before) = (kept', added', refused)"
      using Cons.prems(7) False after by (simp add: Let_def)
    have "min (hold + ?t) slots - before \<le> room" "\<forall>c \<in> set cs. c \<le> u32_max"
      using False Cons.prems(6) by simp_all
    from Cons.IH [OF Cons.prems(1) held' refl this(1) ok(1) this(2) run]
    obtain k where k: "ranges_ok kept'" "added' \<le> room" "k \<le> length cs"
      "members kept' = insert c (members kept) \<union> set (take k cs)"
      "added' = min (hold + ?t + sum_list (map (one_chunk s) (take k cs))) slots - before"
      "case refused of None \<Rightarrow> k = length cs
        | Some extra \<Rightarrow> k < length cs \<and> 0 < extra \<and>
            added' + extra = min (hold + ?t + sum_list (map (one_chunk s) (take (Suc k) cs))) slots - before \<and>
            room < added' + extra"
      unfolding ok(2) by blast
    show ?thesis
      using k by (intro conjI exI [of _ "Suc k"]) (auto simp: add.assoc split: option.splits)
  qed
qed

definition added_by :: "task_array_state \<Rightarrow> node_slots list \<Rightarrow> string \<times> index_range_set \<Rightarrow> nat" where
  "added_by s nodes g =
     min (held_tasks s (fst g) + tasks_of (ta_spec s) (members (snd g))) (slots_of nodes (fst g))
       - in_flight_on s (fst g) (slots_of nodes (fst g))"

lemma tasks_of_list:
  assumes "validate (ta_spec s) = Inr ()" and "distinct cs" and "set cs \<subseteq> {..<chunk_count (ta_spec s)}"
  shows "sum_list (map (one_chunk s) cs) = tasks_of (ta_spec s) (set cs)"
  using assms(2,3)
proof (induction cs)
  case (Cons c cs)
  have c: "c < chunk_count (ta_spec s)" using Cons.prems(2) by simp
  then have "c \<le> u32_max" using validate_bounds(5) [OF assms(1)] by simp
  from from_range_spec [OF this, of c]
  have "one_chunk s c = tasks_of (ta_spec s) {c}"
    using tasks_in_exact [OF assms(1), of "from_range c c"] c by simp
  moreover have "tasks_of (ta_spec s) (insert c (set cs)) = tasks_of (ta_spec s) {c} + tasks_of (ta_spec s) (set cs)"
    using Cons.prems(1) by (simp add: tasks_of_def)
  ultimately show ?case using Cons by simp
qed simp

text \<open>One node of the plan: a prefix of its chunks is kept, at exactly the cost charged.\<close>

lemma fit_node_spec:
  assumes wf: "ta_wf s" and chunks: "ranges_ok chunks" "members chunks \<subseteq> {..<chunk_count (ta_spec s)}"
    and slots: "slots_of nodes node \<le> u64_max"
    and run: "fit_chunks s (slots_of nodes node) (in_flight_on s node (slots_of nodes node)) room
      (set_iter chunks) (held_tasks s node) set_new 0 = (kept, added, refused)"
  shows "ranges_ok kept \<and> members kept \<subseteq> members chunks \<and> added \<le> room \<and>
    added = added_by s nodes (node, kept) \<and> (refused = None \<longrightarrow> kept = chunks) \<and>
    (\<forall>x \<in> members kept. \<forall>y \<in> members chunks - members kept. x < y) \<and>
    (refused \<noteq> None \<longrightarrow> (\<exists>c \<in> members chunks - members kept.
       room < added_by s nodes (node, snd (insert_index c kept))))"
proof -
  let ?slots = "slots_of nodes node" and ?before = "in_flight_on s node (slots_of nodes node)"
  have v: "validate (ta_spec s) = Inr ()" and wp: "wf_partition s" using wf by (simp_all add: ta_wf_def)
  have sorted: "sorted_wrt (<) (set_iter chunks)" by (rule set_iter_sorted [OF chunks(1)])
  then have dist: "distinct (set_iter chunks)" by (simp add: strict_sorted_iff)
  have hold: "held_tasks s node \<le> u64_max"
  proof (cases "held_by s node")
    case (Some g)
    then have g: "map_of (ta_grants s) node = Some g" by (simp add: held_by_def)
    have "members g \<subseteq> {..<chunk_count (ta_spec s)}" using wf_held(4) [OF wp g] wf_subsets(2) [OF wp] by blast
    then have "tasks_in (ta_spec s) g \<le> task_count (ta_spec s)"
      using tasks_in_exact [OF v wf_held(1) [OF wp g]] tasks_of_le_count [OF v] by simp
    then show ?thesis using Some validate_bounds(2) [OF v] by (simp add: held_tasks_def)
  qed (simp add: held_tasks_def)
  then have start: "held_tasks s node = min (held_tasks s node) u64_max"
    "0 = min (held_tasks s node) ?slots - ?before" by (simp_all add: in_flight_on_def)
  have u32: "\<forall>c \<in> set (set_iter chunks). c \<le> u32_max"
    using members_bound [OF chunks(1)] by (simp add: set_iter_set)
  from fit_chunks_spec [OF slots start _ _ u32 run] obtain k where
    kept: "ranges_ok kept" "added \<le> room" "members kept = set (take k (set_iter chunks))"
    and k: "k \<le> length (set_iter chunks)"
    and added: "added = min (held_tasks s node + sum_list (map (one_chunk s) (take k (set_iter chunks)))) ?slots - ?before"
    and stopped: "case refused of None \<Rightarrow> k = length (set_iter chunks)
      | Some extra \<Rightarrow> k < length (set_iter chunks) \<and> 0 < extra \<and>
          added + extra = min (held_tasks s node + sum_list (map (one_chunk s) (take (Suc k) (set_iter chunks)))) ?slots - ?before \<and>
          room < added + extra"
    by (auto simp: set_new_def)
  have tasks: "sum_list (map (one_chunk s) (take m (set_iter chunks))) = tasks_of (ta_spec s) (set (take m (set_iter chunks)))" for m
    using tasks_of_list [OF v, of "take m (set_iter chunks)"] dist chunks(2) set_take_subset [of m "set_iter chunks"]
    by (auto simp: set_iter_set)
  have sub: "members kept \<subseteq> members chunks"
    unfolding kept(3) using set_take_subset [of k "set_iter chunks"] by (simp add: set_iter_set)
  have all: "kept = chunks" if "refused = None"
    using that stopped kept(1,3) chunks(1) by (intro ranges_canonical) (auto simp: set_iter_set)
  have "sorted_wrt (<) (take k (set_iter chunks) @ drop k (set_iter chunks))" using sorted by simp
  then have "\<forall>x \<in> set (take k (set_iter chunks)). \<forall>y \<in> set (drop k (set_iter chunks)). x < y"
    unfolding sorted_wrt_append by blast
  moreover have "members chunks - members kept \<subseteq> set (drop k (set_iter chunks))"
    using set_append [of "take k (set_iter chunks)" "drop k (set_iter chunks)"] set_iter_set [of chunks]
    unfolding kept(3) append_take_drop_id by blast
  ultimately have low: "\<forall>x \<in> members kept. \<forall>y \<in> members chunks - members kept. x < y"
    unfolding kept(3) by blast
  have next_chunk: "\<exists>c \<in> members chunks - members kept. room < added_by s nodes (node, snd (insert_index c kept))"
    if some: "refused \<noteq> None"
  proof -
    obtain extra where "refused = Some extra" using some by auto
    then have lt: "k < length (set_iter chunks)" and over: "room < min (held_tasks s node +
        tasks_of (ta_spec s) (set (take (Suc k) (set_iter chunks)))) ?slots - ?before"
      using stopped tasks by auto
    let ?c = "set_iter chunks ! k"
    have c: "?c \<in> members chunks" using lt nth_mem set_iter_set by blast
    have "?c \<notin> members kept"
      unfolding kept(3) using dist lt by (auto simp: in_set_conv_nth nth_eq_iff_index_eq)
    moreover have "members (snd (insert_index ?c kept)) = set (take (Suc k) (set_iter chunks))"
      using insert_index_spec(2) [OF kept(1), of ?c] members_bound [OF chunks(1) c] lt
      by (simp add: kept(3) take_Suc_conv_app_nth)
    ultimately show ?thesis using c over by (intro bexI [of _ ?c]) (auto simp: added_by_def)
  qed
  have "added = added_by s nodes (node, kept)" using added tasks by (simp add: added_by_def kept(3))
  then show ?thesis using kept(1,2) sub all low next_chunk by blast
qed

lemma fit_loop_spec:
  assumes wf: "ta_wf s" and slots: "\<forall>n. slots_of nodes n \<le> u64_max"
    and "\<forall>e \<in> set plan. ranges_ok (snd e) \<and> snd e \<noteq> [] \<and> members (snd e) \<subseteq> {..<chunk_count (ta_spec s)}"
    and "fg_started fitted + room \<le> u64_max" and "fg_held_back fitted = None"
  shows "\<exists>new. fg_grants (fit_loop s nodes plan room fitted) = fg_grants fitted @ new \<and>
    fg_started (fit_loop s nodes plan room fitted) = fg_started fitted + sum_list (map (added_by s nodes) new) \<and>
    sum_list (map (added_by s nodes) new) \<le> room \<and>
    subseq (map fst new) (map fst plan) \<and>
    (\<forall>g \<in> set new. ranges_ok (snd g) \<and> snd g \<noteq> [] \<and>
       (\<exists>chunks. (fst g, chunks) \<in> set plan \<and> members (snd g) \<subseteq> members chunks)) \<and>
    (fg_held_back (fit_loop s nodes plan room fitted) = None \<longrightarrow> new = plan)"
  using assms(3-5)
proof (induction plan arbitrary: room fitted)
  case Nil
  then show ?case by auto
next
  case (Cons e plan)
  obtain node chunks where e: "e = (node, chunks)" by force
  obtain kept added refused where run: "fit_chunks s (slots_of nodes node) (in_flight_on s node (slots_of nodes node)) room
      (set_iter chunks) (held_tasks s node) set_new 0 = (kept, added, refused)" by (rule prod_cases3)
  have ch: "ranges_ok chunks" "chunks \<noteq> []" "members chunks \<subseteq> {..<chunk_count (ta_spec s)}"
    using Cons.prems(1) by (auto simp: e)
  note node_spec = fit_node_spec [OF wf ch(1,3) slots [rule_format] run]
  define head where "head = (if is_empty_set kept then [] else [(node, kept)])"
  define f where "f = \<lparr>fg_grants = fg_grants fitted @ head, fg_started = add64 (fg_started fitted) added,
    fg_held_back = refused\<rparr>"
  have step: "fit_loop s nodes (e # plan) room fitted = fit_loop s nodes plan (room - added) f"
    using run Cons.prems(3) by (simp add: e Let_def f_def head_def)
  have empty_cost: "added_by s nodes (node, []) = 0"
    by (simp add: added_by_def in_flight_on_def)
  have head: "sum_list (map (added_by s nodes) head) = added" "\<forall>g \<in> set head. g = (node, kept) \<and> kept \<noteq> []"
    using node_spec empty_cost by (auto simp: head_def is_empty_set_def)
  have started: "fg_started f = fg_started fitted + added"
    using Cons.prems(2) node_spec by (simp add: f_def add64_exact)
  show ?case
  proof (cases refused)
    case None
    then have kept: "kept = chunks" using node_spec by simp
    have "fg_started f + (room - added) \<le> u64_max" using started Cons.prems(2) node_spec by linarith
    from Cons.IH [OF _ this] obtain new where new: "fg_grants (fit_loop s nodes plan (room - added) f) = fg_grants f @ new"
      "fg_started (fit_loop s nodes plan (room - added) f) = fg_started f + sum_list (map (added_by s nodes) new)"
      "sum_list (map (added_by s nodes) new) \<le> room - added" "subseq (map fst new) (map fst plan)"
      "\<forall>g \<in> set new. ranges_ok (snd g) \<and> snd g \<noteq> [] \<and> (\<exists>chunks. (fst g, chunks) \<in> set plan \<and> members (snd g) \<subseteq> members chunks)"
      "fg_held_back (fit_loop s nodes plan (room - added) f) = None \<longrightarrow> new = plan"
      using None Cons.prems(1) by (auto simp: f_def)
    have h: "head = [e]" using kept ch(2) by (simp add: head_def is_empty_set_def e)
    show ?thesis
      unfolding step
      by (rule exI [of _ "head @ new"])
        (use new head node_spec started ch kept in \<open>auto simp: f_def h e\<close>)
  next
    case (Some extra)
    then have stop: "fit_loop s nodes plan (room - added) f = f" by (cases plan) (auto simp: f_def)
    show ?thesis
      unfolding step stop
    proof (intro exI [of _ head] conjI)
      show "sum_list (map (added_by s nodes) head) \<le> room" unfolding head(1) using node_spec by blast
      show "subseq (map fst head) (map fst (e # plan))" by (simp add: head_def e)
      show "\<forall>g \<in> set head. ranges_ok (snd g) \<and> snd g \<noteq> [] \<and>
          (\<exists>chunks. (fst g, chunks) \<in> set (e # plan) \<and> members (snd g) \<subseteq> members chunks)"
        using head(2) node_spec unfolding e by (metis fst_conv list.set_intros(1) snd_conv)
      show "fg_started f = fg_started fitted + sum_list (map (added_by s nodes) head)"
        unfolding head(1) by (rule started)
    qed (simp_all add: f_def Some)
  qed
qed

section \<open>Properties\<close>

text \<open>
  the capacity shares of the nodes add up exactly to the outstanding chunks, and no node's
  share is off its exact proportion by a whole chunk.
\<close>

lemma capacity_shares_exact:
  assumes "0 < sum_list slots" and "outstanding < u64_max"
  shows "length (capacity_shares outstanding slots) = length slots \<and>
    sum_list (capacity_shares outstanding slots) = outstanding \<and>
    (\<forall>i < length slots. outstanding * slots ! i div sum_list slots \<le> capacity_shares outstanding slots ! i \<and>
       capacity_shares outstanding slots ! i \<le> outstanding * slots ! i div sum_list slots + 1)"
  using capacity_shares_sum [OF assms] by blast


text \<open>
  C31: a plan can always be applied. For a reachable array and nodes with valid names, granting
  the planned chunks node by node succeeds at every step; the plan takes the lowest queued chunks,
  names each node at most once, and tops no node up beyond its baseline depth or the learned
  lookahead bound.
\<close>

theorem plan_grants_applies:
  assumes "ta_new spec at = Inr s0" and "ta_step\<^sup>*\<^sup>* s0 s"
    and "\<forall>c \<in> set nodes. valid_node_id (ns_node c)"
  shows "(\<exists>s'. apply_plan (plan_grants s nodes lookahead) s = Inr s' \<and>
      members (ta_queued s') = members (ta_queued s) - (\<Union>e \<in> set (plan_grants s nodes lookahead). members (snd e))) \<and>
    distinct (map fst (plan_grants s nodes lookahead)) \<and>
    (\<forall>e \<in> set (plan_grants s nodes lookahead). \<forall>x \<in> members (snd e). \<forall>y \<in> members (ta_queued s).
       y \<notin> (\<Union>e \<in> set (plan_grants s nodes lookahead). members (snd e)) \<longrightarrow> x < y) \<and>
    (\<forall>(node, chunks) \<in> set (plan_grants s nodes lookahead). \<exists>c \<in> set nodes. ns_node c = node \<and>
       held_len s node + set_len chunks \<le> max (grant_depth (ns_slots c) (chunk_size (ta_spec s))) MAX_LEARNED_GRANT_DEPTH)"
proof (cases "ta_stopped s = None")
  case False
  then show ?thesis by (simp add: plan_grants_def)
next
  case True
  have wf: "ta_wf s" by (rule reachable_wf [OF assms(1,2)])
  have qok: "ranges_ok (ta_queued s)" using wf by (simp add: ta_wf_def wf_partition_def)
  define cs where "cs = zip (plan_order s nodes) (capacity_shares
    (foldl (\<lambda>sum c. sat_add64 sum (held_len s (ns_node c))) (set_len (ta_queued s)) (plan_order s nodes))
    (map ns_slots (plan_order s nodes)))"
  define plan where "plan = plan_loop s lookahead cs (ta_queued s)"
  have plan: "plan_grants s nodes lookahead = plan" using True by (simp add: plan_grants_def plan_def cs_def Let_def)
  have ok: "plan_ok plan (members (ta_queued s))" unfolding plan_def by (rule plan_loop_ok [OF qok])
  have fst_cs: "set (map fst cs) \<subseteq> set (plan_order s nodes)" by (auto simp: cs_def dest: set_zip_leftD)
  have "map (ns_node \<circ> fst) cs = take (length cs) (map ns_node (plan_order s nodes))"
    by (simp add: cs_def map_fst_zip_take flip: map_map take_map)
  then have dist_cs: "distinct (map (ns_node \<circ> fst) cs)" using plan_order_props(1) [of s nodes] by simp
  have nodes: "subseq (map fst plan) (map (ns_node \<circ> fst) cs)" unfolding plan_def by (rule plan_loop_nodes)
  have valid: "\<forall>e \<in> set plan. valid_node_id (fst e)"
    using subseq_set [OF nodes] fst_cs plan_order_props(2) [of s nodes] assms(3) by fastforce
  have "sorted_wrt (\<lambda>e e'. members (snd e) \<inter> members (snd e') = {}) plan"
    using ok unfolding plan_ok_def by (auto elim!: sorted_wrt_mono_rel [rotated])
  then obtain s' where "apply_plan plan s = Inr s'"
      "members (ta_queued s') = members (ta_queued s) - (\<Union>e \<in> set plan. members (snd e))"
    using apply_plan_ok [OF wf True, of plan] ok valid unfolding plan_ok_def by blast
  moreover have "distinct (map fst plan)" using subseq_distinct [OF nodes dist_cs] .
  moreover have "\<forall>(node, chunks) \<in> set plan. \<exists>c \<in> set nodes. ns_node c = node \<and>
      held_len s node + set_len chunks \<le> max (grant_depth (ns_slots c) (chunk_size (ta_spec s))) MAX_LEARNED_GRANT_DEPTH"
    using plan_loop_depth [OF qok, of _ _ s lookahead cs] fst_cs plan_order_props(2) [of s nodes]
    unfolding plan_def by blast
  ultimately show ?thesis using ok unfolding plan plan_ok_def by blast
qed

theorem plan_grants_applies_witness:
  "plan_grants (demo_state [(0, 2)] []) [\<lparr>ns_node = ''n1'', ns_slots = 1\<rparr>] False = [(''n1'', [(0, 1)])] \<and>
   (\<exists>s'. apply_plan [(''n1'', [(0, 1)])] (demo_state [(0, 2)] []) = Inr s' \<and> members (ta_queued s') = {2})"
proof -
  let ?nodes = "[\<lparr>ns_node = ''n1'', ns_slots = 1\<rparr>]"
  have plan: "plan_grants (demo_state [(0, 2)] []) ?nodes False = [(''n1'', [(0, 1)])]"
    and valid: "\<forall>c \<in> set ?nodes. valid_node_id (ns_node c)" by code_simp+
  have "{0..2} - {0..1} = {2 :: nat}" by auto
  then show ?thesis
    using plan_grants_applies [OF demo_new rtranclp.rtrancl_refl valid, of False] unfolding plan
    by (auto simp: demo_state_def)
qed



end
