(* ===== verification/Resources.thy ===== *)
theory Resources
  imports Prelude
begin

text \<open>
  Resource quantities and the identifiers of the scheduler (\<open>src/src/meat/types.rs\<close>). CPU and
  memory are \<open>u64\<close> values and the GPU count a \<open>u32\<close>; every sum saturates at the width of its
  field. \<open>res_ok\<close> says that a value has its Rust type.
\<close>

section \<open>Identifiers and quantities\<close>

type_synonym node_id = string

record app_id =
  ai_name :: string
  ai_namespace :: string

record resources =
  cpu_millicores :: nat
  memory_bytes :: nat
  gpus :: nat

definition res_new :: "nat \<Rightarrow> nat \<Rightarrow> nat \<Rightarrow> resources" where
  "res_new cpu memory gpu = \<lparr>cpu_millicores = cpu, memory_bytes = memory, gpus = gpu\<rparr>"

definition res_default :: resources where
  "res_default = res_new 0 0 0"

definition fits :: "resources \<Rightarrow> resources \<Rightarrow> bool" where
  "fits self required \<longleftrightarrow>
     cpu_millicores self \<ge> cpu_millicores required \<and>
     memory_bytes self \<ge> memory_bytes required \<and>
     gpus self \<ge> gpus required"

definition res_saturating_sub :: "resources \<Rightarrow> resources \<Rightarrow> resources" where
  "res_saturating_sub self other =
     \<lparr>cpu_millicores = cpu_millicores self - cpu_millicores other,
      memory_bytes = memory_bytes self - memory_bytes other,
      gpus = gpus self - gpus other\<rparr>"

definition res_saturating_add :: "resources \<Rightarrow> resources \<Rightarrow> resources" where
  "res_saturating_add self other =
     \<lparr>cpu_millicores = sat_add64 (cpu_millicores self) (cpu_millicores other),
      memory_bytes = sat_add64 (memory_bytes self) (memory_bytes other),
      gpus = sat_add32 (gpus self) (gpus other)\<rparr>"

definition is_zero :: "resources \<Rightarrow> bool" where
  "is_zero self \<longleftrightarrow> cpu_millicores self = 0 \<and> memory_bytes self = 0 \<and> gpus self = 0"

record node_capacity =
  nc_node_id :: node_id
  nc_total :: resources
  nc_reserved :: resources
  nc_allocated :: resources
  nc_labels :: "(string \<times> string) list"

definition nc_allocatable :: "node_capacity \<Rightarrow> resources" where
  "nc_allocatable n = res_saturating_sub (res_saturating_sub (nc_total n) (nc_reserved n)) (nc_allocated n)"

definition nc_can_fit :: "node_capacity \<Rightarrow> resources \<Rightarrow> bool" where
  "nc_can_fit n required = fits (nc_allocatable n) required"

record placement =
  pl_node_id :: node_id
  pl_resources :: resources
  pl_ordinal :: nat

record scheduling_decision =
  sd_app_id :: app_id
  sd_placements :: "placement list"

datatype unplaced_reason = NoReadyNode | NoLabelMatch | NoContainerRuntime | NoCapableNode | NoRoom

definition res_ok :: "resources \<Rightarrow> bool" where
  "res_ok r \<longleftrightarrow> cpu_millicores r \<le> u64_max \<and> memory_bytes r \<le> u64_max \<and> gpus r \<le> u32_max"

section \<open>Laws of the quantities\<close>

named_theorems res_simps \<open>the arithmetic of resources, field by field\<close>

lemma res_sel_simps [res_simps]:
  "cpu_millicores (res_saturating_add a b) = min (cpu_millicores a + cpu_millicores b) u64_max"
  "memory_bytes (res_saturating_add a b) = min (memory_bytes a + memory_bytes b) u64_max"
  "gpus (res_saturating_add a b) = min (gpus a + gpus b) u32_max"
  "cpu_millicores (res_saturating_sub a b) = cpu_millicores a - cpu_millicores b"
  "memory_bytes (res_saturating_sub a b) = memory_bytes a - memory_bytes b"
  "gpus (res_saturating_sub a b) = gpus a - gpus b"
  by (simp_all add: res_saturating_add_def res_saturating_sub_def sat_add64_def sat_add32_def)

lemma res_eq_iff: "a = b \<longleftrightarrow> cpu_millicores a = cpu_millicores b \<and> memory_bytes a = memory_bytes b \<and> gpus a = gpus b"
  for a b :: resources
  by auto

lemma fits_refl [simp]: "fits a a"
  by (simp add: fits_def)

lemma fits_trans: "fits a b \<Longrightarrow> fits b c \<Longrightarrow> fits a c"
  by (auto simp: fits_def)

lemma fits_antisym: "fits a b \<Longrightarrow> fits b a \<Longrightarrow> a = b" for a b :: resources
  by (auto simp: fits_def res_eq_iff)

lemma res_add_ok: "res_ok (res_saturating_add a b)"
  by (simp add: res_ok_def res_simps)

lemma res_sub_ok: "res_ok a \<Longrightarrow> res_ok (res_saturating_sub a b)"
  by (auto simp: res_ok_def res_simps)

lemma res_add_mono: "fits a a' \<Longrightarrow> fits b b' \<Longrightarrow> fits (res_saturating_add a b) (res_saturating_add a' b')"
  by (auto simp: fits_def res_simps min_def)

lemma res_add_ge: "res_ok a \<Longrightarrow> fits (res_saturating_add a b) a"
  by (auto simp: fits_def res_simps res_ok_def)

text \<open>
  Reserving what the remaining capacity fits never goes past the capacity, and the sum is exact:
  nothing saturates.
\<close>

lemma reserve_within:
  assumes "fits capacity used" and "fits (res_saturating_sub capacity used) need" and "res_ok capacity"
  shows "fits capacity (res_saturating_add used need)"
    and "cpu_millicores (res_saturating_add used need) = cpu_millicores used + cpu_millicores need"
    and "memory_bytes (res_saturating_add used need) = memory_bytes used + memory_bytes need"
    and "gpus (res_saturating_add used need) = gpus used + gpus need"
  using assms by (auto simp: fits_def res_simps res_ok_def)

lemma sub_add_cancel: "fits capacity used \<Longrightarrow> res_ok capacity \<Longrightarrow> res_saturating_add (res_saturating_sub capacity used) used = capacity"
  by (auto simp: fits_def res_simps res_ok_def res_eq_iff)

lemma sub_antimono: "fits used' used \<Longrightarrow> fits (res_saturating_sub capacity used) (res_saturating_sub capacity used')"
  by (auto simp: fits_def res_simps)

end
