(* ===== verification/Cluster_State.thy ===== *)
theory Cluster_State
  imports Resources
begin

text \<open>
  The scheduler's view of the cluster (\<open>src/src/meat/cluster_state.rs\<close>) with the node
  capabilities it judges: egress enforcement (\<open>src/src/sesame/egress.rs\<close>), internal DNS
  (\<open>src/src/onion/dns.rs\<close>), host processes and runtime knobs (\<open>src/src/grill/knobs.rs\<close>).
  A \<open>HashMap\<close> is an association list with distinct keys, in the order in which its iterator
  happens to visit it.
\<close>

section \<open>Node capabilities\<close>

record egress_capability =
  ec_connect_ipv4 :: bool
  ec_connect_ipv6 :: bool
  ec_udp_ipv4 :: bool
  ec_udp_ipv6 :: bool
  ec_pre_start :: bool

definition can_enforce_allowlist :: "egress_capability \<Rightarrow> bool" where
  "can_enforce_allowlist c \<longleftrightarrow>
     ec_connect_ipv4 c \<and> ec_connect_ipv6 c \<and> ec_udp_ipv4 c \<and> ec_udp_ipv6 c \<and> ec_pre_start c"

record dns_capability =
  dc_enabled :: bool
  dc_ready :: bool
  dc_ipv4 :: bool
  dc_ipv6 :: bool
  dc_workload_reachable :: bool

definition can_resolve_internal :: "dns_capability \<Rightarrow> bool" where
  "can_resolve_internal c \<longleftrightarrow>
     dc_enabled c \<and> dc_ready c \<and> dc_workload_reachable c \<and> (dc_ipv4 c \<or> dc_ipv6 c)"

text \<open>
  Paths compare by their components, as \<open>Path::eq\<close> does: a path is the list of the components
  of its text, with repeated separators and inner \<open>.\<close> parts gone.
\<close>

type_synonym path = "string list"

fun split_slash :: "string \<Rightarrow> string list" where
  "split_slash [] = [[]]"
| "split_slash (c # cs) =
     (if c = CHR ''/'' then [] # split_slash cs
      else case split_slash cs of [] \<Rightarrow> [[c]] | p # ps \<Rightarrow> (c # p) # ps)"

definition path_of :: "string \<Rightarrow> path" where
  "path_of text =
     (let parts = filter (\<lambda>p. p \<noteq> [] \<and> p \<noteq> ''.'') (split_slash text)
      in if text \<noteq> [] \<and> hd text = CHR ''/'' then ''/'' # parts
         else if hd (split_slash text) = ''.'' then ''.'' # parts else parts)"

record process_capability =
  pc_enabled :: bool
  pc_allowed_binaries :: "path list"

definition runs :: "process_capability \<Rightarrow> path \<Rightarrow> bool" where
  "runs c binary \<longleftrightarrow> pc_enabled c \<and> list_ex (\<lambda>allowed. allowed = binary) (pc_allowed_binaries c)"

record device_request =
  dr_path :: path
  dr_read :: bool
  dr_write :: bool

record runtime_knobs =
  rk_capabilities :: "string list"
  rk_sysctls :: "(string \<times> string) list"
  rk_devices :: "device_request list"

record runtime_allowlist =
  ra_capabilities :: "string list"
  ra_sysctls :: "string list"
  ra_devices :: "path list"

definition sysctl_matches :: "string \<Rightarrow> string \<Rightarrow> bool" where
  "sysctl_matches pattern name \<longleftrightarrow>
     (if pattern \<noteq> [] \<and> last pattern = CHR ''*''
      then take (length (butlast pattern)) name = butlast pattern
      else name = pattern)"

datatype knob_kind = KnobCapability | KnobSysctl | KnobDevice

text \<open>The first knob an allowlist does not list, or \<open>Inr\<close> when it admits them all.\<close>

definition knobs_check :: "runtime_allowlist \<Rightarrow> runtime_knobs \<Rightarrow> (knob_kind \<times> string list) + unit" where
  "knobs_check allow knobs =
     (case find (\<lambda>c. c \<notin> set (ra_capabilities allow)) (rk_capabilities knobs) of
        Some c \<Rightarrow> Inl (KnobCapability, [c])
      | None \<Rightarrow>
      case find (\<lambda>n. \<not> list_ex (\<lambda>p. sysctl_matches p n) (ra_sysctls allow)) (map fst (rk_sysctls knobs)) of
        Some n \<Rightarrow> Inl (KnobSysctl, [n])
      | None \<Rightarrow>
      case find (\<lambda>d. dr_path d \<notin> set (ra_devices allow)) (rk_devices knobs) of
        Some d \<Rightarrow> Inl (KnobDevice, dr_path d)
      | None \<Rightarrow> Inr ())"

definition admits :: "runtime_allowlist \<Rightarrow> runtime_knobs \<Rightarrow> bool" where
  "admits allow knobs = (case knobs_check allow knobs of Inl _ \<Rightarrow> False | Inr _ \<Rightarrow> True)"

record node_capabilities =
  cap_egress :: egress_capability
  cap_dns :: dns_capability
  cap_process :: process_capability
  cap_containers :: bool
  cap_secret_providers :: "string list"
  cap_runtime_knobs :: runtime_allowlist
  cap_shared_network :: bool

section \<open>One node\<close>

record scheduler_node_state =
  sn_node_id :: node_id
  sn_allocatable :: resources
  sn_allocated :: resources
  sn_labels :: "(string \<times> string) list"
  sn_ready :: bool
  sn_capabilities :: node_capabilities
  sn_app_replicas :: "(app_id \<times> nat) list"
  sn_uptime_secs :: nat
  sn_cached_images :: "string list"

definition available :: "scheduler_node_state \<Rightarrow> resources" where
  "available n = res_saturating_sub (sn_allocatable n) (sn_allocated n)"

definition can_fit :: "scheduler_node_state \<Rightarrow> resources \<Rightarrow> bool" where
  "can_fit n required = fits (available n) required"

definition matches_labels :: "scheduler_node_state \<Rightarrow> (string \<times> string) list \<Rightarrow> bool" where
  "matches_labels n required = list_all (\<lambda>(k, v). map_of (sn_labels n) k = Some v) required"

definition replicas_of :: "scheduler_node_state \<Rightarrow> app_id \<Rightarrow> nat" where
  "replicas_of n app = (case map_of (sn_app_replicas n) app of None \<Rightarrow> 0 | Some r \<Rightarrow> r)"

definition preferred_label_matches :: "scheduler_node_state \<Rightarrow> (string \<times> string) list \<Rightarrow> nat" where
  "preferred_label_matches n preferred =
     length (filter (\<lambda>(k, v). map_of (sn_labels n) k = Some v) preferred)"

section \<open>The cache\<close>

record cluster_state_cache =
  cs_nodes :: "(node_id \<times> scheduler_node_state) list"
  cs_accounted :: "((node_id \<times> app_id \<times> nat) \<times> resources) list"
  cs_refusals :: "((node_id \<times> app_id) \<times> nat list) list"

definition cache_new :: cluster_state_cache where
  "cache_new = \<lparr>cs_nodes = [], cs_accounted = [], cs_refusals = []\<rparr>"

definition record_capacity_refusal ::
  "node_id \<Rightarrow> app_id \<Rightarrow> nat list \<Rightarrow> cluster_state_cache \<Rightarrow> cluster_state_cache" where
  "record_capacity_refusal node app ordinals c =
     c\<lparr>cs_refusals := AList.update (node, app)
          (fold List.insort_insert ordinals
             (case map_of (cs_refusals c) (node, app) of None \<Rightarrow> [] | Some r \<Rightarrow> r)) (cs_refusals c)\<rparr>"

definition capacity_refused :: "cluster_state_cache \<Rightarrow> node_id \<Rightarrow> app_id \<Rightarrow> nat \<Rightarrow> bool" where
  "capacity_refused c node app ordinal =
     (case map_of (cs_refusals c) (node, app) of None \<Rightarrow> False | Some r \<Rightarrow> ordinal \<in> set r)"

definition set_node :: "scheduler_node_state \<Rightarrow> cluster_state_cache \<Rightarrow> cluster_state_cache" where
  "set_node n c = c\<lparr>cs_nodes := AList.update (sn_node_id n) n (cs_nodes c)\<rparr>"

definition record_reported_instance ::
  "node_id \<Rightarrow> app_id \<Rightarrow> nat \<Rightarrow> resources \<Rightarrow> cluster_state_cache \<Rightarrow> cluster_state_cache" where
  "record_reported_instance node app ordinal requests c =
     (let accounted = (case map_of (cs_accounted c) (node, app, ordinal) of None \<Rightarrow> res_default | Some r \<Rightarrow> r)
      in c\<lparr>cs_accounted := AList.update (node, app, ordinal) (res_saturating_add accounted requests) (cs_accounted c)\<rparr>)"

definition get_node :: "cluster_state_cache \<Rightarrow> node_id \<Rightarrow> scheduler_node_state option" where
  "get_node c node = map_of (cs_nodes c) node"

text \<open>\<open>nodes.get_mut\<close> with a change to the entry, and \<open>*entry.or_default() += 1\<close>.\<close>

definition update_node ::
  "node_id \<Rightarrow> (scheduler_node_state \<Rightarrow> scheduler_node_state) \<Rightarrow> cluster_state_cache \<Rightarrow> cluster_state_cache" where
  "update_node node f c =
     (case get_node c node of None \<Rightarrow> c | Some n \<Rightarrow> c\<lparr>cs_nodes := AList.update node (f n) (cs_nodes c)\<rparr>)"

definition count_replica :: "app_id \<Rightarrow> scheduler_node_state \<Rightarrow> scheduler_node_state" where
  "count_replica app n = n\<lparr>sn_app_replicas := AList.update app (add32 (replicas_of n app) 1) (sn_app_replicas n)\<rparr>"

definition reserve_committed_instance ::
  "node_id \<Rightarrow> app_id \<Rightarrow> nat \<Rightarrow> resources \<Rightarrow> cluster_state_cache \<Rightarrow> cluster_state_cache" where
  "reserve_committed_instance node app ordinal request c =
     (case get_node c node of
        None \<Rightarrow> c
      | Some _ \<Rightarrow>
          let previous = map_of (cs_accounted c) (node, app, ordinal);
              accounted = (case previous of None \<Rightarrow> res_default | Some r \<Rightarrow> r);
              missing = res_saturating_sub request accounted;
              c1 = update_node node (\<lambda>n.
                let n1 = n\<lparr>sn_allocated := res_saturating_add (sn_allocated n) missing\<rparr>
                in if previous = None then count_replica app n1 else n1) c
          in c1\<lparr>cs_accounted := AList.update (node, app, ordinal) (res_saturating_add accounted missing) (cs_accounted c1)\<rparr>)"

definition reserve :: "node_id \<Rightarrow> app_id \<Rightarrow> resources \<Rightarrow> cluster_state_cache \<Rightarrow> cluster_state_cache" where
  "reserve node app r =
     update_node node (\<lambda>n. count_replica app (n\<lparr>sn_allocated := res_saturating_add (sn_allocated n) r\<rparr>))"

definition release_replica :: "node_id \<Rightarrow> app_id \<Rightarrow> resources \<Rightarrow> cluster_state_cache \<Rightarrow> cluster_state_cache" where
  "release_replica node app r =
     update_node node (\<lambda>n.
       let n1 = n\<lparr>sn_allocated := res_saturating_sub (sn_allocated n) r\<rparr>
       in case map_of (sn_app_replicas n1) app of
            None \<Rightarrow> n1
          | Some k \<Rightarrow>
              n1\<lparr>sn_app_replicas :=
                (if k - 1 = 0 then AList.delete app (sn_app_replicas n1)
                 else AList.update app (k - 1) (sn_app_replicas n1))\<rparr>)"

definition set_replicas :: "node_id \<Rightarrow> app_id \<Rightarrow> nat \<Rightarrow> cluster_state_cache \<Rightarrow> cluster_state_cache" where
  "set_replicas node app k =
     update_node node (\<lambda>n. n\<lparr>sn_app_replicas :=
       (if k = 0 then AList.delete app (sn_app_replicas n) else AList.update app k (sn_app_replicas n))\<rparr>)"

definition cache_nodes :: "cluster_state_cache \<Rightarrow> scheduler_node_state list" where
  "cache_nodes c = map snd (cs_nodes c)"

section \<open>The cache invariant\<close>

definition cache_ok :: "cluster_state_cache \<Rightarrow> bool" where
  "cache_ok c \<longleftrightarrow> distinct (map fst (cs_nodes c)) \<and>
     (\<forall>e \<in> set (cs_nodes c). sn_node_id (snd e) = fst e \<and> res_ok (sn_allocatable (snd e)) \<and> res_ok (sn_allocated (snd e)))"

lemma get_update_node [simp]:
  "get_node (update_node node f c) m = (if m = node then map_option f (get_node c node) else get_node c m)"
  by (auto simp: update_node_def get_node_def update_conv' split: option.splits)

lemma update_node_fst [simp]: "map fst (cs_nodes (update_node node f c)) = map fst (cs_nodes c)"
proof (cases "get_node c node")
  case (Some n)
  then have "node \<in> fst ` set (cs_nodes c)"
    by (metis get_node_def image_iff map_of_SomeD fst_conv)
  then show ?thesis using Some by (simp add: update_node_def update_keys)
qed (simp add: update_node_def)

lemma update_node_rest [simp]:
  "cs_accounted (update_node node f c) = cs_accounted c" "cs_refusals (update_node node f c) = cs_refusals c"
  by (auto simp: update_node_def split: option.splits)

lemma cache_ok_get: "cache_ok c \<Longrightarrow> get_node c node = Some n \<longleftrightarrow> (node, n) \<in> set (cs_nodes c)"
  by (simp add: cache_ok_def get_node_def)

lemma cache_ok_node:
  "cache_ok c \<Longrightarrow> get_node c node = Some n \<Longrightarrow> sn_node_id n = node \<and> res_ok (sn_allocatable n) \<and> res_ok (sn_allocated n)"
  using cache_ok_get [of c node n] by (auto simp: cache_ok_def)

lemma cache_ok_update:
  assumes "cache_ok c"
    and "\<And>n. get_node c node = Some n \<Longrightarrow> sn_node_id (f n) = node \<and> res_ok (sn_allocatable (f n)) \<and> res_ok (sn_allocated (f n))"
  shows "cache_ok (update_node node f c)"
proof -
  have d: "distinct (map fst (cs_nodes (update_node node f c)))" using assms(1) by (simp add: cache_ok_def)
  moreover have "sn_node_id (snd e) = fst e \<and> res_ok (sn_allocatable (snd e)) \<and> res_ok (sn_allocated (snd e))"
    if "e \<in> set (cs_nodes (update_node node f c))" for e
  proof -
    have "get_node (update_node node f c) (fst e) = Some (snd e)" using that d by (simp add: get_node_def)
    then show ?thesis
      using assms(2) cache_ok_node [OF assms(1)] by (auto split: if_splits)
  qed
  ultimately show ?thesis by (simp add: cache_ok_def)
qed

lemma replicas_count [simp]:
  "replicas_of (count_replica app n) a = (if a = app then add32 (replicas_of n app) 1 else replicas_of n a)"
  by (simp add: replicas_of_def count_replica_def update_conv')

lemma count_replica_fields [simp]:
  "sn_node_id (count_replica app n) = sn_node_id n" "sn_allocated (count_replica app n) = sn_allocated n"
  "sn_allocatable (count_replica app n) = sn_allocatable n" "sn_labels (count_replica app n) = sn_labels n"
  "sn_ready (count_replica app n) = sn_ready n" "sn_capabilities (count_replica app n) = sn_capabilities n"
  "sn_uptime_secs (count_replica app n) = sn_uptime_secs n" "sn_cached_images (count_replica app n) = sn_cached_images n"
  by (simp_all add: count_replica_def)

lemma reserve_ok: "cache_ok c \<Longrightarrow> cache_ok (reserve node app r c)"
  unfolding reserve_def by (rule cache_ok_update) (auto dest: cache_ok_node simp: res_add_ok)

lemma release_ok: "cache_ok c \<Longrightarrow> cache_ok (release_replica node app r c)"
  unfolding release_replica_def
  by (rule cache_ok_update) (auto dest: cache_ok_node simp: res_sub_ok Let_def split: option.splits)

lemma set_replicas_ok: "cache_ok c \<Longrightarrow> cache_ok (set_replicas node app k c)"
  unfolding set_replicas_def by (rule cache_ok_update) (auto dest: cache_ok_node)

lemma reserve_committed_ok: "cache_ok c \<Longrightarrow> cache_ok (reserve_committed_instance node app ordinal r c)"
proof -
  assume ok: "cache_ok c"
  have "cache_ok (update_node node f c)" if "f = (\<lambda>n. let n1 = n\<lparr>sn_allocated := res_saturating_add (sn_allocated n) m\<rparr>
      in if p then count_replica app n1 else n1)" for f m p
    using ok unfolding that
    by (rule cache_ok_update) (auto dest: cache_ok_node [OF ok] simp: res_add_ok Let_def)
  from this [OF refl] show ?thesis
    using ok unfolding reserve_committed_instance_def Let_def
    by (auto simp: cache_ok_def split: option.splits)
qed

lemma new_ok: "cache_ok cache_new"
  by (simp add: cache_ok_def cache_new_def)

lemma set_node_ok:
  assumes ok: "cache_ok c" and n: "res_ok (sn_allocatable n)" "res_ok (sn_allocated n)"
  shows "cache_ok (set_node n c)"
proof -
  have "e \<in> set (AList.update (sn_node_id n) n m) \<Longrightarrow> e = (sn_node_id n, n) \<or> e \<in> set m" for e m
    by (induction m) (auto split: if_splits)
  then show ?thesis
    using assms distinct_update [of "cs_nodes c" "sn_node_id n" n] unfolding cache_ok_def set_node_def by fastforce
qed

lemma refusals_recorded:
  "capacity_refused (record_capacity_refusal node app ordinals c) n a i \<longleftrightarrow>
     capacity_refused c n a i \<or> (n = node \<and> a = app \<and> i \<in> set ordinals)"
proof -
  have "set (fold List.insort_insert xs ys) = set xs \<union> set ys" for xs ys :: "nat list"
    by (induction xs arbitrary: ys) (auto simp: set_insort_insert)
  then show ?thesis
    by (auto simp: capacity_refused_def record_capacity_refusal_def update_conv' split: option.splits)
qed

end
