(* ===== verification/App_Spec.thy ===== *)
theory App_Spec
  imports Cluster_State
begin

text \<open>
  App specifications (\<open>src/src/config/app.rs\<close> with the value types of \<open>src/src/config/types.rs\<close>,
  \<open>src/src/config/template.rs\<close> and \<open>src/src/grill/stop.rs\<close>): the record every component reads an
  app from, field by field. Durations are whole seconds, which is what their textual forms denote.
  The autoscaler's threshold is an \<open>f64\<close> no modelled operation computes with, so it is kept as its
  bit pattern.
\<close>

section \<open>Values\<close>

datatype replicas = Fixed nat | DaemonSet

record secret_reference =
  sr_raw :: string
  sr_provider :: string
  sr_path :: string

datatype env_value = Plain string | Encrypted string | Provider secret_reference

definition provider_reference :: "env_value \<Rightarrow> secret_reference option" where
  "provider_reference v = (case v of Provider r \<Rightarrow> Some r | _ \<Rightarrow> None)"

record resource_range =
  rr_request :: nat
  rr_limit :: nat

record config_file_spec =
  cf_path :: path
  cf_content :: "string option"
  cf_source :: "string option"

record volume_spec =
  vs_path :: path
  vs_source :: "path option"
  vs_size :: "string option"

datatype stop_signal = Term | Int | Quit | Hup | Usr1 | Usr2 | Winch

record provenance =
  pv_template :: string
  pv_instance :: string

section \<open>Sub-specifications\<close>

record metrics_spec =
  ms_port :: "nat option"
  ms_path :: string

datatype health_protocol = Http | Https

record health_spec =
  hs_path :: string
  hs_port :: "nat option"
  hs_protocol :: health_protocol
  hs_interval :: "nat option"
  hs_timeout :: "nat option"
  hs_threshold_unhealthy :: "nat option"
  hs_threshold_healthy :: "nat option"
  hs_initial_delay :: "nat option"

record init_container_spec =
  in_image :: "string option"
  in_command :: "string list"
  in_env :: "(string \<times> env_value) list"

record sidecar_spec =
  sc_name :: string
  sc_image :: "string option"
  sc_command :: "string list"
  sc_args :: "string list"
  sc_env :: "(string \<times> env_value) list"
  sc_memory :: "resource_range option"
  sc_cpu :: "resource_range option"

record ingress_spec =
  is_host :: string
  is_path :: "string option"
  is_tls :: "string option"
  is_websocket :: "bool option"
  is_rate_limit_rps :: "nat option"
  is_rate_limit_burst :: "nat option"

record placement_spec =
  ps_required :: "string list"
  ps_preferred :: "string list"

datatype deploy_strategy = StrategyRolling | StrategyBlueGreen

record deploy_spec =
  ds_strategy :: "deploy_strategy option"
  ds_max_surge :: "nat option"
  ds_max_unavailable :: "nat option"
  ds_drain_timeout :: "string option"
  ds_health_timeout :: "string option"
  ds_auto_rollback :: "bool option"

record firewall_spec =
  fw_allow_from :: "string list"

record egress_spec =
  eg_allow :: "string list"
  eg_allow_franchise :: "string list"

record autoscale_spec =
  au_metric :: string
  au_target :: string
  au_min :: nat
  au_max :: nat
  au_evaluation_window :: "string option"
  au_cooldown :: "string option"
  au_scale_down_threshold :: "nat option"

section \<open>The app\<close>

record app_spec =
  as_image :: "string option"
  as_command :: "string list"
  as_args :: "string list"
  as_working_dir :: "path option"
  as_run_as_user :: "nat option"
  as_run_as_group :: "nat option"
  as_exec :: "path option"
  as_script :: "string option"
  as_replicas :: replicas
  as_ordinals :: "nat list option"
  as_port :: "nat option"
  as_health :: "health_spec option"
  as_memory :: "resource_range option"
  as_cpu :: "resource_range option"
  as_gpu :: "nat option"
  as_env :: "(string \<times> env_value) list"
  as_config_file :: "config_file_spec list"
  as_volumes :: "volume_spec list"
  as_init :: "init_container_spec list"
  as_sidecar :: "sidecar_spec list"
  as_ingress :: "ingress_spec option"
  as_placement :: "placement_spec option"
  as_deploy :: "deploy_spec option"
  as_stop_signal :: "stop_signal option"
  as_stop_grace :: "nat option"
  as_pre_stop :: "string list"
  as_pre_stop_timeout :: "nat option"
  as_runtime :: "runtime_knobs option"
  as_firewall :: "firewall_spec option"
  as_egress :: "egress_spec option"
  as_autoscale :: "autoscale_spec option"
  as_metrics :: "metrics_spec option"
  as_namespace :: "string option"
  as_provenance :: "provenance option"
  as_owner :: "string option"

definition requires_network_policy :: "app_spec \<Rightarrow> bool" where
  "requires_network_policy spec \<longleftrightarrow>
     (case as_egress spec of None \<Rightarrow> False | Some e \<Rightarrow> eg_allow e \<noteq> []) \<or>
     (case as_firewall spec of None \<Rightarrow> False | Some f \<Rightarrow> fw_allow_from f \<noteq> [])"

definition replica_ordinals :: "app_spec \<Rightarrow> nat list" where
  "replica_ordinals spec =
     (case as_ordinals spec of
        Some ordinals \<Rightarrow> ordinals
      | None \<Rightarrow> (case as_replicas spec of Fixed n \<Rightarrow> [0..<n] | DaemonSet \<Rightarrow> [0]))"

end
