(* ===== verification/Text.thy ===== *)
theory Text
  imports Prelude
begin

text \<open>
  The string functions of the standard library that the sources use. A \<open>String\<close> is the list of the
  bytes of its UTF-8 encoding, so \<open>trim\<close> removes the encodings of the Unicode white-space
  characters, and the numeric parsers read ASCII digits with a check at every digit, as
  \<open>u64::from_str\<close> does. Printing a number and reading it back is the identity within the width.
\<close>

section \<open>Prefixes, suffixes and splits\<close>

definition starts_with :: "string \<Rightarrow> string \<Rightarrow> bool" where
  "starts_with s p \<longleftrightarrow> take (length p) s = p"

definition strip_prefix :: "string \<Rightarrow> string \<Rightarrow> string option" where
  "strip_prefix p s = (if take (length p) s = p then Some (drop (length p) s) else None)"

definition strip_suffix :: "string \<Rightarrow> string \<Rightarrow> string option" where
  "strip_suffix p s =
     (if length p \<le> length s \<and> drop (length s - length p) s = p then Some (take (length s - length p) s) else None)"

fun split_once :: "char \<Rightarrow> string \<Rightarrow> (string \<times> string) option" where
  "split_once d [] = None"
| "split_once d (c # cs) =
     (if c = d then Some ([], cs) else map_option (\<lambda>(a, b). (c # a, b)) (split_once d cs))"

lemma strip_suffix_append [simp]: "strip_suffix p (s @ p) = Some s"
  by (simp add: strip_suffix_def)

lemma strip_suffix_Some: "strip_suffix p s = Some r \<longleftrightarrow> s = r @ p"
proof
  show "s = r @ p" if "strip_suffix p s = Some r"
    using that by (auto simp: strip_suffix_def split: if_splits) (metis append_take_drop_id)
qed simp

lemma strip_suffix_last:
  "p \<noteq> [] \<Longrightarrow> s = [] \<or> last s \<noteq> last p \<Longrightarrow> strip_suffix p s = None"
  by (cases "strip_suffix p s") (auto simp: strip_suffix_Some)

lemma split_once_None: "split_once d s = None \<longleftrightarrow> d \<notin> set s"
  by (induction s) auto

lemma split_once_append [simp]: "d \<notin> set a \<Longrightarrow> split_once d (a @ d # b) = Some (a, b)"
  by (induction a) auto

lemma split_once_Some: "split_once d s = Some (a, b) \<longleftrightarrow> s = a @ d # b \<and> d \<notin> set a"
proof (induction s arbitrary: a)
  case (Cons c cs)
  then show ?case by (cases a) (auto split: option.splits)
qed simp

text \<open>\<open>str::split_once\<close> with a string as separator: at its first occurrence.\<close>

fun split_once_str :: "string \<Rightarrow> string \<Rightarrow> (string \<times> string) option" where
  "split_once_str p [] = (if p = [] then Some ([], []) else None)"
| "split_once_str p (c # cs) =
     (if starts_with (c # cs) p then Some ([], drop (length p) (c # cs))
      else map_option (\<lambda>(a, b). (c # a, b)) (split_once_str p cs))"

text \<open>\<open>rsplit_once\<close> splits at the last occurrence.\<close>

definition rsplit_once :: "char \<Rightarrow> string \<Rightarrow> (string \<times> string) option" where
  "rsplit_once d s = map_option (\<lambda>(a, b). (rev b, rev a)) (split_once d (rev s))"

lemma rsplit_once_append [simp]: "d \<notin> set b \<Longrightarrow> rsplit_once d (a @ d # b) = Some (a, b)"
  by (simp add: rsplit_once_def)

lemma rsplit_once_None: "rsplit_once d s = None \<longleftrightarrow> d \<notin> set s"
  by (simp add: rsplit_once_def split_once_None)

lemma starts_with_append [simp]: "starts_with (p @ s) p"
  by (simp add: starts_with_def)

lemma starts_with_iff: "starts_with s p \<longleftrightarrow> (\<exists>r. s = p @ r)"
  by (metis append_take_drop_id starts_with_append starts_with_def)

section \<open>White space\<close>

text \<open>\<open>chars().take(n)\<close> on the bytes of a string: a continuation byte goes with its character.\<close>

fun take_chars :: "nat \<Rightarrow> string \<Rightarrow> string" where
  "take_chars n [] = []"
| "take_chars n (c # cs) =
     (if 128 \<le> (of_char c :: nat) \<and> (of_char c :: nat) < 192 then c # take_chars n cs
      else if n = 0 then [] else c # take_chars (n - 1) cs)"

definition bytes :: "nat list \<Rightarrow> string" where
  "bytes = map char_of"

definition white_space :: "string list" where
  "white_space = map bytes
     ([[9], [10], [11], [12], [13], [32], [194, 133], [194, 160], [225, 154, 128]] @
      map (\<lambda>b. [226, 128, b]) [128..<139] @
      [[226, 128, 168], [226, 128, 169], [226, 128, 175], [226, 129, 159], [227, 128, 128]])"

text \<open>Drop the given codes from the front for as long as one of them is there.\<close>

fun drop_codes :: "string list \<Rightarrow> nat \<Rightarrow> string \<Rightarrow> string" where
  "drop_codes codes 0 s = s"
| "drop_codes codes (Suc n) s =
     (case find (starts_with s) codes of None \<Rightarrow> s | Some p \<Rightarrow> drop_codes codes n (drop (length p) s))"

definition trim_start :: "string \<Rightarrow> string" where
  "trim_start s = drop_codes white_space (length s) s"

definition trim_end :: "string \<Rightarrow> string" where
  "trim_end s = rev (drop_codes (map rev white_space) (length s) (rev s))"

definition trim :: "string \<Rightarrow> string" where
  "trim s = trim_end (trim_start s)"

text \<open>Printable ASCII at both ends means there is nothing to trim.\<close>

definition printable :: "char \<Rightarrow> bool" where
  "printable c \<longleftrightarrow> 33 \<le> (of_char c :: nat) \<and> (of_char c :: nat) \<le> 126"

lemma white_space_edges:
  "list_all (\<lambda>p. p \<noteq> [] \<and> \<not> printable (hd p) \<and> \<not> printable (last p)) white_space"
  by code_simp

lemma drop_codes_printable:
  assumes "\<forall>p \<in> set codes. p \<noteq> [] \<and> \<not> printable (hd p)" and "s = [] \<or> printable (hd s)"
  shows "drop_codes codes n s = s"
proof -
  have "\<not> starts_with s p" if p: "p \<in> set codes" for p
  proof -
    obtain c cs where "p = c # cs" "\<not> printable c" using p assms(1) by (metis list.sel(1) neq_Nil_conv)
    then show ?thesis using assms(2) by (cases s) (auto simp: starts_with_def)
  qed
  then have "find (starts_with s) codes = None" by (simp add: find_None_iff)
  then show ?thesis by (cases n) auto
qed

lemma trim_printable:
  assumes "s = [] \<or> printable (hd s) \<and> printable (last s)"
  shows "trim s = s"
proof -
  have edges: "\<forall>p \<in> set white_space. p \<noteq> [] \<and> \<not> printable (hd p) \<and> \<not> printable (last p)"
    using white_space_edges by (simp add: list_all_iff)
  then have "trim_start s = s"
    using assms drop_codes_printable [of white_space s "length s"] by (auto simp: trim_start_def)
  moreover have "\<forall>p \<in> set (map rev white_space). p \<noteq> [] \<and> \<not> printable (hd p)"
    using edges by (auto simp: hd_rev)
  then have "trim_end s = s"
    using assms drop_codes_printable [of "map rev white_space" "rev s" "length s"] by (auto simp: trim_end_def hd_rev)
  ultimately show ?thesis by (simp add: trim_def)
qed

section \<open>Numbers\<close>

definition digit_value :: "char \<Rightarrow> nat option" where
  "digit_value c =
     (let n = of_char c :: nat in if 48 \<le> n \<and> n \<le> 57 then Some (n - 48) else None)"

definition is_digit :: "char \<Rightarrow> bool" where
  "is_digit c \<longleftrightarrow> digit_value c \<noteq> None"

fun parse_digits :: "nat \<Rightarrow> nat \<Rightarrow> string \<Rightarrow> nat option" where
  "parse_digits bound acc [] = Some acc"
| "parse_digits bound acc (c # cs) =
     (case digit_value c of
        None \<Rightarrow> None
      | Some d \<Rightarrow> if acc * 10 + d \<le> bound then parse_digits bound (acc * 10 + d) cs else None)"

text \<open>\<open>from_str\<close> of an unsigned type: one optional plus sign, then at least one digit.\<close>

definition parse_uint :: "nat \<Rightarrow> string \<Rightarrow> nat option" where
  "parse_uint bound s =
     (case (case strip_prefix ''+'' s of Some r \<Rightarrow> r | None \<Rightarrow> s) of
        [] \<Rightarrow> None
      | c # cs \<Rightarrow> parse_digits bound 0 (c # cs))"

abbreviation parse_u64 :: "string \<Rightarrow> nat option" where
  "parse_u64 \<equiv> parse_uint u64_max"

abbreviation parse_u32 :: "string \<Rightarrow> nat option" where
  "parse_u32 \<equiv> parse_uint u32_max"

abbreviation parse_u16 :: "string \<Rightarrow> nat option" where
  "parse_u16 \<equiv> parse_uint 65535"

definition digit_char :: "nat \<Rightarrow> char" where
  "digit_char d = char_of (d + 48)"

fun show_nat :: "nat \<Rightarrow> string" where
  "show_nat n = (if n < 10 then [digit_char n] else show_nat (n div 10) @ [digit_char (n mod 10)])"

declare show_nat.simps [simp del]

lemma digit_value_char [simp]: "d < 10 \<Longrightarrow> digit_value (digit_char d) = Some d"
  by (simp add: digit_value_def digit_char_def)

lemma digit_char_printable [simp]: "d < 10 \<Longrightarrow> printable (digit_char d)"
  by (simp add: digit_char_def printable_def)

lemma is_digit_char [simp]: "d < 10 \<Longrightarrow> is_digit (digit_char d)"
  by (simp add: is_digit_def)

lemma show_nat_digits: "c \<in> set (show_nat n) \<Longrightarrow> \<exists>d < 10. c = digit_char d"
proof (induction n rule: show_nat.induct)
  case (1 n)
  show ?case
  proof (cases "n < 10")
    case True
    then show ?thesis using "1.prems" by (auto simp: show_nat.simps [of n])
  next
    case False
    then have "c \<in> set (show_nat (n div 10)) \<or> c = digit_char (n mod 10)"
      using "1.prems" by (auto simp: show_nat.simps [of n])
    moreover have "n mod 10 < 10" by simp
    ultimately show ?thesis using "1.IH" [OF False] by blast
  qed
qed

lemma show_nat_not_Nil [simp]: "show_nat n \<noteq> []"
  by (subst show_nat.simps) simp

lemma show_nat_set: "c \<in> set (show_nat n) \<Longrightarrow> is_digit c \<and> printable c"
  using show_nat_digits by fastforce

lemma parse_digits_append:
  "parse_digits bound acc (xs @ ys) = Option.bind (parse_digits bound acc xs) (\<lambda>a. parse_digits bound a ys)"
  by (induction xs arbitrary: acc) (auto split: option.splits)

lemma parse_digits_show: "parse_digits bound 0 (show_nat n) = (if n \<le> bound then Some n else None)"
proof (induction n rule: show_nat.induct)
  case (1 n)
  show ?case
  proof (cases "n < 10")
    case True
    then show ?thesis by (simp add: show_nat.simps [of n])
  next
    case False
    have "n div 10 * 10 + n mod 10 = n" by simp
    moreover have "n div 10 \<le> n" by simp
    ultimately show ?thesis
      using False "1.IH" [OF False]
      by (auto simp: show_nat.simps [of n] parse_digits_append)
  qed
qed

lemma digit_not_sign: "is_digit c \<Longrightarrow> c \<noteq> CHR ''+'' \<and> c \<noteq> CHR ''-'' \<and> c \<noteq> CHR ''.'' \<and> c \<noteq> CHR ''m''"
  by (auto simp: is_digit_def digit_value_def)

lemma strip_plus_digits: "s \<noteq> [] \<Longrightarrow> is_digit (hd s) \<Longrightarrow> strip_prefix ''+'' s = None"
  using digit_not_sign [of "hd s"] by (cases s) (auto simp: strip_prefix_def)

lemma parse_show: "parse_uint bound (show_nat n) = (if n \<le> bound then Some n else None)"
proof -
  have "strip_prefix ''+'' (show_nat n) = None"
    using strip_plus_digits [of "show_nat n"] show_nat_set [of "hd (show_nat n)" n] by simp
  then show ?thesis
    using parse_digits_show [of bound n] by (auto simp: parse_uint_def split: list.splits)
qed

lemma show_nat_trim [simp]: "trim (show_nat n) = show_nat n"
  using show_nat_set [of "hd (show_nat n)" n] show_nat_set [of "last (show_nat n)" n]
  by (intro trim_printable) simp

lemma show_nat_inj [simp]: "show_nat a = show_nat b \<longleftrightarrow> a = b"
proof
  assume eq: "show_nat a = show_nat b"
  have "Some a = parse_digits (max a b) 0 (show_nat a)" by (subst parse_digits_show) simp
  also have "\<dots> = parse_digits (max a b) 0 (show_nat b)" by (simp only: eq)
  also have "\<dots> = Some b" by (subst parse_digits_show) simp
  finally show "a = b" by simp
qed simp

lemma parse_digits_bound: "parse_digits bound acc s = Some n \<Longrightarrow> acc \<le> bound \<Longrightarrow> n \<le> bound"
  by (induction s arbitrary: acc) (auto split: option.splits if_splits)

lemma parse_uint_bound: "parse_uint bound s = Some n \<Longrightarrow> n \<le> bound"
  using parse_digits_bound [of bound 0] by (auto simp: parse_uint_def split: list.splits option.splits simp del: parse_digits.simps)

end
