(* ===== verification/Workload.thy ===== *)
theory Workload
  imports App_Spec Text
begin

text \<open>
  What an app asks of a node: its resource requests (\<open>src/src/meat/admission.rs\<close>) and its hard
  constraints (\<open>WorkloadRequirements\<close> in \<open>src/src/meat/filter.rs\<close>).
\<close>

section \<open>Requests and labels\<close>

definition range_request :: "resource_range option \<Rightarrow> nat" where
  "range_request r = (case r of None \<Rightarrow> 0 | Some r \<Rightarrow> rr_request r)"

definition app_requests :: "app_spec \<Rightarrow> resources" where
  "app_requests spec =
     res_new (foldl sat_add64 (range_request (as_cpu spec)) (map (range_request \<circ> sc_cpu) (as_sidecar spec)))
       (foldl sat_add64 (range_request (as_memory spec)) (map (range_request \<circ> sc_memory) (as_sidecar spec)))
       (case as_gpu spec of None \<Rightarrow> 0 | Some g \<Rightarrow> g)"

text \<open>A list of \<open>key=value\<close> labels as a map.\<close>

definition parse_label_list :: "string list \<Rightarrow> (string \<times> string) list" where
  "parse_label_list labels =
     fold (\<lambda>s m. case split_once (CHR ''='') s of None \<Rightarrow> m | Some (k, v) \<Rightarrow> bt_insert k v m) labels []"

section \<open>Hard constraints\<close>

definition SCRIPT_INTERPRETER :: path where
  "SCRIPT_INTERPRETER = path_of ''/bin/sh''"

definition host_binary :: "app_spec \<Rightarrow> path option" where
  "host_binary spec =
     (case as_exec spec of Some p \<Rightarrow> Some p | None \<Rightarrow> map_option (\<lambda>_. SCRIPT_INTERPRETER) (as_script spec))"

definition host_init_binaries :: "app_spec \<Rightarrow> path list" where
  "host_init_binaries spec =
     List.map_filter (\<lambda>init. case in_command init of [] \<Rightarrow> None | c # _ \<Rightarrow> Some (path_of c))
       (filter (\<lambda>init. host_binary spec \<noteq> None \<and> in_image init = None) (as_init spec))"

definition host_pre_stop_binary :: "app_spec \<Rightarrow> path option" where
  "host_pre_stop_binary spec =
     (if host_binary spec = None then None
      else case as_pre_stop spec of [] \<Rightarrow> None | c # _ \<Rightarrow> Some (path_of c))"

record workload_requirements =
  wr_resources :: resources
  wr_labels :: "(string \<times> string) list"
  wr_requires_egress :: bool
  wr_requires_dns :: bool
  wr_host_binaries :: "path list"
  wr_requires_containers :: bool
  wr_secret_providers :: "string list"
  wr_runtime_knobs :: runtime_knobs
  wr_requires_shared_network :: bool

definition for_app :: "app_spec \<Rightarrow> bool \<Rightarrow> workload_requirements" where
  "for_app spec requires_dns =
     \<lparr>wr_resources = app_requests spec,
      wr_labels = (case as_placement spec of None \<Rightarrow> [] | Some p \<Rightarrow> parse_label_list (ps_required p)),
      wr_requires_egress = requires_network_policy spec,
      wr_requires_dns = requires_dns,
      wr_host_binaries =
        (case host_binary spec of None \<Rightarrow> [] | Some b \<Rightarrow> [b]) @ host_init_binaries spec @
        (case host_pre_stop_binary spec of None \<Rightarrow> [] | Some b \<Rightarrow> [b]),
      wr_requires_containers =
        ((as_exec spec = None \<and> as_script spec = None) \<or> list_ex (\<lambda>init. in_image init \<noteq> None) (as_init spec)),
      wr_secret_providers =
        map sr_provider (List.map_filter provider_reference
          (map snd (as_env spec) @ concat (map (map snd \<circ> in_env) (as_init spec)) @
           concat (map (map snd \<circ> sc_env) (as_sidecar spec)))),
      wr_runtime_knobs =
        (case as_runtime spec of None \<Rightarrow> \<lparr>rk_capabilities = [], rk_sysctls = [], rk_devices = []\<rparr> | Some k \<Rightarrow> k),
      wr_requires_shared_network = (as_sidecar spec \<noteq> [])\<rparr>"

definition runs_its_kind :: "scheduler_node_state \<Rightarrow> workload_requirements \<Rightarrow> bool" where
  "runs_its_kind node req \<longleftrightarrow> \<not> wr_requires_containers req \<or> cap_containers (sn_capabilities node)"

definition node_can_run :: "scheduler_node_state \<Rightarrow> workload_requirements \<Rightarrow> bool" where
  "node_can_run node req \<longleftrightarrow>
     sn_ready node \<and> runs_its_kind node req \<and>
     (\<not> wr_requires_shared_network req \<or> cap_shared_network (sn_capabilities node)) \<and>
     (\<not> wr_requires_egress req \<or> can_enforce_allowlist (cap_egress (sn_capabilities node))) \<and>
     (\<not> wr_requires_dns req \<or> can_resolve_internal (cap_dns (sn_capabilities node))) \<and>
     list_all (\<lambda>binary. runs (cap_process (sn_capabilities node)) binary) (wr_host_binaries req) \<and>
     list_all (\<lambda>p. p \<in> set (cap_secret_providers (sn_capabilities node))) (wr_secret_providers req) \<and>
     admits (cap_runtime_knobs (sn_capabilities node)) (wr_runtime_knobs req)"

section \<open>Laws\<close>

lemma app_requests_ok:
  assumes "\<And>r. as_cpu spec = Some r \<Longrightarrow> rr_request r \<le> u64_max"
    and "\<And>r. as_memory spec = Some r \<Longrightarrow> rr_request r \<le> u64_max"
    and "\<And>g. as_gpu spec = Some g \<Longrightarrow> g \<le> u32_max"
  shows "res_ok (app_requests spec)"
proof -
  have "foldl sat_add64 a xs \<le> u64_max" if "a \<le> u64_max" for a xs
    using that by (induction xs arbitrary: a) (auto simp: sat_add64_def)
  then show ?thesis
    using assms by (auto simp: res_ok_def app_requests_def res_new_def range_request_def split: option.splits)
qed

lemma parse_label_list_ok: "bt_ok (parse_label_list labels)"
proof -
  have "bt_ok m \<Longrightarrow> bt_ok (fold (\<lambda>s m. case split_once (CHR ''='') s of None \<Rightarrow> m | Some (k, v) \<Rightarrow> bt_insert k v m) ls m)"
    for ls and m :: "(string \<times> string) list"
    by (induction ls arbitrary: m) (auto split: option.splits)
  from this [of "[]"] show ?thesis by (simp add: parse_label_list_def)
qed

text \<open>Whether a node can run a workload does not depend on what it runs already.\<close>

lemma node_can_run_cong:
  "sn_ready n' = sn_ready n \<Longrightarrow> sn_capabilities n' = sn_capabilities n \<Longrightarrow> node_can_run n' req = node_can_run n req"
  by (simp add: node_can_run_def runs_its_kind_def)

end
