(* ===== verification/Scheduler.thy ===== *)
theory Scheduler
  imports Workload "HOL-Library.Product_Lexorder" "HOL-Library.Multiset"
begin

text \<open>
  The placement pipeline: filter (\<open>src/src/meat/filter.rs\<close>), score (\<open>src/src/meat/score.rs\<close>) and
  the scheduler that selects and reserves (\<open>src/src/meat/scheduler.rs\<close>). The lemmas show that a
  placement never overcommits a node, that replicas spread, that the result does not depend on
  the iteration order of the node map, and that the scheduler gives up only when no node is left.
\<close>

section \<open>Greedy placement\<close>

text \<open>
  The contract of a placement loop: it picks an eligible node of least load, placing on a node
  raises its load by one and makes no node eligible. Whatever the pick, the loop then spreads:
  a node that received a placement ends at most one above any node that is still eligible.
\<close>

fun greedy :: "('s \<Rightarrow> 'n option) \<Rightarrow> ('n \<Rightarrow> 's \<Rightarrow> 's) \<Rightarrow> nat \<Rightarrow> 's \<Rightarrow> 'n list \<times> 's" where
  "greedy pick put 0 s = ([], s)"
| "greedy pick put (Suc k) s =
     (case pick s of None \<Rightarrow> ([], s)
      | Some n \<Rightarrow> let (ns, s') = greedy pick put k (put n s) in (n # ns, s'))"

locale greedy_spread =
  fixes inv :: "'s \<Rightarrow> bool" and elig :: "'s \<Rightarrow> 'n \<Rightarrow> bool" and load :: "'s \<Rightarrow> 'n \<Rightarrow> nat"
    and pick :: "'s \<Rightarrow> 'n option" and put :: "'n \<Rightarrow> 's \<Rightarrow> 's" and cap :: nat
  assumes pick_some: "inv s \<Longrightarrow> pick s = Some n \<Longrightarrow> elig s n \<and> (\<forall>m. elig s m \<longrightarrow> load s n \<le> load s m)"
    and pick_none: "inv s \<Longrightarrow> pick s = None \<Longrightarrow> \<not> elig s n"
    and put_inv: "inv s \<Longrightarrow> elig s n \<Longrightarrow> inv (put n s)"
    and put_load: "inv s \<Longrightarrow> elig s n \<Longrightarrow> load s n < cap \<Longrightarrow> load (put n s) m = load s m + (if m = n then 1 else 0)"
    and put_elig: "inv s \<Longrightarrow> elig s n \<Longrightarrow> elig (put n s) m \<Longrightarrow> elig s m"
begin

lemma greedy_run:
  assumes "inv s" and "\<forall>n. load s n + k \<le> cap" and "greedy pick put k s = (ns, s')"
  shows "inv s' \<and> length ns \<le> k \<and> (\<forall>m. load s' m = load s m + count_list ns m) \<and>
    (length ns < k \<longrightarrow> (\<forall>n. \<not> elig s' n)) \<and> (\<forall>m. elig s' m \<longrightarrow> elig s m) \<and>
    (\<forall>n \<in> set ns. elig s n \<and> (\<forall>m. elig s' m \<longrightarrow> load s' n \<le> load s' m + 1))"
  using assms
proof (induction k arbitrary: s ns)
  case 0
  then show ?case by simp
next
  case (Suc k)
  show ?case
  proof (cases "pick s")
    case None
    then show ?thesis using Suc.prems pick_none [OF Suc.prems(1)] by auto
  next
    case (Some n)
    obtain ns1 where run: "greedy pick put k (put n s) = (ns1, s')" and ns: "ns = n # ns1"
      using Suc.prems(3) Some by (auto split: prod.splits)
    have n: "elig s n" "\<forall>m. elig s m \<longrightarrow> load s n \<le> load s m" using pick_some [OF Suc.prems(1) Some] by auto
    have lt: "load s n < cap" using Suc.prems(2) [rule_format, of n] by simp
    note load1 = put_load [OF Suc.prems(1) n(1) lt]
    have "load (put n s) m + k \<le> cap" for m using Suc.prems(2) [rule_format, of m] by (auto simp: load1)
    then have "\<forall>m. load (put n s) m + k \<le> cap" ..
    from Suc.IH [OF put_inv [OF Suc.prems(1) n(1)] this run]
    have IH: "inv s'" "length ns1 \<le> k" "\<And>m. load s' m = load (put n s) m + count_list ns1 m"
      "length ns1 < k \<Longrightarrow> \<not> elig s' m" "\<And>m. elig s' m \<Longrightarrow> elig (put n s) m"
      "\<And>n' m. n' \<in> set ns1 \<Longrightarrow> elig (put n s) n'" "\<And>n' m. n' \<in> set ns1 \<Longrightarrow> elig s' m \<Longrightarrow> load s' n' \<le> load s' m + 1"
      for m by blast+
    have before: "elig s m" if "elig s' m" for m using put_elig [OF Suc.prems(1) n(1) IH(5) [OF that]] .
    have fresh: "load s' n \<le> load s' m + 1" if "n \<notin> set ns1" "elig s' m" for m
    proof -
      have "load s' n = load s n + 1" using IH(3) [of n] load1 [of n] that(1) count_notin [of n ns1] by simp
      moreover have "load s n \<le> load s m" using n(2) before [OF that(2)] by blast
      moreover have "load s m \<le> load s' m" using IH(3) [of m] load1 [of m] by simp
      ultimately show ?thesis by simp
    qed
    have spread: "elig s n' \<and> (\<forall>m. elig s' m \<longrightarrow> load s' n' \<le> load s' m + 1)" if "n' \<in> set ns" for n'
    proof (cases "n' \<in> set ns1")
      case True
      then show ?thesis using IH(6,7) put_elig [OF Suc.prems(1) n(1)] by blast
    next
      case False
      then show ?thesis using that fresh n(1) by (auto simp: ns)
    qed
    show ?thesis using IH(1,2,4) spread before IH(3) load1 by (auto simp: ns)
  qed
qed

end

section \<open>Filter\<close>

definition eligible :: "workload_requirements \<Rightarrow> scheduler_node_state \<Rightarrow> bool" where
  "eligible req node \<longleftrightarrow>
     node_can_run node req \<and> matches_labels node (wr_labels req) \<and> can_fit node (wr_resources req)"

definition filter_nodes :: "workload_requirements \<Rightarrow> cluster_state_cache \<Rightarrow> node_id list" where
  "filter_nodes req c = map sn_node_id (filter (eligible req) (cache_nodes c))"

definition unplaced_reason_of :: "workload_requirements \<Rightarrow> cluster_state_cache \<Rightarrow> unplaced_reason" where
  "unplaced_reason_of req c =
     (let ready = filter sn_ready (cache_nodes c)
      in if ready = [] then NoReadyNode
         else let labelled = filter (\<lambda>n. matches_labels n (wr_labels req)) ready
         in if labelled = [] then NoLabelMatch
         else if \<not> list_ex (\<lambda>n. runs_its_kind n req) labelled then NoContainerRuntime
         else if \<not> list_ex (\<lambda>n. node_can_run n req) labelled then NoCapableNode
         else NoRoom)"

datatype node_upgrade_phase =
  UpPending | UpDirected | UpVerifying | UpHealthy | UpFailed string | UpRolledBack

record node_upgrade_record =
  nu_node_id :: node_id
  nu_phase :: node_upgrade_phase

definition is_node_cordoned :: "node_upgrade_record list \<Rightarrow> node_id \<Rightarrow> bool" where
  "is_node_cordoned upgrade node =
     list_ex (\<lambda>r. nu_node_id r = node \<and> (nu_phase r = UpDirected \<or> nu_phase r = UpVerifying)) upgrade"

definition apply_upgrade_cordon ::
  "node_upgrade_record list option \<Rightarrow> cluster_state_cache \<Rightarrow> cluster_state_cache" where
  "apply_upgrade_cordon upgrade c =
     (case upgrade of
        None \<Rightarrow> c
      | Some u \<Rightarrow>
          fold (\<lambda>n. set_node (n\<lparr>sn_ready := False\<rparr>))
            (filter (\<lambda>n. is_node_cordoned u (sn_node_id n)) (cache_nodes c)) c)"

section \<open>Score\<close>

definition WEIGHT_BIN_PACK :: nat where "WEIGHT_BIN_PACK = 50"
definition WEIGHT_PREFERRED :: nat where "WEIGHT_PREFERRED = 20"
definition WEIGHT_IMAGE :: nat where "WEIGHT_IMAGE = 15"
definition WEIGHT_STABILITY :: nat where "WEIGHT_STABILITY = 5"

definition utilisation_after :: "nat \<Rightarrow> nat \<Rightarrow> nat \<Rightarrow> nat option" where
  "utilisation_after allocated request allocatable =
     (if allocatable = 0 then None
      else Some (min (sat_mul64 (sat_add64 allocated request) 100 div allocatable) 100))"

definition bin_packing_score :: "scheduler_node_state \<Rightarrow> resources \<Rightarrow> nat" where
  "bin_packing_score node r =
     (let cpu = utilisation_after (cpu_millicores (sn_allocated node)) (cpu_millicores r)
                  (cpu_millicores (sn_allocatable node));
          memory = utilisation_after (memory_bytes (sn_allocated node)) (memory_bytes r)
                  (memory_bytes (sn_allocatable node));
          score = (case (cpu, memory) of
              (Some cpu, Some memory) \<Rightarrow>
                (cpu + memory) div 2 - (if cpu \<le> memory then memory - cpu else cpu - memory) div 10
            | (Some only, None) \<Rightarrow> only
            | (None, Some only) \<Rightarrow> only
            | (None, None) \<Rightarrow> 50)
      in if score \<le> u32_max then score else 100)"

definition compute_score ::
  "node_id \<Rightarrow> resources \<Rightarrow> (string \<times> string) list \<Rightarrow> cluster_state_cache \<Rightarrow> string option \<Rightarrow> nat" where
  "compute_score node_id r preferred_labels c img =
     (case get_node c node_id of
        None \<Rightarrow> 0
      | Some node \<Rightarrow>
          let bin_pack = bin_packing_score node r;
              preferred = (if preferred_labels = [] then 100
                else as_u32 (preferred_label_matches node preferred_labels * 100 div length preferred_labels));
              stability = as_u32 (min (sn_uptime_secs node) 86400 * 100 div 86400);
              image_locality = (case img of
                  Some i \<Rightarrow> if i \<in> set (sn_cached_images node) then 100 else 0
                | None \<Rightarrow> 0);
              weighted = add32 (add32 (add32 (mul32 bin_pack WEIGHT_BIN_PACK) (mul32 preferred WEIGHT_PREFERRED))
                (mul32 image_locality WEIGHT_IMAGE)) (mul32 stability WEIGHT_STABILITY)
          in weighted div 100)"

definition score_nodes ::
  "node_id list \<Rightarrow> app_id \<Rightarrow> resources \<Rightarrow> (string \<times> string) list \<Rightarrow> cluster_state_cache \<Rightarrow> string option \<Rightarrow>
     (node_id \<times> nat) list" where
  "score_nodes candidates app r preferred c img =
     map (\<lambda>(node, _, score). (node, score))
       (sort_key (\<lambda>(node, replicas, score). (replicas, - int score, node))
         (List.map_filter (\<lambda>node.
            map_option (\<lambda>n. (node, replicas_of n app, compute_score node r preferred c img)) (get_node c node))
          candidates))"

section \<open>Select and commit\<close>

datatype schedule_error =
    NoEligibleNodes app_id
  | QuotaExceeded string string
  | InvalidSpec string
  | UnsignedImage string
  | InvalidSignature string string

record unplaced =
  up_missing :: nat
  up_reason :: unplaced_reason

record placed =
  pd_decision :: scheduling_decision
  pd_unplaced :: "unplaced option"

record scheduler =
  sch_cluster :: cluster_state_cache
  sch_require_dns :: bool
  sch_daemon_credit :: "(node_id \<times> resources) list"

definition scheduler_new :: "cluster_state_cache \<Rightarrow> scheduler" where
  "scheduler_new c = \<lparr>sch_cluster = c, sch_require_dns = False, sch_daemon_credit = []\<rparr>"

definition with_daemon_credit :: "(node_id \<times> resources) list \<Rightarrow> scheduler \<Rightarrow> scheduler" where
  "with_daemon_credit credit s = s\<lparr>sch_daemon_credit := credit\<rparr>"

definition with_dns_required :: "bool \<Rightarrow> scheduler \<Rightarrow> scheduler" where
  "with_dns_required required s = s\<lparr>sch_require_dns := required\<rparr>"

fun schedule_loop ::
  "app_id \<Rightarrow> workload_requirements \<Rightarrow> (string \<times> string) list \<Rightarrow> string option \<Rightarrow> nat \<Rightarrow> nat \<Rightarrow>
     cluster_state_cache \<Rightarrow> placement list \<times> unplaced option \<times> cluster_state_cache" where
  "schedule_loop app req preferred img 0 ordinal c = ([], None, c)"
| "schedule_loop app req preferred img (Suc left) ordinal c =
     (let candidates = filter_nodes req c;
          scored = score_nodes candidates app (wr_resources req) preferred c img
      in case scored of
           [] \<Rightarrow> ([], Some \<lparr>up_missing = Suc left, up_reason = unplaced_reason_of req c\<rparr>, c)
         | (selected, _) # _ \<Rightarrow>
             let c1 = reserve selected app (wr_resources req) c;
                 (placements, missing, c2) = schedule_loop app req preferred img left (ordinal + 1) c1
             in (\<lparr>pl_node_id = selected, pl_resources = wr_resources req, pl_ordinal = ordinal\<rparr> # placements,
                 missing, c2))"

definition schedule_fixed ::
  "app_id \<Rightarrow> nat \<Rightarrow> workload_requirements \<Rightarrow> (string \<times> string) list \<Rightarrow> string option \<Rightarrow> scheduler \<Rightarrow> placed \<times> scheduler" where
  "schedule_fixed app replica_count req preferred img s =
     (let (placements, missing, c) = schedule_loop app req preferred img replica_count 0 (sch_cluster s)
      in (\<lparr>pd_decision = \<lparr>sd_app_id = app, sd_placements = placements\<rparr>, pd_unplaced = missing\<rparr>,
          s\<lparr>sch_cluster := c\<rparr>))"

definition daemon_candidates ::
  "cluster_state_cache \<Rightarrow> app_id \<Rightarrow> (node_id \<times> resources) list \<Rightarrow> workload_requirements \<Rightarrow> node_id list" where
  "daemon_candidates c app credit req =
     filter_nodes req
       (fold (\<lambda>node available.
          if replicas_of node app > 0
          then (case map_of credit (sn_node_id node) of
                  Some committed \<Rightarrow> release_replica (sn_node_id node) app committed available
                | None \<Rightarrow> available)
          else available) (cache_nodes c) c)"

fun daemon_loop ::
  "app_id \<Rightarrow> workload_requirements \<Rightarrow> (node_id \<times> resources) list \<Rightarrow> node_id list \<Rightarrow> nat \<Rightarrow>
     cluster_state_cache \<Rightarrow> placement list \<times> cluster_state_cache" where
  "daemon_loop app req credit [] ordinal c = ([], c)"
| "daemon_loop app req credit (node # rest) ordinal c =
     (let running = (case get_node c node of None \<Rightarrow> False | Some n \<Rightarrow> replicas_of n app > 0);
          c1 = (if running then (case map_of credit node of
                  Some committed \<Rightarrow> release_replica node app committed c | None \<Rightarrow> c) else c);
          c2 = reserve node app (wr_resources req) c1;
          (placements, c3) = daemon_loop app req credit rest (ordinal + 1) c2
      in (\<lparr>pl_node_id = node, pl_resources = wr_resources req, pl_ordinal = ordinal\<rparr> # placements, c3))"

definition schedule_daemon :: "app_id \<Rightarrow> workload_requirements \<Rightarrow> scheduler \<Rightarrow> placed \<times> scheduler" where
  "schedule_daemon app req s =
     (let candidates = daemon_candidates (sch_cluster s) app (sch_daemon_credit s) req;
          (placements, c) = daemon_loop app req (sch_daemon_credit s) candidates 0 (sch_cluster s)
      in (\<lparr>pd_decision = \<lparr>sd_app_id = app, sd_placements = placements\<rparr>, pd_unplaced = None\<rparr>,
          s\<lparr>sch_cluster := c\<rparr>))"

definition place_app :: "app_id \<Rightarrow> app_spec \<Rightarrow> scheduler \<Rightarrow> placed \<times> scheduler" where
  "place_app app spec s =
     (let req = for_app spec (sch_require_dns s);
          preferred = (case as_placement spec of None \<Rightarrow> [] | Some p \<Rightarrow> parse_label_list (ps_preferred p))
      in case as_replicas spec of
           Fixed n \<Rightarrow> schedule_fixed app n req preferred (as_image spec) s
         | DaemonSet \<Rightarrow> schedule_daemon app req s)"

definition schedule_app :: "app_id \<Rightarrow> app_spec \<Rightarrow> scheduler \<Rightarrow> (schedule_error + scheduling_decision) \<times> scheduler" where
  "schedule_app app spec s =
     (let (placed, s') = place_app app spec s;
          daemon_without_a_node = (as_replicas spec = DaemonSet \<and> sd_placements (pd_decision placed) = [])
      in (if pd_unplaced placed \<noteq> None \<or> daemon_without_a_node
          then Inl (NoEligibleNodes app) else Inr (pd_decision placed), s'))"

text \<open>Two nodes of one core each and an app of half a core, for the examples.\<close>

definition demo_node :: "node_id \<Rightarrow> scheduler_node_state" where
  "demo_node name =
     \<lparr>sn_node_id = name, sn_allocatable = res_new 1000 1000 0, sn_allocated = res_new 0 0 0, sn_labels = [],
      sn_ready = True,
      sn_capabilities = \<lparr>cap_egress = \<lparr>ec_connect_ipv4 = False, ec_connect_ipv6 = False, ec_udp_ipv4 = False,
          ec_udp_ipv6 = False, ec_pre_start = False\<rparr>,
        cap_dns = \<lparr>dc_enabled = False, dc_ready = False, dc_ipv4 = False, dc_ipv6 = False, dc_workload_reachable = False\<rparr>,
        cap_process = \<lparr>pc_enabled = False, pc_allowed_binaries = []\<rparr>, cap_containers = True,
        cap_secret_providers = [],
        cap_runtime_knobs = \<lparr>ra_capabilities = [], ra_sysctls = [], ra_devices = []\<rparr>, cap_shared_network = False\<rparr>,
      sn_app_replicas = [], sn_uptime_secs = 0, sn_cached_images = []\<rparr>"

definition demo_cluster :: "node_id list \<Rightarrow> cluster_state_cache" where
  "demo_cluster names = \<lparr>cs_nodes = map (\<lambda>n. (n, demo_node n)) names, cs_accounted = [], cs_refusals = []\<rparr>"

definition demo_req :: workload_requirements where
  "demo_req = \<lparr>wr_resources = res_new 500 500 0, wr_labels = [], wr_requires_egress = False, wr_requires_dns = False,
     wr_host_binaries = [], wr_requires_containers = True, wr_secret_providers = [],
     wr_runtime_knobs = \<lparr>rk_capabilities = [], rk_sysctls = [], rk_devices = []\<rparr>, wr_requires_shared_network = False\<rparr>"

definition demo_app :: app_id where
  "demo_app = \<lparr>ai_name = ''web'', ai_namespace = ''prod''\<rparr>"

section \<open>The pipeline meets the contract\<close>

definition node_replicas :: "cluster_state_cache \<Rightarrow> app_id \<Rightarrow> node_id \<Rightarrow> nat" where
  "node_replicas c app node = (case get_node c node of None \<Rightarrow> 0 | Some n \<Rightarrow> replicas_of n app)"

definition pick_node ::
  "app_id \<Rightarrow> workload_requirements \<Rightarrow> (string \<times> string) list \<Rightarrow> string option \<Rightarrow> cluster_state_cache \<Rightarrow> node_id option" where
  "pick_node app req preferred img c =
     map_option fst (case score_nodes (filter_nodes req c) app (wr_resources req) preferred c img of
       [] \<Rightarrow> None | s # _ \<Rightarrow> Some s)"

definition within_capacity :: "cluster_state_cache \<Rightarrow> bool" where
  "within_capacity c \<longleftrightarrow> (\<forall>node n. get_node c node = Some n \<longrightarrow> fits (sn_allocatable n) (sn_allocated n))"

lemma in_filter_nodes:
  assumes "cache_ok c"
  shows "node \<in> set (filter_nodes req c) \<longleftrightarrow> (\<exists>n. get_node c node = Some n \<and> eligible req n)"
proof
  assume "node \<in> set (filter_nodes req c)"
  then obtain k n where e: "(k, n) \<in> set (cs_nodes c)" "eligible req n" "node = sn_node_id n"
    by (auto simp: filter_nodes_def cache_nodes_def)
  then have "get_node c k = Some n" using cache_ok_get [OF assms] by blast
  then show "\<exists>n. get_node c node = Some n \<and> eligible req n" using cache_ok_node [OF assms] e by auto
next
  assume "\<exists>n. get_node c node = Some n \<and> eligible req n"
  then obtain n where n: "get_node c node = Some n" "eligible req n" by blast
  then have "(node, n) \<in> set (cs_nodes c)" "sn_node_id n = node"
    using cache_ok_get [OF assms] cache_ok_node [OF assms] by blast+
  then show "node \<in> set (filter_nodes req c)"
    using n(2) by (force simp: filter_nodes_def cache_nodes_def)
qed

lemma distinct_filter_nodes:
  assumes "cache_ok c"
  shows "distinct (filter_nodes req c)"
proof -
  have "map sn_node_id (cache_nodes c) = map fst (cs_nodes c)"
    using assms by (auto simp: cache_nodes_def cache_ok_def)
  then have "distinct (map sn_node_id (cache_nodes c))" using assms by (simp add: cache_ok_def)
  then show ?thesis by (auto simp: filter_nodes_def distinct_map intro: inj_on_subset)
qed

lemma sort_key_head:
  assumes "sort_key f xs = x # rest"
  shows "x \<in> set xs" "\<And>y. y \<in> set xs \<Longrightarrow> f x \<le> f y"
proof -
  have "set (sort_key f xs) = set xs" by simp
  then have mem: "set xs = insert x (set rest)" using assms by simp
  show "x \<in> set xs" using mem by simp
  have "sorted (map f (x # rest))" using sorted_sort_key [of f xs] assms by simp
  then show "f x \<le> f y" if "y \<in> set xs" for y using mem that by auto
qed

lemma pick_node_some:
  assumes ok: "cache_ok c" and pick: "pick_node app req preferred img c = Some node"
  shows "node \<in> set (filter_nodes req c)"
    and "\<And>m. m \<in> set (filter_nodes req c) \<Longrightarrow> node_replicas c app node \<le> node_replicas c app m"
proof -
  let ?row = "\<lambda>node n. (node, replicas_of n app, compute_score node (wr_resources req) preferred c img)"
  define rows where "rows = List.map_filter (\<lambda>node. map_option (?row node) (get_node c node)) (filter_nodes req c)"
  let ?key = "\<lambda>(node, replicas, score). (replicas, - int score, node :: string)"
  obtain r rest where sorted: "sort_key ?key rows = r # rest" and node: "node = fst r"
    using pick unfolding pick_node_def score_nodes_def rows_def [symmetric]
    by (cases "sort_key ?key rows") (auto split: prod.splits)
  have row: "x \<in> set rows \<longleftrightarrow> (\<exists>m n. m \<in> set (filter_nodes req c) \<and> get_node c m = Some n \<and> x = ?row m n)" for x
    by (auto simp: rows_def map_filter_def) force
  note head = sort_key_head [OF sorted]
  obtain k n where kn: "k \<in> set (filter_nodes req c)" "get_node c k = Some n" "r = ?row k n"
    using head(1) unfolding row by blast
  have "k = node" using node kn(3) by simp
  note r = kn [unfolded this]
  show "node \<in> set (filter_nodes req c)" by (rule r(1))
  show "node_replicas c app node \<le> node_replicas c app m" if m: "m \<in> set (filter_nodes req c)" for m
  proof -
    obtain n' where n': "get_node c m = Some n'" using m in_filter_nodes [OF ok] by blast
    then have "?row m n' \<in> set rows" using m row by blast
    from head(2) [OF this] show ?thesis using r n' by (auto simp: node_replicas_def less_eq_prod_def)
  qed
qed

lemma pick_node_none:
  assumes ok: "cache_ok c" and pick: "pick_node app req preferred img c = None"
  shows "filter_nodes req c = []"
proof (rule ccontr)
  assume "filter_nodes req c \<noteq> []"
  then obtain m where m: "m \<in> set (filter_nodes req c)" by (cases "filter_nodes req c") auto
  obtain n where "get_node c m = Some n" using m in_filter_nodes [OF ok] by blast
  define rows where "rows = List.map_filter (\<lambda>node. map_option (\<lambda>n. (node, replicas_of n app,
      compute_score node (wr_resources req) preferred c img)) (get_node c node)) (filter_nodes req c)"
  have "rows \<noteq> []"
    using m \<open>get_node c m = Some n\<close> by (auto simp: rows_def map_filter_def filter_empty_conv)
  moreover have "length (score_nodes (filter_nodes req c) app (wr_resources req) preferred c img) = length rows"
    unfolding score_nodes_def rows_def by simp
  ultimately have "score_nodes (filter_nodes req c) app (wr_resources req) preferred c img \<noteq> []" by auto
  then show False using pick by (auto simp: pick_node_def split: list.splits)
qed

lemma eligible_reserve:
  assumes ok: "cache_ok c" and "get_node (reserve node app r c) m = Some n'" and "eligible req n'"
  shows "\<exists>n. get_node c m = Some n \<and> eligible req n"
proof (cases "m = node")
  case False
  then show ?thesis using assms by (auto simp: reserve_def)
next
  case True
  then obtain n where n: "get_node c m = Some n"
    "n' = count_replica app (n\<lparr>sn_allocated := res_saturating_add (sn_allocated n) r\<rparr>)"
    using assms(2) by (auto simp: reserve_def)
  have "fits (sn_allocated n') (sn_allocated n)" using cache_ok_node [OF ok n(1)] by (simp add: n(2) res_add_ge)
  then have "fits (available n) (available n')" by (simp add: available_def n(2) sub_antimono)
  moreover have "node_can_run n' req = node_can_run n req" by (rule node_can_run_cong) (simp_all add: n(2))
  ultimately have "eligible req n"
    using assms(3) by (auto simp: eligible_def can_fit_def matches_labels_def n(2) intro: fits_trans)
  then show ?thesis using n(1) by blast
qed

interpretation spread: greedy_spread cache_ok "\<lambda>c m. m \<in> set (filter_nodes req c)" "\<lambda>c m. node_replicas c app m"
  "pick_node app req preferred img" "\<lambda>n. reserve n app (wr_resources req)" u32_max
proof
  fix c n m
  assume ok: "cache_ok c"
  show "n \<in> set (filter_nodes req c) \<and> (\<forall>m. m \<in> set (filter_nodes req c) \<longrightarrow> node_replicas c app n \<le> node_replicas c app m)"
    if "pick_node app req preferred img c = Some n" using pick_node_some [OF ok that] by blast
  show "n \<notin> set (filter_nodes req c)" if "pick_node app req preferred img c = None"
    using pick_node_none [OF ok that] by simp
  show "cache_ok (reserve n app (wr_resources req) c)" if "n \<in> set (filter_nodes req c)" by (rule reserve_ok [OF ok])
  show "node_replicas (reserve n app (wr_resources req) c) app m = node_replicas c app m + (if m = n then 1 else 0)"
    if n: "n \<in> set (filter_nodes req c)" and lt: "node_replicas c app n < u32_max"
  proof -
    obtain x where x: "get_node c n = Some x" using n in_filter_nodes [OF ok] by blast
    have "replicas_of (x\<lparr>sn_allocated := a\<rparr>) app = replicas_of x app" for a by (simp add: replicas_of_def)
    then show ?thesis using x lt by (auto simp: node_replicas_def reserve_def add32_exact)
  qed
  show "m \<in> set (filter_nodes req c)"
    if "n \<in> set (filter_nodes req c)" "m \<in> set (filter_nodes req (reserve n app (wr_resources req) c))"
    using that(2) eligible_reserve [OF ok] unfolding in_filter_nodes [OF ok] in_filter_nodes [OF reserve_ok [OF ok]]
    by blast
qed

lemma schedule_loop_Suc:
  "schedule_loop app req preferred img (Suc left) ordinal c =
     (case pick_node app req preferred img c of
        None \<Rightarrow> ([], Some \<lparr>up_missing = Suc left, up_reason = unplaced_reason_of req c\<rparr>, c)
      | Some node \<Rightarrow>
          (let (ps, missing, c') = schedule_loop app req preferred img left (ordinal + 1) (reserve node app (wr_resources req) c)
           in (\<lparr>pl_node_id = node, pl_resources = wr_resources req, pl_ordinal = ordinal\<rparr> # ps, missing, c')))"
  by (simp add: pick_node_def Let_def split: list.splits prod.splits)

declare schedule_loop.simps(2) [simp del]

lemma schedule_loop_greedy:
  "schedule_loop app req preferred img k ordinal c = (ps, missing, c') \<Longrightarrow>
   greedy (pick_node app req preferred img) (\<lambda>n. reserve n app (wr_resources req)) k c = (map pl_node_id ps, c')"
proof (induction k arbitrary: ordinal c ps)
  case (Suc k)
  then show ?case
    by (force simp: schedule_loop_Suc split: option.splits prod.splits)
qed simp

lemma schedule_loop_shape:
  "schedule_loop app req preferred img k ordinal c = (ps, missing, c') \<Longrightarrow>
   map pl_ordinal ps = [ordinal..<ordinal + length ps] \<and> (\<forall>p \<in> set ps. pl_resources p = wr_resources req) \<and>
   (case missing of None \<Rightarrow> length ps = k
    | Some u \<Rightarrow> length ps + up_missing u = k \<and> 0 < up_missing u \<and> up_reason u = unplaced_reason_of req c')"
proof (induction k arbitrary: ordinal c ps)
  case (Suc k)
  show ?case
  proof (cases "pick_node app req preferred img c")
    case None
    then show ?thesis using Suc.prems by (auto simp: schedule_loop_Suc)
  next
    case (Some node)
    obtain ps1 where run: "schedule_loop app req preferred img k (ordinal + 1) (reserve node app (wr_resources req) c) = (ps1, missing, c')"
      and ps: "ps = \<lparr>pl_node_id = node, pl_resources = wr_resources req, pl_ordinal = ordinal\<rparr> # ps1"
      using Suc.prems Some by (auto simp: schedule_loop_Suc split: prod.splits)
    note IH = Suc.IH [OF run]
    have "[ordinal..<ordinal + Suc (length ps1)] = ordinal # [Suc ordinal..<Suc ordinal + length ps1]"
      by (simp add: upt_conv_Cons del: upt_Suc)
    then show ?thesis using IH by (auto simp: ps simp del: upt_Suc split: option.splits)
  qed
qed simp

text \<open>Nothing is overcommitted, and every reservation is exact.\<close>

definition grown :: "scheduler_node_state \<Rightarrow> nat \<Rightarrow> resources \<Rightarrow> scheduler_node_state \<Rightarrow> bool" where
  "grown n k r n' \<longleftrightarrow> sn_allocatable n' = sn_allocatable n \<and>
     cpu_millicores (sn_allocated n') = cpu_millicores (sn_allocated n) + k * cpu_millicores r \<and>
     memory_bytes (sn_allocated n') = memory_bytes (sn_allocated n) + k * memory_bytes r \<and>
     gpus (sn_allocated n') = gpus (sn_allocated n) + k * gpus r"

lemma reserve_step:
  assumes ok: "cache_ok c" and within: "within_capacity c" and elig: "node \<in> set (filter_nodes req c)"
  shows "within_capacity (reserve node app (wr_resources req) c)"
    and "get_node c m = Some n \<Longrightarrow> \<exists>n'. get_node (reserve node app (wr_resources req) c) m = Some n' \<and>
      grown n (if m = node then 1 else 0) (wr_resources req) n'"
proof -
  obtain x where x: "get_node c node = Some x" "eligible req x" using elig in_filter_nodes [OF ok] by blast
  have caps: "fits (sn_allocatable x) (sn_allocated x)" "res_ok (sn_allocatable x)"
    using within x(1) cache_ok_node [OF ok x(1)] by (auto simp: within_capacity_def)
  have "fits (res_saturating_sub (sn_allocatable x) (sn_allocated x)) (wr_resources req)"
    using x(2) by (simp add: eligible_def can_fit_def available_def)
  note res = reserve_within [OF caps(1) this caps(2)]
  show "within_capacity (reserve node app (wr_resources req) c)"
    using within res(1) x(1) by (auto simp: within_capacity_def reserve_def)
  show "\<exists>n'. get_node (reserve node app (wr_resources req) c) m = Some n' \<and>
      grown n (if m = node then 1 else 0) (wr_resources req) n'" if "get_node c m = Some n"
    using that x(1) res(2-4) by (auto simp: reserve_def grown_def)
qed

lemma schedule_loop_within:
  assumes "cache_ok c" and "within_capacity c" and "schedule_loop app req preferred img k ordinal c = (ps, missing, c')"
  shows "cache_ok c' \<and> within_capacity c' \<and>
    (\<forall>m n. get_node c m = Some n \<longrightarrow>
       (\<exists>n'. get_node c' m = Some n' \<and> grown n (count_list (map pl_node_id ps) m) (wr_resources req) n'))"
  using assms
proof (induction k arbitrary: ordinal c ps)
  case 0
  then show ?case by (auto simp: grown_def)
next
  case (Suc k)
  show ?case
  proof (cases "pick_node app req preferred img c")
    case None
    then show ?thesis using Suc.prems by (auto simp: schedule_loop_Suc grown_def)
  next
    case (Some node)
    let ?c1 = "reserve node app (wr_resources req) c"
    obtain ps1 where run: "schedule_loop app req preferred img k (ordinal + 1) ?c1 = (ps1, missing, c')"
      and ps: "ps = \<lparr>pl_node_id = node, pl_resources = wr_resources req, pl_ordinal = ordinal\<rparr> # ps1"
      using Suc.prems(3) Some by (auto simp: schedule_loop_Suc split: prod.splits)
    have elig: "node \<in> set (filter_nodes req c)" by (rule pick_node_some(1) [OF Suc.prems(1) Some])
    note step = reserve_step [OF Suc.prems(1,2) elig]
    have IH: "cache_ok c'" "within_capacity c'"
      "\<And>m n. get_node ?c1 m = Some n \<Longrightarrow> \<exists>n'. get_node c' m = Some n' \<and> grown n (count_list (map pl_node_id ps1) m) (wr_resources req) n'"
      using Suc.IH [OF reserve_ok [OF Suc.prems(1)] step(1) run] by blast+
    have "\<exists>n'. get_node c' m = Some n' \<and> grown n (count_list (map pl_node_id ps) m) (wr_resources req) n'"
      if m: "get_node c m = Some n" for m n
    proof -
      obtain n1 where n1: "get_node ?c1 m = Some n1" "grown n (if m = node then 1 else 0) (wr_resources req) n1"
        using step(2) [OF m] by blast
      obtain n2 where n2: "get_node c' m = Some n2" "grown n1 (count_list (map pl_node_id ps1) m) (wr_resources req) n2"
        using IH(3) [OF n1(1)] by blast
      show ?thesis using n1(2) n2 by (auto simp: grown_def ps algebra_simps)
    qed
    then show ?thesis using IH(1,2) by blast
  qed
qed

text \<open>The pipeline reads the cache only through its lookups, so the order of the node map is irrelevant.\<close>

definition same_cluster :: "cluster_state_cache \<Rightarrow> cluster_state_cache \<Rightarrow> bool" where
  "same_cluster c d \<longleftrightarrow> cache_ok c \<and> cache_ok d \<and> get_node c = get_node d"

lemma same_nodes:
  assumes "same_cluster c d"
  shows "set (cs_nodes c) = set (cs_nodes d)" "set (cache_nodes c) = set (cache_nodes d)"
proof -
  have "e \<in> set (cs_nodes c) \<longleftrightarrow> e \<in> set (cs_nodes d)" for e
    using assms cache_ok_get [of c "fst e" "snd e"] cache_ok_get [of d "fst e" "snd e"]
    by (auto simp: same_cluster_def)
  then show "set (cs_nodes c) = set (cs_nodes d)" by blast
  then show "set (cache_nodes c) = set (cache_nodes d)" by (simp add: cache_nodes_def)
qed

lemma same_filter_nodes: "same_cluster c d \<Longrightarrow> set (filter_nodes req c) = set (filter_nodes req d)"
  by (simp add: same_nodes filter_nodes_def)

lemma same_reason: "same_cluster c d \<Longrightarrow> unplaced_reason_of req c = unplaced_reason_of req d"
proof -
  assume "same_cluster c d"
  then have "set (cache_nodes c) = set (cache_nodes d)" by (rule same_nodes)
  then have "filter P (cache_nodes c) = [] \<longleftrightarrow> filter P (cache_nodes d) = []"
    "list_ex P (filter Q (cache_nodes c)) \<longleftrightarrow> list_ex P (filter Q (cache_nodes d))" for P Q
    by (auto simp: filter_empty_conv list_ex_iff)
  then show ?thesis unfolding unplaced_reason_of_def Let_def filter_filter by presburger
qed

lemma same_score:
  assumes same: "same_cluster c d"
  shows "score_nodes (filter_nodes req c) app r preferred c img = score_nodes (filter_nodes req d) app r preferred d img"
proof -
  have get: "get_node c = get_node d" using same by (simp add: same_cluster_def)
  then have score: "compute_score node r preferred c img = compute_score node r preferred d img" for node
    by (simp add: compute_score_def)
  define row where "row = (\<lambda>node. map_option (\<lambda>n. (node, replicas_of n app, compute_score node r preferred d img)) (get_node d node))"
  let ?key = "\<lambda>(node, replicas, score). (replicas, - int score, node :: string)"
  let ?rows = "\<lambda>c. List.map_filter row (filter_nodes req c)"
  have "mset (filter_nodes req c) = mset (filter_nodes req d)"
    using same distinct_filter_nodes same_filter_nodes [OF same]
    by (metis same_cluster_def set_eq_iff_mset_eq_distinct)
  then have "mset (?rows c) = mset (?rows d)" by (simp add: map_filter_def)
  moreover have "inj_on ?key (set (?rows c))" by (auto simp: inj_on_def)
  ultimately have "sort_key ?key (?rows c) = sort_key ?key (?rows d)"
    by (intro sort_key_eq_sort_key)
  then show ?thesis unfolding score_nodes_def get score row_def by simp
qed

lemma same_reserve: "same_cluster c d \<Longrightarrow> same_cluster (reserve node app r c) (reserve node app r d)"
  by (auto simp: same_cluster_def reserve_ok fun_eq_iff) (simp_all add: reserve_def)

lemma same_schedule:
  assumes "same_cluster c d"
  shows "\<exists>c' d'. same_cluster c' d' \<and> (\<exists>ps missing.
    schedule_loop app req preferred img k ordinal c = (ps, missing, c') \<and>
    schedule_loop app req preferred img k ordinal d = (ps, missing, d'))"
  using assms
proof (induction k arbitrary: ordinal c d)
  case 0
  then show ?case by simp
next
  case (Suc k)
  have pick: "pick_node app req preferred img c = pick_node app req preferred img d"
    unfolding pick_node_def same_score [OF Suc.prems] ..
  show ?case
  proof (cases "pick_node app req preferred img d")
    case None
    then show ?thesis using Suc.prems pick same_reason [OF Suc.prems] by (auto simp: schedule_loop_Suc)
  next
    case (Some node)
    then show ?thesis
      using Suc.IH [OF same_reserve [OF Suc.prems, of node app "wr_resources req"], of "ordinal + 1"] pick
      by (fastforce simp: schedule_loop_Suc)
  qed
qed

section \<open>Scores\<close>

lemma utilisation_le: "utilisation_after a r t = Some u \<Longrightarrow> u \<le> 100"
  by (auto simp: utilisation_after_def split: if_splits)

lemma bin_packing_le: "bin_packing_score node r \<le> 100"
proof -
  let ?cpu = "utilisation_after (cpu_millicores (sn_allocated node)) (cpu_millicores r) (cpu_millicores (sn_allocatable node))"
  let ?mem = "utilisation_after (memory_bytes (sn_allocated node)) (memory_bytes r) (memory_bytes (sn_allocatable node))"
  have "c \<le> 100" if "?cpu = Some c" for c using that by (rule utilisation_le)
  moreover have "m \<le> 100" if "?mem = Some m" for m using that by (rule utilisation_le)
  ultimately show ?thesis
    by (cases ?cpu; cases ?mem) (auto simp: bin_packing_score_def Let_def intro: diff_le_self [THEN le_trans])
qed

lemma preferred_le: "preferred_label_matches n labels \<le> length labels"
  by (simp add: preferred_label_matches_def)

lemma compute_score_le: "compute_score node r preferred c img \<le> 90"
proof (cases "get_node c node")
  case None
  then show ?thesis by (simp add: compute_score_def)
next
  case (Some n)
  have pref: "preferred_label_matches n preferred * 100 div length preferred \<le> 100" if "preferred \<noteq> []"
    using that preferred_le [of n preferred] div_le_mono [of "preferred_label_matches n preferred * 100" "length preferred * 100" "length preferred"]
    by simp
  have stab: "min (sn_uptime_secs n) 86400 * 100 div 86400 \<le> 100"
    using div_le_mono [of "min (sn_uptime_secs n) 86400 * 100" "86400 * 100" 86400] by simp
  define b where "b = bin_packing_score n r"
  define p where "p = (if preferred = [] then 100 else as_u32 (preferred_label_matches n preferred * 100 div length preferred))"
  define u where "u = as_u32 (min (sn_uptime_secs n) 86400 * 100 div 86400)"
  define i :: nat where "i = (case img of Some i \<Rightarrow> if i \<in> set (sn_cached_images n) then 100 else 0 | None \<Rightarrow> 0)"
  have le: "b \<le> 100" "p \<le> 100" "u \<le> 100" "i \<le> 100"
    using bin_packing_le pref stab by (auto simp: b_def p_def u_def i_def as_u32_exact split: option.splits)
  have "compute_score node r preferred c img =
      add32 (add32 (add32 (mul32 b WEIGHT_BIN_PACK) (mul32 p WEIGHT_PREFERRED)) (mul32 i WEIGHT_IMAGE)) (mul32 u WEIGHT_STABILITY) div 100"
    unfolding compute_score_def Some option.case Let_def b_def p_def u_def i_def ..
  also have "\<dots> = (b * 50 + p * 20 + i * 15 + u * 5) div 100"
    using le by (simp add: WEIGHT_BIN_PACK_def WEIGHT_PREFERRED_def WEIGHT_IMAGE_def WEIGHT_STABILITY_def add32_exact mul32_exact)
  also have "\<dots> \<le> (100 * 50 + 100 * 20 + 100 * 15 + 100 * 5) div 100" by (rule div_le_mono) (use le in linarith)
  finally show ?thesis by simp
qed

section \<open>Reserving committed instances\<close>

lemma reserve_committed_get:
  "get_node (reserve_committed_instance node app ordinal r c) m =
     (if m = node then map_option (\<lambda>n.
        let accounted = (case map_of (cs_accounted c) (node, app, ordinal) of None \<Rightarrow> res_default | Some a \<Rightarrow> a);
            n1 = n\<lparr>sn_allocated := res_saturating_add (sn_allocated n) (res_saturating_sub r accounted)\<rparr>
        in if map_of (cs_accounted c) (node, app, ordinal) = None then count_replica app n1 else n1) (get_node c node)
      else get_node c m)"
proof (cases "get_node c node")
  case None
  then show ?thesis by (simp add: reserve_committed_instance_def)
next
  case (Some n)
  have "get_node (x\<lparr>cs_accounted := a\<rparr>) m = get_node x m" for x a by (simp add: get_node_def)
  then show ?thesis using Some by (simp add: reserve_committed_instance_def Let_def)
qed

lemma reserve_committed_accounted:
  "get_node c node \<noteq> None \<Longrightarrow>
   map_of (cs_accounted (reserve_committed_instance node app ordinal r c)) (node, app, ordinal) =
     (let accounted = (case map_of (cs_accounted c) (node, app, ordinal) of None \<Rightarrow> res_default | Some a \<Rightarrow> a)
      in Some (res_saturating_add accounted (res_saturating_sub r accounted)))"
  by (auto simp: reserve_committed_instance_def Let_def update_conv')

lemma topped_up: "res_ok r \<Longrightarrow> fits (res_saturating_add a (res_saturating_sub r a)) r"
  by (auto simp: fits_def res_simps res_ok_def)

lemma sub_of_fits: "fits a r \<Longrightarrow> res_saturating_sub r a = res_default"
  by (auto simp: fits_def res_eq_iff res_simps res_default_def res_new_def)

lemma add_default: "res_ok a \<Longrightarrow> res_saturating_add a res_default = a"
  by (auto simp: res_eq_iff res_simps res_ok_def res_default_def res_new_def)

section \<open>Why nothing was placed\<close>

definition reason_holds ::
  "workload_requirements \<Rightarrow> scheduler_node_state list \<Rightarrow> unplaced_reason \<Rightarrow> bool" where
  "reason_holds req found reason =
     (case reason of
        NoReadyNode \<Rightarrow> \<forall>x \<in> set found. \<not> sn_ready x
      | NoLabelMatch \<Rightarrow> \<forall>x \<in> set found. sn_ready x \<longrightarrow> \<not> matches_labels x (wr_labels req)
      | NoContainerRuntime \<Rightarrow> \<forall>x \<in> set found. sn_ready x \<and> matches_labels x (wr_labels req) \<longrightarrow> \<not> runs_its_kind x req
      | NoCapableNode \<Rightarrow> \<forall>x \<in> set found. matches_labels x (wr_labels req) \<longrightarrow> \<not> node_can_run x req
      | NoRoom \<Rightarrow> (\<exists>x \<in> set found. node_can_run x req \<and> matches_labels x (wr_labels req)) \<and>
          (\<forall>x \<in> set found. node_can_run x req \<and> matches_labels x (wr_labels req) \<longrightarrow> \<not> can_fit x (wr_resources req)))"

lemma unplaced_reason_holds:
  assumes none: "\<forall>x \<in> set (cache_nodes c). \<not> eligible req x"
  shows "reason_holds req (cache_nodes c) (unplaced_reason_of req c)"
proof -
  let ?ready = "filter sn_ready (cache_nodes c)"
  let ?labelled = "filter (\<lambda>n. matches_labels n (wr_labels req)) ?ready"
  have ready: "node_can_run x req \<Longrightarrow> sn_ready x" for x by (simp add: node_can_run_def)
  consider "?ready = []" | "?ready \<noteq> []" "?labelled = []"
    | "?ready \<noteq> []" "?labelled \<noteq> []" "\<not> list_ex (\<lambda>n. runs_its_kind n req) ?labelled"
    | "?ready \<noteq> []" "?labelled \<noteq> []" "list_ex (\<lambda>n. runs_its_kind n req) ?labelled" "\<not> list_ex (\<lambda>n. node_can_run n req) ?labelled"
    | "?ready \<noteq> []" "?labelled \<noteq> []" "list_ex (\<lambda>n. runs_its_kind n req) ?labelled" "list_ex (\<lambda>n. node_can_run n req) ?labelled"
    by blast
  then show ?thesis
  proof cases
    case 1
    then have "unplaced_reason_of req c = NoReadyNode" by (simp add: unplaced_reason_of_def)
    then show ?thesis using 1 by (simp add: reason_holds_def filter_empty_conv)
  next
    case 2
    then have "unplaced_reason_of req c = NoLabelMatch" by (simp add: unplaced_reason_of_def Let_def)
    then show ?thesis using 2 by (simp add: reason_holds_def filter_empty_conv)
  next
    case 3
    then have "unplaced_reason_of req c = NoContainerRuntime" by (simp add: unplaced_reason_of_def Let_def)
    then show ?thesis using 3(3) by (simp add: reason_holds_def list_ex_iff)
  next
    case 4
    then have "unplaced_reason_of req c = NoCapableNode" by (simp add: unplaced_reason_of_def Let_def)
    then show ?thesis using 4(4) ready by (auto simp: reason_holds_def list_ex_iff)
  next
    case 5
    then have "unplaced_reason_of req c = NoRoom" by (simp add: unplaced_reason_of_def Let_def)
    then show ?thesis using 5(4) none by (auto simp: reason_holds_def list_ex_iff eligible_def)
  qed
qed

section \<open>Properties\<close>

text \<open>
  C2: placement never overcommits. If every node's allocations are within its capacity, then
  after placing an app they still are, and each node's allocation has grown by exactly the
  requests of the replicas placed on it: no sum saturates.
\<close>

theorem placement_never_overcommits:
  assumes "cache_ok (sch_cluster s)" and "within_capacity (sch_cluster s)"
    and "schedule_fixed app n req preferred img s = (result, s')"
  shows "within_capacity (sch_cluster s') \<and>
    (\<forall>m old. get_node (sch_cluster s) m = Some old \<longrightarrow>
       (\<exists>new. get_node (sch_cluster s') m = Some new \<and>
          grown old (count_list (map pl_node_id (sd_placements (pd_decision result))) m) (wr_resources req) new))"
proof -
  obtain ps missing c' where run: "schedule_loop app req preferred img n 0 (sch_cluster s) = (ps, missing, c')"
    by (rule prod_cases3)
  then have "sd_placements (pd_decision result) = ps" "sch_cluster s' = c'"
    using assms(3) by (auto simp: schedule_fixed_def)
  then show ?thesis using schedule_loop_within [OF assms(1,2) run] by simp
qed

theorem placement_never_overcommits_witness:
  "(\<exists>new. get_node (sch_cluster (snd (schedule_fixed demo_app 3 demo_req [] None (scheduler_new (demo_cluster [''n1'', ''n2'']))))) ''n1'' = Some new \<and>
      grown (demo_node ''n1'') 2 (res_new 500 500 0) new)"
proof -
  let ?s = "scheduler_new (demo_cluster [''n1'', ''n2''])"
  have ok: "cache_ok (sch_cluster ?s)" by (simp add: cache_ok_def scheduler_new_def demo_cluster_def demo_node_def res_ok_def res_new_def)
  have within: "within_capacity (sch_cluster ?s)"
    by (auto simp: within_capacity_def scheduler_new_def demo_cluster_def demo_node_def get_node_def fits_def res_new_def split: if_splits)
  have nodes: "map pl_node_id (sd_placements (pd_decision (fst (schedule_fixed demo_app 3 demo_req [] None ?s)))) = [''n1'', ''n2'', ''n1'']"
    by code_simp
  have get: "get_node (sch_cluster ?s) ''n1'' = Some (demo_node ''n1'')" by (simp add: scheduler_new_def demo_cluster_def get_node_def)
  have req: "wr_resources demo_req = res_new 500 500 0" by (simp add: demo_req_def)
  have two: "count_list [''n1'', ''n2'', ''n1''] ''n1'' = 2" by code_simp
  show ?thesis
    using placement_never_overcommits [OF ok within surjective_pairing, of demo_app 3 demo_req "[]" None,
        THEN conjunct2, rule_format, OF get]
    unfolding nodes req two .
qed

text \<open>
  C33: replicas spread. After placing an app, a node that received one of its replicas runs at
  most one more of them than any node that could still take another one.
\<close>

theorem replicas_spread:
  assumes "cache_ok (sch_cluster s)" and "\<forall>m. node_replicas (sch_cluster s) app m + n \<le> u32_max"
    and "schedule_fixed app n req preferred img s = (result, s')"
    and "p \<in> set (sd_placements (pd_decision result))" and "m \<in> set (filter_nodes req (sch_cluster s'))"
  shows "node_replicas (sch_cluster s') app (pl_node_id p) \<le> node_replicas (sch_cluster s') app m + 1"
proof -
  obtain ps missing c' where run: "schedule_loop app req preferred img n 0 (sch_cluster s) = (ps, missing, c')"
    by (rule prod_cases3)
  then have "sd_placements (pd_decision result) = ps" "sch_cluster s' = c'"
    using assms(3) by (auto simp: schedule_fixed_def)
  then show ?thesis
    using spread.greedy_run [OF assms(1,2) schedule_loop_greedy [OF run]] assms(4,5) by auto
qed

theorem replicas_spread_witness:
  "node_replicas (sch_cluster (snd (schedule_fixed demo_app 2 demo_req [] None (scheduler_new (demo_cluster [''n1'', ''n2'', ''n3'']))))) demo_app ''n1''
    \<le> node_replicas (sch_cluster (snd (schedule_fixed demo_app 2 demo_req [] None (scheduler_new (demo_cluster [''n1'', ''n2'', ''n3'']))))) demo_app ''n3'' + 1"
proof -
  let ?s = "scheduler_new (demo_cluster [''n1'', ''n2'', ''n3''])"
  let ?p = "\<lparr>pl_node_id = ''n1'', pl_resources = res_new 500 500 0, pl_ordinal = 0\<rparr>"
  have ok: "cache_ok (sch_cluster ?s)" by (simp add: cache_ok_def scheduler_new_def demo_cluster_def demo_node_def res_ok_def res_new_def)
  have few: "\<forall>m. node_replicas (sch_cluster ?s) demo_app m + 2 \<le> u32_max"
    by (auto simp: node_replicas_def get_node_def scheduler_new_def demo_cluster_def demo_node_def replicas_of_def split: option.splits if_splits)
  have p: "?p \<in> set (sd_placements (pd_decision (fst (schedule_fixed demo_app 2 demo_req [] None ?s))))"
    and m: "''n3'' \<in> set (filter_nodes demo_req (sch_cluster (snd (schedule_fixed demo_app 2 demo_req [] None ?s))))"
    by code_simp+
  from replicas_spread [OF ok few surjective_pairing p m] show ?thesis by simp
qed

text \<open>
  C34: the scheduler gives up only when nothing fits. Placements are numbered \<open>0, 1, 2, ...\<close>; if
  replicas are missing, the placed and missing ones add up to the replicas wanted, no node can
  take another one, and the reason given is the first hard constraint that no node meets.
\<close>

theorem unplaced_means_no_node:
  assumes "cache_ok (sch_cluster s)" and "\<forall>m. node_replicas (sch_cluster s) app m + n \<le> u32_max"
    and "schedule_fixed app n req preferred img s = (result, s')"
  shows "map pl_ordinal (sd_placements (pd_decision result)) = [0..<length (sd_placements (pd_decision result))] \<and>
    (case pd_unplaced result of
       None \<Rightarrow> length (sd_placements (pd_decision result)) = n
     | Some u \<Rightarrow>
         length (sd_placements (pd_decision result)) + up_missing u = n \<and>
         filter_nodes req (sch_cluster s') = [] \<and>
         reason_holds req (cache_nodes (sch_cluster s')) (up_reason u))"
proof -
  obtain ps missing c' where run: "schedule_loop app req preferred img n 0 (sch_cluster s) = (ps, missing, c')"
    by (rule prod_cases3)
  have eq: "sd_placements (pd_decision result) = ps" "pd_unplaced result = missing" "sch_cluster s' = c'"
    using assms(3) run by (auto simp: schedule_fixed_def)
  note shape = schedule_loop_shape [OF run]
  show ?thesis
  proof (cases missing)
    case None
    then show ?thesis using shape by (simp add: eq)
  next
    case (Some u)
    have "length (map pl_node_id ps) < n" using shape Some by auto
    then have "\<forall>m. m \<notin> set (filter_nodes req c')"
      using spread.greedy_run [OF assms(1,2) schedule_loop_greedy [OF run]] by (simp only: simp_thms)
    then have empty: "set (filter_nodes req c') = {}" by auto
    then have none: "\<forall>x \<in> set (cache_nodes c'). \<not> eligible req x" by (auto simp: filter_nodes_def)
    show ?thesis
      using shape Some empty unplaced_reason_holds [OF none] by (simp add: eq)
  qed
qed

theorem unplaced_means_no_node_witness:
  "pd_unplaced (fst (schedule_fixed demo_app 5 demo_req [] None (scheduler_new (demo_cluster [''n1'', ''n2''])))) =
     Some \<lparr>up_missing = 1, up_reason = NoRoom\<rparr> \<and>
   filter_nodes demo_req (sch_cluster (snd (schedule_fixed demo_app 5 demo_req [] None (scheduler_new (demo_cluster [''n1'', ''n2'']))))) = []"
proof -
  let ?s = "scheduler_new (demo_cluster [''n1'', ''n2''])"
  have ok: "cache_ok (sch_cluster ?s)" by (simp add: cache_ok_def scheduler_new_def demo_cluster_def demo_node_def res_ok_def res_new_def)
  have few: "\<forall>m. node_replicas (sch_cluster ?s) demo_app m + 5 \<le> u32_max"
    by (auto simp: node_replicas_def get_node_def scheduler_new_def demo_cluster_def demo_node_def replicas_of_def split: option.splits if_splits)
  have eval: "pd_unplaced (fst (schedule_fixed demo_app 5 demo_req [] None ?s)) = Some \<lparr>up_missing = 1, up_reason = NoRoom\<rparr>"
    by code_simp
  from unplaced_means_no_node [OF ok few surjective_pairing, of demo_req "[]" None] show ?thesis
    unfolding eval option.case by (simp only: simp_thms)
qed



text \<open>
  A committed instance is charged once. Reserving a committed placement tops the node up to
  the request only by what was not accounted for yet, and reserving it again, as every planning
  pass does, changes no node.
\<close>

lemma commitment_charged_once:
  assumes "cache_ok c" and "get_node c node = Some n" and "res_ok r"
  shows "(\<exists>n'. get_node (reserve_committed_instance node app ordinal r c) node = Some n' \<and>
      sn_allocated n' = res_saturating_add (sn_allocated n) (res_saturating_sub r
        (case map_of (cs_accounted c) (node, app, ordinal) of None \<Rightarrow> res_default | Some a \<Rightarrow> a))) \<and>
    get_node (reserve_committed_instance node app ordinal r (reserve_committed_instance node app ordinal r c)) =
      get_node (reserve_committed_instance node app ordinal r c)"
proof -
  let ?c1 = "reserve_committed_instance node app ordinal r c"
  let ?acc = "case map_of (cs_accounted c) (node, app, ordinal) of None \<Rightarrow> res_default | Some a \<Rightarrow> a"
  obtain n1 where n1: "get_node ?c1 node = Some n1" "sn_allocated n1 = res_saturating_add (sn_allocated n) (res_saturating_sub r ?acc)"
    using assms(2) by (auto simp: reserve_committed_get Let_def)
  have acc: "map_of (cs_accounted ?c1) (node, app, ordinal) = Some (res_saturating_add ?acc (res_saturating_sub r ?acc))"
    using reserve_committed_accounted [of c node] assms(2) by (simp add: Let_def)
  have "res_saturating_sub r (res_saturating_add ?acc (res_saturating_sub r ?acc)) = res_default"
    by (intro sub_of_fits topped_up assms(3))
  moreover have "res_saturating_add (sn_allocated n1) res_default = sn_allocated n1"
    unfolding n1(2) by (intro add_default res_add_ok)
  ultimately have "get_node (reserve_committed_instance node app ordinal r ?c1) node = get_node ?c1 node"
    using n1(1) by (simp add: reserve_committed_get [of node app ordinal r ?c1] acc)
  moreover have "get_node (reserve_committed_instance node app ordinal r ?c1) m = get_node ?c1 m" if "m \<noteq> node" for m
    using that by (simp add: reserve_committed_get [of node app ordinal r ?c1])
  ultimately have "get_node (reserve_committed_instance node app ordinal r ?c1) = get_node ?c1" by (metis ext)
  then show ?thesis using n1 by blast
qed

end
