(* ===== verification/Deploy.thy ===== *)
theory Deploy
  imports App_Spec Text
begin

text \<open>
  Deploys (\<open>src/src/meat/deploy_types.rs\<close>): the configuration of a rollout and its checks, the
  planner of a rolling replacement with the loop that drives it on a node
  (\<open>rolling_redeploy\<close> in \<open>src/src/bun/agent/deploy_worker.rs\<close>), the phases of a deploy with its
  history entry, and the record of the versions an app can roll back to. Durations are whole
  seconds. Starting, health-checking and retiring an instance and a cancellation are decided by the
  node's runtime: the loop takes their outcomes as arguments. The fingerprint hashes the serialised
  specification with a library digest, which is an argument as well.
\<close>

section \<open>Configuration\<close>

definition parse_duration :: "string \<Rightarrow> nat option" where
  "parse_duration text =
     (let s = trim text
      in case strip_suffix ''s'' s of
           Some secs \<Rightarrow> parse_u64 secs
         | None \<Rightarrow> case strip_suffix ''m'' s of
           Some mins \<Rightarrow> map_option (\<lambda>m. mul64 m 60) (parse_u64 mins)
         | None \<Rightarrow> case strip_suffix ''h'' s of
           Some hours \<Rightarrow> map_option (\<lambda>h. mul64 h 3600) (parse_u64 hours)
         | None \<Rightarrow> parse_u64 s)"

record deploy_config =
  dc_strategy :: deploy_strategy
  dc_max_surge :: nat
  dc_max_unavailable :: nat
  dc_drain_timeout :: nat
  dc_health_timeout :: nat
  dc_auto_rollback :: bool

definition deploy_config_default :: deploy_config where
  "deploy_config_default =
     \<lparr>dc_strategy = StrategyRolling, dc_max_surge = 1, dc_max_unavailable = 0, dc_drain_timeout = 30,
      dc_health_timeout = 60, dc_auto_rollback = True\<rparr>"

text \<open>A field of the specification, or its default.\<close>

definition from_spec :: "deploy_spec \<Rightarrow> deploy_config" where
  "from_spec spec =
     (let cfg = deploy_config_default
      in \<lparr>dc_strategy = (case ds_strategy spec of Some v \<Rightarrow> v | None \<Rightarrow> dc_strategy cfg),
          dc_max_surge = (case ds_max_surge spec of Some v \<Rightarrow> v | None \<Rightarrow> dc_max_surge cfg),
          dc_max_unavailable = (case ds_max_unavailable spec of Some v \<Rightarrow> v | None \<Rightarrow> dc_max_unavailable cfg),
          dc_drain_timeout = (case Option.bind (ds_drain_timeout spec) parse_duration of Some d \<Rightarrow> d | None \<Rightarrow> dc_drain_timeout cfg),
          dc_health_timeout = (case Option.bind (ds_health_timeout spec) parse_duration of Some d \<Rightarrow> d | None \<Rightarrow> dc_health_timeout cfg),
          dc_auto_rollback = (case ds_auto_rollback spec of Some v \<Rightarrow> v | None \<Rightarrow> dc_auto_rollback cfg)\<rparr>)"

datatype deploy_config_error = NotADuration string string | CannotProgress

definition dc_validate :: "deploy_config \<Rightarrow> deploy_config_error + unit" where
  "dc_validate cfg = (if dc_max_surge cfg = 0 \<and> dc_max_unavailable cfg = 0 then Inl CannotProgress else Inr ())"

fun check_durations :: "(string \<times> string option) list \<Rightarrow> deploy_config_error + unit" where
  "check_durations [] = Inr ()"
| "check_durations ((field, v) # rest) =
     (case v of
        Some s \<Rightarrow> if parse_duration s = None then Inl (NotADuration field s) else check_durations rest
      | None \<Rightarrow> check_durations rest)"

definition dc_parse :: "deploy_spec \<Rightarrow> deploy_config_error + deploy_config" where
  "dc_parse spec =
     (case check_durations [(''drain_timeout'', ds_drain_timeout spec), (''health_timeout'', ds_health_timeout spec)] of
        Inl e \<Rightarrow> Inl e
      | Inr _ \<Rightarrow>
          (case dc_validate (from_spec spec) of Inl e \<Rightarrow> Inl e | Inr _ \<Rightarrow> Inr (from_spec spec)))"

definition dc_for_app :: "app_spec \<Rightarrow> deploy_config" where
  "dc_for_app spec =
     (let cfg = (case as_deploy spec of Some d \<Rightarrow> from_spec d | None \<Rightarrow> deploy_config_default)
      in if list_ex (\<lambda>volume. vs_source volume = None) (as_volumes spec)
         then cfg\<lparr>dc_strategy := StrategyRolling, dc_max_surge := 0,
                  dc_max_unavailable := max (dc_max_unavailable cfg) 1\<rparr>
         else cfg)"

section \<open>The rolling planner\<close>

datatype rolling_step = StartNew | RetireOld | Wait | Done | Stuck

definition plan_rolling_step :: "nat \<Rightarrow> nat \<Rightarrow> nat \<Rightarrow> nat \<Rightarrow> nat \<Rightarrow> nat \<Rightarrow> rolling_step" where
  "plan_rolling_step target new_healthy new_pending old_remaining max_surge max_unavailable =
     (if new_healthy \<ge> target \<and> old_remaining = 0 then Done
      else
        let serving = add32 new_healthy old_remaining;
            total_count = add32 (add32 new_healthy new_pending) old_remaining;
            owed = add32 new_healthy new_pending < target
        in if owed \<and> total_count < sat_add32 target max_surge then StartNew
           else if old_remaining > 0 \<and> serving > target - max_unavailable then RetireOld
           else if new_pending > 0 then Wait
           else if owed \<or> old_remaining > 0 then Stuck else Done)"

text \<open>
  The loop of \<open>rolling_redeploy\<close>: \<open>ordinals\<close> and \<open>existing\<close> are the numbers of replicas to
  start and of instances to replace. An index past the end of either list panics. The visited
  pairs of started and retired instances are returned with the outcome.
\<close>

datatype roll_outcome = RollComplete | RollAborted | RollRetireFailed | RollPanic

record roll_env =
  re_cancelled :: "nat \<Rightarrow> bool"
  re_start_ok :: "nat \<Rightarrow> bool"
  re_retire_ok :: "nat \<Rightarrow> bool"

function rolling_redeploy ::
  "deploy_config \<Rightarrow> roll_env \<Rightarrow> nat \<Rightarrow> nat \<Rightarrow> nat \<Rightarrow> nat \<Rightarrow> roll_outcome \<times> (nat \<times> nat) list" where
  "rolling_redeploy cfg env ordinals existing healthy retired =
     (if re_cancelled env (healthy + retired) then (RollAborted, [(healthy, retired)])
      else
        case plan_rolling_step (as_u32 ordinals) (as_u32 healthy) 0 (as_u32 (existing - retired))
               (dc_max_surge cfg) (dc_max_unavailable cfg) of
          Done \<Rightarrow> (RollComplete, [(healthy, retired)])
        | Wait \<Rightarrow> (RollComplete, [(healthy, retired)])
        | Stuck \<Rightarrow> (RollAborted, [(healthy, retired)])
        | RetireOld \<Rightarrow>
            if existing \<le> retired then (RollPanic, [(healthy, retired)])
            else if \<not> re_retire_ok env retired then (RollRetireFailed, [(healthy, retired)])
            else let (out, states) = rolling_redeploy cfg env ordinals existing healthy (Suc retired)
                 in (out, (healthy, retired) # states)
        | StartNew \<Rightarrow>
            if ordinals \<le> healthy then (RollPanic, [(healthy, retired)])
            else if \<not> re_start_ok env healthy then (RollAborted, [(healthy, retired)])
            else let (out, states) = rolling_redeploy cfg env ordinals existing (Suc healthy) retired
                 in (out, (healthy, retired) # states))"
  by pat_completeness auto
termination
  by (relation "measure (\<lambda>(cfg, env, ordinals, existing, healthy, retired). (ordinals - healthy) + (existing - retired))")
    auto

declare rolling_redeploy.simps [simp del]

section \<open>Versions and rollback targets\<close>

text \<open>
  The version of a specification: its replica count, ordinals, owner and provenance set aside.
  \<open>digest\<close> is the hexadecimal SHA-256 of the serialised specification.
\<close>

definition version_of :: "app_spec \<Rightarrow> app_spec" where
  "version_of spec = spec\<lparr>as_replicas := Fixed 1, as_ordinals := None, as_owner := None, as_provenance := None\<rparr>"

definition rollout_fingerprint :: "(app_spec \<Rightarrow> string) \<Rightarrow> app_spec \<Rightarrow> string" where
  "rollout_fingerprint digest spec = digest (version_of spec)"

definition ROLLBACK_TARGETS_PER_APP :: nat where
  "ROLLBACK_TARGETS_PER_APP = 10"

record rollout_failure =
  rf_fingerprint :: string
  rf_node :: string
  rf_reason :: string
  rf_at_unix_ms :: nat

record app_rollouts =
  ar_released :: "app_spec list"
  ar_failed :: "rollout_failure option"

definition app_rollouts_default :: app_rollouts where
  "app_rollouts_default = \<lparr>ar_released = [], ar_failed = None\<rparr>"

definition last_released :: "app_rollouts \<Rightarrow> app_spec option" where
  "last_released r = (if ar_released r = [] then None else Some (last (ar_released r)))"

definition ar_release :: "(app_spec \<Rightarrow> string) \<Rightarrow> app_spec \<Rightarrow> app_rollouts \<Rightarrow> app_rollouts" where
  "ar_release digest spec r =
     (let fingerprint = rollout_fingerprint digest spec;
          kept = filter (\<lambda>released. rollout_fingerprint digest released \<noteq> fingerprint) (ar_released r);
          pushed = kept @ [spec];
          excess = length pushed - ROLLBACK_TARGETS_PER_APP
      in r\<lparr>ar_released := drop excess pushed\<rparr>)"

definition failed_for :: "app_rollouts \<Rightarrow> string \<Rightarrow> rollout_failure option" where
  "failed_for r fingerprint =
     (case ar_failed r of Some f \<Rightarrow> if rf_fingerprint f = fingerprint then Some f else None | None \<Rightarrow> None)"

definition released_rollback_target :: "(app_spec \<Rightarrow> string) \<Rightarrow> app_rollouts \<Rightarrow> app_spec \<Rightarrow> app_spec option" where
  "released_rollback_target digest rollouts current =
     (let version = rollout_fingerprint digest current
      in map_option (\<lambda>target. target\<lparr>as_replicas := as_replicas current, as_ordinals := None\<rparr>)
           (find (\<lambda>released. rollout_fingerprint digest released \<noteq> version) (rev (ar_released rollouts))))"

section \<open>Phases of a deploy\<close>

datatype deploy_phase =
    PhPending | PhRunningPreDeps | PhRolling | PhStartingGreen | PhHealthCheckingGreen | PhRoutingSwitching
  | PhHalted | PhReverting | PhRolledBack | PhCompleted | PhFailed | PhCancelled

definition phase_is_terminal :: "deploy_phase \<Rightarrow> bool" where
  "phase_is_terminal p \<longleftrightarrow> p \<in> {PhHalted, PhRolledBack, PhCompleted, PhFailed, PhCancelled}"

datatype deploy_event =
    EvStart | EvPreDepsComplete | EvPreDepsFailed | EvStepCompleted nat | EvStepFailed nat | EvAllStepsComplete
  | EvRollbackComplete | EvRollbackFailed | EvCancel | EvGreenStarting | EvGreenAllStarted | EvGreenAllHealthy
  | EvGreenHealthFailed

datatype step_phase = StPending | StStarting | StHealthChecking | StRoutingUpdate | StDraining | StCompleted | StFailed

definition step_is_terminal :: "step_phase \<Rightarrow> bool" where
  "step_is_terminal p \<longleftrightarrow> p = StCompleted \<or> p = StFailed"

record rollout_step =
  rs_node_id :: node_id
  rs_old_instance :: "string option"
  rs_new_instance :: "string option"
  rs_phase :: step_phase

record deploy_request =
  rq_app_id :: app_id
  rq_new_image :: string
  rq_previous_image :: "string option"
  rq_config :: deploy_config
  rq_pre_deploy_jobs :: "string list"

record deploy_state =
  dp_id :: nat
  dp_request :: deploy_request
  dp_phase :: deploy_phase
  dp_steps :: "rollout_step list"
  dp_created_at :: nat
  dp_phase_changed_at :: nat
  dp_current_step :: nat

datatype deploy_error =
    InvalidTransition deploy_phase deploy_event
  | AlreadyActive app_id
  | HealthTimeout string
  | StartFailed string
  | RoutingFailed string
  | DrainFailed string
  | DependencyFailed string
  | DeployCancelled

definition deploy_new :: "nat \<Rightarrow> deploy_request \<Rightarrow> nat \<Rightarrow> deploy_state" where
  "deploy_new deploy_id request now =
     \<lparr>dp_id = deploy_id, dp_request = request, dp_phase = PhPending, dp_steps = [], dp_created_at = now,
      dp_phase_changed_at = now, dp_current_step = 0\<rparr>"

definition next_phase :: "deploy_request \<Rightarrow> deploy_phase \<Rightarrow> deploy_event \<Rightarrow> deploy_phase option" where
  "next_phase request phase event =
     (let failed = (if dc_auto_rollback (rq_config request) then PhReverting else PhHalted)
      in case (phase, event) of
           (PhPending, EvStart) \<Rightarrow> Some (if rq_pre_deploy_jobs request = [] then PhRolling else PhRunningPreDeps)
         | (PhPending, EvGreenStarting) \<Rightarrow> Some PhStartingGreen
         | (PhPending, EvCancel) \<Rightarrow> Some PhCancelled
         | (PhRunningPreDeps, EvPreDepsComplete) \<Rightarrow> Some PhRolling
         | (PhRunningPreDeps, EvPreDepsFailed) \<Rightarrow> Some PhFailed
         | (PhRunningPreDeps, EvCancel) \<Rightarrow> Some PhCancelled
         | (PhRolling, EvStepCompleted _) \<Rightarrow> Some PhRolling
         | (PhRolling, EvAllStepsComplete) \<Rightarrow> Some PhCompleted
         | (PhRolling, EvStepFailed _) \<Rightarrow> Some failed
         | (PhRolling, EvCancel) \<Rightarrow> Some PhCancelled
         | (PhStartingGreen, EvGreenAllStarted) \<Rightarrow> Some PhHealthCheckingGreen
         | (PhStartingGreen, EvGreenHealthFailed) \<Rightarrow> Some failed
         | (PhStartingGreen, EvCancel) \<Rightarrow> Some PhCancelled
         | (PhHealthCheckingGreen, EvGreenAllHealthy) \<Rightarrow> Some PhRoutingSwitching
         | (PhHealthCheckingGreen, EvGreenHealthFailed) \<Rightarrow> Some failed
         | (PhHealthCheckingGreen, EvCancel) \<Rightarrow> Some PhCancelled
         | (PhRoutingSwitching, EvAllStepsComplete) \<Rightarrow> Some PhCompleted
         | (PhRoutingSwitching, EvCancel) \<Rightarrow> Some PhCancelled
         | (PhReverting, EvRollbackComplete) \<Rightarrow> Some PhRolledBack
         | (PhReverting, EvRollbackFailed) \<Rightarrow> Some PhFailed
         | _ \<Rightarrow> None)"

definition transition :: "deploy_event \<Rightarrow> nat \<Rightarrow> deploy_state \<Rightarrow> deploy_error + deploy_state" where
  "transition event now s =
     (case next_phase (dp_request s) (dp_phase s) event of
        None \<Rightarrow> Inl (InvalidTransition (dp_phase s) event)
      | Some p \<Rightarrow> Inr (s\<lparr>dp_phase := p, dp_phase_changed_at := now\<rparr>))"

datatype deploy_result = ResCompleted | ResRolledBack | ResHalted | ResFailed | ResCancelled

record deploy_history_entry =
  dh_id :: nat
  dh_app_id :: app_id
  dh_image :: string
  dh_result :: deploy_result
  dh_created_at :: nat
  dh_completed_at :: nat
  dh_steps_completed :: nat
  dh_steps_total :: nat
  dh_spec :: "app_spec option"

definition history_from_state :: "deploy_state \<Rightarrow> deploy_history_entry" where
  "history_from_state s =
     \<lparr>dh_id = dp_id s, dh_app_id = rq_app_id (dp_request s), dh_image = rq_new_image (dp_request s),
      dh_result =
        (case dp_phase s of
           PhCompleted \<Rightarrow> ResCompleted | PhRolledBack \<Rightarrow> ResRolledBack | PhHalted \<Rightarrow> ResHalted
         | PhFailed \<Rightarrow> ResFailed | PhCancelled \<Rightarrow> ResCancelled | _ \<Rightarrow> ResFailed),
      dh_created_at = dp_created_at s, dh_completed_at = dp_phase_changed_at s,
      dh_steps_completed = length (filter (\<lambda>st. rs_phase st = StCompleted) (dp_steps s)),
      dh_steps_total = length (dp_steps s), dh_spec = None\<rparr>"


section \<open>The planner keeps the bounds\<close>

text \<open>Without pending instances and below the width, the planner's sums are exact.\<close>

lemma plan_exact:
  assumes "h + old \<le> u32_max"
  shows "plan_rolling_step target h 0 old surge unavail =
     (if h \<ge> target \<and> old = 0 then Done
      else if h < target \<and> h + old < min (target + surge) u32_max then StartNew
      else if old > 0 \<and> h + old > target - unavail then RetireOld
      else if h < target \<or> old > 0 then Stuck else Done)"
proof -
  have "add32 h 0 = h" "add32 h old = h + old" using assms by (auto intro: add32_exact [THEN trans])
  then show ?thesis by (simp add: plan_rolling_step_def sat_add32_def Let_def)
qed

lemma plan_not_stuck:
  assumes "h + old \<le> u32_max" and "target + surge \<le> u32_max" and "0 < surge \<or> 0 < unavail"
  shows "plan_rolling_step target h 0 old surge unavail \<noteq> Stuck"
  unfolding plan_exact [OF assms(1)] using assms(2,3) by auto

text \<open>The arguments of a rollout that no width limits.\<close>

definition roll_fits :: "nat \<Rightarrow> nat \<Rightarrow> bool" where
  "roll_fits ordinals existing \<longleftrightarrow> ordinals + existing \<le> u32_max"

lemma roll_plan:
  assumes "roll_fits ordinals existing" and "healthy \<le> ordinals" and "retired \<le> existing"
  shows "plan_rolling_step (as_u32 ordinals) (as_u32 healthy) 0 (as_u32 (existing - retired)) surge unavail =
    plan_rolling_step ordinals healthy 0 (existing - retired) surge unavail"
  using assms by (simp add: roll_fits_def as_u32_exact)

lemma roll_step_cases:
  assumes "roll_fits ordinals existing" and "healthy \<le> ordinals" and "retired \<le> existing"
    and step: "plan_rolling_step ordinals healthy 0 (existing - retired) surge unavail = st"
  shows "st = StartNew \<Longrightarrow> healthy < ordinals \<and> healthy + (existing - retired) < ordinals + surge"
    and "st = RetireOld \<Longrightarrow> retired < existing \<and> healthy + (existing - retired) > ordinals - unavail"
    and "st = Done \<Longrightarrow> healthy = ordinals \<and> retired = existing"
    and "st \<noteq> Wait"
proof -
  have fit: "healthy + (existing - retired) \<le> u32_max" using assms by (simp add: roll_fits_def)
  note plan = step [unfolded plan_exact [OF fit], symmetric]
  show "healthy < ordinals \<and> healthy + (existing - retired) < ordinals + surge" if "st = StartNew"
    using plan that by (auto split: if_splits)
  show "retired < existing \<and> healthy + (existing - retired) > ordinals - unavail" if "st = RetireOld"
    using plan that by (auto split: if_splits)
  show "healthy = ordinals \<and> retired = existing" if "st = Done"
    using plan that assms(2,3) by (auto split: if_splits)
  show "st \<noteq> Wait" using plan by auto
qed

text \<open>The capacity bounds of a state: never above the surge, never below the budget.\<close>

definition roll_bounds :: "deploy_config \<Rightarrow> nat \<Rightarrow> nat \<Rightarrow> nat \<times> nat \<Rightarrow> bool" where
  "roll_bounds cfg ordinals existing = (\<lambda>(healthy, retired).
     healthy \<le> ordinals \<and> retired \<le> existing \<and>
     healthy + (existing - retired) \<le> max existing (ordinals + dc_max_surge cfg) \<and>
     min existing (ordinals - dc_max_unavailable cfg) \<le> healthy + (existing - retired))"

lemma roll_bounds_start:
  assumes "roll_bounds cfg ordinals existing (healthy, retired)" "healthy < ordinals"
    "healthy + (existing - retired) < ordinals + dc_max_surge cfg"
  shows "roll_bounds cfg ordinals existing (Suc healthy, retired)"
  using assms by (auto simp: roll_bounds_def)

lemma roll_bounds_retire:
  assumes "roll_bounds cfg ordinals existing (healthy, retired)" "retired < existing"
    "ordinals - dc_max_unavailable cfg < healthy + (existing - retired)"
  shows "roll_bounds cfg ordinals existing (healthy, Suc retired)"
proof -
  have "Suc (existing - Suc retired) = existing - retired" using assms(2) by simp
  then show ?thesis using assms unfolding roll_bounds_def prod.case by linarith
qed

lemma roll_bounds_le: "roll_bounds cfg ordinals existing (healthy, retired) \<Longrightarrow> healthy \<le> ordinals \<and> retired \<le> existing"
  by (simp add: roll_bounds_def)

lemma rolling_redeploy_bounds:
  assumes "roll_fits ordinals existing"
  shows "roll_bounds cfg ordinals existing (healthy, retired) \<Longrightarrow>
    rolling_redeploy cfg env ordinals existing healthy retired = (out, states) \<Longrightarrow>
    out \<noteq> RollPanic \<and> list_all (roll_bounds cfg ordinals existing) states"
  using assms
proof (induction cfg env ordinals existing healthy retired arbitrary: out states rule: rolling_redeploy.induct)
  case (1 cfg env ordinals existing healthy retired)
  note bounds = "1.prems"(1) and run = "1.prems"(2) and fits = "1.prems"(3)
  have le: "healthy \<le> ordinals" "retired \<le> existing" using roll_bounds_le [OF bounds] by auto
  note plan = roll_plan [OF fits le]
  let ?step = "plan_rolling_step ordinals healthy 0 (existing - retired) (dc_max_surge cfg) (dc_max_unavailable cfg)"
  note cases = roll_step_cases [OF fits le refl, of "dc_max_surge cfg" "dc_max_unavailable cfg"]
  show ?case
  proof (cases "re_cancelled env (healthy + retired)")
    case True
    then show ?thesis using run bounds by (auto simp: rolling_redeploy.simps [of cfg env ordinals existing])
  next
    case no: False
    show ?thesis
    proof (cases ?step)
      case StartNew
      with cases(1) have c: "healthy < ordinals" "healthy + (existing - retired) < ordinals + dc_max_surge cfg" by auto
      note next_ok = roll_bounds_start [OF bounds c]
      obtain out' states' where rest: "rolling_redeploy cfg env ordinals existing (Suc healthy) retired = (out', states')"
        by fastforce
      show ?thesis
        using run no StartNew c rest bounds "1.IH"(1) [OF no, unfolded plan, OF StartNew _ _ next_ok rest fits]
        by (auto simp: rolling_redeploy.simps [of cfg env ordinals existing healthy retired] plan split: if_splits)
    next
      case RetireOld
      with cases(2) have c: "retired < existing" "ordinals - dc_max_unavailable cfg < healthy + (existing - retired)" by auto
      note next_ok = roll_bounds_retire [OF bounds c]
      obtain out' states' where rest: "rolling_redeploy cfg env ordinals existing healthy (Suc retired) = (out', states')"
        by fastforce
      show ?thesis
        using run no RetireOld c rest bounds "1.IH"(2) [OF no, unfolded plan, OF RetireOld _ _ next_ok rest fits]
        by (auto simp: rolling_redeploy.simps [of cfg env ordinals existing healthy retired] plan split: if_splits)
    qed (use run no bounds cases(4) in \<open>auto simp: rolling_redeploy.simps [of cfg env ordinals existing healthy retired] plan\<close>)
  qed
qed

text \<open>An environment in which nothing fails.\<close>

definition roll_env_ok :: "roll_env \<Rightarrow> bool" where
  "roll_env_ok env \<longleftrightarrow> (\<forall>n. \<not> re_cancelled env n \<and> re_start_ok env n \<and> re_retire_ok env n)"

lemma rolling_redeploy_completes:
  assumes "roll_fits ordinals existing" and "roll_env_ok env" and "dc_validate cfg = Inr ()"
    and "ordinals + dc_max_surge cfg \<le> u32_max"
  shows "roll_bounds cfg ordinals existing (healthy, retired) \<Longrightarrow>
    \<exists>states. rolling_redeploy cfg env ordinals existing healthy retired = (RollComplete, states @ [(ordinals, existing)])"
  using assms
proof (induction cfg env ordinals existing healthy retired rule: rolling_redeploy.induct)
  case (1 cfg env ordinals existing healthy retired)
  note bounds = "1.prems"(1) and fits = "1.prems"(2) and env = "1.prems"(3) and valid = "1.prems"(4,5)
  have le: "healthy \<le> ordinals" "retired \<le> existing" using roll_bounds_le [OF bounds] by auto
  note plan = roll_plan [OF fits le] and no = env [unfolded roll_env_ok_def, rule_format]
  let ?step = "plan_rolling_step ordinals healthy 0 (existing - retired) (dc_max_surge cfg) (dc_max_unavailable cfg)"
  note cases = roll_step_cases [OF fits le refl, of "dc_max_surge cfg" "dc_max_unavailable cfg"]
  have "?step \<noteq> Stuck"
    using fits le valid by (intro plan_not_stuck) (auto simp: roll_fits_def dc_validate_def split: if_splits)
  then consider "?step = StartNew" | "?step = RetireOld" | "?step = Done" using cases(4) by (cases ?step) auto
  then show ?case
  proof cases
    case StartNew: 1
    with cases(1) have c: "healthy < ordinals" "healthy + (existing - retired) < ordinals + dc_max_surge cfg" by auto
    obtain states where "rolling_redeploy cfg env ordinals existing (Suc healthy) retired = (RollComplete, states @ [(ordinals, existing)])"
      using "1.IH"(1) [unfolded plan, OF _ StartNew _ _ roll_bounds_start [OF bounds c] fits env valid] no c by fastforce
    then have "rolling_redeploy cfg env ordinals existing healthy retired = (RollComplete, ((healthy, retired) # states) @ [(ordinals, existing)])"
      using StartNew c no by (simp add: rolling_redeploy.simps [of cfg env ordinals existing healthy retired] plan)
    then show ?thesis by blast
  next
    case RetireOld: 2
    with cases(2) have c: "retired < existing" "ordinals - dc_max_unavailable cfg < healthy + (existing - retired)" by auto
    obtain states where "rolling_redeploy cfg env ordinals existing healthy (Suc retired) = (RollComplete, states @ [(ordinals, existing)])"
      using "1.IH"(2) [unfolded plan, OF _ RetireOld _ _ roll_bounds_retire [OF bounds c] fits env valid] no c by fastforce
    then have "rolling_redeploy cfg env ordinals existing healthy retired = (RollComplete, ((healthy, retired) # states) @ [(ordinals, existing)])"
      using RetireOld c no by (simp add: rolling_redeploy.simps [of cfg env ordinals existing healthy retired] plan)
    then show ?thesis by blast
  next
    case 3
    moreover have "healthy = ordinals" "retired = existing" using cases(3) 3 by auto
    ultimately have "rolling_redeploy cfg env ordinals existing healthy retired = (RollComplete, [] @ [(ordinals, existing)])"
      using no plan by (subst rolling_redeploy.simps) simp
    then show ?thesis by blast
  qed
qed

lemma roll_bounds_init: "roll_bounds cfg ordinals existing (0, 0)"
  by (simp add: roll_bounds_def)


definition demo_env :: roll_env where
  "demo_env = \<lparr>re_cancelled = \<lambda>_. False, re_start_ok = \<lambda>_. True, re_retire_ok = \<lambda>_. True\<rparr>"


text \<open>
  C21: A rolling redeploy completes. With bounds that \<open>validate\<close> accepts, a target and surge below
  the width, and instances that start healthy and retire, the loop ends with every replacement
  started and every old instance retired: it is never stuck.
\<close>

theorem rollout_completes:
  assumes "dc_validate cfg = Inr ()" and "ordinals + existing \<le> u32_max" and "ordinals + dc_max_surge cfg \<le> u32_max"
    and "\<forall>n. \<not> re_cancelled env n \<and> re_start_ok env n \<and> re_retire_ok env n"
  shows "\<exists>states. rolling_redeploy cfg env ordinals existing 0 0 = (RollComplete, states @ [(ordinals, existing)])"
  using rolling_redeploy_completes [OF _ _ assms(1,3) roll_bounds_init] assms(2,4)
  by (simp add: roll_fits_def roll_env_ok_def)

theorem rollout_completes_witness:
  "\<exists>states. rolling_redeploy deploy_config_default demo_env 3 2 0 0 = (RollComplete, states @ [(3, 2)])"
proof -
  have "dc_validate deploy_config_default = Inr ()" by code_simp
  moreover have "\<forall>n. \<not> re_cancelled demo_env n \<and> re_start_ok demo_env n \<and> re_retire_ok demo_env n"
    by (simp add: demo_env_def)
  ultimately show ?thesis
    using rollout_completes [of deploy_config_default 3 2 demo_env] by (simp add: deploy_config_default_def)
qed

section \<open>Phases\<close>

definition phase_rank :: "deploy_phase \<Rightarrow> nat" where
  "phase_rank p =
     (case p of PhPending \<Rightarrow> 4 | PhRunningPreDeps \<Rightarrow> 3 | PhStartingGreen \<Rightarrow> 3 | PhRolling \<Rightarrow> 2 | PhHealthCheckingGreen \<Rightarrow> 2
      | PhRoutingSwitching \<Rightarrow> 1 | PhReverting \<Rightarrow> 1 | _ \<Rightarrow> 0)"

text \<open>An accepted event either reports one more finished step or moves to a later phase.\<close>

lemma next_phase_rank:
  assumes "next_phase request phase event = Some p"
  shows "\<not> phase_is_terminal phase" and "(\<exists>i. event = EvStepCompleted i) \<and> p = phase \<or> phase_rank p < phase_rank phase"
  using assms
  by (cases phase; cases event; simp add: next_phase_def phase_is_terminal_def phase_rank_def Let_def split: if_splits; fail)+

fun run_events :: "(deploy_event \<times> nat) list \<Rightarrow> deploy_state \<Rightarrow> deploy_error + deploy_state" where
  "run_events [] s = Inr s"
| "run_events ((event, now) # rest) s =
     (case transition event now s of Inl e \<Rightarrow> Inl e | Inr s' \<Rightarrow> run_events rest s')"

definition moves :: "(deploy_event \<times> nat) list \<Rightarrow> nat" where
  "moves events = length (filter (\<lambda>(event, _). \<not> (case event of EvStepCompleted _ \<Rightarrow> True | _ \<Rightarrow> False)) events)"

lemma run_events_rank:
  "run_events events s = Inr s' \<Longrightarrow> moves events + phase_rank (dp_phase s') \<le> phase_rank (dp_phase s)"
proof (induction events s rule: run_events.induct)
  case (2 event now rest s)
  then obtain p where p: "next_phase (dp_request s) (dp_phase s) event = Some p"
    and rest: "run_events rest (s\<lparr>dp_phase := p, dp_phase_changed_at := now\<rparr>) = Inr s'"
    by (auto simp: transition_def split: option.splits)
  have "moves rest + phase_rank (dp_phase s') \<le> phase_rank p"
    using "2.IH" [of "s\<lparr>dp_phase := p, dp_phase_changed_at := now\<rparr>"] p rest by (simp add: transition_def)
  then show ?case using next_phase_rank(2) [OF p] by (auto simp: moves_def)
qed (simp add: moves_def)

text \<open>
  C24: A deploy ends. From the pending phase, the phase changes at most four times whatever events
  arrive (a finished rollout step keeps the phase), a terminal phase refuses every event, and every
  phase that is not terminal accepts some event that leads on to a later phase.
\<close>

theorem deploy_terminates:
  "(run_events events (deploy_new deploy_id request now) = Inr s \<longrightarrow> moves events \<le> 4) \<and>
   (phase_is_terminal (dp_phase t) \<longrightarrow> transition event now t = Inl (InvalidTransition (dp_phase t) event)) \<and>
   (\<not> phase_is_terminal (dp_phase t) \<longrightarrow>
      (\<exists>event t'. transition event now t = Inr t' \<and> phase_rank (dp_phase t') < phase_rank (dp_phase t)))"
proof (intro conjI impI)
  show "moves events \<le> 4" if "run_events events (deploy_new deploy_id request now) = Inr s"
    using run_events_rank [OF that] by (simp add: deploy_new_def phase_rank_def)
  show "transition event now t = Inl (InvalidTransition (dp_phase t) event)" if "phase_is_terminal (dp_phase t)"
    using that next_phase_rank(1) [of "dp_request t" "dp_phase t" event]
    by (cases "next_phase (dp_request t) (dp_phase t) event") (auto simp: transition_def)
  show "\<exists>event t'. transition event now t = Inr t' \<and> phase_rank (dp_phase t') < phase_rank (dp_phase t)"
    if live: "\<not> phase_is_terminal (dp_phase t)"
  proof -
    have "\<exists>event p. next_phase (dp_request t) (dp_phase t) event = Some p \<and> phase_rank p < phase_rank (dp_phase t)"
    proof (cases "dp_phase t = PhReverting")
      case True
      then show ?thesis by (intro exI [of _ EvRollbackComplete] exI [of _ PhRolledBack]) (simp add: next_phase_def phase_rank_def)
    next
      case False
      then show ?thesis using live
        by (intro exI [of _ EvCancel] exI [of _ PhCancelled])
          (cases "dp_phase t"; simp add: next_phase_def phase_rank_def phase_is_terminal_def)
    qed
    then obtain event p where "next_phase (dp_request t) (dp_phase t) event = Some p" "phase_rank p < phase_rank (dp_phase t)"
      by blast
    then have "transition event now t = Inr (t\<lparr>dp_phase := p, dp_phase_changed_at := now\<rparr>) \<and>
        phase_rank (dp_phase (t\<lparr>dp_phase := p, dp_phase_changed_at := now\<rparr>)) < phase_rank (dp_phase t)"
      by (simp add: transition_def)
    then show ?thesis by blast
  qed
qed

definition demo_request :: deploy_request where
  "demo_request = \<lparr>rq_app_id = \<lparr>ai_name = ''web'', ai_namespace = ''default''\<rparr>, rq_new_image = ''web:v2'',
     rq_previous_image = Some ''web:v1'', rq_config = deploy_config_default, rq_pre_deploy_jobs = [''migrate'']\<rparr>"

theorem deploy_terminates_witness:
  "moves [(EvStart, 1), (EvPreDepsComplete, 2), (EvStepCompleted 0, 3), (EvStepFailed 1, 4), (EvRollbackComplete, 5)] \<le> 4 \<and>
   (\<exists>s. run_events [(EvStart, 1), (EvPreDepsComplete, 2), (EvStepCompleted 0, 3), (EvStepFailed 1, 4), (EvRollbackComplete, 5)]
      (deploy_new 7 demo_request 0) = Inr s \<and> dp_phase s = PhRolledBack \<and>
      transition EvCancel 6 s = Inl (InvalidTransition PhRolledBack EvCancel))"
proof -
  let ?es = "[(EvStart, 1), (EvPreDepsComplete, 2), (EvStepCompleted 0, 3), (EvStepFailed 1, 4), (EvRollbackComplete, 5)]"
  let ?s = "(deploy_new 7 demo_request 0)\<lparr>dp_phase := PhRolledBack, dp_phase_changed_at := 5\<rparr>"
  have run: "run_events ?es (deploy_new 7 demo_request 0) = Inr ?s" by code_simp
  have "phase_is_terminal (dp_phase ?s)" by (simp add: phase_is_terminal_def)
  then show ?thesis
    using run deploy_terminates [of ?es 7 demo_request 0 ?s ?s EvCancel]
      deploy_terminates [of ?es 7 demo_request 6 ?s ?s EvCancel] by simp
qed

end
