(* ===== verification/Reports.thy ===== *)
theory Reports
  imports App_Spec
begin

text \<open>
  The reporting tree (\<open>src/src/reporting/types.rs\<close>, \<open>src/src/reporting/aggregator.rs\<close>): what a
  worker reports and how a council member keeps and publishes the latest reports. The aggregator's
  event loop is a handler per message and per timer tick; the leadership epoch and the membership
  are watched values that change on their own, before the loop is woken to publish again. A handler
  reads the clock once: \<open>now\<close> is a monotonic instant in seconds.
\<close>

section \<open>Reports\<close>

datatype report_health_status = Healthy | Unhealthy nat | Starting | Unknown

record runtime_execution =
  rx_instance_id :: string
  rx_generation :: string

record running_app =
  ra_execution :: "runtime_execution option"
  ra_app_name :: string
  ra_namespace :: string
  ra_instance_id :: nat
  ra_image :: string
  ra_port :: "nat option"
  ra_health_status :: report_health_status
  ra_uptime :: nat
  ra_cpu_millicores :: nat
  ra_memory_mb :: nat

record rollout_report =
  rr_app_name :: string
  rr_namespace :: string
  rr_fingerprint :: string

record cached_spec =
  cp_app_name :: string
  cp_spec_hash :: string
  cp_spec :: app_spec

record resource_usage =
  ru_cpu_used_millicores :: nat
  ru_memory_used_mb :: nat
  ru_disk_used_mb :: nat
  ru_gpu_used :: nat
  ru_allocated_ports :: "nat list"
  ru_cpu_total_millicores :: nat
  ru_memory_total_mb :: nat

record job_reservations =
  jr_cpu_millicores :: nat
  jr_memory_bytes :: nat

record capacity_refusal =
  cr_app_name :: string
  cr_namespace :: string
  cr_ordinals :: "nat list"

datatype event_kind =
    ContainerStart | ContainerStop | ContainerCrash | HealthCheckFail | HealthCheckRecover | ImagePull | SpecUpdate | Restart

record node_event =
  ne_timestamp :: nat
  ne_kind :: event_kind
  ne_detail :: string

record state_report =
  sr_node_id :: node_id
  sr_timestamp :: nat
  sr_running_apps :: "running_app list"
  sr_cached_specs :: "cached_spec list"
  sr_rollouts :: "rollout_report list"
  sr_resource_usage :: resource_usage
  sr_job_reservations :: job_reservations
  sr_capacity_refusals :: "capacity_refusal list"
  sr_event_log :: "node_event list"
  sr_has_buildah :: bool

datatype egress_enforcement_status = NotRequested | Enforced | Unenforced

record egress_enforcement_evidence =
  ee_app_name :: string
  ee_namespace :: string
  ee_instance_id :: nat
  ee_status :: egress_enforcement_status

record node_capability_report =
  cap_node_id :: node_id
  cap_capabilities :: node_capabilities
  cap_egress_enforcement :: "egress_enforcement_evidence list"
  cap_egress_degraded :: bool
  cap_egress_affected_workloads :: "(string \<times> string) list"

datatype subsystem_state = SubStarting | SubReady | SubDegraded | SubStopped

record subsystem_evidence =
  se_name :: string
  se_critical :: bool
  se_state :: subsystem_state
  se_state_since_unix_ms :: nat
  se_last_error :: "string option"
  se_last_error_unix_ms :: "nat option"
  se_restart_count :: nat

record node_readiness_report =
  nr_node_id :: node_id
  nr_ready :: bool
  nr_observed_at_unix_ms :: nat
  nr_subsystems :: "subsystem_evidence list"

section \<open>The published view\<close>

record aggregated_state =
  ag_leadership_epoch :: "nat option"
  ag_receive_deadlines :: "(node_id \<times> nat) list"
  ag_reports :: "(node_id \<times> state_report) list"
  ag_stale_nodes :: "node_id list"
  ag_stale_since :: "(node_id \<times> nat) list"
  ag_capabilities :: "(node_id \<times> node_capability_report) list"
  ag_readiness :: "(node_id \<times> node_readiness_report) list"

definition aggregated_default :: aggregated_state where
  "aggregated_default =
     \<lparr>ag_leadership_epoch = None, ag_receive_deadlines = [], ag_reports = [], ag_stale_nodes = [], ag_stale_since = [],
      ag_capabilities = [], ag_readiness = []\<rparr>"

definition report_is_fresh :: "aggregated_state \<Rightarrow> node_id \<Rightarrow> nat \<Rightarrow> bool" where
  "report_is_fresh a node now \<longleftrightarrow>
     map_of (ag_reports a) node \<noteq> None \<and> node \<notin> set (ag_stale_nodes a) \<and>
     (case map_of (ag_receive_deadlines a) node of None \<Rightarrow> False | Some deadline \<Rightarrow> deadline > now)"

section \<open>The aggregator\<close>

definition EVICTION_MULTIPLIER :: nat where
  "EVICTION_MULTIPLIER = 3"

text \<open>A stored value with its receive time and epoch: \<open>ReportEntry\<close> and its two siblings.\<close>

record 'a lease_entry =
  le_report :: 'a
  le_received_at :: nat
  le_epoch :: nat

record aggregator =
  agr_entries :: "(node_id \<times> state_report lease_entry) list"
  agr_freshness :: "(node_id \<times> nat) list"
  agr_freshness_epoch :: nat
  agr_capability_entries :: "(node_id \<times> node_capability_report lease_entry) list"
  agr_readiness_entries :: "(node_id \<times> node_readiness_report lease_entry) list"
  agr_stale_timeout :: nat
  agr_epoch :: "nat option"
  agr_members :: "node_id list option"
  agr_published :: aggregated_state

definition current_epoch :: "aggregator \<Rightarrow> nat" where
  "current_epoch s = (case agr_epoch s of None \<Rightarrow> 0 | Some e \<Rightarrow> e)"

definition aggregator_new :: "nat \<Rightarrow> nat option \<Rightarrow> node_id list option \<Rightarrow> aggregator" where
  "aggregator_new stale_timeout epoch members =
     \<lparr>agr_entries = [], agr_freshness = [], agr_freshness_epoch = (case epoch of None \<Rightarrow> 0 | Some e \<Rightarrow> e),
      agr_capability_entries = [], agr_readiness_entries = [], agr_stale_timeout = stale_timeout, agr_epoch = epoch,
      agr_members = members, agr_published = aggregated_default\<rparr>"

definition report_identity_ok :: "node_id option \<Rightarrow> node_id \<Rightarrow> bool" where
  "report_identity_ok peer claimed = (case peer of Some authenticated \<Rightarrow> authenticated = claimed | None \<Rightarrow> True)"

definition refresh_report_deadlines :: "nat \<Rightarrow> aggregator \<Rightarrow> aggregator" where
  "refresh_report_deadlines now s =
     (let s1 = (if current_epoch s \<noteq> agr_freshness_epoch s
                then s\<lparr>agr_freshness := [], agr_freshness_epoch := current_epoch s\<rparr> else s)
      in case agr_members s1 of
           None \<Rightarrow> s1
         | Some members \<Rightarrow>
             if members = [] then s1
             else s1\<lparr>agr_freshness :=
                 fold (\<lambda>m f. if map_of f m = None then AList.update m now f else f) members
                   (filter (\<lambda>(node, _). node \<in> set members) (agr_freshness s1))\<rparr>)"

definition store_report :: "nat \<Rightarrow> state_report \<Rightarrow> aggregator \<Rightarrow> aggregator" where
  "store_report now report s =
     (let s1 = refresh_report_deadlines now s
      in s1\<lparr>agr_freshness := AList.update (sr_node_id report) now (agr_freshness s1),
            agr_entries := AList.update (sr_node_id report)
              \<lparr>le_report = report, le_received_at = now, le_epoch = current_epoch s1\<rparr> (agr_entries s1)\<rparr>)"

definition store_capability :: "nat \<Rightarrow> node_capability_report \<Rightarrow> aggregator \<Rightarrow> aggregator" where
  "store_capability now report s =
     s\<lparr>agr_capability_entries := AList.update (cap_node_id report)
         \<lparr>le_report = report, le_received_at = now, le_epoch = current_epoch s\<rparr> (agr_capability_entries s)\<rparr>"

definition store_readiness :: "nat \<Rightarrow> node_readiness_report \<Rightarrow> aggregator \<Rightarrow> aggregator" where
  "store_readiness now report s =
     s\<lparr>agr_readiness_entries := AList.update (nr_node_id report)
         \<lparr>le_report = report, le_received_at = now, le_epoch = current_epoch s\<rparr> (agr_readiness_entries s)\<rparr>"

definition keep_recent :: "nat \<Rightarrow> nat \<Rightarrow> (node_id \<times> 'a lease_entry) list \<Rightarrow> (node_id \<times> 'a lease_entry) list" where
  "keep_recent now bound = filter (\<lambda>(_, e). now - le_received_at e \<le> bound)"

definition evict_expired :: "nat \<Rightarrow> nat \<Rightarrow> aggregator \<Rightarrow> aggregator" where
  "evict_expired now stale_timeout s =
     (let bound = stale_timeout * EVICTION_MULTIPLIER
      in s\<lparr>agr_entries := keep_recent now bound (agr_entries s),
           agr_capability_entries := keep_recent now bound (agr_capability_entries s),
           agr_readiness_entries := keep_recent now bound (agr_readiness_entries s)\<rparr>)"

definition keep_active :: "node_id list \<Rightarrow> (node_id \<times> 'a) list \<Rightarrow> (node_id \<times> 'a) list" where
  "keep_active members = filter (\<lambda>(node, _). node \<in> set members)"

definition evict_departed :: "aggregator \<Rightarrow> bool \<times> aggregator" where
  "evict_departed s =
     (case agr_members s of
        None \<Rightarrow> (False, s)
      | Some members \<Rightarrow>
          if members = [] then (False, s)
          else
            let s' = s\<lparr>agr_entries := keep_active members (agr_entries s),
                       agr_capability_entries := keep_active members (agr_capability_entries s),
                       agr_readiness_entries := keep_active members (agr_readiness_entries s)\<rparr>
            in (length (agr_entries s') \<noteq> length (agr_entries s) \<or>
                length (agr_capability_entries s') \<noteq> length (agr_capability_entries s) \<or>
                length (agr_readiness_entries s') \<noteq> length (agr_readiness_entries s), s'))"

definition live_leases :: "nat \<Rightarrow> nat \<Rightarrow> nat \<Rightarrow> (node_id \<times> 'a lease_entry) list \<Rightarrow> (node_id \<times> 'a) list" where
  "live_leases now epoch stale_timeout entries =
     map (\<lambda>(node, e). (node, le_report e))
       (filter (\<lambda>(_, e). le_epoch e = epoch \<and> now - le_received_at e \<le> stale_timeout) entries)"

definition build_aggregated_state :: "nat \<Rightarrow> aggregator \<Rightarrow> aggregated_state" where
  "build_aggregated_state now s =
     (let stale_timeout = agr_stale_timeout s;
          epoch = current_epoch s;
          current = filter (\<lambda>(_, e). le_epoch e = epoch) (agr_entries s);
          silent = map fst (filter (\<lambda>(_, received). agr_freshness_epoch s = epoch \<and> now - received > stale_timeout)
                     (agr_freshness s));
          stale = fold (\<lambda>(node, e) st. if now - le_received_at e > stale_timeout \<and> node \<notin> set st then st @ [node] else st)
                    current silent
      in \<lparr>ag_leadership_epoch = agr_epoch s,
          ag_receive_deadlines = map (\<lambda>(node, e). (node, le_received_at e + stale_timeout)) current,
          ag_reports = map (\<lambda>(node, e). (node, le_report e)) current,
          ag_stale_nodes = stale,
          ag_stale_since = List.map_filter (\<lambda>node.
             case map_of (agr_freshness s) node of
               Some heard \<Rightarrow> Some (node, heard + stale_timeout)
             | None \<Rightarrow> map_option (\<lambda>e. (node, le_received_at e + stale_timeout)) (map_of (agr_entries s) node)) stale,
          ag_capabilities = live_leases now epoch stale_timeout (agr_capability_entries s),
          ag_readiness = live_leases now epoch stale_timeout (agr_readiness_entries s)\<rparr>)"

definition publish :: "nat \<Rightarrow> aggregator \<Rightarrow> aggregator" where
  "publish now s =
     (let s1 = refresh_report_deadlines now s in s1\<lparr>agr_published := build_aggregated_state now s1\<rparr>)"

text \<open>
  The arms of the event loop, and the two watched values that change outside it. A metrics rollup
  goes to another store and leaves the aggregator alone.
\<close>

datatype agg_event =
    AggReport "node_id option" state_report
  | AggCapability "node_id option" node_capability_report
  | AggReadiness "node_id option" node_readiness_report
  | AggRollup
  | AggTick
  | EpochChanges nat
  | EpochNotified
  | MembersChange "node_id list"
  | MembersNotified

fun agg_step :: "nat \<times> agg_event \<Rightarrow> aggregator \<Rightarrow> aggregator" where
  "agg_step (now, AggReport peer report) s =
     (if report_identity_ok peer (sr_node_id report) then publish now (store_report now report s) else s)"
| "agg_step (now, AggCapability peer report) s =
     (if report_identity_ok peer (cap_node_id report) then publish now (store_capability now report s) else s)"
| "agg_step (now, AggReadiness peer report) s =
     (if report_identity_ok peer (nr_node_id report) then publish now (store_readiness now report s) else s)"
| "agg_step (now, AggRollup) s = s"
| "agg_step (now, AggTick) s = publish now (evict_expired now (agr_stale_timeout s) s)"
| "agg_step (now, EpochChanges e) s = (if agr_epoch s = None then s else s\<lparr>agr_epoch := Some e\<rparr>)"
| "agg_step (now, EpochNotified) s = publish now s"
| "agg_step (now, MembersChange ms) s = (if agr_members s = None then s else s\<lparr>agr_members := Some ms\<rparr>)"
| "agg_step (now, MembersNotified) s =
     (let (changed, s') = evict_departed s in if changed then publish now s' else s')"

definition insert_local_report :: "nat \<Rightarrow> state_report \<Rightarrow> aggregator \<Rightarrow> aggregator" where
  "insert_local_report now report s = publish now (store_report now report s)"

section \<open>Provenance of the published view\<close>

lemma set_update_cases: "(k', v') \<in> set (AList.update k v xs) \<Longrightarrow> k' = k \<and> v' = v \<or> (k', v') \<in> set xs"
  by (induction xs) (auto split: if_splits)

lemma refresh_simps [simp]:
  "agr_entries (refresh_report_deadlines now s) = agr_entries s"
  "agr_epoch (refresh_report_deadlines now s) = agr_epoch s"
  "current_epoch (refresh_report_deadlines now s) = current_epoch s"
  "agr_stale_timeout (refresh_report_deadlines now s) = agr_stale_timeout s"
  "agr_published (refresh_report_deadlines now s) = agr_published s"
  by (auto simp: refresh_report_deadlines_def current_epoch_def Let_def split: option.splits)

lemma publish_simps [simp]:
  "agr_entries (publish now s) = agr_entries s"
  "agr_stale_timeout (publish now s) = agr_stale_timeout s"
  "agr_published (publish now s) = build_aggregated_state now (refresh_report_deadlines now s)"
  by (simp_all add: publish_def Let_def)

lemma map_of_map_filter:
  "map_of (map (\<lambda>(n, e). (n, f e)) xs) n = map_option f (map_of xs n)"
  by (induction xs) auto

definition received :: "(nat \<times> agg_event) list \<Rightarrow> node_id \<Rightarrow> state_report lease_entry \<Rightarrow> bool" where
  "received es n e \<longleftrightarrow> (\<exists>peer. (le_received_at e, AggReport peer (le_report e)) \<in> set es \<and>
     sr_node_id (le_report e) = n \<and> report_identity_ok peer n)"

definition entries_traced :: "nat \<Rightarrow> (nat \<times> agg_event) list \<Rightarrow> aggregator \<Rightarrow> bool" where
  "entries_traced E es s \<longleftrightarrow> (\<forall>n e. (n, e) \<in> set (agr_entries s) \<longrightarrow> le_epoch e = E \<longrightarrow> received es n e)"

definition view_traced :: "nat \<Rightarrow> (nat \<times> agg_event) list \<Rightarrow> nat \<Rightarrow> aggregated_state \<Rightarrow> bool" where
  "view_traced E es timeout a \<longleftrightarrow> (ag_leadership_epoch a = Some E \<longrightarrow>
     (\<forall>n r. map_of (ag_reports a) n = Some r \<longrightarrow>
        (\<exists>e. received es n e \<and> le_report e = r \<and> map_of (ag_receive_deadlines a) n = Some (le_received_at e + timeout))))"

lemma received_mono: "received es n e \<Longrightarrow> set es \<subseteq> set es' \<Longrightarrow> received es' n e"
  by (auto simp: received_def)

lemma build_traced:
  assumes "entries_traced E es s"
  shows "view_traced E es (agr_stale_timeout s) (build_aggregated_state now s)"
proof -
  let ?current = "filter (\<lambda>(_, e). le_epoch e = current_epoch s) (agr_entries s)"
  have "\<exists>e. received es n e \<and> le_report e = r \<and>
      map_of (map (\<lambda>(node, e). (node, le_received_at e + agr_stale_timeout s)) ?current) n = Some (le_received_at e + agr_stale_timeout s)"
    if epoch: "agr_epoch s = Some E" and r: "map_of (map (\<lambda>(node, e). (node, le_report e)) ?current) n = Some r" for n r
  proof -
    obtain e where e: "map_of ?current n = Some e" "le_report e = r"
      using r by (auto simp: map_of_map_filter)
    then have "(n, e) \<in> set (agr_entries s)" "le_epoch e = E"
      using map_of_SomeD [OF e(1)] epoch by (auto simp: current_epoch_def)
    then have "received es n e" using assms by (simp add: entries_traced_def)
    then show ?thesis using e by (auto simp: map_of_map_filter)
  qed
  then show ?thesis by (simp add: view_traced_def build_aggregated_state_def Let_def)
qed

lemma publish_traced:
  assumes "entries_traced E es s"
  shows "entries_traced E es (publish now s) \<and> view_traced E es (agr_stale_timeout s) (agr_published (publish now s))"
proof -
  have "entries_traced E es (refresh_report_deadlines now s)" using assms by (simp add: entries_traced_def)
  from build_traced [OF this, of now] show ?thesis using assms by (simp add: entries_traced_def)
qed

lemma view_traced_mono: "view_traced E es timeout a \<Longrightarrow> set es \<subseteq> set es' \<Longrightarrow> view_traced E es' timeout a"
  unfolding view_traced_def using received_mono by blast

lemma entries_traced_sub:
  "entries_traced E es s \<Longrightarrow> set (agr_entries s') \<subseteq> set (agr_entries s) \<Longrightarrow> set es \<subseteq> set es' \<Longrightarrow> entries_traced E es' s'"
  unfolding entries_traced_def using received_mono by blast

lemma evict_departed_simps:
  "evict_departed s = (c, s') \<Longrightarrow> set (agr_entries s') \<subseteq> set (agr_entries s) \<and> agr_published s' = agr_published s \<and>
     agr_stale_timeout s' = agr_stale_timeout s"
  by (auto simp: evict_departed_def keep_active_def Let_def split: option.splits if_splits)

lemma agg_step_traced:
  assumes "entries_traced E es s" and "view_traced E es (agr_stale_timeout s) (agr_published s)"
  shows "entries_traced E (es @ [ev]) (agg_step ev s) \<and>
    view_traced E (es @ [ev]) (agr_stale_timeout (agg_step ev s)) (agr_published (agg_step ev s))"
proof -
  obtain now k where ev: "ev = (now, k)" by (cases ev)
  have sub: "entries_traced E (es @ [ev]) s'" if "set (agr_entries s') \<subseteq> set (agr_entries s)" for s'
    by (rule entries_traced_sub [OF assms(1) that]) auto
  have view: "view_traced E (es @ [ev]) (agr_stale_timeout s) (agr_published s)"
    by (rule view_traced_mono [OF assms(2)]) auto
  note same = sub [OF subset_refl]
  show ?thesis
  proof (cases k)
    case (AggReport peer report)
    show ?thesis
    proof (cases "report_identity_ok peer (sr_node_id report)")
      case True
      let ?s = "store_report now report s"
      have "received (es @ [ev]) n e" if "(n, e) \<in> set (agr_entries ?s)" "le_epoch e = E" for n e
      proof -
        from that(1) consider "n = sr_node_id report" "e = \<lparr>le_report = report, le_received_at = now, le_epoch = current_epoch s\<rparr>"
          | "(n, e) \<in> set (agr_entries s)"
          by (auto simp: store_report_def Let_def dest: set_update_cases)
        then show ?thesis
        proof cases
          case 1
          then show ?thesis using True AggReport ev by (auto simp: received_def)
        next
          case 2
          then have "received es n e" using assms(1) that(2) by (simp add: entries_traced_def)
          then show ?thesis by (rule received_mono) auto
        qed
      qed
      then have "entries_traced E (es @ [ev]) ?s" by (simp add: entries_traced_def)
      from publish_traced [OF this, of now] show ?thesis
        using True AggReport ev by (simp add: store_report_def Let_def)
    qed (use same view AggReport ev in simp)
  next
    case (AggCapability peer report)
    then show ?thesis
      using same view ev sub [of "store_capability now report s"] publish_traced [of E "es @ [ev]" "store_capability now report s" now]
      by (simp add: store_capability_def)
  next
    case (AggReadiness peer report)
    then show ?thesis
      using same view ev sub [of "store_readiness now report s"] publish_traced [of E "es @ [ev]" "store_readiness now report s" now]
      by (simp add: store_readiness_def)
  next
    case AggTick
    then show ?thesis
      using ev sub [of "evict_expired now (agr_stale_timeout s) s"]
        publish_traced [of E "es @ [ev]" "evict_expired now (agr_stale_timeout s) s" now]
      by (simp add: evict_expired_def keep_recent_def Let_def)
  next
    case EpochNotified
    then show ?thesis using same ev publish_traced [of E "es @ [ev]" s now] by simp
  next
    case MembersNotified
    obtain c s' where d: "evict_departed s = (c, s')" by fastforce
    have "entries_traced E (es @ [ev]) s'" using evict_departed_simps [OF d] sub by simp
    from publish_traced [OF this, of now] this show ?thesis
      using MembersNotified ev d view evict_departed_simps [OF d] by auto
  next
    case (EpochChanges e)
    then show ?thesis using sub [of "s\<lparr>agr_epoch := Some e\<rparr>"] same view ev by simp
  next
    case (MembersChange ms)
    then show ?thesis using sub [of "s\<lparr>agr_members := Some ms\<rparr>"] same view ev by simp
  qed (use same view ev in simp)
qed

lemma run_traced:
  assumes "entries_traced E [] s" and "view_traced E [] (agr_stale_timeout s) (agr_published s)"
  shows "entries_traced E es (fold agg_step es s) \<and>
    view_traced E es (agr_stale_timeout (fold agg_step es s)) (agr_published (fold agg_step es s))"
proof (induction es rule: rev_induct)
  case (snoc ev es)
  then show ?case using agg_step_traced [of E es "fold agg_step es s" ev] by simp
qed (use assms in simp)

lemma agg_step_timeout [simp]: "agr_stale_timeout (agg_step ev s) = agr_stale_timeout s"
proof (cases "(ev, s)" rule: agg_step.cases)
  case (9 now s)
  then show ?thesis
    by (cases "evict_departed s") (auto dest: evict_departed_simps)
qed (auto simp: store_report_def store_capability_def store_readiness_def evict_expired_def Let_def)

lemma run_timeout [simp]: "agr_stale_timeout (fold agg_step es s) = agr_stale_timeout s"
  by (induction es arbitrary: s) auto


definition demo_report :: "node_id \<Rightarrow> state_report" where
  "demo_report n = \<lparr>sr_node_id = n, sr_timestamp = 0, sr_running_apps = [], sr_cached_specs = [], sr_rollouts = [],
     sr_resource_usage = \<lparr>ru_cpu_used_millicores = 0, ru_memory_used_mb = 0, ru_disk_used_mb = 0, ru_gpu_used = 0,
       ru_allocated_ports = [], ru_cpu_total_millicores = 4000, ru_memory_total_mb = 4096\<rparr>,
     sr_job_reservations = \<lparr>jr_cpu_millicores = 0, jr_memory_bytes = 0\<rparr>, sr_capacity_refusals = [], sr_event_log = [],
     sr_has_buildah = False\<rparr>"

definition demo_failover :: "(nat \<times> agg_event) list" where
  "demo_failover = [(1, AggReport (Some ''n1'') (demo_report ''n1'')), (5, EpochChanges 8), (6, EpochNotified),
     (7, AggReport (Some ''n3'') (demo_report ''n2'')), (8, AggReport (Some ''n2'') (demo_report ''n2''))]"


end
