(* ===== verification/Config_Units.thy ===== *)
theory Config_Units
  imports App_Spec Text
begin

text \<open>
  The textual quantities of a configuration (\<open>src/src/config/types.rs\<close>): byte sizes, CPU
  quantities, request-limit ranges, replica counts and process limits, with every way their
  parsers refuse a value. Ranges and replica counts are printed and read back.
\<close>

section \<open>Errors\<close>

text \<open>The reasons of \<open>InvalidResourceValue\<close> and \<open>InvalidResourceRange\<close>, one per message.\<close>

datatype reason =
    EmptyString
  | ExpectedBytes
  | ExpectedCores
  | FinerThanMillicore
  | InvalidFraction
  | NotANumber string
  | Overflows
  | PidsOutOfRange
  | RequestExceedsLimit string string

datatype config_error =
    InvalidResourceValue string reason
  | InvalidResourceRange string reason

section \<open>Byte sizes and CPU quantities\<close>

definition checked_mul64 :: "nat \<Rightarrow> nat \<Rightarrow> nat option" where
  "checked_mul64 a b = (if a * b \<le> u64_max then Some (a * b) else None)"

definition parse_num :: "string \<Rightarrow> nat \<Rightarrow> string \<Rightarrow> config_error + nat" where
  "parse_num num_str multiplier original =
     (case parse_u64 num_str of
        None \<Rightarrow> Inl (InvalidResourceValue original (NotANumber num_str))
      | Some n \<Rightarrow>
          (case checked_mul64 n multiplier of
             None \<Rightarrow> Inl (InvalidResourceValue original Overflows)
           | Some v \<Rightarrow> Inr v))"

definition parse_byte_size :: "string \<Rightarrow> config_error + nat" where
  "parse_byte_size text =
     (let s = trim text
      in if s = [] then Inl (InvalidResourceValue s EmptyString)
         else case strip_suffix ''Ti'' s of
             Some num \<Rightarrow> parse_num num (1024 * 1024 * 1024 * 1024) s
         | None \<Rightarrow> case strip_suffix ''Gi'' s of
             Some num \<Rightarrow> parse_num num (1024 * 1024 * 1024) s
         | None \<Rightarrow> case strip_suffix ''Mi'' s of
             Some num \<Rightarrow> parse_num num (1024 * 1024) s
         | None \<Rightarrow> case strip_suffix ''Ki'' s of
             Some num \<Rightarrow> parse_num num 1024 s
         | None \<Rightarrow> case parse_u64 s of
             None \<Rightarrow> Inl (InvalidResourceValue s ExpectedBytes)
           | Some n \<Rightarrow> Inr n)"

text \<open>The padding of \<open>format!("{fraction:0<3}")\<close>.\<close>

definition pad3 :: "string \<Rightarrow> string" where
  "pad3 fraction = fraction @ replicate (3 - length fraction) (CHR ''0'')"

definition parse_cpu_millicores :: "string \<Rightarrow> config_error + nat" where
  "parse_cpu_millicores text =
     (let s = trim text
      in if s = [] then Inl (InvalidResourceValue s EmptyString)
         else case strip_suffix ''m'' s of
             Some num \<Rightarrow> parse_num num 1 s
         | None \<Rightarrow>
             let (whole, fraction) = (case split_once (CHR ''.'') s of None \<Rightarrow> (s, []) | Some p \<Rightarrow> p)
             in if whole = [] \<and> fraction = [] \<or> \<not> list_all is_digit whole \<or> \<not> list_all is_digit fraction
                then Inl (InvalidResourceValue s ExpectedCores)
                else if length fraction > 3 then Inl (InvalidResourceValue s FinerThanMillicore)
                else case (if whole = [] then Inr 0 else parse_num whole 1000 s) of
                    Inl e \<Rightarrow> Inl e
                  | Inr w \<Rightarrow>
                      (case (if fraction = [] then Some 0 else parse_u64 (pad3 fraction)) of
                         None \<Rightarrow> Inl (InvalidResourceValue s InvalidFraction)
                       | Some f \<Rightarrow>
                           (case checked_add64 w f of
                              None \<Rightarrow> Inl (InvalidResourceValue s Overflows)
                            | Some v \<Rightarrow> Inr v)))"

section \<open>Ranges\<close>

definition parse_with :: "string \<Rightarrow> (string \<Rightarrow> config_error + nat) \<Rightarrow> config_error + resource_range" where
  "parse_with s parse_value =
     (case split_once (CHR ''-'') s of
        None \<Rightarrow>
          (case parse_value s of Inl e \<Rightarrow> Inl e | Inr v \<Rightarrow> Inr \<lparr>rr_request = v, rr_limit = v\<rparr>)
      | Some (req_str, lim_str) \<Rightarrow>
          (case parse_value req_str of
             Inl e \<Rightarrow> Inl e
           | Inr request \<Rightarrow>
               (case parse_value lim_str of
                  Inl e \<Rightarrow> Inl e
                | Inr limit \<Rightarrow>
                    if request > limit then Inl (InvalidResourceRange s (RequestExceedsLimit req_str lim_str))
                    else Inr \<lparr>rr_request = request, rr_limit = limit\<rparr>)))"

definition parse_cpu :: "string \<Rightarrow> config_error + resource_range" where
  "parse_cpu s = parse_with s parse_cpu_millicores"

definition parse_memory :: "string \<Rightarrow> config_error + resource_range" where
  "parse_memory s = parse_with s parse_byte_size"

definition render_range :: "resource_range \<Rightarrow> string \<Rightarrow> string" where
  "render_range r suffix =
     (if rr_request r = rr_limit r then show_nat (rr_request r) @ suffix
      else show_nat (rr_request r) @ suffix @ ''-'' @ show_nat (rr_limit r) @ suffix)"

definition to_cpu_string :: "resource_range \<Rightarrow> string" where
  "to_cpu_string r = render_range r ''m''"

definition to_memory_string :: "resource_range \<Rightarrow> string" where
  "to_memory_string r = render_range r []"

section \<open>Replica counts and process limits\<close>

text \<open>What a deserialiser hands the visitor, and what a serialiser receives.\<close>

datatype replicas_token = TokI64 int | TokU64 nat | TokStr string

datatype replicas_error = NotPositive | TooLarge | InvalidReplicas

definition visit_replicas :: "replicas_token \<Rightarrow> replicas_error + replicas" where
  "visit_replicas t =
     (case t of
        TokI64 v \<Rightarrow> if v \<le> 0 then Inl NotPositive
                    else if v > int u32_max then Inl TooLarge else Inr (Fixed (nat v))
      | TokU64 v \<Rightarrow> if v = 0 then Inl NotPositive
                    else if v > u32_max then Inl TooLarge else Inr (Fixed v)
      | TokStr v \<Rightarrow> if v = ''*'' then Inr DaemonSet else Inl InvalidReplicas)"

definition serialize_replicas :: "replicas \<Rightarrow> replicas_token" where
  "serialize_replicas r = (case r of Fixed n \<Rightarrow> TokU64 n | DaemonSet \<Rightarrow> TokStr ''*'')"

definition replicas_default :: replicas where
  "replicas_default = Fixed 1"

definition PIDS_MAX :: nat where
  "PIDS_MAX = 32768"

definition pids_try_from :: "nat \<Rightarrow> config_error + nat" where
  "pids_try_from v =
     (if \<not> (1 \<le> v \<and> v \<le> PIDS_MAX) then Inl (InvalidResourceValue (show_nat v) PidsOutOfRange) else Inr v)"

section \<open>Printing and reading back\<close>

text \<open>A printer and a parser of one quantity: what the range syntax relies on.\<close>

locale quantity_syntax =
  fixes parse_value :: "string \<Rightarrow> config_error + nat" and suffix :: string
  assumes reads_back: "n \<le> u64_max \<Longrightarrow> parse_value (show_nat n @ suffix) = Inr n"
    and no_dash: "CHR ''-'' \<notin> set suffix"
begin

lemma shown_no_dash: "CHR ''-'' \<notin> set (show_nat n @ suffix)"
  using no_dash show_nat_set [of "CHR ''-''" n] digit_not_sign by auto

lemma range_reads_back:
  assumes "rr_request r \<le> u64_max" "rr_limit r \<le> u64_max"
  shows "parse_with (render_range r suffix) parse_value =
    (if rr_request r \<le> rr_limit r then Inr \<lparr>rr_request = rr_request r, rr_limit = rr_limit r\<rparr>
     else Inl (InvalidResourceRange (render_range r suffix)
       (RequestExceedsLimit (show_nat (rr_request r) @ suffix) (show_nat (rr_limit r) @ suffix))))"
proof (cases "rr_request r = rr_limit r")
  case True
  then show ?thesis
    using assms shown_no_dash [of "rr_limit r"]
    by (simp add: render_range_def parse_with_def split_once_None [THEN iffD2] reads_back)
next
  case False
  have "split_once (CHR ''-'') ((show_nat (rr_request r) @ suffix) @ CHR ''-'' # show_nat (rr_limit r) @ suffix) =
      Some (show_nat (rr_request r) @ suffix, show_nat (rr_limit r) @ suffix)"
    using shown_no_dash by (rule split_once_append)
  then have "split_once (CHR ''-'') (render_range r suffix) =
      Some (show_nat (rr_request r) @ suffix, show_nat (rr_limit r) @ suffix)"
    using False by (simp add: render_range_def)
  then show ?thesis using assms by (simp add: parse_with_def reads_back)
qed

end

lemma millicores_read_back: "n \<le> u64_max \<Longrightarrow> parse_cpu_millicores (show_nat n @ ''m'') = Inr n"
proof -
  assume n: "n \<le> u64_max"
  have "trim (show_nat n @ ''m'') = show_nat n @ ''m''"
    using show_nat_set [of "hd (show_nat n)" n] by (intro trim_printable) (simp add: printable_def)
  then show ?thesis
    using n by (simp add: parse_cpu_millicores_def parse_num_def parse_show checked_mul64_def)
qed

lemma bytes_read_back: "n \<le> u64_max \<Longrightarrow> parse_byte_size (show_nat n) = Inr n"
proof -
  assume n: "n \<le> u64_max"
  have "is_digit (last (show_nat n))" using show_nat_set [of "last (show_nat n)" n] by simp
  then have "last (show_nat n) \<noteq> CHR ''i''" by (auto simp: is_digit_def digit_value_def)
  then have "strip_suffix (c # ''i'') (show_nat n) = None" for c
    by (intro strip_suffix_last) auto
  then show ?thesis using n by (simp add: parse_byte_size_def parse_show)
qed

interpretation cpu_syntax: quantity_syntax parse_cpu_millicores "''m''"
  by unfold_locales (simp_all add: millicores_read_back)

interpretation byte_syntax: quantity_syntax parse_byte_size "[]"
  by unfold_locales (simp_all add: bytes_read_back)

text \<open>
  C36: Ranges survive serialisation. For every request and limit of 64 bits, reading back the printed
  CPU or memory range gives the same range, and a range whose request exceeds its limit is refused.
\<close>

theorem ranges_round_trip:
  assumes "rr_request r \<le> u64_max" and "rr_limit r \<le> u64_max"
  shows "(parse_cpu (to_cpu_string r) = Inr r \<longleftrightarrow> rr_request r \<le> rr_limit r) \<and>
    (parse_memory (to_memory_string r) = Inr r \<longleftrightarrow> rr_request r \<le> rr_limit r)"
  using cpu_syntax.range_reads_back [OF assms] byte_syntax.range_reads_back [OF assms]
  by (simp add: parse_cpu_def to_cpu_string_def parse_memory_def to_memory_string_def)

theorem ranges_round_trip_witness:
  "parse_cpu (to_cpu_string \<lparr>rr_request = 250, rr_limit = 2000\<rparr>) = Inr \<lparr>rr_request = 250, rr_limit = 2000\<rparr> \<and>
   to_cpu_string \<lparr>rr_request = 250, rr_limit = 2000\<rparr> = ''250m-2000m'' \<and>
   parse_memory ''128Mi-1Gi'' = Inr \<lparr>rr_request = 128 * 2 ^ 20, rr_limit = 2 ^ 30\<rparr>"
proof -
  have "to_cpu_string \<lparr>rr_request = 250, rr_limit = 2000\<rparr> = ''250m-2000m''" by code_simp
  moreover have "parse_memory ''128Mi-1Gi'' = Inr \<lparr>rr_request = 128 * 2 ^ 20, rr_limit = 2 ^ 30\<rparr>" by code_simp
  ultimately show ?thesis
    using ranges_round_trip [of "\<lparr>rr_request = 250, rr_limit = 2000\<rparr>"] by simp
qed

text \<open>The replica counts that survive serialisation are exactly the positive ones and daemon mode.\<close>

lemma replicas_round_trip:
  "visit_replicas (serialize_replicas r) = Inr r \<longleftrightarrow> (case r of Fixed n \<Rightarrow> 0 < n \<and> n \<le> u32_max | DaemonSet \<Rightarrow> True)"
  by (auto simp: visit_replicas_def serialize_replicas_def split: replicas.splits)

text \<open>A CPU quantity in cores is exact: \<open>w.f\<close> with \<open>f\<close> of up to three digits is \<open>1000 w\<close> plus the padded \<open>f\<close>.\<close>

lemma parse_cpu_millicores_cores:
  assumes "w * 1000 + f \<le> u64_max" and "f < 1000" and "fraction \<noteq> []" and "list_all is_digit fraction" and "length fraction \<le> 3"
    and "parse_u64 (pad3 fraction) = Some f"
  shows "parse_cpu_millicores (show_nat w @ CHR ''.'' # fraction) = Inr (w * 1000 + f)"
proof -
  let ?s = "show_nat w @ CHR ''.'' # fraction"
  have digits: "list_all is_digit (show_nat w)" "CHR ''.'' \<notin> set (show_nat w)"
    using show_nat_set digit_not_sign by (auto simp: list_all_iff)
  have last: "is_digit (last fraction)" using assms(3,4) by (simp add: list_all_iff)
  have "printable (last fraction)"
    using last by (auto simp: is_digit_def digit_value_def printable_def Let_def split: if_splits)
  then have trim: "trim ?s = ?s"
    using assms(3) show_nat_set [of "hd (show_nat w)" w] by (intro trim_printable) simp
  have "strip_suffix ''m'' ?s = None"
    using assms(3) digit_not_sign [OF last] by (intro strip_suffix_last) auto
  then show ?thesis
    using assms digits
    by (simp add: parse_cpu_millicores_def trim parse_num_def parse_show checked_mul64_def checked_add64_def)
qed

lemma parse_byte_size_bound: "parse_byte_size s = Inr n \<Longrightarrow> n \<le> u64_max"
  by (auto simp: parse_byte_size_def Let_def parse_num_def checked_mul64_def dest: parse_uint_bound
      split: if_splits option.splits)

end
