(* ===== verification/Quota.thy ===== *)
theory Quota
  imports Config_Units Transition_Systems
begin

text \<open>
  Namespace quotas (\<open>src/src/meat/quota.rs\<close>): the admission check, the usage ledger of one
  scheduling pass and the room left for job attempts. All sums saturate at the width of the field,
  as in the code.
\<close>

section \<open>Quotas and usage\<close>

record namespace_quota =
  nq_namespace :: string
  max_cpu_millicores :: "nat option"
  max_memory_bytes :: "nat option"
  max_gpus :: "nat option"
  max_apps :: "nat option"
  max_replicas :: "nat option"

record namespace_usage =
  us_cpu :: nat
  us_memory :: nat
  us_gpus :: nat
  us_apps :: nat
  us_replicas :: nat

definition usage_default :: namespace_usage where
  "usage_default = \<lparr>us_cpu = 0, us_memory = 0, us_gpus = 0, us_apps = 0, us_replicas = 0\<rparr>"

datatype quota_error =
    CpuExceeded string nat nat nat
  | MemoryExceeded string nat nat nat
  | GpuExceeded string nat nat nat
  | MaxAppsExceeded string nat nat
  | MaxReplicasExceeded string nat nat nat

text \<open>A configured limit that a total exceeds; without a limit nothing is exceeded.\<close>

definition exceeds :: "nat \<Rightarrow> nat option \<Rightarrow> bool" where
  "exceeds total_usage limit = (case limit of None \<Rightarrow> False | Some l \<Rightarrow> total_usage > l)"

definition check_quota ::
  "namespace_quota \<Rightarrow> namespace_usage \<Rightarrow> resources \<Rightarrow> nat \<Rightarrow> bool \<Rightarrow> quota_error + unit" where
  "check_quota quota usage requested new_replicas is_new_app =
     (let cpu = sat_mul64 (cpu_millicores requested) new_replicas;
          memory = sat_mul64 (memory_bytes requested) new_replicas;
          gpu = sat_mul32 (gpus requested) new_replicas;
          name = nq_namespace quota
      in if exceeds (sat_add64 (us_cpu usage) cpu) (max_cpu_millicores quota)
         then Inl (CpuExceeded name (us_cpu usage) cpu (the (max_cpu_millicores quota)))
         else if exceeds (sat_add64 (us_memory usage) memory) (max_memory_bytes quota)
         then Inl (MemoryExceeded name (us_memory usage) memory (the (max_memory_bytes quota)))
         else if exceeds (sat_add32 (us_gpus usage) gpu) (max_gpus quota)
         then Inl (GpuExceeded name (us_gpus usage) gpu (the (max_gpus quota)))
         else if (case max_apps quota of None \<Rightarrow> False | Some limit \<Rightarrow> is_new_app \<and> us_apps usage \<ge> limit)
         then Inl (MaxAppsExceeded name (us_apps usage) (the (max_apps quota)))
         else if exceeds (sat_add32 (us_replicas usage) new_replicas) (max_replicas quota)
         then Inl (MaxReplicasExceeded name (us_replicas usage) new_replicas (the (max_replicas quota)))
         else Inr ())"

definition accumulate :: "resources \<Rightarrow> nat \<Rightarrow> bool \<Rightarrow> namespace_usage \<Rightarrow> namespace_usage" where
  "accumulate per_replica replicas count_app entry =
     entry\<lparr>us_cpu := sat_add64 (us_cpu entry) (sat_mul64 (cpu_millicores per_replica) replicas),
           us_memory := sat_add64 (us_memory entry) (sat_mul64 (memory_bytes per_replica) replicas),
           us_gpus := sat_add32 (us_gpus entry) (sat_mul32 (gpus per_replica) replicas),
           us_replicas := sat_add32 (us_replicas entry) replicas,
           us_apps := (if count_app then sat_add32 (us_apps entry) 1 else us_apps entry)\<rparr>"

section \<open>The ledger\<close>

record quota_ledger =
  ql_quotas :: "(string \<times> namespace_quota) list"
  ql_usage :: "(string \<times> namespace_usage) list"

definition ledger_new :: "(string \<times> namespace_quota) list \<Rightarrow> quota_ledger" where
  "ledger_new quotas = \<lparr>ql_quotas = quotas, ql_usage = []\<rparr>"

definition ledger_is_empty :: "quota_ledger \<Rightarrow> bool" where
  "ledger_is_empty l \<longleftrightarrow> ql_quotas l = []"

text \<open>
  The quota of a declared namespace (\<open>NamespaceSpec\<close> of \<open>src/src/config/namespace.rs\<close>): a budget
  that does not parse is no limit.
\<close>

record namespace_spec =
  nsp_cpu :: "string option"
  nsp_memory :: "string option"
  nsp_gpu :: "nat option"
  nsp_max_apps :: "nat option"
  nsp_max_replicas :: "nat option"
  nsp_secret_key :: bool

definition ok_of :: "'e + 'a \<Rightarrow> 'a option" where
  "ok_of r = (case r of Inl _ \<Rightarrow> None | Inr v \<Rightarrow> Some v)"

definition quota_from_spec :: "string \<Rightarrow> namespace_spec \<Rightarrow> namespace_quota" where
  "quota_from_spec name spec =
     \<lparr>nq_namespace = name,
      max_cpu_millicores = Option.bind (nsp_cpu spec) (\<lambda>v. ok_of (parse_cpu_millicores v)),
      max_memory_bytes = Option.bind (nsp_memory spec) (\<lambda>v. ok_of (parse_byte_size v)),
      max_gpus = nsp_gpu spec, max_apps = nsp_max_apps spec, max_replicas = nsp_max_replicas spec\<rparr>"

definition ledger_from_namespaces :: "(string \<times> namespace_spec) list \<Rightarrow> quota_ledger" where
  "ledger_from_namespaces namespaces = ledger_new (map (\<lambda>(name, spec). (name, quota_from_spec name spec)) namespaces)"

text \<open>\<open>usage.entry(namespace).or_default()\<close>: the entry, which the map holds from then on.\<close>

definition usage_of :: "quota_ledger \<Rightarrow> string \<Rightarrow> namespace_usage" where
  "usage_of l namespace = (case map_of (ql_usage l) namespace of None \<Rightarrow> usage_default | Some u \<Rightarrow> u)"

definition set_usage :: "string \<Rightarrow> namespace_usage \<Rightarrow> quota_ledger \<Rightarrow> quota_ledger" where
  "set_usage namespace u l = l\<lparr>ql_usage := AList.update namespace u (ql_usage l)\<rparr>"

definition try_admit ::
  "string \<Rightarrow> resources \<Rightarrow> nat \<Rightarrow> bool \<Rightarrow> quota_ledger \<Rightarrow> (quota_error + unit) \<times> quota_ledger" where
  "try_admit namespace per_replica replicas is_new_app l =
     (let entry = usage_of l namespace;
          l1 = set_usage namespace entry l;
          checked = (case map_of (ql_quotas l) namespace of
              Some quota \<Rightarrow> check_quota quota entry per_replica replicas is_new_app
            | None \<Rightarrow> Inr ())
      in case checked of
           Inl e \<Rightarrow> (Inl e, l1)
         | Inr _ \<Rightarrow> (Inr (), set_usage namespace (accumulate per_replica replicas is_new_app entry) l1))"

definition charge_committed :: "string \<Rightarrow> resources \<Rightarrow> nat \<Rightarrow> quota_ledger \<Rightarrow> quota_ledger" where
  "charge_committed namespace per_replica replicas l =
     set_usage namespace (accumulate per_replica replicas True (usage_of l namespace)) l"

definition charge_tasks :: "string \<Rightarrow> resources \<Rightarrow> nat \<Rightarrow> quota_ledger \<Rightarrow> quota_ledger" where
  "charge_tasks namespace per_task tasks l =
     (let entry = usage_of l namespace;
          tasks32 = (if tasks \<le> u32_max then tasks else u32_max)
      in set_usage namespace
           (entry\<lparr>us_cpu := sat_add64 (us_cpu entry) (sat_mul64 (cpu_millicores per_task) tasks),
                  us_memory := sat_add64 (us_memory entry) (sat_mul64 (memory_bytes per_task) tasks),
                  us_gpus := sat_add32 (us_gpus entry) (sat_mul32 (gpus per_task) tasks32)\<rparr>) l)"

definition fit_tasks :: "nat option \<Rightarrow> nat \<Rightarrow> nat \<Rightarrow> nat" where
  "fit_tasks limit used each =
     (case limit of Some l \<Rightarrow> if each > 0 then (l - used) div each else u64_max | None \<Rightarrow> u64_max)"

definition room_for_tasks :: "quota_ledger \<Rightarrow> string \<Rightarrow> resources \<Rightarrow> nat" where
  "room_for_tasks l namespace per_task =
     (case map_of (ql_quotas l) namespace of
        None \<Rightarrow> u64_max
      | Some quota \<Rightarrow>
          let usage = usage_of l namespace
          in min (min (fit_tasks (max_cpu_millicores quota) (us_cpu usage) (cpu_millicores per_task))
                      (fit_tasks (max_memory_bytes quota) (us_memory usage) (memory_bytes per_task)))
                 (fit_tasks (max_gpus quota) (us_gpus usage) (gpus per_task)))"

definition task_quota_error :: "quota_ledger \<Rightarrow> string \<Rightarrow> resources \<Rightarrow> nat \<Rightarrow> quota_error option" where
  "task_quota_error l namespace per_task tasks =
     (case map_of (ql_quotas l) namespace of
        None \<Rightarrow> None
      | Some quota \<Rightarrow>
          let resources_only = quota\<lparr>max_apps := None, max_replicas := None\<rparr>;
              replicas = (if tasks \<le> u32_max then tasks else u32_max)
          in case check_quota resources_only (usage_of l namespace) per_task replicas False of
               Inl e \<Rightarrow> Some e | Inr _ \<Rightarrow> None)"

definition same_limit :: "quota_error \<Rightarrow> quota_error \<Rightarrow> bool" where
  "same_limit a b =
     (case (a, b) of
        (CpuExceeded n _ _ x, CpuExceeded m _ _ y) \<Rightarrow> n = m \<and> x = y
      | (MemoryExceeded n _ _ x, MemoryExceeded m _ _ y) \<Rightarrow> n = m \<and> x = y
      | (GpuExceeded n _ _ x, GpuExceeded m _ _ y) \<Rightarrow> n = m \<and> x = y
      | _ \<Rightarrow> a = b)"

section \<open>Staying within the quota\<close>

text \<open>The ledger's promise: no namespace uses more than its quota allows.\<close>

definition within_quota :: "namespace_quota \<Rightarrow> namespace_usage \<Rightarrow> bool" where
  "within_quota quota usage \<longleftrightarrow>
     \<not> exceeds (us_cpu usage) (max_cpu_millicores quota) \<and> \<not> exceeds (us_memory usage) (max_memory_bytes quota) \<and>
     \<not> exceeds (us_gpus usage) (max_gpus quota) \<and> \<not> exceeds (us_apps usage) (max_apps quota) \<and>
     \<not> exceeds (us_replicas usage) (max_replicas quota)"

definition ledger_within :: "quota_ledger \<Rightarrow> bool" where
  "ledger_within l \<longleftrightarrow> (\<forall>namespace quota. map_of (ql_quotas l) namespace = Some quota \<longrightarrow> within_quota quota (usage_of l namespace))"

text \<open>One pass over a ledger: apps are admitted and job attempts started within the room.\<close>

datatype quota_command = AdmitApp string resources nat bool | StartTasks string resources nat

fun quota_exec :: "quota_command \<Rightarrow> quota_ledger \<Rightarrow> quota_ledger" where
  "quota_exec (AdmitApp namespace r n new) l = snd (try_admit namespace r n new l)"
| "quota_exec (StartTasks namespace r k) l = charge_tasks namespace r (min k (room_for_tasks l namespace r)) l"

lemma usage_of_set [simp]:
  "usage_of (set_usage namespace u l) m = (if m = namespace then u else usage_of l m)"
  "ql_quotas (set_usage namespace u l) = ql_quotas l"
  by (simp_all add: usage_of_def set_usage_def update_conv')

lemma ledger_within_set:
  assumes "ledger_within l" and "\<And>q. map_of (ql_quotas l) namespace = Some q \<Longrightarrow> within_quota q u"
  shows "ledger_within (set_usage namespace u l)"
  using assms by (simp add: ledger_within_def)

lemma check_quota_within:
  assumes "check_quota quota usage r n new = Inr ()" and "within_quota quota usage"
  shows "within_quota quota (accumulate r n new usage)"
proof (cases "max_apps quota")
  case None
  then show ?thesis
    using assms by (auto simp: check_quota_def within_quota_def accumulate_def Let_def exceeds_def split: if_splits)
next
  case (Some limit)
  have "\<not> exceeds (if new then sat_add32 (us_apps usage) 1 else us_apps usage) (Some limit)"
    using assms Some by (auto simp: check_quota_def within_quota_def Let_def exceeds_def sat_add32_def split: if_splits)
  then show ?thesis
    using assms Some by (auto simp: check_quota_def within_quota_def accumulate_def Let_def split: if_splits)
qed

lemma try_admit_cases:
  "try_admit namespace r n new l =
     (case (case map_of (ql_quotas l) namespace of None \<Rightarrow> Inr () | Some q \<Rightarrow> check_quota q (usage_of l namespace) r n new) of
        Inl e \<Rightarrow> (Inl e, set_usage namespace (usage_of l namespace) l)
      | Inr _ \<Rightarrow> (Inr (), set_usage namespace (accumulate r n new (usage_of l namespace)) (set_usage namespace (usage_of l namespace) l)))"
  by (simp add: try_admit_def Let_def)

lemma try_admit_within:
  assumes "ledger_within l"
  shows "ledger_within (snd (try_admit namespace r n new l))"
proof -
  have "within_quota q (accumulate r n new (usage_of l namespace))"
    if "map_of (ql_quotas l) namespace = Some q" "check_quota q (usage_of l namespace) r n new = Inr ()" for q
    using that assms check_quota_within by (auto simp: ledger_within_def)
  then show ?thesis
    using assms unfolding try_admit_cases
    by (auto simp: ledger_within_def split: option.splits sum.splits)
qed

lemma sat_mul64_le: "a * b \<le> c \<Longrightarrow> sat_mul64 a b \<le> c"
  by (simp add: sat_mul64_def)

lemma fit_tasks_within:
  assumes "\<not> exceeds used limit" and "k \<le> fit_tasks limit used each"
  shows "\<not> exceeds (used + each * k) limit"
proof (cases limit)
  case (Some l)
  have "each * k \<le> l - used"
  proof (cases "each = 0")
    case False
    then have "k \<le> (l - used) div each" using assms(2) Some by (simp add: fit_tasks_def)
    then show ?thesis using False by (metis less_eq_div_iff_mult_less_eq mult.commute neq0_conv)
  qed simp
  then show ?thesis using assms(1) Some by (auto simp: exceeds_def)
qed (simp add: exceeds_def)

lemma exceeds_mono: "a \<le> b \<Longrightarrow> \<not> exceeds b limit \<Longrightarrow> \<not> exceeds a limit"
  by (auto simp: exceeds_def split: option.splits)

lemma charge_tasks_within:
  assumes "ledger_within l" and k: "k \<le> room_for_tasks l namespace r"
  shows "ledger_within (charge_tasks namespace r k l)"
proof -
  let ?u = "usage_of l namespace"
  have "within_quota q (?u\<lparr>us_cpu := sat_add64 (us_cpu ?u) (sat_mul64 (cpu_millicores r) k),
      us_memory := sat_add64 (us_memory ?u) (sat_mul64 (memory_bytes r) k),
      us_gpus := sat_add32 (us_gpus ?u) (sat_mul32 (gpus r) (if k \<le> u32_max then k else u32_max))\<rparr>)"
    if q: "map_of (ql_quotas l) namespace = Some q" for q
  proof -
    have w: "within_quota q ?u" using assms(1) q by (simp add: ledger_within_def)
    have fit: "k \<le> fit_tasks (max_cpu_millicores q) (us_cpu ?u) (cpu_millicores r)"
      "k \<le> fit_tasks (max_memory_bytes q) (us_memory ?u) (memory_bytes r)"
      "k \<le> fit_tasks (max_gpus q) (us_gpus ?u) (gpus r)"
      using k q by (simp_all add: room_for_tasks_def Let_def)
    have fits: "\<not> exceeds (us_cpu ?u + cpu_millicores r * k) (max_cpu_millicores q)"
      "\<not> exceeds (us_memory ?u + memory_bytes r * k) (max_memory_bytes q)"
      "\<not> exceeds (us_gpus ?u + gpus r * k) (max_gpus q)"
      using w fit fit_tasks_within by (auto simp: within_quota_def)
    have les: "sat_add64 (us_cpu ?u) (sat_mul64 (cpu_millicores r) k) \<le> us_cpu ?u + cpu_millicores r * k"
      "sat_add64 (us_memory ?u) (sat_mul64 (memory_bytes r) k) \<le> us_memory ?u + memory_bytes r * k"
      by (auto simp: sat_add64_def sat_mul64_def)
    have "gpus r * (if k \<le> u32_max then k else u32_max) \<le> gpus r * k" by (intro mult_le_mono2) simp
    then have gpu: "sat_add32 (us_gpus ?u) (sat_mul32 (gpus r) (if k \<le> u32_max then k else u32_max)) \<le> us_gpus ?u + gpus r * k"
      unfolding sat_add32_def sat_mul32_def by linarith
    show ?thesis
      using w exceeds_mono [OF les(1) fits(1)] exceeds_mono [OF les(2) fits(2)] exceeds_mono [OF gpu fits(3)]
      by (simp add: within_quota_def)
  qed
  then show ?thesis using ledger_within_set [OF assms(1)] by (simp add: charge_tasks_def Let_def)
qed

text \<open>A fresh ledger charges nothing, so it is within every quota, zero limits included.\<close>

lemma fresh_ledger_within: "ledger_within (ledger_new quotas)"
  by (auto simp: ledger_within_def ledger_new_def usage_of_def usage_default_def within_quota_def exceeds_def
      split: option.splits)

interpretation quota_pass: command_machine quota_exec "\<lambda>_. True" ledger_within
proof
  show "ledger_within (quota_exec c l)" if "ledger_within l" for c l
    using that try_admit_within charge_tasks_within by (cases c) auto
qed


section \<open>Exactness despite saturation\<close>

text \<open>Limits a deployment can mean: strictly below the largest value of the field.\<close>

definition below :: "nat option \<Rightarrow> nat \<Rightarrow> bool" where
  "below limit m = (case limit of None \<Rightarrow> True | Some l \<Rightarrow> l < m)"

definition real_limits :: "namespace_quota \<Rightarrow> bool" where
  "real_limits q \<longleftrightarrow> below (max_cpu_millicores q) u64_max \<and> below (max_memory_bytes q) u64_max \<and>
     below (max_gpus q) u32_max \<and> below (max_apps q) u32_max \<and> below (max_replicas q) u32_max"

text \<open>The usage after the request, in unbounded arithmetic.\<close>

definition exact_usage :: "resources \<Rightarrow> nat \<Rightarrow> bool \<Rightarrow> namespace_usage \<Rightarrow> namespace_usage" where
  "exact_usage r n new u =
     \<lparr>us_cpu = us_cpu u + cpu_millicores r * n, us_memory = us_memory u + memory_bytes r * n,
      us_gpus = us_gpus u + gpus r * n, us_apps = us_apps u + (if new then 1 else 0), us_replicas = us_replicas u + n\<rparr>"

lemma exceeds_sat64: "below limit u64_max \<Longrightarrow> exceeds (sat_add64 a (sat_mul64 b c)) limit \<longleftrightarrow> exceeds (a + b * c) limit"
  by (auto simp: below_def exceeds_def sat_add64_def sat_mul64_def split: option.splits)

lemma exceeds_sat32: "below limit u32_max \<Longrightarrow> exceeds (a + sat_mul32 b c) limit \<longleftrightarrow> exceeds (a + b * c) limit"
  by (auto simp: below_def exceeds_def sat_mul32_def split: option.splits)

lemma exceeds_sat32_add: "below limit u32_max \<Longrightarrow> exceeds (sat_add32 a b) limit \<longleftrightarrow> exceeds (a + b) limit"
  by (auto simp: below_def exceeds_def sat_add32_def split: option.splits)

lemmas exceeds_sat = exceeds_sat64 exceeds_sat32 exceeds_sat32_add

lemma max_apps_guard:
  "(case limit of None \<Rightarrow> False | Some l \<Rightarrow> new \<and> l \<le> a) \<or> exceeds a limit \<longleftrightarrow> exceeds (a + (if new then 1 else 0)) limit"
  by (auto simp: exceeds_def split: option.splits)

lemma check_quota_Inr:
  "check_quota q u r n new = Inr () \<longleftrightarrow>
     \<not> exceeds (sat_add64 (us_cpu u) (sat_mul64 (cpu_millicores r) n)) (max_cpu_millicores q) \<and>
     \<not> exceeds (sat_add64 (us_memory u) (sat_mul64 (memory_bytes r) n)) (max_memory_bytes q) \<and>
     \<not> exceeds (sat_add32 (us_gpus u) (sat_mul32 (gpus r) n)) (max_gpus q) \<and>
     \<not> (case max_apps q of None \<Rightarrow> False | Some limit \<Rightarrow> new \<and> us_apps u \<ge> limit) \<and>
     \<not> exceeds (sat_add32 (us_replicas u) n) (max_replicas q)"
  by (simp add: check_quota_def Let_def)

lemma fit_tasks_exact:
  assumes "\<not> exceeds used limit" and "k \<le> u64_max"
  shows "k \<le> fit_tasks limit used each \<longleftrightarrow> \<not> exceeds (used + each * k) limit"
proof
  show "k \<le> fit_tasks limit used each" if "\<not> exceeds (used + each * k) limit"
    using that assms(2)
    by (auto simp: fit_tasks_def exceeds_def less_eq_div_iff_mult_less_eq mult.commute split: option.splits)
qed (use assms(1) fit_tasks_within in blast)

text \<open>
  Saturation never changes an admission decision. For limits below the maximum of their field
  and a namespace whose app count is within its limit, \<open>check_quota\<close> admits a request exactly when
  the usage after it, computed without any bound, stays within every limit.
\<close>

lemma check_quota_exact:
  assumes "real_limits q" and "\<not> exceeds (us_apps u) (max_apps q)"
  shows "check_quota q u r n new = Inr () \<longleftrightarrow> within_quota q (exact_usage r n new u)"
  using assms max_apps_guard [where limit = "max_apps q" and new = new and a = "us_apps u"]
  by (simp add: check_quota_Inr within_quota_def exact_usage_def real_limits_def exceeds_sat)

definition demo_quota :: namespace_quota where
  "demo_quota = \<lparr>nq_namespace = ''prod'', max_cpu_millicores = Some 4000, max_memory_bytes = Some (8 * 2 ^ 30),
     max_gpus = Some 0, max_apps = Some 2, max_replicas = Some 10\<rparr>"

definition demo_ledger :: quota_ledger where
  "demo_ledger = ledger_from_namespaces
     [(''prod'', \<lparr>nsp_cpu = Some ''4'', nsp_memory = Some ''8Gi'', nsp_gpu = Some 0, nsp_max_apps = Some 2,
        nsp_max_replicas = Some 10, nsp_secret_key = False\<rparr>)]"

lemma demo_ledger_new: "demo_ledger = ledger_new [(''prod'', demo_quota)]"
  by code_simp

lemma demo_ledger_within: "ledger_within demo_ledger"
  by (simp add: demo_ledger_new fresh_ledger_within)


text \<open>
  C15: A pass never overdraws a namespace. Starting from a fresh ledger (or any ledger within its
  quotas), every sequence of app admissions and of job starts limited to the reported room leaves
  every namespace within its CPU, memory, GPU, app and replica limits, refused requests included.
\<close>

theorem pass_stays_within_quota:
  assumes "ledger_within l"
  shows "ledger_within (fold quota_exec cs l)"
  using quota_pass.run_inv [OF assms, of cs] by simp

theorem pass_stays_within_quota_witness:
  "ledger_within demo_ledger \<and>
   ledger_within (fold quota_exec [AdmitApp ''prod'' (res_new 1000 (2 ^ 30) 0) 3 True,
      StartTasks ''prod'' (res_new 300 0 0) 50, AdmitApp ''prod'' (res_new 500 0 0) 1 True] demo_ledger) \<and>
   usage_of (fold quota_exec [AdmitApp ''prod'' (res_new 1000 (2 ^ 30) 0) 3 True,
      StartTasks ''prod'' (res_new 300 0 0) 50, AdmitApp ''prod'' (res_new 500 0 0) 1 True] demo_ledger) ''prod''
     = \<lparr>us_cpu = 3900, us_memory = 3 * 2 ^ 30, us_gpus = 0, us_apps = 1, us_replicas = 3\<rparr>"
proof -
  have u: "usage_of (fold quota_exec [AdmitApp ''prod'' (res_new 1000 (2 ^ 30) 0) 3 True,
      StartTasks ''prod'' (res_new 300 0 0) 50, AdmitApp ''prod'' (res_new 500 0 0) 1 True] demo_ledger) ''prod''
     = \<lparr>us_cpu = 3900, us_memory = 3 * 2 ^ 30, us_gpus = 0, us_apps = 1, us_replicas = 3\<rparr>"
    by code_simp
  show ?thesis using demo_ledger_within pass_stays_within_quota [OF demo_ledger_within] u by blast
qed

text \<open>
  The room is exact. In a ledger within its quotas whose limits are below the maximum of their
  field, \<open>room_for_tasks\<close> and \<open>task_quota_error\<close> agree on every request of at most \<open>u32::MAX\<close>
  attempts: there is an error to report exactly when the request is larger than the room.
\<close>

lemma room_matches_quota_error:
  assumes "ledger_within l" and "\<And>q. map_of (ql_quotas l) namespace = Some q \<Longrightarrow> real_limits q"
    and "k \<le> u32_max"
  shows "task_quota_error l namespace r k = None \<longleftrightarrow> k \<le> room_for_tasks l namespace r"
proof (cases "map_of (ql_quotas l) namespace")
  case None
  then show ?thesis using assms(3) by (simp add: task_quota_error_def room_for_tasks_def)
next
  case (Some q)
  let ?u = "usage_of l namespace" and ?q = "q\<lparr>max_apps := None, max_replicas := None\<rparr>"
  have w: "within_quota q ?u" and rl: "real_limits q"
    using assms(1,2) Some by (auto simp: ledger_within_def)
  have k: "k \<le> u64_max" using assms(3) by simp
  have "task_quota_error l namespace r k = None \<longleftrightarrow> check_quota ?q ?u r k False = Inr ()"
    using Some assms(3) by (auto simp: task_quota_error_def Let_def split: sum.splits)
  also have "\<dots> \<longleftrightarrow> k \<le> room_for_tasks l namespace r"
    using Some w rl k
    by (simp add: check_quota_Inr room_for_tasks_def fit_tasks_exact within_quota_def real_limits_def exceeds_sat
        Let_def exceeds_def [of _ None])
  finally show ?thesis .
qed


end
