(* ===== verification/Security.thy ===== *)
theory Security
  imports App_Spec Text
begin

text \<open>
  The security state the council replicates (\<open>sesame/types.rs\<close>), and the pure rules on it: API
  tokens and their sweep (\<open>sesame/token.rs\<close>), age keys, and the rotation of an intermediate CA
  (\<open>sesame/ca_rotation.rs\<close>).

  A point of time is the number of nanoseconds since the Unix epoch. Keys, certificates and
  digests are byte strings that nothing here looks into. Whether a certificate is signed by
  another one is decided by the X.509 library: \<open>begin_rotation\<close> takes the test as an argument.
\<close>

type_synonym system_time = int

section \<open>Types\<close>

datatype ca_role = RootCa | NodeCa | WorkloadCa | IngressCa

record wrapped_key =
  wk_ciphertext :: string
  wk_nonce :: string
  wk_hkdf_salt :: string
  wk_hkdf_info :: string

datatype ca_state = CaActive | CaRetiring system_time

record oidc_signing_config =
  oidc_signing_key_wrapped :: wrapped_key
  oidc_public_key_der :: string
  oidc_key_id :: string
  oidc_issuer :: string

record certificate_authority =
  ca_role_of :: ca_role
  ca_certificate_der :: string
  ca_private_key_wrapped :: "wrapped_key option"
  ca_serial :: nat
  ca_not_before :: system_time
  ca_not_after :: system_time
  ca_issuer_serial :: "nat option"
  ca_generation :: nat
  ca_state_of :: ca_state

record node_leaf_record =
  nl_serial :: nat
  nl_ca_generation :: nat
  nl_trust_generation :: nat

record pending_intermediate =
  pi_role :: ca_role
  pi_generation :: nat
  pi_serial :: nat
  pi_csr_der :: string
  pi_private_key_wrapped :: wrapped_key

datatype api_role = Admin | Deployer | ReadOnly

record token_scope =
  ts_apps :: "string list option"
  ts_namespaces :: "string list option"

definition scope_allows :: "token_scope \<Rightarrow> string \<Rightarrow> string \<Rightarrow> bool" where
  "scope_allows s app ns \<longleftrightarrow>
     (case ts_apps s of None \<Rightarrow> True | Some apps \<Rightarrow> app \<in> set apps) \<and>
     (case ts_namespaces s of None \<Rightarrow> True | Some nss \<Rightarrow> ns \<in> set nss)"

record previous_secret =
  ps_token_hash :: string
  ps_valid_until :: system_time

record api_token =
  tok_name :: string
  tok_token_hash :: string
  tok_role :: api_role
  tok_scope :: token_scope
  tok_expires_at :: "system_time option"
  tok_created_at :: system_time
  tok_previous_secret :: "previous_secret option"

record token_rotation =
  tr_name :: string
  tr_token_hash :: string
  tr_rotated_at :: system_time
  tr_expires_at :: "system_time option"
  tr_previous_valid_until :: "system_time option"

datatype age_key_scope = ClusterWide | NamespaceKey string

record age_keypair =
  kp_scope :: age_key_scope
  kp_public_key :: string
  kp_private_key_wrapped :: wrapped_key
  kp_generation :: nat
  kp_read_only :: bool

record secret_seal =
  seal_scope :: age_key_scope
  seal_generation :: nat

record resealed_secret =
  rs_app_id :: app_id
  rs_env_key :: string
  rs_previous :: string
  rs_sealed :: string

datatype attestation_mode = NoAttestation | TpmAttestation | CertificateAttestation

record join_token =
  jt_token_hash :: string
  jt_expires_at :: system_time
  jt_consumed :: bool
  jt_attestation_mode :: attestation_mode
  jt_node_id :: string

record node_retirement =
  ret_node_id :: string
  ret_retired_by :: string
  ret_reason :: string
  ret_retired_at_unix_ms :: nat
  ret_released_placements :: "(string \<times> nat) list"
  ret_released_registry_writers :: "(string \<times> nat) list"
  ret_released_node_fault :: "nat option"
  ret_released_endpoint_consumer :: bool

record crl_entry =
  ce_serial :: nat
  ce_issuer :: ca_role
  ce_revoked_at :: system_time
  ce_reason :: string
  ce_expires_at :: "system_time option"

record crl =
  crl_retired_nodes :: "(string \<times> node_retirement) list"
  crl_entries :: "crl_entry list"
  crl_version :: nat
  crl_updated_at :: system_time

definition crl_default :: crl where
  "crl_default = \<lparr>crl_retired_nodes = [], crl_entries = [], crl_version = 0, crl_updated_at = 0\<rparr>"

record security_state =
  ss_certificate_authorities :: "certificate_authority list"
  ss_age_keypairs :: "age_keypair list"
  ss_api_tokens :: "api_token list"
  ss_join_tokens :: "join_token list"
  ss_next_serial :: nat
  ss_oidc_signing_config :: "oidc_signing_config option"
  ss_crl :: crl
  ss_secret_seals :: "(string \<times> secret_seal) list"
  ss_node_leaves :: "(string \<times> node_leaf_record) list"
  ss_pending_intermediates :: "pending_intermediate list"

definition security_default :: security_state where
  "security_default = \<lparr>ss_certificate_authorities = [], ss_age_keypairs = [], ss_api_tokens = [],
     ss_join_tokens = [], ss_next_serial = 0, ss_oidc_signing_config = None, ss_crl = crl_default,
     ss_secret_seals = [], ss_node_leaves = [], ss_pending_intermediates = []\<rparr>"

definition is_initialised :: "security_state \<Rightarrow> bool" where
  "is_initialised s \<longleftrightarrow>
     ss_certificate_authorities s \<noteq> [] \<or> ss_age_keypairs s \<noteq> [] \<or> ss_api_tokens s \<noteq> []"

section \<open>The last of the greatest\<close>

text \<open>\<open>Iterator::max_by_key\<close>: of several elements with the greatest key, the last one.\<close>

fun max_by :: "('a \<Rightarrow> 'a \<Rightarrow> bool) \<Rightarrow> 'a list \<Rightarrow> 'a option" where
  "max_by le [] = None"
| "max_by le (x # xs) = Some (foldl (\<lambda>b y. if le b y then y else b) x xs)"

lemma foldl_max_in: "foldl (\<lambda>b y. if le b y then y else b) x xs \<in> insert x (set xs)"
  by (induction xs arbitrary: x) (simp, force)

lemma max_by_in: "max_by le xs = Some m \<Longrightarrow> m \<in> set xs"
  using foldl_max_in [of le] by (cases xs) auto

lemma max_by_None [simp]: "max_by le xs = None \<longleftrightarrow> xs = []"
  by (cases xs) auto

lemma foldl_max_start:
  fixes f :: "'a \<Rightarrow> 'b::linorder"
  shows "f x \<le> f (foldl (\<lambda>b z. if f b \<le> f z then z else b) x xs)"
  by (induction xs arbitrary: x) (auto intro: order_trans)

lemma foldl_max_key:
  fixes f :: "'a \<Rightarrow> 'b::linorder"
  shows "y \<in> insert x (set xs) \<Longrightarrow> f y \<le> f (foldl (\<lambda>b z. if f b \<le> f z then z else b) x xs)"
proof (induction xs arbitrary: x)
  case (Cons a xs)
  let ?x = "if f x \<le> f a then a else x"
  consider "y = x \<or> y = a" | "y \<in> set xs" using Cons.prems by auto
  then show ?case
  proof cases
    case 1
    then have "f y \<le> f ?x" by auto
    then show ?thesis using foldl_max_start [of f ?x xs] by simp
  next
    case 2
    then show ?thesis using Cons.IH [of ?x] by simp
  qed
qed simp

lemma max_by_key:
  fixes f :: "'a \<Rightarrow> 'b::linorder"
  assumes "max_by (\<lambda>a b. f a \<le> f b) xs = Some m" "x \<in> set xs"
  shows "f x \<le> f m"
  using assms foldl_max_key [of x _ _ f] by (cases xs) (auto split: if_splits)

section \<open>Certificate authorities\<close>

definition active_ca :: "security_state \<Rightarrow> ca_role \<Rightarrow> certificate_authority option" where
  "active_ca s role = max_by (\<lambda>a b. ca_generation a \<le> ca_generation b)
     (filter (\<lambda>ca. ca_role_of ca = role \<and> ca_state_of ca = CaActive) (ss_certificate_authorities s))"

definition retiring_ca :: "security_state \<Rightarrow> ca_role \<Rightarrow> certificate_authority option" where
  "retiring_ca s role =
     find (\<lambda>ca. ca_role_of ca = role \<and> ca_state_of ca \<noteq> CaActive) (ss_certificate_authorities s)"

text \<open>
  The authorities a verifier accepts: a stable sort on (is not active, generation descending)
  puts the active ones first, each group by falling generation.
\<close>

definition trusted_cas :: "security_state \<Rightarrow> ca_role \<Rightarrow> certificate_authority list" where
  "trusted_cas s role =
     (let cas = filter (\<lambda>ca. ca_role_of ca = role) (ss_certificate_authorities s);
          newest_first = sort_key (\<lambda>ca. - int (ca_generation ca))
      in newest_first (filter (\<lambda>ca. ca_state_of ca = CaActive) cas) @
         newest_first (filter (\<lambda>ca. ca_state_of ca \<noteq> CaActive) cas))"

section \<open>Age keys\<close>

definition keys_of :: "age_keypair list \<Rightarrow> age_key_scope \<Rightarrow> age_keypair list" where
  "keys_of kps scope = filter (\<lambda>kp. kp_scope kp = scope) kps"

definition active_age_keypair :: "security_state \<Rightarrow> age_key_scope \<Rightarrow> age_keypair option" where
  "active_age_keypair s scope =
     (let newest = max_by (\<lambda>a b. kp_generation a \<le> kp_generation b);
          keys = keys_of (ss_age_keypairs s) scope
      in case newest (filter (\<lambda>kp. \<not> kp_read_only kp) keys) of
           Some kp \<Rightarrow> Some kp
         | None \<Rightarrow> newest keys)"

definition age_keypairs_for_scope :: "security_state \<Rightarrow> age_key_scope \<Rightarrow> age_keypair list" where
  "age_keypairs_for_scope s scope =
     sort_key (\<lambda>kp. - int (kp_generation kp)) (keys_of (ss_age_keypairs s) scope)"

definition has_namespace_key :: "security_state \<Rightarrow> string \<Rightarrow> bool" where
  "has_namespace_key s ns \<longleftrightarrow> list_ex (\<lambda>kp. kp_scope kp = NamespaceKey ns) (ss_age_keypairs s)"

definition decryption_keypairs :: "security_state \<Rightarrow> string \<Rightarrow> age_keypair list" where
  "decryption_keypairs s ns =
     age_keypairs_for_scope s (if has_namespace_key s ns then NamespaceKey ns else ClusterWide)"

lemma set_keys_of [simp]: "set (keys_of kps scope) = {kp \<in> set kps. kp_scope kp = scope}"
  by (auto simp: keys_of_def)

lemma set_age_keypairs_for_scope [simp]:
  "set (age_keypairs_for_scope s scope) = {kp \<in> set (ss_age_keypairs s). kp_scope kp = scope}"
  by (simp add: age_keypairs_for_scope_def)

lemma active_age_keypair_in:
  "active_age_keypair s scope = Some kp \<Longrightarrow> kp \<in> set (ss_age_keypairs s) \<and> kp_scope kp = scope"
  by (auto simp: active_age_keypair_def Let_def split: option.splits dest!: max_by_in)

section \<open>API tokens\<close>

definition EXPIRED_TOKEN_GRACE_MS :: nat where
  "EXPIRED_TOKEN_GRACE_MS = 24 * 60 * 60 * 1000"

definition unix_millis :: "system_time \<Rightarrow> nat" where
  "unix_millis at = (if at < 0 then 0 else min (nat at div 1000000) u64_max)"

definition token_due :: "nat \<Rightarrow> api_token \<Rightarrow> bool" where
  "token_due now tok = (case tok_expires_at tok of
     None \<Rightarrow> False
   | Some at \<Rightarrow> sat_add64 (unix_millis at) EXPIRED_TOKEN_GRACE_MS < now)"

text \<open>The tuple order of (expiry, name); a missing expiry comes before any other.\<close>

definition later_token :: "api_token \<Rightarrow> api_token \<Rightarrow> bool" where
  "later_token a b = (case (map_option unix_millis (tok_expires_at a), map_option unix_millis (tok_expires_at b)) of
     (None, None) \<Rightarrow> tok_name a \<le> tok_name b
   | (None, Some _) \<Rightarrow> True
   | (Some _, None) \<Rightarrow> False
   | (Some x, Some y) \<Rightarrow> x < y \<or> (x = y \<and> tok_name a \<le> tok_name b))"

definition admins :: "api_token list \<Rightarrow> api_token list" where
  "admins toks = filter (\<lambda>t. tok_role t = Admin) toks"

definition tokens_to_sweep :: "api_token list \<Rightarrow> nat \<Rightarrow> string list" where
  "tokens_to_sweep tokens now =
     (let due = filter (token_due now) tokens;
          latest = (\<lambda>candidates. map_option tok_name (max_by later_token candidates));
          keep = (if admins tokens \<noteq> [] \<and> length (admins due) = length (admins tokens) then latest (admins due)
                  else if due \<noteq> [] \<and> length due = length tokens then latest due
                  else None)
      in map tok_name (filter (\<lambda>t. Some (tok_name t) \<noteq> keep) due))"

definition apply_rotation :: "token_rotation \<Rightarrow> api_token \<Rightarrow> api_token" where
  "apply_rotation r tok = tok\<lparr>
     tok_token_hash := tr_token_hash r,
     tok_previous_secret := map_option
       (\<lambda>until. \<lparr>ps_token_hash = tok_token_hash tok, ps_valid_until = until\<rparr>) (tr_previous_valid_until r),
     tok_created_at := tr_rotated_at r,
     tok_expires_at := tr_expires_at r\<rparr>"

datatype matched_secret = CurrentSecret | PreviousSecret

datatype token_error = TokenExpired | TokenRotated | TokenValidationFailed | InsufficientRole api_role

definition validate_digest_at :: "string \<Rightarrow> api_token \<Rightarrow> system_time \<Rightarrow> token_error + matched_secret" where
  "validate_digest_at candidate tok now =
     (if candidate = tok_token_hash tok then
        (case tok_expires_at tok of
           Some at \<Rightarrow> if now > at then Inl TokenExpired else Inr CurrentSecret
         | None \<Rightarrow> Inr CurrentSecret)
      else case tok_previous_secret tok of
        None \<Rightarrow> Inl TokenValidationFailed
      | Some prev \<Rightarrow>
          if candidate \<noteq> ps_token_hash prev then Inl TokenValidationFailed
          else if now \<ge> ps_valid_until prev then Inl TokenRotated
          else Inr PreviousSecret)"

definition role_level :: "api_role \<Rightarrow> nat" where
  "role_level r = (case r of Admin \<Rightarrow> 3 | Deployer \<Rightarrow> 2 | ReadOnly \<Rightarrow> 1)"

definition check_role :: "api_role \<Rightarrow> api_role \<Rightarrow> token_error + unit" where
  "check_role held required =
     (if role_level held \<ge> role_level required then Inr () else Inl (InsufficientRole required))"

text \<open>The bearer arrives hashed: \<open>digest\<close> is SHA-256, a function of the library.\<close>

fun find_valid_token :: "string \<Rightarrow> api_token list \<Rightarrow> system_time \<Rightarrow> token_error + (api_token \<times> matched_secret)" where
  "find_valid_token candidate [] now = Inl TokenValidationFailed"
| "find_valid_token candidate (tok # toks) now =
     (case validate_digest_at candidate tok now of
        Inr matched \<Rightarrow> Inr (tok, matched)
      | Inl TokenValidationFailed \<Rightarrow> find_valid_token candidate toks now
      | Inl e \<Rightarrow> Inl e)"

section \<open>Rotating an intermediate CA\<close>

datatype ca_rotation_error =
    RootRotationUnsupported
  | RoleMismatch ca_role ca_role
  | NoActiveCa ca_role
  | AlreadyInProgress ca_role
  | WrongGeneration ca_role nat nat
  | MissingKey ca_role
  | NotSignedByRoot ca_role
  | NotInProgress ca_role
  | LiveNodeLeaves "string list"
  | LeavesMayStillBeValid ca_role nat
  | UnacknowledgedTrust "string list"
  | UnknownNode string
  | UnknownGeneration nat nat

datatype begin_outcome = Started | AlreadyApplied

definition second :: int where
  "second = 1000000000"

definition CLOCK_SKEW_BACKDATE :: int where
  "CLOCK_SKEW_BACKDATE = 300 * second"

definition longest_leaf_lifetime :: "ca_role \<Rightarrow> int" where
  "longest_leaf_lifetime role = (case role of
     NodeCa \<Rightarrow> 365 * 24 * 3600 * second
   | IngressCa \<Rightarrow> 90 * 24 * 3600 * second
   | WorkloadCa \<Rightarrow> 3600 * second
   | RootCa \<Rightarrow> 5 * 365 * 24 * 3600 * second)"

definition retire_generation :: "ca_role \<Rightarrow> nat \<Rightarrow> system_time \<Rightarrow> certificate_authority \<Rightarrow> certificate_authority" where
  "retire_generation role gen until ca =
     (if ca_role_of ca = role \<and> ca_generation ca = gen then ca\<lparr>ca_state_of := CaRetiring until\<rparr> else ca)"

definition begin_rotation ::
  "(string \<Rightarrow> string \<Rightarrow> bool) \<Rightarrow> ca_role \<Rightarrow> certificate_authority \<Rightarrow> security_state \<Rightarrow>
     ca_rotation_error + (begin_outcome \<times> security_state)" where
  "begin_rotation signed_by role new_ca s =
     (if role = RootCa then Inl RootRotationUnsupported
      else if ca_role_of new_ca \<noteq> role then Inl (RoleMismatch role (ca_role_of new_ca))
      else if list_ex (\<lambda>ca. ca_role_of ca = role \<and> ca_generation ca = ca_generation new_ca)
                (ss_certificate_authorities s)
        then Inr (AlreadyApplied, s)
      else if retiring_ca s role \<noteq> None then Inl (AlreadyInProgress role)
      else case active_ca s role of
        None \<Rightarrow> Inl (NoActiveCa role)
      | Some active \<Rightarrow>
          let expected = add64 (ca_generation active) 1 in
          if ca_generation new_ca \<noteq> expected then Inl (WrongGeneration role expected (ca_generation new_ca))
          else if ca_private_key_wrapped new_ca = None then Inl (MissingKey role)
          else case active_ca s RootCa of
            None \<Rightarrow> Inl (NoActiveCa RootCa)
          | Some root \<Rightarrow>
              if \<not> signed_by (ca_certificate_der new_ca) (ca_certificate_der root) then Inl (NotSignedByRoot role)
              else let until = ca_not_before new_ca + CLOCK_SKEW_BACKDATE + longest_leaf_lifetime role in
                Inr (Started, s\<lparr>
                  ss_certificate_authorities :=
                    map (retire_generation role (ca_generation active) until) (ss_certificate_authorities s)
                      @ [new_ca\<lparr>ca_state_of := CaActive\<rparr>],
                  ss_pending_intermediates := filter (\<lambda>p. pi_role p \<noteq> role) (ss_pending_intermediates s)\<rparr>))"

definition active_node_generation :: "security_state \<Rightarrow> nat" where
  "active_node_generation s = (case active_ca s NodeCa of None \<Rightarrow> 0 | Some ca \<Rightarrow> ca_generation ca)"

definition is_retired :: "security_state \<Rightarrow> string \<Rightarrow> bool" where
  "is_retired s node \<longleftrightarrow> node \<in> fst ` set (crl_retired_nodes (ss_crl s))"

definition nodes_not_trusting_active_ca :: "security_state \<Rightarrow> string list" where
  "nodes_not_trusting_active_ca s =
     map fst (filter (\<lambda>(n, leaf). nl_trust_generation leaf < active_node_generation s \<and> \<not> is_retired s n)
       (ss_node_leaves s))"

definition nodes_on_retiring_ca :: "security_state \<Rightarrow> nat \<Rightarrow> string list" where
  "nodes_on_retiring_ca s gen =
     map fst (filter (\<lambda>(n, leaf). nl_ca_generation leaf \<le> gen \<and> \<not> is_retired s n) (ss_node_leaves s))"

definition finalize_rotation :: "ca_role \<Rightarrow> system_time \<Rightarrow> security_state \<Rightarrow> ca_rotation_error + security_state" where
  "finalize_rotation role now s =
     (case retiring_ca s role of
        None \<Rightarrow> Inl (NotInProgress role)
      | Some retiring \<Rightarrow>
          case ca_state_of retiring of
            CaActive \<Rightarrow> Inl (NotInProgress role)
          | CaRetiring until \<Rightarrow>
              if role = NodeCa \<and> nodes_not_trusting_active_ca s \<noteq> []
                then Inl (UnacknowledgedTrust (nodes_not_trusting_active_ca s))
              else if now < until \<and> role \<noteq> NodeCa
                then Inl (LeavesMayStillBeValid role (nat until div nat second))
              else if now < until \<and> nodes_on_retiring_ca s (ca_generation retiring) \<noteq> []
                then Inl (LiveNodeLeaves (nodes_on_retiring_ca s (ca_generation retiring)))
              else Inr (s\<lparr>ss_certificate_authorities :=
                filter (\<lambda>ca. ca_role_of ca \<noteq> role \<or> ca_state_of ca = CaActive) (ss_certificate_authorities s)\<rparr>))"

definition record_node_leaf :: "string \<Rightarrow> nat \<Rightarrow> security_state \<Rightarrow> security_state" where
  "record_node_leaf node serial s =
     (let gen = active_node_generation s;
          trust = (case map_of (ss_node_leaves s) node of None \<Rightarrow> gen | Some leaf \<Rightarrow> nl_trust_generation leaf)
      in s\<lparr>ss_node_leaves := bt_insert node
             \<lparr>nl_serial = serial, nl_ca_generation = gen, nl_trust_generation = trust\<rparr> (ss_node_leaves s)\<rparr>)"

definition prepare_rotation ::
  "ca_role \<Rightarrow> nat \<Rightarrow> string \<Rightarrow> wrapped_key \<Rightarrow> security_state \<Rightarrow> ca_rotation_error + (nat \<times> security_state)" where
  "prepare_rotation role gen csr key s =
     (if role = RootCa then Inl RootRotationUnsupported
      else if retiring_ca s role \<noteq> None then Inl (AlreadyInProgress role)
      else case active_ca s role of
        None \<Rightarrow> Inl (NoActiveCa role)
      | Some active \<Rightarrow>
          let expected = add64 (ca_generation active) 1 in
          if gen \<noteq> expected then Inl (WrongGeneration role expected gen)
          else let serial = ss_next_serial s in
            Inr (serial, s\<lparr>
              ss_next_serial := add64 serial 1,
              ss_pending_intermediates := filter (\<lambda>p. pi_role p \<noteq> role) (ss_pending_intermediates s)
                @ [\<lparr>pi_role = role, pi_generation = gen, pi_serial = serial, pi_csr_der = csr,
                    pi_private_key_wrapped = key\<rparr>]\<rparr>))"

definition acknowledge_trust :: "string \<Rightarrow> nat \<Rightarrow> security_state \<Rightarrow> ca_rotation_error + security_state" where
  "acknowledge_trust node gen s =
     (if gen > active_node_generation s then Inl (UnknownGeneration gen (active_node_generation s))
      else case map_of (ss_node_leaves s) node of
        None \<Rightarrow> Inl (UnknownNode node)
      | Some leaf \<Rightarrow> Inr (s\<lparr>ss_node_leaves := bt_insert node
          (leaf\<lparr>nl_trust_generation := max (nl_trust_generation leaf) gen\<rparr>) (ss_node_leaves s)\<rparr>))"

record trust_set =
  tset_node_cas :: "string list"
  tset_roots :: "string list"

definition trust_set_from_state :: "security_state \<Rightarrow> trust_set option" where
  "trust_set_from_state s =
     (let ders = (\<lambda>role. map ca_certificate_der (trusted_cas s role))
      in if ders NodeCa \<noteq> [] \<and> ders RootCa \<noteq> []
         then Some \<lparr>tset_node_cas = ders NodeCa, tset_roots = ders RootCa\<rparr> else None)"

definition trust_acknowledgement_due :: "security_state \<Rightarrow> string \<Rightarrow> trust_set \<Rightarrow> nat option" where
  "trust_acknowledgement_due s node installed =
     (case map_of (ss_node_leaves s) node of
        None \<Rightarrow> None
      | Some leaf \<Rightarrow>
          if nl_trust_generation leaf \<ge> active_node_generation s then None
          else if trust_set_from_state s = Some installed then Some (active_node_generation s)
          else None)"

definition EARLY_RENEWAL_STAGGER :: int where
  "EARLY_RENEWAL_STAGGER = 60 * second"

definition early_renewal_due :: "security_state \<Rightarrow> string \<Rightarrow> nat \<Rightarrow> system_time \<Rightarrow> bool" where
  "early_renewal_due s node leaf_gen now =
     (case active_ca s NodeCa of
        None \<Rightarrow> False
      | Some active \<Rightarrow>
          if leaf_gen \<ge> ca_generation active \<or> nodes_not_trusting_active_ca s \<noteq> [] then False
          else let earlier = filter (\<lambda>(other, _). other < node \<and> \<not> is_retired s other) (ss_node_leaves s) in
            if list_all (\<lambda>(_, leaf). nl_ca_generation leaf \<ge> ca_generation active) earlier then True
            else now \<ge> ca_not_before active + CLOCK_SKEW_BACKDATE
                        + EARLY_RENEWAL_STAGGER * int (min (length earlier) u32_max))"

section \<open>Joining and serial numbers\<close>

definition MAX_JOIN_TOKENS :: nat where
  "MAX_JOIN_TOKENS = 1024"

definition add_join_token :: "join_token \<Rightarrow> security_state \<Rightarrow> security_state" where
  "add_join_token jt s =
     (let toks = filter (\<lambda>t. \<not> jt_consumed t) (ss_join_tokens s) @ [jt]
      in s\<lparr>ss_join_tokens := drop (length toks - MAX_JOIN_TOKENS) toks\<rparr>)"

definition consume_first :: "string \<Rightarrow> join_token list \<Rightarrow> join_token list" where
  "consume_first h = update_first (\<lambda>t. jt_token_hash t = h) (\<lambda>t. t\<lparr>jt_consumed := True\<rparr>)"

definition allocate_serial :: "security_state \<Rightarrow> nat \<times> security_state" where
  "allocate_serial s = (ss_next_serial s, s\<lparr>ss_next_serial := add64 (ss_next_serial s) 1\<rparr>)"


section \<open>The sweep keeps an administrator\<close>

definition swept :: "nat \<Rightarrow> api_token list \<Rightarrow> api_token list" where
  "swept now toks = filter (\<lambda>t. tok_name t \<notin> set (tokens_to_sweep toks now)) toks"

lemma in_admins [simp]: "t \<in> set (admins toks) \<longleftrightarrow> t \<in> set toks \<and> tok_role t = Admin"
  by (simp add: admins_def)

lemma admins_filter: "admins (filter P toks) = filter P (admins toks)"
  by (simp add: admins_def conj_commute)

lemma distinct_names_eq:
  "distinct (map tok_name toks) \<Longrightarrow> t \<in> set toks \<Longrightarrow> t' \<in> set toks \<Longrightarrow> tok_name t = tok_name t' \<Longrightarrow> t = t'"
  by (simp add: distinct_map inj_on_def)

lemma swept_names:
  assumes "distinct (map tok_name toks)" "t \<in> set toks" "tok_name t \<in> set (tokens_to_sweep toks now)"
  shows "token_due now t"
  using assms distinct_names_eq [OF assms(1,2)] by (auto simp: tokens_to_sweep_def Let_def)

lemma sweep_spares:
  assumes keep: "keep = (if admins toks \<noteq> [] \<and> length (admins (filter (token_due now) toks)) = length (admins toks)
      then map_option tok_name (max_by later_token (admins (filter (token_due now) toks)))
      else if filter (token_due now) toks \<noteq> [] \<and> length (filter (token_due now) toks) = length toks
      then map_option tok_name (max_by later_token (filter (token_due now) toks)) else None)"
    and "keep = Some (tok_name t)" "t \<in> set toks"
  shows "t \<in> set (swept now toks)"
  using assms by (auto simp: swept_def tokens_to_sweep_def Let_def)

lemma sweep_keeps_admin:
  assumes "distinct (map tok_name toks)" "admins toks \<noteq> []"
  shows "admins (swept now toks) \<noteq> []"
proof (cases "\<forall>t \<in> set (admins toks). token_due now t")
  case True
  let ?due = "admins (filter (token_due now) toks)"
  have due: "?due = admins toks"
    using True by (simp add: admins_filter filter_id_conv)
  obtain m where m: "max_by later_token ?due = Some m"
    using assms(2) due by (cases "max_by later_token ?due") auto
  then have "m \<in> set ?due" by (rule max_by_in)
  moreover have "m \<in> set (swept now toks)"
    by (rule sweep_spares [OF refl]) (use assms(2) due m \<open>m \<in> set ?due\<close> in auto)
  ultimately show ?thesis
    by (metis due empty_iff empty_set in_admins)
next
  case False
  then obtain t where t: "t \<in> set toks" "tok_role t = Admin" "\<not> token_due now t" by auto
  then have "t \<in> set (swept now toks)"
    using swept_names [OF assms(1) t(1)] by (auto simp: swept_def)
  with t show ?thesis by (metis empty_iff empty_set in_admins)
qed

lemma sweep_keeps_token:
  assumes "distinct (map tok_name toks)" "toks \<noteq> []"
  shows "swept now toks \<noteq> []"
proof (cases "admins toks = [] \<and> (\<forall>t \<in> set toks. token_due now t)")
  case True
  then have due: "filter (token_due now) toks = toks" by (simp add: filter_id_conv)
  obtain m where m: "max_by later_token toks = Some m"
    using assms(2) by (cases "max_by later_token toks") auto
  then have "m \<in> set toks" by (rule max_by_in)
  then have "m \<in> set (swept now toks)"
    by - (rule sweep_spares [OF refl], use True assms(2) due m in auto)
  then show ?thesis by auto
next
  case False
  then consider "admins toks \<noteq> []" | t where "t \<in> set toks" "\<not> token_due now t" by auto
  then show ?thesis
  proof cases
    case 1
    then have "admins (swept now toks) \<noteq> []" by (rule sweep_keeps_admin [OF assms(1)])
    then show ?thesis by (auto simp: admins_def)
  next
    case 2
    then have "t \<in> set (swept now toks)"
      using swept_names [OF assms(1) 2(1)] by (auto simp: swept_def)
    then show ?thesis by auto
  qed
qed

section \<open>The shape of the CA hierarchy\<close>

text \<open>
  Per role: generations are pairwise different, at most one authority signs, and an authority
  that is retiring is the direct predecessor of the one that signs.
\<close>

definition cas_of :: "security_state \<Rightarrow> ca_role \<Rightarrow> certificate_authority set" where
  "cas_of s role = {ca \<in> set (ss_certificate_authorities s). ca_role_of ca = role}"

definition ca_shape :: "security_state \<Rightarrow> ca_role \<Rightarrow> bool" where
  "ca_shape s role \<longleftrightarrow>
     (\<forall>a \<in> cas_of s role. \<forall>b \<in> cas_of s role.
        (ca_state_of a = CaActive \<and> ca_state_of b = CaActive \<longrightarrow> ca_generation a = ca_generation b) \<and>
        (ca_state_of a \<noteq> CaActive \<and> ca_state_of b = CaActive \<longrightarrow> Suc (ca_generation a) = ca_generation b)) \<and>
     (cas_of s role \<noteq> {} \<longrightarrow> (\<exists>a \<in> cas_of s role. ca_state_of a = CaActive)) \<and>
     (\<forall>a \<in> cas_of s role. ca_generation a \<le> u64_max)"

definition leaves_ok :: "security_state \<Rightarrow> bool" where
  "leaves_ok s \<longleftrightarrow> (\<forall>(n, leaf) \<in> set (ss_node_leaves s). nl_ca_generation leaf \<le> active_node_generation s \<and>
     nl_trust_generation leaf \<le> active_node_generation s)"

definition ca_inv :: "security_state \<Rightarrow> bool" where
  "ca_inv s \<longleftrightarrow> (\<forall>role. ca_shape s role) \<and> leaves_ok s \<and> bt_ok (ss_node_leaves s)"

lemma active_ca_in:
  "active_ca s role = Some ca \<Longrightarrow> ca \<in> cas_of s role \<and> ca_state_of ca = CaActive"
  by (auto simp: active_ca_def cas_of_def dest!: max_by_in)

lemma active_ca_None: "active_ca s role = None \<longleftrightarrow> (\<forall>ca \<in> cas_of s role. ca_state_of ca \<noteq> CaActive)"
  by (auto simp: active_ca_def cas_of_def filter_empty_conv)

lemma retiring_ca_in:
  "retiring_ca s role = Some ca \<Longrightarrow> ca \<in> cas_of s role \<and> ca_state_of ca \<noteq> CaActive"
  by (auto simp: retiring_ca_def cas_of_def find_Some_iff)

lemma retiring_ca_None: "retiring_ca s role = None \<longleftrightarrow> (\<forall>ca \<in> cas_of s role. ca_state_of ca = CaActive)"
  by (auto simp: retiring_ca_def cas_of_def find_None_iff)

lemma ca_shape_active:
  assumes "ca_shape s role" "active_ca s role = Some ca" "b \<in> cas_of s role" "ca_state_of b = CaActive"
  shows "ca_generation b = ca_generation ca"
proof -
  from active_ca_in [OF assms(2)] have "ca \<in> cas_of s role" "ca_state_of ca = CaActive" by simp_all
  with assms(1,3,4) show ?thesis unfolding ca_shape_def by blast
qed

lemma active_node_generation_eq:
  assumes "ca_shape s NodeCa" "ca \<in> cas_of s NodeCa" "ca_state_of ca = CaActive"
  shows "active_node_generation s = ca_generation ca"
proof -
  obtain a where a: "active_ca s NodeCa = Some a"
    using active_ca_None [of s NodeCa] assms(2,3) by (cases "active_ca s NodeCa") auto
  from ca_shape_active [OF assms(1) a assms(2,3)] a show ?thesis
    by (simp add: active_node_generation_def)
qed

lemma cas_of_cong: "ss_certificate_authorities s' = ss_certificate_authorities s \<Longrightarrow> cas_of s' = cas_of s"
  by (auto simp: cas_of_def fun_eq_iff)

lemma ca_inv_frame:
  assumes "ss_certificate_authorities s' = ss_certificate_authorities s" "ss_node_leaves s' = ss_node_leaves s"
  shows "ca_inv s' \<longleftrightarrow> ca_inv s"
  using assms by (simp add: ca_inv_def ca_shape_def leaves_ok_def active_node_generation_def active_ca_def cas_of_def)


lemma begin_rotation_Started:
  assumes "begin_rotation signed_by role new_ca s = Inr (Started, s')"
  obtains a until where "role \<noteq> RootCa" "ca_role_of new_ca = role" "retiring_ca s role = None"
    "active_ca s role = Some a" "ca_generation new_ca = add64 (ca_generation a) 1"
    "s' = s\<lparr>ss_certificate_authorities :=
        map (retire_generation role (ca_generation a) until) (ss_certificate_authorities s)
          @ [new_ca\<lparr>ca_state_of := CaActive\<rparr>],
      ss_pending_intermediates := filter (\<lambda>p. pi_role p \<noteq> role) (ss_pending_intermediates s)\<rparr>"
  using assms by (auto simp: begin_rotation_def Let_def split: if_splits option.splits)

lemma begin_rotation_AlreadyApplied:
  "begin_rotation signed_by role new_ca s = Inr (AlreadyApplied, s') \<Longrightarrow> s' = s"
  by (auto simp: begin_rotation_def Let_def split: if_splits option.splits)

lemma retire_generation_role [simp]: "ca_role_of (retire_generation role g until ca) = ca_role_of ca"
  by (simp add: retire_generation_def)

lemma retire_generation_gen [simp]: "ca_generation (retire_generation role g until ca) = ca_generation ca"
  by (simp add: retire_generation_def)

lemma retire_generation_other: "ca_role_of ca \<noteq> role \<Longrightarrow> retire_generation role g until ca = ca"
  by (simp add: retire_generation_def)

lemma ca_shape_cong: "cas_of s' r = cas_of s r \<Longrightarrow> ca_shape s' r = ca_shape s r"
  by (simp only: ca_shape_def)

lemma ca_shape_bound: "ca_shape s r \<Longrightarrow> a \<in> cas_of s r \<Longrightarrow> ca_generation a \<le> u64_max"
  unfolding ca_shape_def by blast

lemma ca_shape_signer: "ca_shape s r \<Longrightarrow> b \<in> cas_of s r \<Longrightarrow> \<exists>a \<in> cas_of s r. ca_state_of a = CaActive"
  unfolding ca_shape_def by blast

lemma ca_shape_suc:
  "ca_shape s r \<Longrightarrow> b \<in> cas_of s r \<Longrightarrow> ca_state_of b \<noteq> CaActive \<Longrightarrow> a \<in> cas_of s r \<Longrightarrow> ca_state_of a = CaActive \<Longrightarrow>
     ca_generation a = Suc (ca_generation b)"
  unfolding ca_shape_def by metis

lemma active_node_generation_cong:
  assumes "ca_shape s NodeCa" "cas_of s' NodeCa = cas_of s NodeCa"
  shows "active_node_generation s' = active_node_generation s"
proof (cases "\<exists>ca \<in> cas_of s NodeCa. ca_state_of ca = CaActive")
  case True
  then obtain ca where ca: "ca \<in> cas_of s NodeCa" "ca_state_of ca = CaActive" by auto
  have "ca_shape s' NodeCa" using assms ca_shape_cong by blast
  with ca assms show ?thesis
    using active_node_generation_eq [of s ca] active_node_generation_eq [of s' ca] by simp
next
  case False
  then have "active_ca s NodeCa = None" "active_ca s' NodeCa = None" using assms(2) by (auto simp: active_ca_None)
  then show ?thesis by (simp add: active_node_generation_def)
qed

lemma ca_inv_begin:
  assumes started: "begin_rotation signed_by role new_ca s = Inr (Started, s')"
    and inv: "ca_inv s" and pos: "0 < ca_generation new_ca" "ca_generation new_ca \<le> u64_max"
  shows "ca_inv s'"
proof -
  obtain a until where role: "role \<noteq> RootCa" "ca_role_of new_ca = role" and none: "retiring_ca s role = None"
    and act: "active_ca s role = Some a" and gen: "ca_generation new_ca = add64 (ca_generation a) 1"
    and s': "s' = s\<lparr>ss_certificate_authorities :=
        map (retire_generation role (ca_generation a) until) (ss_certificate_authorities s)
          @ [new_ca\<lparr>ca_state_of := CaActive\<rparr>],
      ss_pending_intermediates := filter (\<lambda>p. pi_role p \<noteq> role) (ss_pending_intermediates s)\<rparr>"
    by (rule begin_rotation_Started [OF started])
  let ?new = "new_ca\<lparr>ca_state_of := CaActive\<rparr>"
  have shape: "ca_shape s r" for r using inv by (simp add: ca_inv_def)
  have a: "a \<in> cas_of s role" using active_ca_in [OF act] by simp
  have "ca_generation a \<le> u64_max" using ca_shape_bound [OF shape a] .
  then have suc: "ca_generation new_ca = Suc (ca_generation a)"
    using gen pos(1) by (auto simp: add64_def mod_Suc split: if_splits)
  have old: "ca_state_of c = CaActive \<and> ca_generation c = ca_generation a" if "c \<in> cas_of s role" for c
    using that none ca_shape_active [OF shape act that] by (simp add: retiring_ca_None)
  have mine: "c = ?new \<or> (ca_state_of c \<noteq> CaActive \<and> ca_generation c = ca_generation a)"
    if "c \<in> cas_of s' role" for c
    using that old role(2) by (fastforce simp: s' cas_of_def retire_generation_def)
  have new: "?new \<in> cas_of s' role" by (simp add: s' cas_of_def role)
  have "ca_shape s' role"
    unfolding ca_shape_def
  proof (intro conjI ballI impI)
    show "ca_generation x = ca_generation y"
      if "x \<in> cas_of s' role" "y \<in> cas_of s' role" "ca_state_of x = CaActive \<and> ca_state_of y = CaActive" for x y
      using mine [OF that(1)] mine [OF that(2)] that(3) by auto
    show "Suc (ca_generation x) = ca_generation y"
      if "x \<in> cas_of s' role" "y \<in> cas_of s' role" "ca_state_of x \<noteq> CaActive \<and> ca_state_of y = CaActive" for x y
      using mine [OF that(1)] mine [OF that(2)] that(3) suc by auto
    show "\<exists>x \<in> cas_of s' role. ca_state_of x = CaActive" using new by (intro bexI [of _ ?new]) simp_all
    show "ca_generation x \<le> u64_max" if "x \<in> cas_of s' role" for x
      using mine [OF that] pos(2) suc by auto
  qed
  moreover have others: "cas_of s' r = cas_of s r" if "r \<noteq> role" for r
    using that role(2) by (force simp: s' cas_of_def retire_generation_def)
  ultimately have shapes: "ca_shape s' r" for r
    using shape [of r] ca_shape_cong [of s' r s] by (cases "r = role") simp_all
  moreover have "active_node_generation s \<le> active_node_generation s'"
  proof (cases "role = NodeCa")
    case True
    have "active_node_generation s' = ca_generation ?new"
      using new True shapes by (intro active_node_generation_eq) simp_all
    moreover have "active_node_generation s = ca_generation a"
      using a True shape active_ca_in [OF act] by (intro active_node_generation_eq) simp_all
    ultimately show ?thesis using suc by simp
  next
    case False
    then show ?thesis
      using active_node_generation_cong [OF shape, of s'] others by simp
  qed
  ultimately show ?thesis
    using inv by (auto simp: ca_inv_def leaves_ok_def s' intro: order_trans)
qed

lemma ca_inv_finalize:
  assumes fin: "finalize_rotation role now s = Inr s'" and inv: "ca_inv s"
  shows "ca_inv s'"
proof -
  have s': "s' = s\<lparr>ss_certificate_authorities :=
      filter (\<lambda>ca. ca_role_of ca \<noteq> role \<or> ca_state_of ca = CaActive) (ss_certificate_authorities s)\<rparr>"
    using fin by (auto simp: finalize_rotation_def split: option.splits ca_state.splits if_splits)
  have cas: "cas_of s' r = {ca \<in> cas_of s r. r \<noteq> role \<or> ca_state_of ca = CaActive}" for r
    by (auto simp: s' cas_of_def)
  have shape: "ca_shape s r" for r using inv by (simp add: ca_inv_def)
  have shapes: "ca_shape s' r" for r
  proof -
    have "\<exists>a \<in> cas_of s' r. ca_state_of a = CaActive" if "b \<in> cas_of s' r" for b
      using ca_shape_signer [OF shape, of b r] that unfolding cas by blast
    then show ?thesis
      using shape [of r] unfolding ca_shape_def cas by blast
  qed
  have "active_node_generation s' = active_node_generation s"
  proof (cases "cas_of s NodeCa = {}")
    case True
    then have "active_ca s NodeCa = None" "active_ca s' NodeCa = None" by (auto simp: active_ca_None cas)
    then show ?thesis by (simp add: active_node_generation_def)
  next
    case False
    then obtain ca where ca: "ca \<in> cas_of s NodeCa" "ca_state_of ca = CaActive"
      using ca_shape_signer [OF shape] by blast
    then have "ca \<in> cas_of s' NodeCa" by (simp add: cas)
    with ca show ?thesis
      using active_node_generation_eq [OF shape] active_node_generation_eq [OF shapes] by simp
  qed
  with shapes inv show ?thesis by (simp add: ca_inv_def leaves_ok_def s')
qed

lemma ca_inv_leaves:
  assumes inv: "ca_inv s" and leaf: "nl_ca_generation leaf \<le> active_node_generation s"
    "nl_trust_generation leaf \<le> active_node_generation s"
  shows "ca_inv (s\<lparr>ss_node_leaves := bt_insert node leaf (ss_node_leaves s)\<rparr>)"
proof -
  have same: "active_node_generation (s\<lparr>ss_node_leaves := x\<rparr>) = active_node_generation s"
    "ca_shape (s\<lparr>ss_node_leaves := x\<rparr>) r \<longleftrightarrow> ca_shape s r" for x r
    by (simp_all add: active_node_generation_def active_ca_def ca_shape_def cas_of_def)
  have "bt_ok (ss_node_leaves s)" using inv by (simp add: ca_inv_def)
  then have "set (bt_insert node leaf (ss_node_leaves s)) \<subseteq> insert (node, leaf) (set (ss_node_leaves s))"
    by (auto simp: set_bt_insert)
  with inv leaf show ?thesis
    by (auto simp: ca_inv_def leaves_ok_def same)
qed

lemma ca_inv_record_leaf:
  assumes "ca_inv s"
  shows "ca_inv (record_node_leaf node serial s)"
proof -
  have "nl_trust_generation leaf \<le> active_node_generation s" if "map_of (ss_node_leaves s) node = Some leaf" for leaf
    using assms map_of_SomeD [OF that] by (auto simp: ca_inv_def leaves_ok_def)
  then show ?thesis
    unfolding record_node_leaf_def Let_def by (intro ca_inv_leaves assms) (auto split: option.split)
qed

lemma ca_inv_acknowledge:
  assumes ack: "acknowledge_trust node gen s = Inr s'" and inv: "ca_inv s"
  shows "ca_inv s'"
proof -
  obtain leaf where leaf: "map_of (ss_node_leaves s) node = Some leaf" and gen: "gen \<le> active_node_generation s"
    and s': "s' = s\<lparr>ss_node_leaves := bt_insert node
      (leaf\<lparr>nl_trust_generation := max (nl_trust_generation leaf) gen\<rparr>) (ss_node_leaves s)\<rparr>"
    using ack by (auto simp: acknowledge_trust_def split: if_splits option.splits)
  have "nl_ca_generation leaf \<le> active_node_generation s" "nl_trust_generation leaf \<le> active_node_generation s"
    using inv map_of_SomeD [OF leaf] by (auto simp: ca_inv_def leaves_ok_def)
  with gen show ?thesis unfolding s' by (intro ca_inv_leaves inv) simp_all
qed

lemma ca_inv_prepare: "prepare_rotation role gen csr key s = Inr (serial, s') \<Longrightarrow> ca_inv s' \<longleftrightarrow> ca_inv s"
  by (rule ca_inv_frame) (auto simp: prepare_rotation_def Let_def split: if_splits option.splits)

text \<open>
  What finalising a rotation of the Node CA establishes: every node that is not decommissioned
  trusts the authority that signs, and, before the last old leaf has expired on its own, holds a
  leaf of an authority that is still accepted.
\<close>

lemma finalize_node_ca:
  assumes fin: "finalize_rotation NodeCa now s = Inr s'" and inv: "ca_inv s"
    and leaf: "(node, leaf) \<in> set (ss_node_leaves s)" "\<not> is_retired s node"
  obtains ca until where "retiring_ca s NodeCa = Some ca" "ca_state_of ca = CaRetiring until"
    "nl_trust_generation leaf = active_node_generation s"
    "now < until \<longrightarrow> nl_ca_generation leaf = active_node_generation s"
proof -
  obtain ca until where ca: "retiring_ca s NodeCa = Some ca" "ca_state_of ca = CaRetiring until"
    and trusting: "nodes_not_trusting_active_ca s = []"
    and moved: "now < until \<longrightarrow> nodes_on_retiring_ca s (ca_generation ca) = []"
    using fin by (auto simp: finalize_rotation_def split: option.splits ca_state.splits if_splits)
  have le: "nl_ca_generation leaf \<le> active_node_generation s" "nl_trust_generation leaf \<le> active_node_generation s"
    using inv leaf by (auto simp: ca_inv_def leaves_ok_def)
  have shape: "ca_shape s NodeCa" using inv by (simp add: ca_inv_def)
  have old: "ca \<in> cas_of s NodeCa" "ca_state_of ca \<noteq> CaActive" using retiring_ca_in [OF ca(1)] by auto
  then obtain a where a: "a \<in> cas_of s NodeCa" "ca_state_of a = CaActive"
    using ca_shape_signer [OF shape] by blast
  have "ca_generation a = Suc (ca_generation ca)" by (rule ca_shape_suc [OF shape old a])
  then have suc: "active_node_generation s = Suc (ca_generation ca)"
    using active_node_generation_eq [OF shape a] by simp
  show thesis
    by (rule that [OF ca])
      (use trusting moved leaf le suc in \<open>force simp: nodes_not_trusting_active_ca_def nodes_on_retiring_ca_def
        filter_empty_conv\<close>)+
qed


end
