(* ===== verification/Registry.thy ===== *)
theory Registry
  imports Security Transition_Systems
begin

text \<open>
  The manifest catalogue of the image registry (\<open>pickle/types.rs\<close>), which the council replicates:
  images, tags, which node holds which blob, and when an image lost its last tag. The operations
  are those the state machine applies: commits, holder confirmations, tag deletion, expiry,
  retirement of a repository, and the arbitration of garbage collection.

  Rust's \<open>BTreeSet\<close>s of nodes and tags are sets. A digest is the string it wraps.
\<close>

section \<open>Types\<close>

record layer_descriptor =
  ld_digest :: string
  ld_size :: nat
  ld_media_type :: string
  ld_platform :: "string option"

datatype signing_method = Keyless string string | ExternalKey string

datatype verification_material = CertificateChain "string list" | PublicKeyMaterial string

record image_signature =
  sig_method :: signing_method
  sig_signature :: string
  sig_verification_material :: verification_material
  sig_signed_at :: system_time

record image_manifest =
  im_digest :: string
  im_config :: layer_descriptor
  im_layers :: "layer_descriptor list"
  im_repository :: string
  im_tags :: "string set"
  im_total_size :: nat
  im_pushed_at :: system_time
  im_pushed_by :: nat
  im_signature :: "image_signature option"

definition all_digests :: "image_manifest \<Rightarrow> string list" where
  "all_digests m = ld_digest (im_config m) # map ld_digest (im_layers m)"

definition referenced_digests :: "image_manifest \<Rightarrow> string list" where
  "referenced_digests m =
     foldl (\<lambda>ds d. if d \<in> set ds then ds else ds @ [d]) [im_digest m] (all_digests m)"

definition is_index :: "image_manifest \<Rightarrow> bool" where
  "is_index m \<longleftrightarrow> ld_digest (im_config m) = im_digest m"

record manifest_commit =
  mc_observed_gc_generation :: nat
  mc_manifest :: image_manifest
  mc_tag :: string
  mc_holder_nodes :: "nat set"

record gc_report =
  gr_node_id :: nat
  gr_deleted_layers :: "string list"

record delete_tag =
  dt_repository :: string
  dt_tag :: string
  dt_deleted_at_unix_ms :: nat

record expire_manifest =
  em_repository :: string
  em_digest :: string
  em_untagged_at_unix_ms :: nat

record attach_signature =
  at_manifest_digest :: string
  at_signature :: image_signature

definition is_digest_tag :: "string \<Rightarrow> bool" where
  "is_digest_tag tag = starts_with tag ''sha256:''"

definition image_pin_digest :: "string \<Rightarrow> string option" where
  "image_pin_digest img = (case rsplit_once (CHR ''@'') img of
     None \<Rightarrow> None
   | Some (_, d) \<Rightarrow> if is_digest_tag d then Some d else None)"

definition has_real_tag :: "image_manifest \<Rightarrow> bool" where
  "has_real_tag m \<longleftrightarrow> (\<exists>tag \<in> im_tags m. \<not> is_digest_tag tag)"

definition untagged_key :: "string \<Rightarrow> string \<Rightarrow> string" where
  "untagged_key repository d = repository @ ''@'' @ d"

definition tag_key :: "string \<Rightarrow> string \<Rightarrow> string" where
  "tag_key repository tag = repository @ '':'' @ tag"

record manifest_catalog =
  mcat_repository_owners :: "(string \<times> string) list"
  mcat_manifests :: "(string \<times> image_manifest) list"
  mcat_tags :: "(string \<times> string) list"
  mcat_layer_locations :: "(string \<times> nat set) list"
  mcat_untagged_at :: "(string \<times> nat) list"

definition catalog_default :: manifest_catalog where
  "catalog_default = \<lparr>mcat_repository_owners = [], mcat_manifests = [], mcat_tags = [],
     mcat_layer_locations = [], mcat_untagged_at = []\<rparr>"

section \<open>Look-ups\<close>

definition get_manifest :: "manifest_catalog \<Rightarrow> string \<Rightarrow> image_manifest option" where
  "get_manifest c d = map_option snd (find (\<lambda>(k, _). k = d) (mcat_manifests c))"

definition get_repository_manifest :: "manifest_catalog \<Rightarrow> string \<Rightarrow> string \<Rightarrow> image_manifest option" where
  "get_repository_manifest c repository d =
     map_option snd (find (\<lambda>(k, m). k = d \<and> im_repository m = repository) (mcat_manifests c))"

definition get_manifest_by_tag :: "manifest_catalog \<Rightarrow> string \<Rightarrow> string \<Rightarrow> image_manifest option" where
  "get_manifest_by_tag c repository tag =
     (case map_of (mcat_tags c) (tag_key repository tag) of
        None \<Rightarrow> None
      | Some d \<Rightarrow> get_repository_manifest c repository d)"

definition tags_for_repository :: "manifest_catalog \<Rightarrow> string \<Rightarrow> string list" where
  "tags_for_repository c repository =
     (let prefix = repository @ '':''
      in map (\<lambda>(k, _). case strip_prefix prefix k of Some t \<Rightarrow> t | None \<Rightarrow> k)
           (filter (\<lambda>(k, _). starts_with k prefix) (mcat_tags c)))"

definition layer_holders :: "manifest_catalog \<Rightarrow> string \<Rightarrow> nat set" where
  "layer_holders c d = (case map_of (mcat_layer_locations c) d of None \<Rightarrow> {} | Some hs \<Rightarrow> hs)"

definition referenced_digest_set :: "(string \<times> image_manifest) list \<Rightarrow> string set" where
  "referenced_digest_set ms = (\<Union>(_, m) \<in> set ms. set (referenced_digests m))"

definition untagged_since :: "manifest_catalog \<Rightarrow> string \<Rightarrow> string \<Rightarrow> nat option" where
  "untagged_since c repository d = map_of (mcat_untagged_at c) (untagged_key repository d)"

section \<open>Leased repositories\<close>

datatype lease_denied = InvalidLeaseIdentity | OtherLeaseGeneration | UnownedMetadata

definition check_repository_owner :: "manifest_catalog \<Rightarrow> string \<Rightarrow> string \<Rightarrow> lease_denied option" where
  "check_repository_owner c repository lease =
     (case map_of (mcat_repository_owners c) repository of
        Some owner \<Rightarrow> if owner = lease then None else Some OtherLeaseGeneration
      | None \<Rightarrow>
          if list_ex (\<lambda>(_, m). im_repository m = repository) (mcat_manifests c)
             \<or> tags_for_repository c repository \<noteq> []
          then Some UnownedMetadata else None)"

definition reserved_repository :: "string \<Rightarrow> bool" where
  "reserved_repository repository = (case split_once (CHR ''/'') repository of
     None \<Rightarrow> False | Some (ns, _) \<Rightarrow> starts_with ns ''rbtest-'')"

definition claim_repository :: "string \<Rightarrow> string \<Rightarrow> manifest_catalog \<Rightarrow> lease_denied + manifest_catalog" where
  "claim_repository repository lease c =
     (if lease = [] \<or> \<not> reserved_repository repository then Inl InvalidLeaseIdentity
      else case check_repository_owner c repository lease of
        Some e \<Rightarrow> Inl e
      | None \<Rightarrow> Inr (c\<lparr>mcat_repository_owners := bt_insert repository lease (mcat_repository_owners c)\<rparr>))"

section \<open>Changes\<close>

definition or_insert :: "'k::linorder \<Rightarrow> 'v \<Rightarrow> ('k \<times> 'v) list \<Rightarrow> ('k \<times> 'v) list" where
  "or_insert k v m = (case map_of m k of None \<Rightarrow> bt_insert k v m | Some _ \<Rightarrow> m)"

definition untag :: "string \<Rightarrow> image_manifest \<Rightarrow> image_manifest" where
  "untag tag m = m\<lparr>im_tags := im_tags m - {tag}\<rparr>"

text \<open>
  One pass over the rows a predicate selects: the tag is removed, and a row that had it and has
  no real tag left starts its expiry clock.
\<close>

definition untag_rows :: "(string \<times> image_manifest \<Rightarrow> bool) \<Rightarrow> string \<Rightarrow> nat \<Rightarrow> manifest_catalog \<Rightarrow> manifest_catalog" where
  "untag_rows sel tag at c = c\<lparr>
     mcat_manifests := map (\<lambda>(k, m). if sel (k, m) then (k, untag tag m) else (k, m)) (mcat_manifests c),
     mcat_untagged_at := foldl (\<lambda>u (k, m).
         if sel (k, m) \<and> tag \<in> im_tags m \<and> \<not> has_real_tag (untag tag m)
         then or_insert (untagged_key (im_repository m) k) at u else u)
       (mcat_untagged_at c) (mcat_manifests c)\<rparr>"

definition add_holders :: "nat set \<Rightarrow> string \<Rightarrow> (string \<times> nat set) list \<Rightarrow> (string \<times> nat set) list" where
  "add_holders nodes d locs =
     (if d \<in> fst ` set locs
      then update_first (\<lambda>(k, _). k = d) (\<lambda>(k, hs). (k, hs \<union> nodes)) locs
      else locs @ [(d, nodes)])"

definition put_row :: "manifest_commit \<Rightarrow> image_signature option \<Rightarrow> manifest_catalog \<Rightarrow> manifest_catalog" where
  "put_row commit signature c =
     (let d = im_digest (mc_manifest commit); repo = im_repository (mc_manifest commit);
          mine = (\<lambda>(k, m). k = d \<and> im_repository m = repo)
      in c\<lparr>mcat_manifests :=
           (if list_ex mine (mcat_manifests c)
            then update_first mine (\<lambda>(k, m). (k, m\<lparr>im_tags := insert (mc_tag commit) (im_tags m)\<rparr>)) (mcat_manifests c)
            else mcat_manifests c @
              [(d, (mc_manifest commit)\<lparr>im_tags := {mc_tag commit}, im_signature := signature\<rparr>)])\<rparr>)"

definition set_clock :: "manifest_commit \<Rightarrow> manifest_catalog \<Rightarrow> manifest_catalog" where
  "set_clock commit c =
     (let d = im_digest (mc_manifest commit); repo = im_repository (mc_manifest commit);
          key = untagged_key repo d
      in if is_digest_tag (mc_tag commit) then
           (if (case get_repository_manifest c repo d of None \<Rightarrow> False | Some m \<Rightarrow> has_real_tag m) then c
            else c\<lparr>mcat_untagged_at := or_insert key (unix_millis (im_pushed_at (mc_manifest commit))) (mcat_untagged_at c)\<rparr>)
         else c\<lparr>mcat_untagged_at := bt_remove key (mcat_untagged_at c)\<rparr>)"

definition apply_manifest_commit :: "manifest_commit \<Rightarrow> manifest_catalog \<Rightarrow> manifest_catalog" where
  "apply_manifest_commit commit c =
     (let m = mc_manifest commit;
          d = im_digest m;
          key = tag_key (im_repository m) (mc_tag commit);
          signature = (case im_signature m of
             Some sg \<Rightarrow> Some sg
           | None \<Rightarrow> (case get_manifest c d of None \<Rightarrow> None | Some old \<Rightarrow> im_signature old));
          c1 = c\<lparr>mcat_tags := filter (\<lambda>(k, _). k \<noteq> key) (mcat_tags c)\<rparr>;
          c2 = untag_rows (\<lambda>(_, old). im_repository old = im_repository m) (mc_tag commit) (unix_millis (im_pushed_at m)) c1;
          c3 = c2\<lparr>mcat_tags := mcat_tags c2 @ [(key, d)]\<rparr>;
          c4 = set_clock commit (put_row commit signature c3)
      in c4\<lparr>mcat_layer_locations :=
           foldl (\<lambda>locs l. add_holders (mc_holder_nodes commit) l locs) (mcat_layer_locations c4) (referenced_digests m)\<rparr>)"

definition add_manifest_holder :: "string \<Rightarrow> string \<Rightarrow> nat \<Rightarrow> manifest_catalog \<Rightarrow> bool \<times> manifest_catalog" where
  "add_manifest_holder repository d node c =
     (case get_repository_manifest c repository d of
        None \<Rightarrow> (False, c)
      | Some m \<Rightarrow> (True, c\<lparr>mcat_layer_locations :=
          foldl (\<lambda>locs l. add_holders {node} l locs) (mcat_layer_locations c) (referenced_digests m)\<rparr>))"

text \<open>
  Garbage collection: the node nominates, the catalogue approves. Nothing a catalogued image
  references is approved, and nothing without another recorded holder.
\<close>

fun gc_approve :: "string set \<Rightarrow> nat \<Rightarrow> string list \<Rightarrow> (string \<times> nat set) list \<Rightarrow> string list \<times> (string \<times> nat set) list" where
  "gc_approve referenced node [] locs = ([], locs)"
| "gc_approve referenced node (d # ds) locs =
     (if d \<in> referenced then gc_approve referenced node ds locs
      else case map_of locs d of
        None \<Rightarrow> (let (approved, locs') = gc_approve referenced node ds locs in (d # approved, locs'))
      | Some holders \<Rightarrow>
          if holders - {node} \<noteq> {} then
            (let (approved, locs') = gc_approve referenced node ds
                   (update_first (\<lambda>(k, _). k = d) (\<lambda>(k, hs). (k, hs - {node})) locs)
             in (d # approved, locs'))
          else gc_approve referenced node ds locs)"

definition apply_gc_report :: "gc_report \<Rightarrow> manifest_catalog \<Rightarrow> string list \<times> manifest_catalog" where
  "apply_gc_report report c =
     (let (approved, locs) = gc_approve (referenced_digest_set (mcat_manifests c)) (gr_node_id report)
            (gr_deleted_layers report) (mcat_layer_locations c)
      in (approved, c\<lparr>mcat_layer_locations := locs\<rparr>))"

definition drop_rows :: "(string \<times> image_manifest \<Rightarrow> bool) \<Rightarrow> string set \<Rightarrow> manifest_catalog \<Rightarrow> manifest_catalog" where
  "drop_rows gone candidates c =
     (let kept = filter (\<lambda>row. \<not> gone row) (mcat_manifests c);
          referenced = referenced_digest_set kept
      in c\<lparr>mcat_manifests := kept,
           mcat_layer_locations :=
             filter (\<lambda>(d, _). d \<notin> candidates \<or> d \<in> referenced) (mcat_layer_locations c)\<rparr>)"

definition retire_repository :: "string \<Rightarrow> manifest_catalog \<Rightarrow> manifest_catalog" where
  "retire_repository repository c =
     (let candidates = referenced_digest_set (filter (\<lambda>(_, m). im_repository m = repository) (mcat_manifests c))
      in drop_rows (\<lambda>(_, m). im_repository m = repository) candidates (c\<lparr>
           mcat_repository_owners := bt_remove repository (mcat_repository_owners c),
           mcat_tags := filter (\<lambda>(k, _). \<not> starts_with k (repository @ '':'')) (mcat_tags c),
           mcat_untagged_at := filter (\<lambda>(k, _). case rsplit_once (CHR ''@'') k of
               None \<Rightarrow> True | Some (name, _) \<Rightarrow> name \<noteq> repository) (mcat_untagged_at c)\<rparr>))"

definition apply_attach_signature :: "attach_signature \<Rightarrow> manifest_catalog \<Rightarrow> bool \<times> manifest_catalog" where
  "apply_attach_signature a c =
     (list_ex (\<lambda>(k, _). k = at_manifest_digest a) (mcat_manifests c),
      c\<lparr>mcat_manifests := map (\<lambda>(k, m). if k = at_manifest_digest a
           then (k, m\<lparr>im_signature := Some (at_signature a)\<rparr>) else (k, m)) (mcat_manifests c)\<rparr>)"

definition apply_delete_tag :: "delete_tag \<Rightarrow> manifest_catalog \<Rightarrow> bool \<times> manifest_catalog" where
  "apply_delete_tag del c =
     (let key = tag_key (dt_repository del) (dt_tag del)
      in case map_of (mcat_tags c) key of
           None \<Rightarrow> (False, c)
         | Some d \<Rightarrow> (True, untag_rows (\<lambda>(k, m). k = d \<and> im_repository m = dt_repository del)
             (dt_tag del) (dt_deleted_at_unix_ms del)
             (c\<lparr>mcat_tags := filter (\<lambda>(k, _). k \<noteq> key) (mcat_tags c)\<rparr>)))"

datatype expiry_refused = ManifestGone | ManifestTagged | ManifestRetagged | ManifestPinned | PlatformOfIndex

definition expiry_refusal :: "manifest_catalog \<Rightarrow> expire_manifest \<Rightarrow> string set \<Rightarrow> expiry_refused option" where
  "expiry_refusal c e pinned =
     (case get_repository_manifest c (em_repository e) (em_digest e) of
        None \<Rightarrow> Some ManifestGone
      | Some m \<Rightarrow>
          if has_real_tag m then Some ManifestTagged
          else if untagged_since c (em_repository e) (em_digest e) \<noteq> Some (em_untagged_at_unix_ms e)
            then Some ManifestRetagged
          else if em_digest e \<in> pinned then Some ManifestPinned
          else if list_ex (\<lambda>(_, idx). im_repository idx = em_repository e \<and> is_index idx \<and> im_digest idx \<noteq> em_digest e
                    \<and> em_digest e \<in> ld_digest ` set (im_layers idx)) (mcat_manifests c)
            then Some PlatformOfIndex
          else None)"

definition apply_expire_manifest :: "expire_manifest \<Rightarrow> string set \<Rightarrow> manifest_catalog \<Rightarrow> expiry_refused + manifest_catalog" where
  "apply_expire_manifest e pinned c =
     (case expiry_refusal c e pinned of
        Some reason \<Rightarrow> Inl reason
      | None \<Rightarrow>
          let candidates = (case get_repository_manifest c (em_repository e) (em_digest e) of
                None \<Rightarrow> {} | Some m \<Rightarrow> set (referenced_digests m))
          in Inr (drop_rows (\<lambda>(k, m). k = em_digest e \<and> im_repository m = em_repository e) candidates
               (c\<lparr>mcat_untagged_at := bt_remove (untagged_key (em_repository e) (em_digest e)) (mcat_untagged_at c)\<rparr>)))"

definition expirable_manifests :: "manifest_catalog \<Rightarrow> nat \<Rightarrow> nat \<Rightarrow> string set \<Rightarrow> expire_manifest list" where
  "expirable_manifests c now retain_ms pinned =
     filter (\<lambda>e. expiry_refusal c e pinned = None)
       (List.map_filter (\<lambda>(k, m). case map_of (mcat_untagged_at c) (untagged_key (im_repository m) k) of
           None \<Rightarrow> None
         | Some at \<Rightarrow> if now - at \<ge> retain_ms
             then Some \<lparr>em_repository = im_repository m, em_digest = im_digest m, em_untagged_at_unix_ms = at\<rparr>
             else None) (mcat_manifests c))"

definition remove_node_holdings :: "nat \<Rightarrow> manifest_catalog \<Rightarrow> manifest_catalog" where
  "remove_node_holdings node c =
     c\<lparr>mcat_layer_locations := map (\<lambda>(d, hs). (d, hs - {node})) (mcat_layer_locations c)\<rparr>"

definition effective_holders :: "manifest_catalog \<Rightarrow> string \<Rightarrow> nat set \<Rightarrow> nat set" where
  "effective_holders c d live = layer_holders c d \<inter> live"

definition blob_lost :: "manifest_catalog \<Rightarrow> image_manifest \<Rightarrow> nat set \<Rightarrow> bool" where
  "blob_lost c m live = list_ex (\<lambda>d. effective_holders c d live = {}) (referenced_digests m)"

section \<open>Keys\<close>

definition name_ok :: "string \<Rightarrow> bool" where
  "name_ok repository \<longleftrightarrow> CHR '':'' \<notin> set repository"

definition digest_ok :: "string \<Rightarrow> bool" where
  "digest_ok d \<longleftrightarrow> CHR ''@'' \<notin> set d"

lemma tag_key_inj:
  assumes "tag_key r t = tag_key r' t'" "name_ok r" "name_ok r'"
  shows "r = r' \<and> t = t'"
proof -
  have "split_once (CHR '':'') (tag_key r t) = Some (r, t)" "split_once (CHR '':'') (tag_key r' t') = Some (r', t')"
    using assms(2,3) by (simp_all add: tag_key_def name_ok_def)
  then have "Some (r, t) = Some (r', t')" unfolding assms(1) by (rule trans [OF sym])
  then show ?thesis by simp
qed

lemma untagged_key_inj:
  assumes "untagged_key r d = untagged_key r' d'" "digest_ok d" "digest_ok d'"
  shows "r = r' \<and> d = d'"
proof -
  have "rsplit_once (CHR ''@'') (untagged_key r d) = Some (r, d)" "rsplit_once (CHR ''@'') (untagged_key r' d') = Some (r', d')"
    using assms(2,3) by (simp_all add: untagged_key_def digest_ok_def)
  then have "Some (r, d) = Some (r', d')" unfolding assms(1) by (rule trans [OF sym])
  then show ?thesis by simp
qed

section \<open>Holders\<close>

lemma map_of_update_first:
  "map_of (update_first (\<lambda>(k, _). k = d) (\<lambda>(k, v). (k, f v)) m) =
     (case map_of m d of None \<Rightarrow> map_of m | Some v \<Rightarrow> (map_of m)(d \<mapsto> f v))"
  by (induction m) (auto simp: fun_eq_iff split: option.splits)

lemma map_of_add_holders:
  "map_of (add_holders nodes d locs) =
     (map_of locs)(d \<mapsto> (case map_of locs d of None \<Rightarrow> {} | Some hs \<Rightarrow> hs) \<union> nodes)"
proof (cases "map_of locs d")
  case None
  then have "d \<notin> fst ` set locs" by (simp add: map_of_eq_None_iff)
  with None show ?thesis by (auto simp: add_holders_def map_add_def fun_eq_iff split: option.splits)
next
  case (Some hs)
  then have "d \<in> fst ` set locs" by (metis domI dom_map_of_conv_image_fst)
  with Some show ?thesis by (simp add: add_holders_def map_of_update_first)
qed

definition holders_in :: "(string \<times> nat set) list \<Rightarrow> string \<Rightarrow> nat set" where
  "holders_in locs d = (case map_of locs d of None \<Rightarrow> {} | Some hs \<Rightarrow> hs)"

lemma layer_holders_in: "layer_holders c d = holders_in (mcat_layer_locations c) d"
  by (simp add: layer_holders_def holders_in_def)

lemma holders_add: "holders_in (add_holders nodes d locs) x = holders_in locs x \<union> (if x = d then nodes else {})"
  by (simp add: holders_in_def map_of_add_holders)

lemma holders_add_all:
  "holders_in (foldl (\<lambda>locs l. add_holders nodes l locs) locs ds) x = holders_in locs x \<union> (if x \<in> set ds then nodes else {})"
  by (induction ds arbitrary: locs) (auto simp: holders_add)

lemma set_referenced_digests: "set (referenced_digests m) = insert (im_digest m) (set (all_digests m))"
proof -
  have fold: "set (foldl (\<lambda>ds d. if d \<in> set ds then ds else ds @ [d]) acc xs) = set acc \<union> set xs" for acc xs :: "string list"
    by (induction xs arbitrary: acc) auto
  show ?thesis unfolding referenced_digests_def fold by simp
qed

lemma referenced_digests_tags [simp]:
  "referenced_digests (m\<lparr>im_tags := T\<rparr>) = referenced_digests m"
  "referenced_digests (m\<lparr>im_signature := sg\<rparr>) = referenced_digests m"
  "referenced_digests (untag tag m) = referenced_digests m"
  by (simp_all add: referenced_digests_def all_digests_def untag_def)

text \<open>What the arbiter of garbage collection promises.\<close>

lemma gc_approve_keeps:
  assumes "gc_approve referenced node ds locs = (approved, locs')"
  shows "(\<forall>d. d \<in> referenced \<longrightarrow> holders_in locs' d = holders_in locs d) \<and>
    (\<forall>d. holders_in locs d \<noteq> {} \<longrightarrow> holders_in locs' d \<noteq> {}) \<and>
    (\<forall>d. holders_in locs' d \<subseteq> holders_in locs d \<and> holders_in locs d - {node} \<subseteq> holders_in locs' d) \<and>
    map fst locs' = map fst locs"
  using assms
proof (induction ds arbitrary: locs approved locs')
  case (Cons d ds)
  let ?locs1 = "update_first (\<lambda>(k, _). k = d) (\<lambda>(k, hs). (k, hs - {node})) locs"
  show ?case
  proof (cases "d \<in> referenced \<or> (\<exists>hs. map_of locs d = Some hs \<and> hs - {node} = {})")
    case True
    then have "gc_approve referenced node ds locs = (approved, locs')"
      using Cons.prems by (auto split: if_splits option.splits)
    then show ?thesis by (rule Cons.IH)
  next
    case False
    then have fresh: "d \<notin> referenced" by simp
    show ?thesis
    proof (cases "map_of locs d")
      case None
      obtain approved' where "gc_approve referenced node ds locs = (approved', locs')"
        using Cons.prems fresh None by (auto split: prod.splits)
      then show ?thesis by (rule Cons.IH)
    next
      case (Some hs)
      then have some: "hs - {node} \<noteq> {}" using False by auto
      obtain approved' where run: "gc_approve referenced node ds ?locs1 = (approved', locs')"
        using Cons.prems fresh Some some by (auto split: prod.splits)
      have IH: "(\<forall>x. x \<in> referenced \<longrightarrow> holders_in locs' x = holders_in ?locs1 x) \<and>
        (\<forall>x. holders_in ?locs1 x \<noteq> {} \<longrightarrow> holders_in locs' x \<noteq> {}) \<and>
        (\<forall>x. holders_in locs' x \<subseteq> holders_in ?locs1 x \<and> holders_in ?locs1 x - {node} \<subseteq> holders_in locs' x) \<and>
        map fst locs' = map fst ?locs1"
        by (rule Cons.IH [OF run])
      have locs1: "holders_in ?locs1 x = (if x = d then hs - {node} else holders_in locs x)" for x
        by (simp add: holders_in_def map_of_update_first Some)
      have old: "holders_in locs d = hs" by (simp add: holders_in_def Some)
      have keys: "map fst ?locs1 = map fst locs" by (rule update_first_map) auto
      show ?thesis
      proof (intro conjI allI impI)
        show "holders_in locs' x = holders_in locs x" if "x \<in> referenced" for x
          using IH locs1 [of x] that fresh by metis
        show "holders_in locs' x \<noteq> {}" if "holders_in locs x \<noteq> {}" for x
          using IH locs1 [of x] that some by metis
        have sub: "holders_in locs' x \<subseteq> holders_in ?locs1 x" "holders_in ?locs1 x - {node} \<subseteq> holders_in locs' x" for x
          using IH by simp_all
        show "holders_in locs' x \<subseteq> holders_in locs x" for x
          using sub(1) [of x] old unfolding locs1 by (auto split: if_splits)
        show "holders_in locs x - {node} \<subseteq> holders_in locs' x" for x
          using sub(2) [of x] old unfolding locs1 by (auto split: if_splits)
        show "map fst locs' = map fst locs" using IH keys by simp
      qed
    qed
  qed
qed simp

lemma gc_approve_safe:
  assumes "gc_approve referenced node ds locs = (approved, locs')" "d \<in> set approved"
  shows "d \<notin> referenced \<and> d \<in> set ds \<and> (map_of locs d = None \<or> holders_in locs' d - {node} \<noteq> {})"
  using assms
proof (induction ds arbitrary: locs approved locs')
  case (Cons x ds)
  let ?locs1 = "update_first (\<lambda>(k, _). k = x) (\<lambda>(k, hs). (k, hs - {node})) locs"
  show ?case
  proof (cases "x \<in> referenced \<or> (\<exists>hs. map_of locs x = Some hs \<and> hs - {node} = {})")
    case True
    then have "gc_approve referenced node ds locs = (approved, locs')"
      using Cons.prems by (auto split: if_splits option.splits)
    then show ?thesis using Cons.IH [of locs approved locs'] Cons.prems(2) by auto
  next
    case False
    then have fresh: "x \<notin> referenced" by simp
    show ?thesis
    proof (cases "map_of locs x")
      case None
      obtain approved' where run: "gc_approve referenced node ds locs = (approved', locs')" "approved = x # approved'"
        using Cons.prems fresh None by (auto split: prod.splits)
      then show ?thesis using Cons.IH [OF run(1)] Cons.prems(2) fresh None by auto
    next
      case (Some hs)
      then have some: "hs - {node} \<noteq> {}" using False by auto
      obtain approved' where run: "gc_approve referenced node ds ?locs1 = (approved', locs')" "approved = x # approved'"
        using Cons.prems fresh Some some by (auto split: prod.splits)
      have same: "map_of ?locs1 d = None \<longleftrightarrow> map_of locs d = None" by (simp add: map_of_update_first Some)
      have "holders_in ?locs1 x - {node} \<subseteq> holders_in locs' x" using gc_approve_keeps [OF run(1)] by blast
      moreover have "holders_in ?locs1 x = hs - {node}" by (simp add: holders_in_def map_of_update_first Some)
      ultimately have "holders_in locs' x - {node} \<noteq> {}" using some by blast
      then show ?thesis using Cons.IH [OF run(1)] Cons.prems(2) fresh run(2) same by auto
    qed
  qed
qed simp


section \<open>The catalogue invariant\<close>

definition row_id :: "string \<times> image_manifest \<Rightarrow> string \<times> string" where
  "row_id row = (im_repository (snd row), fst row)"

definition rows_ok :: "manifest_catalog \<Rightarrow> bool" where
  "rows_ok c \<longleftrightarrow>
     (\<forall>(k, m) \<in> set (mcat_manifests c). k = im_digest m \<and> name_ok (im_repository m) \<and> digest_ok k) \<and>
     distinct (map row_id (mcat_manifests c))"

definition held_ok :: "manifest_catalog \<Rightarrow> bool" where
  "held_ok c \<longleftrightarrow>
     (\<forall>(k, m) \<in> set (mcat_manifests c). \<forall>d \<in> set (referenced_digests m). layer_holders c d \<noteq> {})"

text \<open>
  Tags point both ways. The second direction is for real tags only: expiry drops an image without
  dropping the digest under which it was pushed.
\<close>

definition tags_ok :: "manifest_catalog \<Rightarrow> bool" where
  "tags_ok c \<longleftrightarrow> distinct (map fst (mcat_tags c)) \<and>
     (\<forall>(k, m) \<in> set (mcat_manifests c). \<forall>t \<in> im_tags m. (tag_key (im_repository m) t, k) \<in> set (mcat_tags c)) \<and>
     (\<forall>(key, d) \<in> set (mcat_tags c). \<forall>r t. name_ok r \<and> key = tag_key r t \<and> \<not> is_digest_tag t \<longrightarrow>
        (\<exists>m. (d, m) \<in> set (mcat_manifests c) \<and> im_repository m = r \<and> t \<in> im_tags m))"

definition clock_ok :: "manifest_catalog \<Rightarrow> bool" where
  "clock_ok c \<longleftrightarrow> bt_ok (mcat_untagged_at c) \<and>
     (\<forall>(k, m) \<in> set (mcat_manifests c).
        untagged_key (im_repository m) k \<in> fst ` set (mcat_untagged_at c) \<longleftrightarrow> \<not> has_real_tag m)"

definition catalog_ok :: "manifest_catalog \<Rightarrow> bool" where
  "catalog_ok c \<longleftrightarrow> rows_ok c \<and> held_ok c \<and> tags_ok c \<and> clock_ok c"

lemma rows_okD:
  assumes "rows_ok c" "(k, m) \<in> set (mcat_manifests c)"
  shows "k = im_digest m" "name_ok (im_repository m)" "digest_ok k"
  using assms by (auto simp: rows_ok_def)

lemma row_unique:
  assumes "rows_ok c" "(k, m) \<in> set (mcat_manifests c)" "(k, m') \<in> set (mcat_manifests c)"
    "im_repository m = im_repository m'"
  shows "m = m'"
proof -
  have "inj_on row_id (set (mcat_manifests c))" using assms(1) by (simp add: rows_ok_def distinct_map)
  moreover have "row_id (k, m) = row_id (k, m')" using assms(4) by (simp add: row_id_def)
  ultimately show ?thesis using assms(2,3) by (auto dest: inj_onD)
qed

lemma find_SomeD: "find P xs = Some x \<Longrightarrow> x \<in> set xs \<and> P x"
  by (induction xs) (auto split: if_splits)

lemma get_repository_manifest_iff:
  assumes "rows_ok c"
  shows "get_repository_manifest c r d = Some m \<longleftrightarrow> (d, m) \<in> set (mcat_manifests c) \<and> im_repository m = r"
proof
  assume "get_repository_manifest c r d = Some m"
  then obtain k where "find (\<lambda>(k, m). k = d \<and> im_repository m = r) (mcat_manifests c) = Some (k, m)"
    by (auto simp: get_repository_manifest_def)
  then show "(d, m) \<in> set (mcat_manifests c) \<and> im_repository m = r"
    by (auto dest: find_SomeD)
next
  assume mem: "(d, m) \<in> set (mcat_manifests c) \<and> im_repository m = r"
  then obtain row where row: "find (\<lambda>(k, m). k = d \<and> im_repository m = r) (mcat_manifests c) = Some row"
    by (cases "find (\<lambda>(k, m). k = d \<and> im_repository m = r) (mcat_manifests c)") (auto simp: find_None_iff)
  obtain k m0 where km: "row = (k, m0)" by (cases row)
  have found: "(d, m0) \<in> set (mcat_manifests c)" "im_repository m0 = r" "k = d"
    using find_SomeD [OF row] by (auto simp: km)
  have "m0 = m" by (rule row_unique [OF assms found(1)]) (use mem found(2) in auto)
  then have "snd row = m" by (simp add: km)
  then show "get_repository_manifest c r d = Some m" by (simp add: get_repository_manifest_def row)
qed

lemma get_repository_manifest_None:
  "get_repository_manifest c r d = None \<longleftrightarrow> \<not> list_ex (\<lambda>(k, m). k = d \<and> im_repository m = r) (mcat_manifests c)"
  by (auto simp: get_repository_manifest_def find_None_iff list_ex_iff)

lemma real_tag_lookup:
  assumes "catalog_ok c" "name_ok r" "\<not> is_digest_tag t"
  shows "get_manifest_by_tag c r t = Some m \<longleftrightarrow>
    (im_digest m, m) \<in> set (mcat_manifests c) \<and> im_repository m = r \<and> t \<in> im_tags m"
proof -
  have rows: "rows_ok c" and tags: "tags_ok c" using assms(1) by (simp_all add: catalog_ok_def)
  have keys: "distinct (map fst (mcat_tags c))" using tags by (simp add: tags_ok_def)
  show ?thesis
  proof
    assume "get_manifest_by_tag c r t = Some m"
    then obtain d where d: "(tag_key r t, d) \<in> set (mcat_tags c)" "get_repository_manifest c r d = Some m"
      by (auto simp: get_manifest_by_tag_def split: option.splits dest: map_of_SomeD)
    then obtain m' where m': "(d, m') \<in> set (mcat_manifests c)" "im_repository m' = r" "t \<in> im_tags m'"
      using tags assms(2,3) unfolding tags_ok_def by fast
    have m: "(d, m) \<in> set (mcat_manifests c)" "im_repository m = r"
      using d(2) by (simp_all add: get_repository_manifest_iff [OF rows])
    then have "m = m'" using row_unique [OF rows m(1) m'(1)] m'(2) by simp
    with m m' rows_okD(1) [OF rows m(1)] show "(im_digest m, m) \<in> set (mcat_manifests c) \<and> im_repository m = r \<and> t \<in> im_tags m"
      by simp
  next
    assume m: "(im_digest m, m) \<in> set (mcat_manifests c) \<and> im_repository m = r \<and> t \<in> im_tags m"
    then have "(tag_key r t, im_digest m) \<in> set (mcat_tags c)" using tags unfolding tags_ok_def by fast
    then have "map_of (mcat_tags c) (tag_key r t) = Some (im_digest m)" using keys by simp
    then show "get_manifest_by_tag c r t = Some m"
      using m by (simp add: get_manifest_by_tag_def get_repository_manifest_iff [OF rows])
  qed
qed

subsection \<open>Rows that only change their tags or signature\<close>

definition row_like :: "string \<times> image_manifest \<Rightarrow> string \<times> image_manifest \<Rightarrow> bool" where
  "row_like a b \<longleftrightarrow> fst a = fst b \<and> im_repository (snd a) = im_repository (snd b) \<and> im_digest (snd a) = im_digest (snd b) \<and>
     referenced_digests (snd a) = referenced_digests (snd b)"

lemma row_like_id: "row_like a b \<Longrightarrow> row_id a = row_id b"
  by (simp add: row_like_def row_id_def)

lemma rows_ok_map:
  assumes "rows_ok c" "mcat_manifests c' = map f (mcat_manifests c)"
    and like: "\<And>row. row_like (f row) row"
  shows "rows_ok c'"
proof -
  have "map row_id (mcat_manifests c') = map row_id (mcat_manifests c)"
    using assms(2) row_like_id [OF like] by simp
  moreover have "\<forall>(k, m) \<in> set (mcat_manifests c'). k = im_digest m \<and> name_ok (im_repository m) \<and> digest_ok k"
    using assms(1) like unfolding assms(2) rows_ok_def row_like_def by (auto simp: split_beta)
  ultimately show ?thesis using assms(1) by (simp add: rows_ok_def)
qed

lemma held_ok_map:
  assumes "held_ok c" "mcat_manifests c' = map f (mcat_manifests c)"
    and like: "\<And>row. row_like (f row) row"
    and grow: "\<And>d. layer_holders c d \<noteq> {} \<Longrightarrow> layer_holders c' d \<noteq> {}"
  shows "held_ok c'"
  using assms(1) grow like unfolding held_ok_def assms(2) row_like_def by (auto simp: split_beta)

lemma untag_like: "row_like (if sel row then (fst row, untag tag (snd row)) else row) row"
  by (auto simp: row_like_def untag_def referenced_digests_def all_digests_def)

lemma untag_rows_manifests:
  "mcat_manifests (untag_rows sel tag at c) = map (\<lambda>row. if sel row then (fst row, untag tag (snd row)) else row) (mcat_manifests c)"
  by (auto simp: untag_rows_def split_beta)

lemma or_insert_keys [simp]: "fst ` set (or_insert k v m) = insert k (fst ` set m)"
  by (auto simp: or_insert_def image_iff split: option.split dest: map_of_SomeD) (metis fst_conv map_of_SomeD)+

lemma or_insert_ok [simp]: "bt_ok m \<Longrightarrow> bt_ok (or_insert k v m)"
  by (auto simp: or_insert_def split: option.split)

lemma clock_fold:
  fixes g :: "string \<times> image_manifest \<Rightarrow> string"
  shows "fst ` set (foldl (\<lambda>u row. if p row then or_insert (g row) at u else u) u rows) = fst ` set u \<union> g ` {row \<in> set rows. p row}"
    and "bt_ok u \<Longrightarrow> bt_ok (foldl (\<lambda>u row. if p row then or_insert (g row) at u else u) u rows)"
  by (induction rows arbitrary: u) auto

lemma untag_rows_clock:
  shows "fst ` set (mcat_untagged_at (untag_rows sel tag at c)) = fst ` set (mcat_untagged_at c) \<union>
      (\<lambda>row. untagged_key (im_repository (snd row)) (fst row)) `
        {row \<in> set (mcat_manifests c). sel row \<and> tag \<in> im_tags (snd row) \<and> \<not> has_real_tag (untag tag (snd row))}"
    and "bt_ok (mcat_untagged_at c) \<Longrightarrow> bt_ok (mcat_untagged_at (untag_rows sel tag at c))"
  using clock_fold [where p = "\<lambda>row. sel row \<and> tag \<in> im_tags (snd row) \<and> \<not> has_real_tag (untag tag (snd row))"
      and g = "\<lambda>row. untagged_key (im_repository (snd row)) (fst row)"]
  by (simp_all add: untag_rows_def case_prod_beta')

lemma has_real_tag_untag:
  "has_real_tag (untag tag m) \<longleftrightarrow> (\<exists>t \<in> im_tags m. t \<noteq> tag \<and> \<not> is_digest_tag t)"
  by (auto simp: has_real_tag_def untag_def)

lemma untag_rows_clock_ok:
  assumes "rows_ok c" "clock_ok c" "(k, m) \<in> set (mcat_manifests c)"
  shows "untagged_key (im_repository m) k \<in> fst ` set (mcat_untagged_at (untag_rows sel tag at c)) \<longleftrightarrow>
    \<not> has_real_tag (if sel (k, m) then untag tag m else m)"
proof -
  have mine: "untagged_key (im_repository m) k \<in> (\<lambda>row. untagged_key (im_repository (snd row)) (fst row)) ` {row \<in> set (mcat_manifests c). P row} \<longleftrightarrow> P (k, m)" for P
  proof
    assume "untagged_key (im_repository m) k \<in> (\<lambda>row. untagged_key (im_repository (snd row)) (fst row)) ` {row \<in> set (mcat_manifests c). P row}"
    then obtain k' m' where row: "(k', m') \<in> set (mcat_manifests c)" "P (k', m')"
      "untagged_key (im_repository m) k = untagged_key (im_repository m') k'" by auto
    then have "im_repository m = im_repository m' \<and> k = k'"
      using untagged_key_inj rows_okD(3) [OF assms(1)] assms(3) by blast
    then show "P (k, m)" using row_unique [OF assms(1,3)] row(1,2) by auto
  qed (use assms(3) in force)
  have "untagged_key (im_repository m) k \<in> fst ` set (mcat_untagged_at c) \<longleftrightarrow> \<not> has_real_tag m"
    using assms(2,3) by (auto simp: clock_ok_def)
  then show ?thesis
    unfolding untag_rows_clock Un_iff mine
    by (auto simp: has_real_tag_untag) (auto simp: has_real_tag_def)
qed


subsection \<open>Commits\<close>

definition commit_row :: "manifest_commit \<Rightarrow> string \<times> image_manifest \<Rightarrow> string \<times> image_manifest" where
  "commit_row commit row =
     (let (k, m) = row; t = mc_tag commit
      in if im_repository m \<noteq> im_repository (mc_manifest commit) then (k, m)
         else if k = im_digest (mc_manifest commit) then (k, m\<lparr>im_tags := insert t (im_tags m - {t})\<rparr>)
         else (k, untag t m))"

definition commit_target :: "manifest_commit \<Rightarrow> string \<times> image_manifest \<Rightarrow> bool" where
  "commit_target commit row \<longleftrightarrow>
     fst row = im_digest (mc_manifest commit) \<and> im_repository (snd row) = im_repository (mc_manifest commit)"

lemma commit_row_like: "row_like (commit_row commit row) row"
  by (auto simp: row_like_def commit_row_def Let_def untag_def referenced_digests_def all_digests_def split: prod.split)

lemma put_row_manifests:
  assumes "distinct (map row_id ms)"
  shows "mcat_manifests (put_row commit sg (c\<lparr>mcat_manifests := ms\<rparr>)) =
    map (\<lambda>row. if commit_target commit row then (fst row, (snd row)\<lparr>im_tags := insert (mc_tag commit) (im_tags (snd row))\<rparr>) else row) ms
    @ (if list_ex (commit_target commit) ms then []
       else [(im_digest (mc_manifest commit), (mc_manifest commit)\<lparr>im_tags := {mc_tag commit}, im_signature := sg\<rparr>)])"
proof -
  have target: "(\<lambda>(k, m). k = im_digest (mc_manifest commit) \<and> im_repository m = im_repository (mc_manifest commit)) = commit_target commit"
    by (auto simp: commit_target_def fun_eq_iff)
  have first: "update_first (commit_target commit) f ms = map (\<lambda>x. if commit_target commit x then f x else x) ms" for f
    by (rule update_first_unique [OF assms, of _ "(im_repository (mc_manifest commit), im_digest (mc_manifest commit))"])
      (auto simp: commit_target_def row_id_def)
  have "map (\<lambda>row. if commit_target commit row then f row else row) ms = ms" if "\<not> list_ex (commit_target commit) ms" for f
    by (rule map_idI) (use that in \<open>auto simp: list_ex_iff\<close>)
  then show ?thesis
    unfolding put_row_def Let_def target by (auto simp: first split_beta)
qed

lemma commit_simps:
  fixes commit c
  defines "c' \<equiv> apply_manifest_commit commit c"
  shows "mcat_tags c' = filter (\<lambda>(k, _). k \<noteq> tag_key (im_repository (mc_manifest commit)) (mc_tag commit)) (mcat_tags c)
      @ [(tag_key (im_repository (mc_manifest commit)) (mc_tag commit), im_digest (mc_manifest commit))]"
    and "layer_holders c' d = layer_holders c d \<union>
      (if d \<in> set (referenced_digests (mc_manifest commit)) then mc_holder_nodes commit else {})"
  unfolding c'_def
  by (auto simp: apply_manifest_commit_def Let_def set_clock_def put_row_def untag_rows_def layer_holders_in holders_add_all
      split: option.splits)

lemma commit_manifests:
  assumes "rows_ok c"
  obtains sg where "mcat_manifests (apply_manifest_commit commit c) = map (commit_row commit) (mcat_manifests c) @
    (if list_ex (commit_target commit) (mcat_manifests c) then []
     else [(im_digest (mc_manifest commit), (mc_manifest commit)\<lparr>im_tags := {mc_tag commit}, im_signature := sg\<rparr>)])"
proof -
  let ?r = "im_repository (mc_manifest commit)"
  define sel where "sel = (\<lambda>(_ :: string, old :: image_manifest). im_repository old = ?r)"
  define ms where "ms = map (\<lambda>row. if sel row then (fst row, untag (mc_tag commit) (snd row)) else row) (mcat_manifests c)"
  have ids: "map row_id ms = map row_id (mcat_manifests c)"
    by (auto simp: ms_def row_id_def untag_def)
  then have dist: "distinct (map row_id ms)" using assms by (simp add: rows_ok_def)
  have targets: "list_ex (commit_target commit) ms = list_ex (commit_target commit) (mcat_manifests c)"
  proof -
    have "list_ex (commit_target commit) (map f xs) = list_ex (commit_target commit) xs"
      if "\<And>row. commit_target commit (f row) = commit_target commit row" for f xs
      using that by (induction xs) auto
    then show ?thesis unfolding ms_def by (simp add: commit_target_def untag_def)
  qed
  have rows: "map (\<lambda>row. if commit_target commit row then (fst row, (snd row)\<lparr>im_tags := insert (mc_tag commit) (im_tags (snd row))\<rparr>) else row) ms
    = map (commit_row commit) (mcat_manifests c)"
    by (auto simp: ms_def commit_target_def commit_row_def sel_def untag_def Let_def split: prod.splits)
  define c3 where "c3 = (untag_rows sel (mc_tag commit) (unix_millis (im_pushed_at (mc_manifest commit)))
      (c\<lparr>mcat_tags := filter (\<lambda>(k, _). k \<noteq> tag_key ?r (mc_tag commit)) (mcat_tags c)\<rparr>))
      \<lparr>mcat_tags := filter (\<lambda>(k, _). k \<noteq> tag_key ?r (mc_tag commit)) (mcat_tags c)
        @ [(tag_key ?r (mc_tag commit), im_digest (mc_manifest commit))]\<rparr>"
  have c3: "c3 = c3\<lparr>mcat_manifests := ms\<rparr>"
    by (simp add: c3_def untag_rows_def ms_def case_prod_beta')
  obtain sg where "mcat_manifests (apply_manifest_commit commit c) = mcat_manifests (put_row commit sg c3)"
    by (rule that) (auto simp: apply_manifest_commit_def Let_def set_clock_def c3_def sel_def untag_rows_def)
  also have "mcat_manifests (put_row commit sg c3) = mcat_manifests (put_row commit sg (c3\<lparr>mcat_manifests := ms\<rparr>))"
    using c3 by simp
  finally show thesis
    by (intro that [of sg]) (simp add: put_row_manifests [OF dist] rows targets)
qed

lemma commit_rows_ok:
  assumes rows: "rows_ok c" and repo: "name_ok (im_repository (mc_manifest commit))" and d: "digest_ok (im_digest (mc_manifest commit))"
  shows "rows_ok (apply_manifest_commit commit c)"
proof -
  let ?c' = "apply_manifest_commit commit c"
  obtain sg where ms: "mcat_manifests ?c' = map (commit_row commit) (mcat_manifests c) @
    (if list_ex (commit_target commit) (mcat_manifests c) then []
     else [(im_digest (mc_manifest commit), (mc_manifest commit)\<lparr>im_tags := {mc_tag commit}, im_signature := sg\<rparr>)])"
    by (rule commit_manifests [OF rows])
  have old: "rows_ok (c\<lparr>mcat_manifests := map (commit_row commit) (mcat_manifests c)\<rparr>)"
    by (rule rows_ok_map [OF rows, where f = "commit_row commit"]) (simp_all add: commit_row_like)
  have "(im_repository (mc_manifest commit), im_digest (mc_manifest commit)) \<notin> row_id ` set (mcat_manifests c)"
    if "\<not> list_ex (commit_target commit) (mcat_manifests c)"
    using that by (auto simp: list_ex_iff commit_target_def row_id_def)
  moreover have "row_id ` commit_row commit ` set (mcat_manifests c) = row_id ` set (mcat_manifests c)"
    using row_like_id [OF commit_row_like] by (simp add: image_image)
  ultimately show ?thesis
    using old repo d unfolding rows_ok_def ms by (auto simp: row_id_def)
qed

lemma commit_held_ok:
  assumes rows: "rows_ok c" and held: "held_ok c" and nodes: "mc_holder_nodes commit \<noteq> {}"
  shows "held_ok (apply_manifest_commit commit c)"
proof -
  let ?c' = "apply_manifest_commit commit c"
  obtain sg where ms: "mcat_manifests ?c' = map (commit_row commit) (mcat_manifests c) @
    (if list_ex (commit_target commit) (mcat_manifests c) then []
     else [(im_digest (mc_manifest commit), (mc_manifest commit)\<lparr>im_tags := {mc_tag commit}, im_signature := sg\<rparr>)])"
    by (rule commit_manifests [OF rows])
  have "layer_holders ?c' x \<noteq> {}" if row: "(k, m) \<in> set (mcat_manifests ?c')" and x: "x \<in> set (referenced_digests m)" for k m x
  proof (cases "(k, m) \<in> commit_row commit ` set (mcat_manifests c)")
    case True
    then obtain k0 m0 where m0: "(k0, m0) \<in> set (mcat_manifests c)" "(k, m) = commit_row commit (k0, m0)" by auto
    then have "x \<in> set (referenced_digests m0)"
      using x commit_row_like [of commit "(k0, m0)"] by (simp add: row_like_def flip: m0(2))
    then show ?thesis using held m0(1) by (auto simp: held_ok_def commit_simps)
  next
    case False
    then have "referenced_digests m = referenced_digests (mc_manifest commit)"
      using row unfolding ms by (auto split: if_splits)
    then show ?thesis using x nodes by (simp add: commit_simps)
  qed
  then show ?thesis by (auto simp: held_ok_def)
qed

lemma commit_tags_ok:
  assumes rows: "rows_ok c" and tags: "tags_ok c" and repo: "name_ok (im_repository (mc_manifest commit))"
  shows "tags_ok (apply_manifest_commit commit c)"
proof -
  let ?c' = "apply_manifest_commit commit c"
  let ?r = "im_repository (mc_manifest commit)" and ?d = "im_digest (mc_manifest commit)" and ?t = "mc_tag commit"
  obtain sg where ms: "mcat_manifests ?c' = map (commit_row commit) (mcat_manifests c) @
    (if list_ex (commit_target commit) (mcat_manifests c) then []
     else [(?d, (mc_manifest commit)\<lparr>im_tags := {?t}, im_signature := sg\<rparr>)])"
    by (rule commit_manifests [OF rows])
  have key: "tag_key r t = tag_key ?r ?t \<longleftrightarrow> r = ?r \<and> t = ?t" if "name_ok r" for r t
    using tag_key_inj [OF _ that repo] by auto
  have there: "\<exists>m. (?d, m) \<in> set (mcat_manifests ?c') \<and> im_repository m = ?r \<and> ?t \<in> im_tags m"
  proof (cases "list_ex (commit_target commit) (mcat_manifests c)")
    case True
    then obtain m0 where m0: "(?d, m0) \<in> set (mcat_manifests c)" "im_repository m0 = ?r"
      by (auto simp: list_ex_iff commit_target_def)
    then have "commit_row commit (?d, m0) \<in> set (mcat_manifests ?c')" unfolding ms by auto
    with m0(2) show ?thesis by (auto simp: commit_row_def)
  qed (auto simp: ms)
  have forth: "(tag_key (im_repository m) t, k) \<in> set (mcat_tags ?c')"
    if row: "(k, m) \<in> set (mcat_manifests ?c')" and t: "t \<in> im_tags m" for k m t
  proof (cases "(k, m) \<in> commit_row commit ` set (mcat_manifests c)")
    case True
    then obtain k0 m0 where m0: "(k0, m0) \<in> set (mcat_manifests c)" "(k, m) = commit_row commit (k0, m0)" by auto
    have name: "name_ok (im_repository m0)" using rows_okD(2) [OF rows m0(1)] .
    have was: "(tag_key (im_repository m0) t, k0) \<in> set (mcat_tags c)" if "t \<in> im_tags m0"
      using tags m0(1) that by (auto simp: tags_ok_def)
    show ?thesis
      using m0(2) t was key [OF name] by (auto simp: commit_simps commit_row_def Let_def untag_def split: if_splits)
  next
    case False
    then show ?thesis using row t unfolding ms by (auto simp: commit_simps split: if_splits)
  qed
  have was: "\<exists>m. (d, m) \<in> set (mcat_manifests ?c') \<and> im_repository m = r \<and> t \<in> im_tags m"
    if kd: "(tag_key r t, d) \<in> set (mcat_tags c)" and r: "name_ok r" "\<not> is_digest_tag t" and other: "\<not> (r = ?r \<and> t = ?t)" for r t d
  proof -
    obtain m0 where m0: "(d, m0) \<in> set (mcat_manifests c)" "im_repository m0 = r" "t \<in> im_tags m0"
      using tags kd r unfolding tags_ok_def by fast
    then have "commit_row commit (d, m0) \<in> set (mcat_manifests ?c')" unfolding ms by auto
    with m0 other show ?thesis by (force simp: commit_row_def Let_def untag_def split: if_splits)
  qed
  have back_: "\<exists>m. (d, m) \<in> set (mcat_manifests ?c') \<and> im_repository m = r \<and> t \<in> im_tags m"
    if "(tag_key r t, d) \<in> set (mcat_tags ?c')" "name_ok r" "\<not> is_digest_tag t" for r t d
    using that was [of r t d] there key [OF that(2)] by (auto simp: commit_simps)
  have "distinct (map fst (mcat_tags ?c'))"
    using tags by (auto simp: tags_ok_def commit_simps distinct_map_filter)
  with forth back_ show ?thesis unfolding tags_ok_def by fast
qed


lemma get_repository_manifest_cong:
  "mcat_manifests c' = mcat_manifests c \<Longrightarrow> get_repository_manifest c' r d = get_repository_manifest c r d"
  by (simp add: get_repository_manifest_def)

lemma commit_clock:
  fixes commit c
  defines "c' \<equiv> apply_manifest_commit commit c" and "r \<equiv> im_repository (mc_manifest commit)"
    and "d \<equiv> im_digest (mc_manifest commit)"
    and "u \<equiv> untag_rows (\<lambda>(_, old). im_repository old = im_repository (mc_manifest commit)) (mc_tag commit)
      (unix_millis (im_pushed_at (mc_manifest commit))) c"
  shows "fst ` set (mcat_untagged_at c') = (if is_digest_tag (mc_tag commit)
      then (if (case get_repository_manifest c' r d of None \<Rightarrow> False | Some m \<Rightarrow> has_real_tag m)
            then fst ` set (mcat_untagged_at u) else insert (untagged_key r d) (fst ` set (mcat_untagged_at u)))
      else fst ` set (mcat_untagged_at u) - {untagged_key r d})"
    and "bt_ok (mcat_untagged_at u) \<Longrightarrow> bt_ok (mcat_untagged_at c')"
proof -
  define c3 where "c3 = (untag_rows (\<lambda>(_, old). im_repository old = r) (mc_tag commit)
      (unix_millis (im_pushed_at (mc_manifest commit)))
      (c\<lparr>mcat_tags := filter (\<lambda>(k, _). k \<noteq> tag_key r (mc_tag commit)) (mcat_tags c)\<rparr>))
      \<lparr>mcat_tags := filter (\<lambda>(k, _). k \<noteq> tag_key r (mc_tag commit)) (mcat_tags c)
        @ [(tag_key r (mc_tag commit), d)]\<rparr>"
  obtain sg where c': "mcat_untagged_at c' = mcat_untagged_at (set_clock commit (put_row commit sg c3))"
    "mcat_manifests c' = mcat_manifests (put_row commit sg c3)"
    by (rule that) (auto simp: c'_def apply_manifest_commit_def Let_def set_clock_def c3_def r_def d_def untag_rows_def)
  have u: "mcat_untagged_at (put_row commit sg c3) = mcat_untagged_at u"
    by (simp add: put_row_def Let_def c3_def u_def untag_rows_def r_def)
  have get: "get_repository_manifest (put_row commit sg c3) r d = get_repository_manifest c' r d"
    by (rule get_repository_manifest_cong) (simp add: c')
  show "fst ` set (mcat_untagged_at c') = (if is_digest_tag (mc_tag commit)
      then (if (case get_repository_manifest c' r d of None \<Rightarrow> False | Some m \<Rightarrow> has_real_tag m)
            then fst ` set (mcat_untagged_at u) else insert (untagged_key r d) (fst ` set (mcat_untagged_at u)))
      else fst ` set (mcat_untagged_at u) - {untagged_key r d})"
    using get u by (simp add: c' set_clock_def Let_def r_def d_def)
  show "bt_ok (mcat_untagged_at c')" if "bt_ok (mcat_untagged_at u)"
    using that u by (simp add: c' set_clock_def Let_def)
qed

lemma commit_clock_ok:
  assumes rows: "rows_ok c" and clock: "clock_ok c" and repo: "name_ok (im_repository (mc_manifest commit))"
    and dig: "digest_ok (im_digest (mc_manifest commit))"
  shows "clock_ok (apply_manifest_commit commit c)"
proof -
  let ?c' = "apply_manifest_commit commit c"
  let ?r = "im_repository (mc_manifest commit)" and ?d = "im_digest (mc_manifest commit)" and ?t = "mc_tag commit"
  let ?u = "untag_rows (\<lambda>(_, old). im_repository old = ?r) ?t (unix_millis (im_pushed_at (mc_manifest commit))) c"
  obtain sg where ms: "mcat_manifests ?c' = map (commit_row commit) (mcat_manifests c) @
    (if list_ex (commit_target commit) (mcat_manifests c) then []
     else [(?d, (mc_manifest commit)\<lparr>im_tags := {?t}, im_signature := sg\<rparr>)])"
    by (rule commit_manifests [OF rows])
  have rows': "rows_ok ?c'" by (rule commit_rows_ok [OF rows repo dig])
  have u_ok: "bt_ok (mcat_untagged_at ?u)" using clock by (intro untag_rows_clock) (simp add: clock_ok_def)
  have "untagged_key (im_repository m) k \<in> fst ` set (mcat_untagged_at ?c') \<longleftrightarrow> \<not> has_real_tag m"
    if row: "(k, m) \<in> set (mcat_manifests ?c')" for k m
  proof (cases "im_repository m = ?r \<and> k = ?d")
    case True
    then have get: "get_repository_manifest ?c' ?r ?d = Some m"
      using row by (simp add: get_repository_manifest_iff [OF rows'])
    have here: "?t \<in> im_tags m"
      using row True unfolding ms by (auto simp: commit_row_def Let_def untag_def list_ex_iff commit_target_def split: if_splits)
    show ?thesis
    proof (cases "is_digest_tag ?t \<and> has_real_tag m")
      case False
      then show ?thesis using True here get by (auto simp: commit_clock has_real_tag_def)
    next
      case tagged: True
      obtain m0 where m0: "(?d, m0) \<in> set (mcat_manifests c)" "im_repository m0 = ?r" "m = m0\<lparr>im_tags := insert ?t (im_tags m0 - {?t})\<rparr>"
        using row True tagged unfolding ms
        by (auto simp: commit_row_def Let_def untag_def has_real_tag_def split: if_splits)
      have "untagged_key ?r ?d \<in> fst ` set (mcat_untagged_at ?u) \<longleftrightarrow> \<not> has_real_tag (untag ?t m0)"
        using untag_rows_clock_ok [OF rows clock m0(1), of "\<lambda>(_, old). im_repository old = ?r"] m0(2) by simp
      moreover have "has_real_tag (untag ?t m0)"
        using tagged m0(3) by (auto simp: has_real_tag_def untag_def)
      ultimately show ?thesis using True tagged get by (simp add: commit_clock)
    qed
  next
    case False
    then have "(k, m) \<in> commit_row commit ` set (mcat_manifests c)"
      using row unfolding ms by (auto split: if_splits)
    then obtain k0 m0 where "(k0, m0) \<in> set (mcat_manifests c)" "(k, m) = commit_row commit (k0, m0)" by auto
    then have m0: "(k, m0) \<in> set (mcat_manifests c)" "m = (if im_repository m0 = ?r then untag ?t m0 else m0)"
      "im_repository m0 = im_repository m"
      using False by (auto simp: commit_row_def Let_def untag_def split: if_splits)
    have "untagged_key (im_repository m) k \<in> fst ` set (mcat_untagged_at ?u) \<longleftrightarrow> \<not> has_real_tag m"
      using untag_rows_clock_ok [OF rows clock m0(1), of "\<lambda>(_, old). im_repository old = ?r"]
      unfolding m0(3) [symmetric] unfolding m0(2) by simp
    moreover have "untagged_key (im_repository m) k \<noteq> untagged_key ?r ?d"
      using False untagged_key_inj [of "im_repository m" k ?r ?d] rows_okD(3) [OF rows' row] dig by blast
    ultimately show ?thesis by (simp add: commit_clock)
  qed
  with commit_clock(2) [OF u_ok] show ?thesis by (auto simp: clock_ok_def)
qed

subsection \<open>Tag deletion\<close>

lemma delete_tag_ok:
  assumes ok: "catalog_ok c" and repo: "name_ok (dt_repository del)"
  shows "catalog_ok (snd (apply_delete_tag del c))"
proof (cases "map_of (mcat_tags c) (tag_key (dt_repository del) (dt_tag del))")
  case None
  then show ?thesis using ok by (simp add: apply_delete_tag_def)
next
  case (Some d)
  let ?r = "dt_repository del" and ?t = "dt_tag del"
  let ?key = "tag_key ?r ?t"
  define sel where "sel = (\<lambda>(k :: string, m :: image_manifest). k = d \<and> im_repository m = ?r)"
  define c1 where "c1 = c\<lparr>mcat_tags := filter (\<lambda>(k, _). k \<noteq> ?key) (mcat_tags c)\<rparr>"
  define c' where "c' = untag_rows sel ?t (dt_deleted_at_unix_ms del) c1"
  have c': "snd (apply_delete_tag del c) = c'" by (simp add: apply_delete_tag_def Some c'_def c1_def sel_def)
  have rows: "rows_ok c" and held: "held_ok c" and tags: "tags_ok c" and clock: "clock_ok c"
    using ok by (simp_all add: catalog_ok_def)
  have ms: "mcat_manifests c' = map (\<lambda>row. if sel row then (fst row, untag ?t (snd row)) else row) (mcat_manifests c)"
    by (simp add: c'_def untag_rows_manifests c1_def)
  have tgs: "mcat_tags c' = filter (\<lambda>(k, _). k \<noteq> ?key) (mcat_tags c)" by (simp add: c'_def untag_rows_def c1_def)
  have rows': "rows_ok c'" by (rule rows_ok_map [OF rows ms]) (rule untag_like)
  have held': "held_ok c'"
    by (rule held_ok_map [OF held ms]) (rule untag_like, simp add: c'_def untag_rows_def c1_def layer_holders_def)
  have keyd: "(?key, d) \<in> set (mcat_tags c)" using map_of_SomeD [OF Some] .
  have forth: "(tag_key (im_repository m) t, k) \<in> set (mcat_tags c')"
    if row: "(k, m) \<in> set (mcat_manifests c')" and t: "t \<in> im_tags m" for k m t
  proof -
    obtain m0 where m0: "(k, m0) \<in> set (mcat_manifests c)" "m = (if sel (k, m0) then untag ?t m0 else m0)"
      using row unfolding ms by (auto split: if_splits)
    then have old: "(tag_key (im_repository m0) t, k) \<in> set (mcat_tags c)"
      using tags t by (auto simp: tags_ok_def untag_def split: if_splits)
    have "tag_key (im_repository m0) t \<noteq> ?key"
    proof
      assume eq: "tag_key (im_repository m0) t = ?key"
      then have same: "im_repository m0 = ?r \<and> t = ?t"
        using tag_key_inj rows_okD(2) [OF rows m0(1)] repo by blast
      have "k = d"
        using old keyd tags eq by (metis (mono_tags, lifting) eq_key_imp_eq_value tags_ok_def)
      with same m0(2) t show False by (simp add: sel_def untag_def)
    qed
    with old m0(2) show ?thesis by (auto simp: tgs untag_def)
  qed
  have behind: "\<exists>m. (e, m) \<in> set (mcat_manifests c') \<and> im_repository m = r \<and> t \<in> im_tags m"
    if kd: "(tag_key r t, e) \<in> set (mcat_tags c')" and r: "name_ok r" "\<not> is_digest_tag t" for r t e
  proof -
    have "(tag_key r t, e) \<in> set (mcat_tags c)" and other: "\<not> (r = ?r \<and> t = ?t)" using kd by (auto simp: tgs)
    then obtain m0 where m0: "(e, m0) \<in> set (mcat_manifests c)" "im_repository m0 = r" "t \<in> im_tags m0"
      using tags r unfolding tags_ok_def by fast
    then have "(e, if sel (e, m0) then untag ?t m0 else m0) \<in> set (mcat_manifests c')" unfolding ms by force
    with m0 other show ?thesis by (force simp: untag_def sel_def split: if_splits)
  qed
  have "distinct (map fst (mcat_tags c'))" using tags by (auto simp: tags_ok_def tgs distinct_map_filter)
  with forth behind have tags': "tags_ok c'" unfolding tags_ok_def by fast
  have rows1: "rows_ok c1" and clock1: "clock_ok c1" using rows clock by (simp_all add: rows_ok_def clock_ok_def c1_def)
  have "untagged_key (im_repository m) k \<in> fst ` set (mcat_untagged_at c') \<longleftrightarrow> \<not> has_real_tag m"
    if row: "(k, m) \<in> set (mcat_manifests c')" for k m
  proof -
    obtain m0 where m0: "(k, m0) \<in> set (mcat_manifests c1)" "m = (if sel (k, m0) then untag ?t m0 else m0)"
      using row unfolding ms by (auto simp: c1_def split: if_splits)
    have same: "im_repository m = im_repository m0" using m0(2) by (simp add: untag_def)
    show ?thesis
      using untag_rows_clock_ok [OF rows1 clock1 m0(1), of sel] unfolding same unfolding m0(2) c'_def by simp
  qed
  moreover have "bt_ok (mcat_untagged_at c')"
    using clock1 unfolding c'_def by (intro untag_rows_clock) (simp add: clock_ok_def)
  ultimately have "clock_ok c'" by (auto simp: clock_ok_def)
  with rows' held' tags' show ?thesis by (simp add: c' catalog_ok_def)
qed


subsection \<open>Expiry and retirement\<close>

lemma map_of_filter_key: "map_of (filter (\<lambda>(k, _). P k) m) x = (if P x then map_of m x else None)"
  by (induction m) auto

lemma drop_rows_manifests: "mcat_manifests (drop_rows gone cand c) = filter (\<lambda>row. \<not> gone row) (mcat_manifests c)"
  by (simp add: drop_rows_def Let_def)

lemma drop_rows_ok:
  assumes "rows_ok c" shows "rows_ok (drop_rows gone cand c)"
  using assms by (auto simp: rows_ok_def drop_rows_manifests distinct_map_filter)

lemma drop_rows_held:
  assumes "held_ok c" shows "held_ok (drop_rows gone cand c)"
proof -
  have "layer_holders (drop_rows gone cand c) d \<noteq> {}"
    if "(k, m) \<in> set (mcat_manifests (drop_rows gone cand c))" "d \<in> set (referenced_digests m)" for k m d
  proof -
    have "d \<in> referenced_digest_set (filter (\<lambda>row. \<not> gone row) (mcat_manifests c))"
      using that by (auto simp: drop_rows_manifests referenced_digest_set_def)
    then have "layer_holders (drop_rows gone cand c) d = layer_holders c d"
      by (simp add: layer_holders_def drop_rows_def Let_def map_of_filter_key)
    then show ?thesis using assms that by (auto simp: held_ok_def drop_rows_manifests)
  qed
  then show ?thesis by (auto simp: held_ok_def)
qed

lemma expire_ok:
  assumes ok: "catalog_ok c" and run: "apply_expire_manifest e pinned c = Inr c'"
  shows "catalog_ok c'"
proof -
  have rows: "rows_ok c" and held: "held_ok c" and tags: "tags_ok c" and clock: "clock_ok c"
    using ok by (simp_all add: catalog_ok_def)
  let ?r = "em_repository e" and ?d = "em_digest e"
  let ?gone = "\<lambda>(k :: string, m :: image_manifest). k = ?d \<and> im_repository m = ?r"
  obtain m0 where m0: "get_repository_manifest c ?r ?d = Some m0" "\<not> has_real_tag m0"
    using run by (auto simp: apply_expire_manifest_def expiry_refusal_def split: option.splits if_splits)
  then have row0: "(?d, m0) \<in> set (mcat_manifests c)" "im_repository m0 = ?r"
    by (simp_all add: get_repository_manifest_iff [OF rows])
  define c1 where "c1 = c\<lparr>mcat_untagged_at := bt_remove (untagged_key ?r ?d) (mcat_untagged_at c)\<rparr>"
  obtain cand where c': "c' = drop_rows ?gone cand c1"
    using run by (auto simp: apply_expire_manifest_def c1_def split: option.splits)
  have rows1: "rows_ok c1" and held1: "held_ok c1"
    using rows held by (simp_all add: c1_def rows_ok_def held_ok_def layer_holders_def)
  have ms: "mcat_manifests c' = filter (\<lambda>row. \<not> ?gone row) (mcat_manifests c)"
    by (simp add: c' drop_rows_manifests c1_def)
  have tgs: "mcat_tags c' = mcat_tags c" by (simp add: c' drop_rows_def Let_def c1_def)
  have behind: "\<exists>m. (d, m) \<in> set (mcat_manifests c') \<and> im_repository m = r \<and> t \<in> im_tags m"
    if kd: "(tag_key r t, d) \<in> set (mcat_tags c')" and r: "name_ok r" "\<not> is_digest_tag t" for r t d
  proof -
    obtain m where m: "(d, m) \<in> set (mcat_manifests c)" "im_repository m = r" "t \<in> im_tags m"
      using tags kd r unfolding tgs tags_ok_def by fast
    have "\<not> (d = ?d \<and> r = ?r)"
      using m m0(2) row0 row_unique [OF rows, of ?d m m0] r(2) by (auto simp: has_real_tag_def)
    with m show ?thesis by (auto simp: ms)
  qed
  have tags': "tags_ok c'"
    using tags behind unfolding tags_ok_def tgs ms by auto
  have "untagged_key (im_repository m) k \<in> fst ` set (mcat_untagged_at c') \<longleftrightarrow> \<not> has_real_tag m"
    if row: "(k, m) \<in> set (mcat_manifests c')" for k m
  proof -
    have old: "(k, m) \<in> set (mcat_manifests c)" "\<not> (k = ?d \<and> im_repository m = ?r)" using row by (auto simp: ms)
    have "untagged_key (im_repository m) k \<noteq> untagged_key ?r ?d"
      using old untagged_key_inj [of "im_repository m" k ?r ?d] rows_okD(3) [OF rows old(1)] rows_okD(3) [OF rows row0(1)] by blast
    with old(1) clock show ?thesis by (auto simp: clock_ok_def c' drop_rows_def Let_def c1_def)
  qed
  moreover have "bt_ok (mcat_untagged_at c')"
    using clock by (simp add: clock_ok_def c' drop_rows_def Let_def c1_def)
  ultimately have "clock_ok c'" by (auto simp: clock_ok_def)
  moreover have "rows_ok c'" "held_ok c'"
    unfolding c' by (rule drop_rows_ok [OF rows1], rule drop_rows_held [OF held1])
  ultimately show ?thesis using tags' by (simp add: catalog_ok_def)
qed

lemma starts_with_key:
  assumes "name_ok r" "name_ok r'"
  shows "starts_with (tag_key r t) (r' @ '':'') \<longleftrightarrow> r = r'"
proof
  assume "starts_with (tag_key r t) (r' @ '':'')"
  then obtain t' where "tag_key r t = tag_key r' t'" by (auto simp: starts_with_iff tag_key_def)
  then show "r = r'" using tag_key_inj assms by blast
qed (auto simp: starts_with_iff tag_key_def)

lemma retire_ok:
  assumes ok: "catalog_ok c" and repo: "name_ok repository"
  shows "catalog_ok (retire_repository repository c)"
proof -
  have rows: "rows_ok c" and held: "held_ok c" and tags: "tags_ok c" and clock: "clock_ok c"
    using ok by (simp_all add: catalog_ok_def)
  let ?gone = "\<lambda>(_ :: string, m :: image_manifest). im_repository m = repository"
  define c1 where "c1 = c\<lparr>mcat_repository_owners := bt_remove repository (mcat_repository_owners c),
    mcat_tags := filter (\<lambda>(k, _). \<not> starts_with k (repository @ '':'')) (mcat_tags c),
    mcat_untagged_at := filter (\<lambda>(k, _). case rsplit_once (CHR ''@'') k of
               None \<Rightarrow> True | Some (name, _) \<Rightarrow> name \<noteq> repository) (mcat_untagged_at c)\<rparr>"
  define c' where "c' = retire_repository repository c"
  obtain cand where c': "c' = drop_rows ?gone cand c1"
    by (simp add: c'_def retire_repository_def Let_def c1_def)
  have rows1: "rows_ok c1" and held1: "held_ok c1"
    using rows held by (simp_all add: c1_def rows_ok_def held_ok_def layer_holders_def)
  have ms: "mcat_manifests c' = filter (\<lambda>row. \<not> ?gone row) (mcat_manifests c)"
    by (simp add: c' drop_rows_manifests c1_def)
  have tgs: "mcat_tags c' = filter (\<lambda>(k, _). \<not> starts_with k (repository @ '':'')) (mcat_tags c)"
    by (simp add: c' drop_rows_def Let_def c1_def)
  have kept: "(k, m) \<in> set (mcat_manifests c) \<and> im_repository m \<noteq> repository" if "(k, m) \<in> set (mcat_manifests c')" for k m
    using that by (auto simp: ms)
  have forth: "(tag_key (im_repository m) t, k) \<in> set (mcat_tags c')"
    if "(k, m) \<in> set (mcat_manifests c')" "t \<in> im_tags m" for k m t
  proof -
    have m: "(k, m) \<in> set (mcat_manifests c)" "im_repository m \<noteq> repository" using kept [OF that(1)] by auto
    then have "(tag_key (im_repository m) t, k) \<in> set (mcat_tags c)" using tags that(2) by (auto simp: tags_ok_def)
    with m(2) starts_with_key [OF rows_okD(2) [OF rows m(1)] repo] show ?thesis by (auto simp: tgs)
  qed
  have behind: "\<exists>m. (d, m) \<in> set (mcat_manifests c') \<and> im_repository m = r \<and> t \<in> im_tags m"
    if "(tag_key r t, d) \<in> set (mcat_tags c')" "name_ok r" "\<not> is_digest_tag t" for r t d
  proof -
    have "(tag_key r t, d) \<in> set (mcat_tags c)" "r \<noteq> repository"
      using that(1) starts_with_key [OF that(2) repo] by (auto simp: tgs)
    then show ?thesis using tags that(2,3) unfolding tags_ok_def ms by fastforce
  qed
  have "distinct (map fst (mcat_tags c'))" using tags by (auto simp: tags_ok_def tgs distinct_map_filter)
  with forth behind have tags': "tags_ok c'" unfolding tags_ok_def by fast
  have "untagged_key (im_repository m) k \<in> fst ` set (mcat_untagged_at c') \<longleftrightarrow> \<not> has_real_tag m"
    if "(k, m) \<in> set (mcat_manifests c')" for k m
  proof -
    have m: "(k, m) \<in> set (mcat_manifests c)" "im_repository m \<noteq> repository" using kept [OF that] by auto
    have "rsplit_once (CHR ''@'') (untagged_key (im_repository m) k) = Some (im_repository m, k)"
      using rows_okD(3) [OF rows m(1)] by (simp add: untagged_key_def digest_ok_def)
    then have "untagged_key (im_repository m) k \<in> fst ` set (mcat_untagged_at c') \<longleftrightarrow>
        untagged_key (im_repository m) k \<in> fst ` set (mcat_untagged_at c)"
      using m(2) by (force simp: c' drop_rows_def Let_def c1_def)
    with clock m(1) show ?thesis by (auto simp: clock_ok_def)
  qed
  moreover have "bt_ok (mcat_untagged_at c')"
    using clock by (simp add: clock_ok_def bt_ok_filter c' drop_rows_def Let_def c1_def)
  ultimately have "clock_ok c'" by (auto simp: clock_ok_def)
  moreover have "rows_ok c'" "held_ok c'"
    unfolding c' by (rule drop_rows_ok [OF rows1], rule drop_rows_held [OF held1])
  ultimately show ?thesis using tags' by (simp add: catalog_ok_def c'_def)
qed

subsection \<open>Holders and signatures\<close>

lemma locations_ok:
  assumes "catalog_ok c"
    and "mcat_manifests c' = mcat_manifests c" "mcat_tags c' = mcat_tags c" "mcat_untagged_at c' = mcat_untagged_at c"
    and "\<And>d. layer_holders c d \<noteq> {} \<Longrightarrow> layer_holders c' d \<noteq> {}"
  shows "catalog_ok c'"
  using assms by (auto simp: catalog_ok_def rows_ok_def held_ok_def tags_ok_def clock_ok_def)

lemma signature_ok:
  assumes "catalog_ok c" shows "catalog_ok (snd (apply_attach_signature a c))"
proof -
  define f where "f = (\<lambda>(k, m). if k = at_manifest_digest a
      then (k, m\<lparr>im_signature := Some (at_signature a)\<rparr>) else (k :: string, m :: image_manifest))"
  let ?c' = "snd (apply_attach_signature a c)"
  have ms: "mcat_manifests ?c' = map f (mcat_manifests c)" by (simp add: apply_attach_signature_def f_def)
  have like: "row_like (f row) row" and tags: "im_tags (snd (f row)) = im_tags (snd row)" for row
    by (auto simp: f_def row_like_def split: prod.split)
  have rows: "rows_ok ?c'" by (rule rows_ok_map [OF _ ms like]) (use assms in \<open>simp add: catalog_ok_def\<close>)
  have held: "held_ok ?c'"
    by (rule held_ok_map [OF _ ms like]) (use assms in \<open>simp_all add: catalog_ok_def apply_attach_signature_def layer_holders_def\<close>)
  have row: "fst (f row) = fst row" "im_repository (snd (f row)) = im_repository (snd row)" for row
    using like [of row] by (simp_all add: row_like_def)
  have "tags_ok ?c'"
    using assms tags row unfolding catalog_ok_def tags_ok_def ms
    by (auto simp: split_beta apply_attach_signature_def) (metis fst_conv snd_conv surjective_pairing image_eqI)
  moreover have "clock_ok ?c'"
    using assms tags row unfolding catalog_ok_def clock_ok_def ms
    by (auto simp: split_beta apply_attach_signature_def has_real_tag_def)
  ultimately show ?thesis using rows held by (simp add: catalog_ok_def)
qed


section \<open>The catalogue as a log\<close>

datatype catalog_cmd =
    CatCommit manifest_commit
  | CatHolder string string nat
  | CatGc gc_report
  | CatDeleteTag delete_tag
  | CatExpire expire_manifest "string set"
  | CatRetire string
  | CatSign attach_signature
  | CatClaim string string

fun catalog_exec :: "catalog_cmd \<Rightarrow> manifest_catalog \<Rightarrow> manifest_catalog" where
  "catalog_exec (CatCommit commit) c = apply_manifest_commit commit c"
| "catalog_exec (CatHolder repository d node) c = snd (add_manifest_holder repository d node c)"
| "catalog_exec (CatGc report) c = snd (apply_gc_report report c)"
| "catalog_exec (CatDeleteTag del) c = snd (apply_delete_tag del c)"
| "catalog_exec (CatExpire e pinned) c = (case apply_expire_manifest e pinned c of Inl _ \<Rightarrow> c | Inr c' \<Rightarrow> c')"
| "catalog_exec (CatRetire repository) c = retire_repository repository c"
| "catalog_exec (CatSign a) c = snd (apply_attach_signature a c)"
| "catalog_exec (CatClaim repository lease) c = (case claim_repository repository lease c of Inl _ \<Rightarrow> c | Inr c' \<Rightarrow> c')"

text \<open>
  What the registry's clients keep to: repository names without a colon, digests without an at
  sign (\<open>Digest::validate\<close> allows only hexadecimal digits), and a commit that names a holder.
\<close>

fun catalog_cmd_ok :: "catalog_cmd \<Rightarrow> bool" where
  "catalog_cmd_ok (CatCommit commit) \<longleftrightarrow> name_ok (im_repository (mc_manifest commit)) \<and>
     digest_ok (im_digest (mc_manifest commit)) \<and> mc_holder_nodes commit \<noteq> {}"
| "catalog_cmd_ok (CatDeleteTag del) \<longleftrightarrow> name_ok (dt_repository del)"
| "catalog_cmd_ok (CatRetire repository) \<longleftrightarrow> name_ok repository"
| "catalog_cmd_ok _ \<longleftrightarrow> True"

lemma gc_report_ok:
  assumes "catalog_ok c" shows "catalog_ok (snd (apply_gc_report report c))"
proof -
  obtain approved locs where run: "gc_approve (referenced_digest_set (mcat_manifests c)) (gr_node_id report)
      (gr_deleted_layers report) (mcat_layer_locations c) = (approved, locs)" by fastforce
  then have "holders_in (mcat_layer_locations c) d \<noteq> {} \<Longrightarrow> holders_in locs d \<noteq> {}" for d
    using gc_approve_keeps [OF run] by blast
  then show ?thesis
    by (intro locations_ok [OF assms]) (simp_all add: apply_gc_report_def run layer_holders_in)
qed

lemma add_holder_ok:
  assumes "catalog_ok c" shows "catalog_ok (snd (add_manifest_holder repository d node c))"
  by (rule locations_ok [OF assms])
    (auto simp: add_manifest_holder_def layer_holders_in holders_add_all split: option.split)

lemma claim_ok:
  assumes "catalog_ok c" "claim_repository repository lease c = Inr c'"
  shows "catalog_ok c'"
  using assms(2) by (intro locations_ok [OF assms(1)]) (auto simp: claim_repository_def layer_holders_def split: if_splits option.splits)

lemma catalog_exec_ok: "catalog_ok c \<Longrightarrow> catalog_cmd_ok cmd \<Longrightarrow> catalog_ok (catalog_exec cmd c)"
proof (cases cmd)
  case (CatCommit commit)
  then show "catalog_ok c \<Longrightarrow> catalog_cmd_ok cmd \<Longrightarrow> ?thesis"
    using commit_rows_ok commit_held_ok commit_tags_ok commit_clock_ok by (simp add: catalog_ok_def)
qed (auto intro: gc_report_ok add_holder_ok claim_ok delete_tag_ok expire_ok retire_ok signature_ok split: sum.split)

lemma catalog_default_ok: "catalog_ok catalog_default"
  by (simp add: catalog_ok_def rows_ok_def held_ok_def tags_ok_def clock_ok_def catalog_default_def)

interpretation catalogue_log: command_machine catalog_exec catalog_cmd_ok catalog_ok
  by unfold_locales (rule catalog_exec_ok)


definition demo_manifest :: "string \<Rightarrow> string \<Rightarrow> image_manifest" where
  "demo_manifest repository d = \<lparr>im_digest = d,
     im_config = \<lparr>ld_digest = ''sha256:cfg'', ld_size = 10, ld_media_type = [], ld_platform = None\<rparr>,
     im_layers = [\<lparr>ld_digest = ''sha256:layer'', ld_size = 90, ld_media_type = [], ld_platform = None\<rparr>],
     im_repository = repository, im_tags = {}, im_total_size = 100, im_pushed_at = 5000000, im_pushed_by = 1,
     im_signature = None\<rparr>"

definition demo_commit :: "string \<Rightarrow> string \<Rightarrow> manifest_commit" where
  "demo_commit d tag = \<lparr>mc_observed_gc_generation = 0, mc_manifest = demo_manifest ''web'' d, mc_tag = tag,
     mc_holder_nodes = {1, 2}\<rparr>"

definition demo_log :: "catalog_cmd list" where
  "demo_log = [CatCommit (demo_commit ''sha256:a'' ''v1''), CatCommit (demo_commit ''sha256:b'' ''v1''),
     CatGc \<lparr>gr_node_id = 1, gr_deleted_layers = [''sha256:layer'', ''sha256:x'']\<rparr>]"






end
