(* ===== verification/Image_Reference.thy ===== *)
theory Image_Reference
  imports Registry
begin

text \<open>
  Image references: \<open>ImageReference::parse\<close> of \<open>grill/image.rs\<close>, and the look-up of an image in
  the registry's catalogue for the trust policy (\<open>meat/scheduler.rs\<close>).
\<close>

section \<open>Parsing\<close>

record image_reference =
  ir_registry :: string
  ir_repository :: string
  ir_tag :: string
  ir_bound_tag :: "string option"

text \<open>
  \<open>split_tag\<close>: only a colon after the last slash starts a tag, and of several it is the last one.
\<close>

definition split_tag :: "string \<Rightarrow> string \<times> string option" where
  "split_tag s = (case rsplit_once (CHR ''/'') s of
     None \<Rightarrow> (case rsplit_once (CHR '':'') s of None \<Rightarrow> (s, None) | Some (a, t) \<Rightarrow> (a, Some t))
   | Some (dir, base) \<Rightarrow> (case rsplit_once (CHR '':'') base of
       None \<Rightarrow> (s, None) | Some (a, t) \<Rightarrow> (dir @ ''/'' @ a, Some t)))"

definition split_name_tag :: "string \<Rightarrow> string \<times> string \<times> string option" where
  "split_name_tag s = (case split_once (CHR ''@'') s of
     Some (name, digest) \<Rightarrow> (let (n, t) = split_tag name in (n, digest, t))
   | None \<Rightarrow> (case split_tag s of
       (name, Some t) \<Rightarrow> (name, t, None)
     | (name, None) \<Rightarrow> (name, ''latest'', None)))"

definition is_registry :: "string \<Rightarrow> bool" where
  "is_registry first \<longleftrightarrow> CHR ''.'' \<in> set first \<or> CHR '':'' \<in> set first"

definition parse_reference :: "string \<Rightarrow> image_reference option" where
  "parse_reference text = (let s = trim text in
     if s = [] then None
     else let (name, tag, bound) = split_name_tag s;
              (registry, repository) = (case split_once (CHR ''/'') name of
                  None \<Rightarrow> (''docker.io'', ''library/'' @ name)
                | Some (first, rest) \<Rightarrow> if is_registry first then (first, rest) else (''docker.io'', name))
          in Some \<lparr>ir_registry = registry, ir_repository = repository, ir_tag = tag, ir_bound_tag = bound\<rparr>)"

definition full_reference :: "image_reference \<Rightarrow> string" where
  "full_reference r =
     (if starts_with (ir_tag r) ''sha256:''
      then ir_registry r @ ''/'' @ ir_repository r @ ''@'' @ ir_tag r
      else ir_registry r @ ''/'' @ ir_repository r @ '':'' @ ir_tag r)"

section \<open>Images in the catalogue\<close>

definition split_repo_tag :: "string \<Rightarrow> string \<times> string" where
  "split_repo_tag name = (case split_tag name of (n, Some t) \<Rightarrow> (n, t) | (_, None) \<Rightarrow> (name, ''latest''))"

definition canonical_repository :: "string \<Rightarrow> string" where
  "canonical_repository name = (case split_once (CHR ''/'') name of
     Some (first, rest) \<Rightarrow> if is_registry first \<or> first = ''localhost'' then rest else name
   | None \<Rightarrow> name)"

definition lookup_pickle_manifest :: "string \<Rightarrow> manifest_catalog \<Rightarrow> image_manifest option" where
  "lookup_pickle_manifest ref c =
     (case (case split_once (CHR ''@'') ref of
              Some (name, digest) \<Rightarrow> get_repository_manifest c (canonical_repository (fst (split_repo_tag name))) digest
            | None \<Rightarrow> (let (name, tag) = split_repo_tag ref in get_manifest_by_tag c (canonical_repository name) tag)) of
        None \<Rightarrow> None
      | Some m \<Rightarrow> if starts_with (im_repository m) ''cache/'' then None else Some m)"

datatype image_refusal = ImageUnsigned string | SignatureInvalid string

definition check_image_schedulable :: "string option \<Rightarrow> manifest_catalog \<Rightarrow> bool \<Rightarrow> image_refusal option" where
  "check_image_schedulable img c require_signatures =
     (if \<not> require_signatures then None
      else case img of
        None \<Rightarrow> None
      | Some ref \<Rightarrow> (case lookup_pickle_manifest ref c of
          Some m \<Rightarrow> if im_signature m = None then Some (ImageUnsigned ref) else None
        | None \<Rightarrow> None))"

definition pin_image_reference :: "string \<Rightarrow> string \<Rightarrow> string" where
  "pin_image_reference ref digest =
     (if CHR ''@'' \<in> set ref then ref else fst (split_repo_tag ref) @ ''@'' @ digest)"

definition verify_image_signature ::
  "(image_signature \<Rightarrow> string \<Rightarrow> bool) \<Rightarrow> string option \<Rightarrow> manifest_catalog \<Rightarrow> bool \<Rightarrow> image_refusal + string option" where
  "verify_image_signature verify img c require_signatures =
     (if \<not> require_signatures then Inr None
      else case img of
        None \<Rightarrow> Inr None
      | Some ref \<Rightarrow> (case lookup_pickle_manifest ref c of
          None \<Rightarrow> Inr None
        | Some m \<Rightarrow> (case im_signature m of
            None \<Rightarrow> Inl (ImageUnsigned ref)
          | Some sg \<Rightarrow> if verify sg (im_digest m) then Inr (Some (im_digest m)) else Inl (SignatureInvalid ref))))"

section \<open>Laws\<close>

lemma rsplit_once_Some: "rsplit_once d s = Some (a, b) \<longleftrightarrow> s = a @ d # b \<and> d \<notin> set b"
  by (auto simp: rsplit_once_def split_once_Some rev_swap intro!: exI [of _ "rev b"])

lemma split_tag_none:
  assumes "CHR '':'' \<notin> set s" shows "split_tag s = (s, None)"
proof -
  have "CHR '':'' \<notin> set b" if "rsplit_once (CHR ''/'') s = Some (a, b)" for a b
    using assms that by (auto simp: rsplit_once_Some)
  then show ?thesis using assms by (auto simp: split_tag_def rsplit_once_None rsplit_once_Some split: option.splits)
qed

lemma split_tag_snoc:
  assumes "CHR ''/'' \<notin> set t" "CHR '':'' \<notin> set t"
  shows "split_tag (n @ CHR '':'' # t) = (n, Some t)"
proof (cases "rsplit_once (CHR ''/'') n")
  case None
  then have "CHR ''/'' \<notin> set n" by (simp add: rsplit_once_None)
  then have "rsplit_once (CHR ''/'') (n @ CHR '':'' # t) = None" using assms(1) by (simp add: rsplit_once_None)
  then show ?thesis using assms(2) by (simp add: split_tag_def)
next
  case (Some ab)
  then obtain a b where ab: "n = a @ CHR ''/'' # b" "CHR ''/'' \<notin> set b"
    by (cases ab) (auto simp: rsplit_once_Some)
  have "rsplit_once (CHR ''/'') (a @ CHR ''/'' # (b @ CHR '':'' # t)) = Some (a, b @ CHR '':'' # t)"
    using ab(2) assms(1) by (intro rsplit_once_append) simp
  then show ?thesis using assms(2) by (simp add: split_tag_def ab(1))
qed

text \<open>A pinned reference keeps its repository and pins exactly the digest it was given.\<close>

lemma pin_image_reference_pins:
  assumes "CHR ''@'' \<notin> set ref" "CHR ''@'' \<notin> set digest" "is_digest_tag digest"
  shows "image_pin_digest (pin_image_reference ref digest) = Some digest"
  using assms by (simp add: pin_image_reference_def image_pin_digest_def)

end
