(* ===== verification/Test_Lease.thy ===== *)
theory Test_Lease
  imports Image_Reference App_Spec
begin

text \<open>
  The ownership records of test runs (\<open>testkit/lease.rs\<close>): a lease owns one namespace whose name
  starts with \<open>rbtest-\<close>, the apps, jobs and tokens created in it, every node that may still run one
  of its apps, and every repository with the nodes that may hold its uploads. Sets are sets; the
  repositories of a lease are a map sorted by name.
\<close>

definition TEST_LEASE_SCHEMA_VERSION :: nat where
  "TEST_LEASE_SCHEMA_VERSION = 5"

definition MAX_ACTIVE_TEST_LEASES :: nat where
  "MAX_ACTIVE_TEST_LEASES = 64"

definition MAX_LEASED_RESOURCES :: nat where
  "MAX_LEASED_RESOURCES = 128"

definition MAX_LEASED_PLACEMENTS :: nat where
  "MAX_LEASED_PLACEMENTS = 65536"

datatype lease_scope = Applications | NodeJobs

definition is_node_job_lease :: "string \<Rightarrow> bool" where
  "is_node_job_lease lease_id = starts_with lease_id ''node-jobs-''"

datatype leased_resource =
    LeasedApp app_id
  | LeasedJob app_id
  | LeasedNamespace string
  | LeasedToken string string

datatype test_lease_state = LeaseActive | LeaseCleaning nat "string option"

record test_lease =
  tl_schema_version :: nat
  tl_scope :: lease_scope
  tl_lease_id :: string
  tl_owner_id :: string
  tl_owner_name :: string
  tl_namespace :: string
  tl_state :: test_lease_state
  tl_issued_at_unix_ms :: nat
  tl_expires_at_unix_ms :: nat
  tl_resources :: "leased_resource set"
  tl_placements :: "(app_id \<times> node_id) set"
  tl_repositories :: "(string \<times> nat set) list"
  tl_workloads_retired :: bool

datatype lease_error =
    ImageOwnership
  | UnsupportedSchema nat
  | InvalidId
  | InvalidScope
  | InvalidOwner
  | InvalidNamespace
  | InvalidExpiry
  | WrongOwner
  | NotActive
  | NamespaceMismatch
  | InvalidToken
  | ResourceLimit

definition lower_or_digit :: "char \<Rightarrow> bool" where
  "lower_or_digit c \<longleftrightarrow> (CHR ''a'' \<le> c \<and> c \<le> CHR ''z'') \<or> is_digit c"

definition ascii_alphanumeric :: "char \<Rightarrow> bool" where
  "ascii_alphanumeric c \<longleftrightarrow> (CHR ''a'' \<le> c \<and> c \<le> CHR ''z'') \<or> (CHR ''A'' \<le> c \<and> c \<le> CHR ''Z'') \<or> is_digit c"

definition valid_test_namespace :: "string \<Rightarrow> bool" where
  "valid_test_namespace ns \<longleftrightarrow> starts_with ns ''rbtest-'' \<and> length ns \<le> 63 \<and>
     list_all (\<lambda>c. lower_or_digit c \<or> c = CHR ''-'') ns \<and> last ns \<noteq> CHR ''-''"

definition is_active_at :: "test_lease \<Rightarrow> nat \<Rightarrow> bool" where
  "is_active_at l now \<longleftrightarrow> tl_state l = LeaseActive \<and> now < tl_expires_at_unix_ms l"

text \<open>\<open>str::split\<close> on a character: the parts between the separators, the empty ones included.\<close>

fun split_on :: "char \<Rightarrow> string \<Rightarrow> string list" where
  "split_on d [] = [[]]"
| "split_on d (c # cs) =
     (if c = d then [] # split_on d cs
      else case split_on d cs of [] \<Rightarrow> [[c]] | p # ps \<Rightarrow> (c # p) # ps)"

definition repository_part_ok :: "string \<Rightarrow> bool" where
  "repository_part_ok part \<longleftrightarrow> part \<noteq> [] \<and> ascii_alphanumeric (hd part) \<and> ascii_alphanumeric (last part) \<and>
     list_all (\<lambda>c. lower_or_digit c \<or> c = CHR ''.'' \<or> c = CHR ''_'' \<or> c = CHR ''-'') part"

definition owns_repository_name :: "test_lease \<Rightarrow> string \<Rightarrow> bool" where
  "owns_repository_name l repository = (case split_once (CHR ''/'') repository of
     None \<Rightarrow> False
   | Some (ns, path) \<Rightarrow> ns = tl_namespace l \<and> length repository \<le> 255 \<and>
       list_all repository_part_ok (split_on (CHR ''/'') path))"

definition resource_count :: "test_lease \<Rightarrow> nat" where
  "resource_count l = card (tl_resources l) + length (tl_repositories l)"

definition resource_matches :: "test_lease \<Rightarrow> leased_resource \<Rightarrow> bool" where
  "resource_matches l r = (case r of
     LeasedApp a \<Rightarrow> ai_namespace a = tl_namespace l
   | LeasedJob a \<Rightarrow> ai_namespace a = tl_namespace l
   | LeasedNamespace n \<Rightarrow> n = tl_namespace l
   | LeasedToken n _ \<Rightarrow> starts_with n (tl_namespace l @ ''-''))"

definition is_job_resource :: "leased_resource \<Rightarrow> bool" where
  "is_job_resource r = (case r of LeasedJob _ \<Rightarrow> True | _ \<Rightarrow> False)"

definition scope_refused :: "test_lease \<Rightarrow> bool" where
  "scope_refused l = (case tl_scope l of
     Applications \<Rightarrow> is_node_job_lease (tl_lease_id l) \<or> starts_with (tl_namespace l) ''rbtest-node-''
   | NodeJobs \<Rightarrow> (case strip_prefix ''node-jobs-'' (tl_lease_id l) of
       None \<Rightarrow> True
     | Some suffix \<Rightarrow> length suffix \<noteq> 32 \<or>
         \<not> list_all (\<lambda>c. is_digit c \<or> (CHR ''a'' \<le> c \<and> c \<le> CHR ''f'')) suffix \<or>
         tl_namespace l \<noteq> ''rbtest-node-'' @ suffix))"

definition lease_validate :: "test_lease \<Rightarrow> lease_error option" where
  "lease_validate l =
     (if tl_schema_version l \<noteq> TEST_LEASE_SCHEMA_VERSION then Some (UnsupportedSchema (tl_schema_version l))
      else if tl_lease_id l = [] then Some InvalidId
      else if tl_owner_id l = [] \<or> tl_owner_name l = [] then Some InvalidOwner
      else if \<not> valid_test_namespace (tl_namespace l) then Some InvalidNamespace
      else if tl_expires_at_unix_ms l \<le> tl_issued_at_unix_ms l then Some InvalidExpiry
      else if scope_refused l then Some InvalidScope
      else if \<exists>r \<in> tl_resources l. is_job_resource r \<noteq> (tl_scope l = NodeJobs) then Some InvalidScope
      else if \<exists>r \<in> tl_resources l. \<not> resource_matches l r then Some NamespaceMismatch
      else if \<exists>(a, n) \<in> tl_placements l. n = [] \<or> LeasedApp a \<notin> tl_resources l \<or> tl_scope l \<noteq> Applications
        then Some InvalidScope
      else if card (tl_placements l) > MAX_LEASED_PLACEMENTS then Some ResourceLimit
      else if (tl_repositories l \<noteq> [] \<and> tl_scope l \<noteq> Applications) \<or>
           list_ex (\<lambda>(name, _). \<not> owns_repository_name l name) (tl_repositories l) \<or>
           (tl_workloads_retired l \<and> (tl_state l = LeaseActive \<or> tl_placements l \<noteq> {}))
        then Some InvalidScope
      else if sum_list (map (\<lambda>(_, owners). card owners) (tl_repositories l)) > MAX_LEASED_PLACEMENTS
        then Some ResourceLimit
      else if resource_count l > MAX_LEASED_RESOURCES then Some ResourceLimit
      else None)"

definition lease_new ::
  "string \<Rightarrow> string \<Rightarrow> string \<Rightarrow> string \<Rightarrow> nat \<Rightarrow> nat \<Rightarrow> lease_scope \<Rightarrow> lease_error + test_lease" where
  "lease_new lease_id owner_id owner_name ns issued expires scope =
     (let l = \<lparr>tl_schema_version = TEST_LEASE_SCHEMA_VERSION, tl_scope = scope, tl_lease_id = lease_id,
               tl_owner_id = owner_id, tl_owner_name = owner_name, tl_namespace = ns, tl_state = LeaseActive,
               tl_issued_at_unix_ms = issued, tl_expires_at_unix_ms = expires, tl_resources = {},
               tl_placements = {}, tl_repositories = [], tl_workloads_retired = False\<rparr>
      in case lease_validate l of Some e \<Rightarrow> Inl e | None \<Rightarrow> Inr l)"

definition authorise_owner :: "test_lease \<Rightarrow> string \<Rightarrow> nat \<Rightarrow> lease_error option" where
  "authorise_owner l owner now =
     (if tl_owner_id l \<noteq> owner then Some WrongOwner else if \<not> is_active_at l now then Some NotActive else None)"

definition attach_registry_writer :: "string \<Rightarrow> nat \<Rightarrow> string option \<Rightarrow> nat \<Rightarrow> test_lease \<Rightarrow> lease_error + test_lease" where
  "attach_registry_writer repository node owner now l =
     (if tl_scope l \<noteq> Applications \<or> \<not> owns_repository_name l repository then Inl NamespaceMismatch
      else case (case owner of
          Some o' \<Rightarrow> authorise_owner l o' now
        | None \<Rightarrow> if \<not> is_active_at l now \<or> map_of (tl_repositories l) repository = None then Some NotActive else None) of
        Some e \<Rightarrow> Inl e
      | None \<Rightarrow>
          let owners = (case map_of (tl_repositories l) repository of None \<Rightarrow> {} | Some os \<Rightarrow> os);
              l' = l\<lparr>tl_repositories := bt_insert repository (insert node owners) (tl_repositories l)\<rparr>
          in (case lease_validate l' of Some e \<Rightarrow> Inl e | None \<Rightarrow> Inr l'))"

definition permits_registry_copy :: "test_lease \<Rightarrow> string \<Rightarrow> nat \<Rightarrow> nat \<Rightarrow> bool" where
  "permits_registry_copy l repository node now \<longleftrightarrow> is_active_at l now \<and> owns_repository_name l repository \<and>
     (case map_of (tl_repositories l) repository of None \<Rightarrow> False | Some owners \<Rightarrow> node \<in> owners)"

definition permits_registry_commit :: "test_lease \<Rightarrow> manifest_commit \<Rightarrow> nat \<Rightarrow> bool" where
  "permits_registry_commit l commit now \<longleftrightarrow> mc_holder_nodes commit = {im_pushed_by (mc_manifest commit)} \<and>
     permits_registry_copy l (im_repository (mc_manifest commit)) (im_pushed_by (mc_manifest commit)) now"

definition registry_retirement_confirmed :: "test_lease \<Rightarrow> bool" where
  "registry_retirement_confirmed l \<longleftrightarrow> tl_repositories l = [] \<or>
     (tl_workloads_retired l \<and> list_all (\<lambda>(_, owners). owners = {}) (tl_repositories l))"

text \<open>The fingerprint of a token is the SHA-256 of its stored hash, a function of the library.\<close>

definition token_resource :: "(string \<Rightarrow> string) \<Rightarrow> test_lease \<Rightarrow> api_token \<Rightarrow> string \<Rightarrow> nat \<Rightarrow> lease_error + leased_resource" where
  "token_resource digest l tok owner now =
     (case authorise_owner l owner now of
        Some e \<Rightarrow> Inl e
      | None \<Rightarrow>
          if tl_scope l \<noteq> Applications then Inl InvalidScope
          else if \<not> starts_with (tok_name tok) (tl_namespace l @ ''-'') \<or> tok_role tok = Admin \<or>
               ts_namespaces (tok_scope tok) \<noteq> Some [tl_namespace l] \<or>
               (case tok_expires_at tok of
                  None \<Rightarrow> True
                | Some at \<Rightarrow> at < 0 \<or> at \<le> int now * 1000000 \<or> at > int (tl_expires_at_unix_ms l) * 1000000)
            then Inl InvalidToken
          else if resource_count l \<ge> MAX_LEASED_RESOURCES then Inl ResourceLimit
          else Inr (LeasedToken (tok_name tok) (digest (tok_token_hash tok))))"

section \<open>Images of a lease\<close>

definition image_references :: "app_spec \<Rightarrow> string list" where
  "image_references spec =
     (case as_image spec of None \<Rightarrow> [] | Some i \<Rightarrow> [i]) @
     List.map_filter in_image (as_init spec) @ List.map_filter sc_image (as_sidecar spec)"

definition image_authorised :: "(test_lease \<times> nat) option \<Rightarrow> string \<Rightarrow> bool" where
  "image_authorised lease img = (case parse_reference img of
     None \<Rightarrow> True
   | Some r \<Rightarrow> \<not> reserved_repository (ir_repository r) \<or>
       (case lease of
          None \<Rightarrow> False
        | Some (l, now) \<Rightarrow> tl_scope l = Applications \<and> is_active_at l now \<and>
            owns_repository_name l (ir_repository r) \<and> map_of (tl_repositories l) (ir_repository r) \<noteq> None))"

definition authorise_image_references :: "string list \<Rightarrow> (test_lease \<times> nat) option \<Rightarrow> lease_error option" where
  "authorise_image_references imgs lease =
     (if list_all (image_authorised lease) imgs then None else Some ImageOwnership)"

section \<open>Laws\<close>

lemma valid_test_namespace_reserved: "valid_test_namespace ns \<Longrightarrow> starts_with ns ''rbtest-''"
  by (simp add: valid_test_namespace_def)

lemma attach_registry_writer_valid:
  "attach_registry_writer repository node owner now l = Inr l' \<Longrightarrow> lease_validate l' = None \<and>
     tl_lease_id l' = tl_lease_id l \<and> tl_namespace l' = tl_namespace l"
  by (auto simp: attach_registry_writer_def Let_def split: if_splits option.splits)

lemma token_resource_not_admin:
  "token_resource digest l tok owner now = Inr r \<Longrightarrow> tok_role tok \<noteq> Admin"
  by (auto simp: token_resource_def split: option.splits if_splits)

end
