(* ===== verification/Cron.thy ===== *)
theory Cron
  imports Text
begin

text \<open>
  Cron schedules (\<open>meat/cron.rs\<close>): the five fields of an expression as sets of numbers, and whether a schedule fires at a
  minute. A time comes broken down into its fields, as the \<open>time\<close> crate gives them.
\<close>

datatype cron_error =
    FieldCount nat
  | OutOfRange string nat nat nat
  | Malformed string string
  | UnsupportedMacro string

record cron_field =
  cfd_star :: bool
  cfd_values :: "nat set"

record cron_schedule =
  csd_minute :: cron_field
  csd_hour :: cron_field
  csd_day_of_month :: cron_field
  csd_month :: cron_field
  csd_day_of_week :: cron_field

datatype weekday = Monday | Tuesday | Wednesday | Thursday | Friday | Saturday | Sunday

record cron_time =
  ctm_minute :: nat
  ctm_hour :: nat
  ctm_day :: nat
  ctm_month :: nat
  ctm_weekday :: weekday

definition BOUNDS :: "(string \<times> nat \<times> nat) list" where
  "BOUNDS = [(''minute'', 0, 59), (''hour'', 0, 23), (''day-of-month'', 1, 31), (''month'', 1, 12), (''day-of-week'', 0, 7)]"

definition MONTHS :: "string list" where
  "MONTHS = [''JAN'', ''FEB'', ''MAR'', ''APR'', ''MAY'', ''JUN'', ''JUL'', ''AUG'', ''SEP'', ''OCT'', ''NOV'', ''DEC'']"

definition WEEKDAYS :: "string list" where
  "WEEKDAYS = [''SUN'', ''MON'', ''TUE'', ''WED'', ''THU'', ''FRI'', ''SAT'']"

section \<open>Text\<close>

definition ascii_lowercase :: "string \<Rightarrow> string" where
  "ascii_lowercase = map (\<lambda>c. let n = of_char c :: nat in if 65 \<le> n \<and> n \<le> 90 then char_of (n + 32) else c)"

text \<open>\<open>split\<close> on a character gives the pieces between its occurrences, \<open>split_whitespace\<close> the pieces that are not white space.\<close>

fun split_pieces :: "char \<Rightarrow> string \<Rightarrow> string list" where
  "split_pieces c [] = [[]]"
| "split_pieces c (x # xs) =
     (if x = c then [] # split_pieces c xs else case split_pieces c xs of [] \<Rightarrow> [[x]] | p # ps \<Rightarrow> (x # p) # ps)"

definition leading_space :: "string \<Rightarrow> nat" where
  "leading_space s = (case find (starts_with s) white_space of None \<Rightarrow> 0 | Some p \<Rightarrow> length p)"

function words_from :: "string \<Rightarrow> string \<Rightarrow> string list" where
  "words_from w [] = (if w = [] then [] else [rev w])"
| "words_from w (c # cs) =
     (let k = leading_space (c # cs)
      in if 0 < k then (if w = [] then [] else [rev w]) @ words_from [] (drop k (c # cs)) else words_from (c # w) cs)"
  by pat_completeness auto

termination
  by (relation "measure (\<lambda>(w, s). length s)") auto

definition split_whitespace :: "string \<Rightarrow> string list" where
  "split_whitespace s = words_from [] s"

section \<open>Parsing\<close>

definition expand_macro :: "string \<Rightarrow> string option" where
  "expand_macro name =
     (let n = ascii_lowercase name
      in if n = ''@yearly'' \<or> n = ''@annually'' then Some ''0 0 1 1 *''
         else if n = ''@monthly'' then Some ''0 0 1 * *''
         else if n = ''@weekly'' then Some ''0 0 * * 0''
         else if n = ''@daily'' \<or> n = ''@midnight'' then Some ''0 0 * * *''
         else if n = ''@hourly'' then Some ''0 * * * *''
         else None)"

definition normalise :: "string \<Rightarrow> nat \<Rightarrow> nat" where
  "normalise field v = (if field = ''day-of-week'' \<and> v = 7 then 0 else v)"

definition parse_value :: "string \<Rightarrow> string \<Rightarrow> nat \<Rightarrow> nat \<Rightarrow> cron_error + nat" where
  "parse_value token field mn mx =
     (let names = (if field = ''month'' then MONTHS else if field = ''day-of-week'' then WEEKDAYS else [])
      in case List.extract (\<lambda>name. ascii_lowercase name = ascii_lowercase token) names of
           Some (earlier, _, _) \<Rightarrow> Inr (mn + length earlier)
         | None \<Rightarrow>
             (case parse_u32 token of
                None \<Rightarrow> Inl (Malformed field token)
              | Some v \<Rightarrow> if v < mn \<or> v > mx then Inl (OutOfRange field v mn mx) else Inr v))"

definition parse_step :: "string \<Rightarrow> (string \<times> nat option) option" where
  "parse_step piece =
     (case split_once (CHR ''/'') piece of
        None \<Rightarrow> Some (piece, None)
      | Some (base, step) \<Rightarrow>
          (case parse_uint 255 step of None \<Rightarrow> None | Some k \<Rightarrow> if k = 0 then None else Some (base, Some k)))"

definition parse_base :: "string \<Rightarrow> bool \<Rightarrow> string \<Rightarrow> nat \<Rightarrow> nat \<Rightarrow> cron_error + nat \<times> nat" where
  "parse_base base stepped field mn mx =
     (if base = ''*'' then Inr (mn, mx)
      else case split_once (CHR ''-'') base of
        Some (lo, hi) \<Rightarrow>
          (case parse_value lo field mn mx of
             Inl e \<Rightarrow> Inl e
           | Inr a \<Rightarrow> (case parse_value hi field mn mx of Inl e \<Rightarrow> Inl e | Inr b \<Rightarrow> Inr (a, b)))
      | None \<Rightarrow>
          (case parse_value base field mn mx of Inl e \<Rightarrow> Inl e | Inr v \<Rightarrow> Inr (v, if stepped then mx else v)))"

fun parse_terms :: "string \<Rightarrow> string \<Rightarrow> nat \<Rightarrow> nat \<Rightarrow> string list \<Rightarrow> nat set \<Rightarrow> cron_error + nat set" where
  "parse_terms token field mn mx [] acc = Inr acc"
| "parse_terms token field mn mx (piece # pieces) acc =
     (case parse_step piece of
        None \<Rightarrow> Inl (Malformed field token)
      | Some (base, step) \<Rightarrow>
          (case parse_base base (step \<noteq> None) field mn mx of
             Inl e \<Rightarrow> Inl e
           | Inr (a, b) \<Rightarrow>
               if a > b then Inl (Malformed field token)
               else let k = (case step of None \<Rightarrow> 1 | Some k \<Rightarrow> k)
                    in parse_terms token field mn mx pieces
                         (acc \<union> normalise field ` set (filter (\<lambda>v. (v - a) mod k = 0) [a..<Suc b]))))"

definition parse_field :: "string \<Rightarrow> string \<Rightarrow> nat \<Rightarrow> nat \<Rightarrow> cron_error + cron_field" where
  "parse_field token field mn mx =
     (case parse_terms token field mn mx (split_pieces (CHR '','') token) {} of
        Inl e \<Rightarrow> Inl e | Inr vs \<Rightarrow> Inr \<lparr>cfd_star = starts_with token ''*'', cfd_values = vs\<rparr>)"

fun parse_fields :: "string list \<Rightarrow> (string \<times> nat \<times> nat) list \<Rightarrow> cron_error + cron_field list" where
  "parse_fields (token # tokens) ((name, mn, mx) # bounds) =
     (case parse_field token name mn mx of
        Inl e \<Rightarrow> Inl e
      | Inr f \<Rightarrow> (case parse_fields tokens bounds of Inl e \<Rightarrow> Inl e | Inr fs \<Rightarrow> Inr (f # fs)))"
| "parse_fields _ _ = Inr []"

definition parse_schedule :: "string \<Rightarrow> cron_error + cron_schedule" where
  "parse_schedule expression =
     (let trimmed = trim expression
      in case (if starts_with trimmed ''@'' then expand_macro trimmed else Some expression) of
           None \<Rightarrow> Inl (UnsupportedMacro trimmed)
         | Some e \<Rightarrow>
             let fields = split_whitespace e
             in if length fields \<noteq> 5 then Inl (FieldCount (length fields))
                else case parse_fields fields BOUNDS of
                  Inl e \<Rightarrow> Inl e
                | Inr fs \<Rightarrow> Inr \<lparr>csd_minute = fs ! 0, csd_hour = fs ! 1, csd_day_of_month = fs ! 2, csd_month = fs ! 3,
                                csd_day_of_week = fs ! 4\<rparr>)"

section \<open>Matching\<close>

definition weekday_number :: "weekday \<Rightarrow> nat" where
  "weekday_number d = (case d of Sunday \<Rightarrow> 0 | Monday \<Rightarrow> 1 | Tuesday \<Rightarrow> 2 | Wednesday \<Rightarrow> 3 | Thursday \<Rightarrow> 4 | Friday \<Rightarrow> 5 | Saturday \<Rightarrow> 6)"

definition schedule_matches :: "cron_schedule \<Rightarrow> cron_time \<Rightarrow> bool" where
  "schedule_matches s at =
     (let dom = ctm_day at \<in> cfd_values (csd_day_of_month s); dow = weekday_number (ctm_weekday at) \<in> cfd_values (csd_day_of_week s);
          day_ok = (if cfd_star (csd_day_of_month s) \<or> cfd_star (csd_day_of_week s) then dom \<and> dow else dom \<or> dow)
      in ctm_minute at \<in> cfd_values (csd_minute s) \<and> ctm_hour at \<in> cfd_values (csd_hour s) \<and> day_ok \<and>
         ctm_month at \<in> cfd_values (csd_month s))"

text \<open>Every field of an accepted schedule has a value, and only values in its bounds: Sunday is 0 and never 7.\<close>

lemma parse_value_bounds:
  assumes "parse_value token field mn mx = Inr v" "(field, mn, mx) \<in> set BOUNDS"
  shows "mn \<le> v \<and> v \<le> mx"
proof -
  have names: "mn + length (if field = ''month'' then MONTHS else if field = ''day-of-week'' then WEEKDAYS else []) \<le> Suc mx"
    using assms(2) by (auto simp: BOUNDS_def MONTHS_def WEEKDAYS_def)
  have "length earlier < length xs" if "List.extract P xs = Some (earlier, x, later)" for P and xs :: "string list" and earlier x later
    using that by (auto simp: extract_Some_iff)
  then show ?thesis
    using assms(1) names by (fastforce simp: parse_value_def Let_def split: option.splits if_splits)
qed

lemma parse_terms_values:
  assumes "(field, mn, mx) \<in> set BOUNDS"
  shows "parse_terms token field mn mx pieces acc = Inr vs \<Longrightarrow> pieces \<noteq> [] \<or> acc \<noteq> {} \<Longrightarrow> acc \<subseteq> normalise field ` {mn..mx} \<Longrightarrow>
    vs \<noteq> {} \<and> vs \<subseteq> normalise field ` {mn..mx}"
proof (induction pieces arbitrary: acc)
  case (Cons t ts)
  obtain base step a b where p: "parse_step t = Some (base, step)" "parse_base base (step \<noteq> None) field mn mx = Inr (a, b)" "a \<le> b"
    using Cons.prems(1) by (auto split: option.splits sum.splits prod.splits if_splits simp: not_less)
  have b: "mn \<le> a" "b \<le> mx"
    using p(2) parse_value_bounds [OF _ assms] assms
    by (auto simp: parse_base_def BOUNDS_def split: if_splits option.splits sum.splits prod.splits)
  let ?k = "case step of None \<Rightarrow> 1 | Some k \<Rightarrow> k"
  let ?new = "normalise field ` set (filter (\<lambda>v. (v - a) mod ?k = 0) [a..<Suc b])"
  have "a \<in> set (filter (\<lambda>v. (v - a) mod ?k = 0) [a..<Suc b])" using p(3) by (simp del: upt_Suc)
  then have "acc \<union> ?new \<noteq> {}" "acc \<union> ?new \<subseteq> normalise field ` {mn..mx}" using Cons.prems(3) b by auto
  moreover have "parse_terms token field mn mx ts (acc \<union> ?new) = Inr vs"
    using Cons.prems(1) p by (simp add: Let_def)
  ultimately show ?case using Cons.IH by blast
qed auto

lemma parse_field_values:
  assumes "parse_field token field mn mx = Inr f" "(field, mn, mx) \<in> set BOUNDS"
  shows "cfd_values f \<noteq> {}" "cfd_values f \<subseteq> {mn..mx}" "field = ''day-of-week'' \<Longrightarrow> cfd_values f \<subseteq> {0..6}"
proof -
  obtain vs where vs: "parse_terms token field mn mx (split_pieces (CHR '','') token) {} = Inr vs" "cfd_values f = vs"
    using assms(1) by (auto simp: parse_field_def split: sum.splits)
  have "split_pieces c s \<noteq> []" for c s by (cases s) (auto split: list.splits)
  from parse_terms_values [OF assms(2) vs(1)] this have ok: "vs \<noteq> {}" "vs \<subseteq> normalise field ` {mn..mx}" by auto
  then show "cfd_values f \<noteq> {}" using vs(2) by simp
  show "cfd_values f \<subseteq> {mn..mx}" using ok(2) vs(2) assms(2) by (auto simp: normalise_def BOUNDS_def split: if_splits)
  show "cfd_values f \<subseteq> {0..6}" if "field = ''day-of-week''"
    using ok(2) vs(2) assms(2) that by (fastforce simp: normalise_def BOUNDS_def split: if_splits)
qed

end
