(* ===== verification/Endpoints.thy ===== *)
theory Endpoints
  imports Reports Text Task_Array_State Transition_Systems
begin

text \<open>
  Service discovery of the cluster: the replicated endpoint catalogue (\<open>onion/catalog.rs\<close>), the
  ledger of withdrawals its consumers still owe (\<open>onion/withdrawal.rs\<close>), the permanent fences of
  retired executions (\<open>onion/producer.rs\<close>) and the handlers of the replicated log that change
  them (\<open>council/state_machine.rs\<close>). An IPv4 address is its 32-bit value, a \<open>HashSet\<close> or
  \<open>BTreeSet\<close> a set, a \<open>BTreeMap\<close> a sorted association list. The hash behind a virtual address is
  a parameter.
\<close>

section \<open>Identities\<close>

definition valid_workload_label :: "string \<Rightarrow> bool" where
  "valid_workload_label v =
     (let edge = (\<lambda>c. (CHR ''a'' \<le> c \<and> c \<le> CHR ''z'') \<or> is_digit c)
      in v \<noteq> [] \<and> length v \<le> 63 \<and> edge (hd v) \<and> edge (last v) \<and> list_all (\<lambda>c. edge c \<or> c = CHR ''-'') v)"

record service_id =
  si_namespace :: string
  si_name :: string

definition NAMESPACE_SEPARATOR :: string where
  "NAMESPACE_SEPARATOR = ''__''"

definition qualified_id :: "service_id \<Rightarrow> string" where
  "qualified_id i = si_namespace i @ NAMESPACE_SEPARATOR @ si_name i"

definition parse_service_id :: "string \<Rightarrow> service_id option" where
  "parse_service_id q = (case split_once_str NAMESPACE_SEPARATOR q of
     None \<Rightarrow> None
   | Some (ns, name) \<Rightarrow> if ns = [] \<or> name = [] then None else Some \<lparr>si_namespace = ns, si_name = name\<rparr>)"

record instance_identity =
  ii_namespace :: string
  ii_app :: string
  ii_generation :: "nat option"
  ii_ordinal :: nat

definition app_suffix :: "instance_identity \<Rightarrow> string" where
  "app_suffix i = (case ii_generation i of
     Some g \<Rightarrow> ii_app i @ ''-g'' @ show_nat g @ ''-'' @ show_nat (ii_ordinal i)
   | None \<Rightarrow> ii_app i @ ''-'' @ show_nat (ii_ordinal i))"

definition instance_id :: "instance_identity \<Rightarrow> string" where
  "instance_id i = ii_namespace i @ NAMESPACE_SEPARATOR @ app_suffix i"

definition parse_suffix :: "string \<Rightarrow> string \<Rightarrow> instance_identity option" where
  "parse_suffix suffix ns = (case rsplit_once (CHR ''-'') suffix of
     None \<Rightarrow> None
   | Some (head, ordinal_part) \<Rightarrow>
       (case parse_uint u32_max ordinal_part of
          None \<Rightarrow> None
        | Some ordinal \<Rightarrow>
            let plain = Some \<lparr>ii_namespace = ns, ii_app = head, ii_generation = None, ii_ordinal = ordinal\<rparr>
            in (case rsplit_once (CHR ''-'') head of
                  None \<Rightarrow> plain
                | Some (app, gen_part) \<Rightarrow>
                    (case strip_prefix ''g'' gen_part of
                       None \<Rightarrow> plain
                     | Some gen_str \<Rightarrow>
                         (case parse_uint u64_max gen_str of
                            None \<Rightarrow> plain
                          | Some g \<Rightarrow> Some \<lparr>ii_namespace = ns, ii_app = app, ii_generation = Some g,
                                            ii_ordinal = ordinal\<rparr>)))))"

definition parse_instance :: "string \<Rightarrow> instance_identity option" where
  "parse_instance i = (case split_once_str NAMESPACE_SEPARATOR i of
     None \<Rightarrow> None | Some (ns, suffix) \<Rightarrow> parse_suffix suffix ns)"

definition validate_node_id :: "string \<Rightarrow> bool" where
  "validate_node_id n \<longleftrightarrow> n \<noteq> [] \<and> length n \<le> 256 \<and> \<not> has_control n"

section \<open>The catalogue\<close>

definition MAX_ENDPOINT_CONSUMERS :: nat where
  "MAX_ENDPOINT_CONSUMERS = 65536"

record catalog_backend =
  cb_execution :: "runtime_execution option"
  cb_node_id :: string
  cb_node_ip :: nat
  cb_host_port :: nat
  cb_healthy :: bool

record catalog_service =
  cs_vip :: nat
  cs_port :: nat
  cs_backends :: "catalog_backend list"

type_synonym endpoint_catalog = "(string \<times> catalog_service) list"

datatype onion_error =
    InvalidSnapshot string
  | AlreadyRegistered string
  | VipSpaceExhausted string

definition resolve :: "endpoint_catalog \<Rightarrow> service_id \<Rightarrow> catalog_service option" where
  "resolve cat i = map_of cat (qualified_id i)"

definition label_id :: "service_id \<Rightarrow> bool" where
  "label_id i \<longleftrightarrow> valid_workload_label (si_namespace i) \<and> valid_workload_label (si_name i)"

definition vip_in_range :: "nat \<Rightarrow> bool" where
  "vip_in_range v \<longleftrightarrow> 0x7f800001 \<le> v \<and> v \<le> 0x7f80fffe"

fun validate_allocations_from :: "nat set \<Rightarrow> endpoint_catalog \<Rightarrow> onion_error option" where
  "validate_allocations_from vips [] = None"
| "validate_allocations_from vips ((q, s) # rest) =
     (if \<not> (case parse_service_id q of None \<Rightarrow> False | Some i \<Rightarrow> label_id i) \<or> cs_port s = 0 \<or>
         \<not> vip_in_range (cs_vip s) \<or> cs_vip s \<in> vips
      then Some (InvalidSnapshot q)
      else validate_allocations_from (insert (cs_vip s) vips) rest)"

definition validate_allocations :: "endpoint_catalog \<Rightarrow> onion_error option" where
  "validate_allocations cat = validate_allocations_from {} cat"

text \<open>The offset is between 1 and 65534, so the mask and the or with the prefix add it.\<close>

definition vip_from_qualified :: "(string \<Rightarrow> nat) \<Rightarrow> string \<Rightarrow> nat" where
  "vip_from_qualified hash q = 0x7F800000 + (hash q mod 65534 + 1) mod 0x10000"

definition VIP_SPACE :: nat where
  "VIP_SPACE = 65534"

definition allocate_vip :: "(string \<Rightarrow> nat) \<Rightarrow> service_id \<Rightarrow> nat set \<Rightarrow> onion_error + nat" where
  "allocate_vip hash i allocated =
     (let base = qualified_id i; vip = vip_from_qualified hash base
      in if vip \<notin> allocated then Inr vip
         else case find (\<lambda>attempt. vip_from_qualified hash (base @ ''#'' @ show_nat attempt) \<notin> allocated)
                     [1..<VIP_SPACE] of
           Some attempt \<Rightarrow> Inr (vip_from_qualified hash (base @ ''#'' @ show_nat attempt))
         | None \<Rightarrow> Inl (VipSpaceExhausted base))"

type_synonym service_input = "service_id \<times> nat \<times> catalog_backend list"

fun collect_inputs ::
  "service_input list \<Rightarrow> (string \<times> service_input) list \<Rightarrow> onion_error + (string \<times> service_input) list" where
  "collect_inputs [] inputs = Inr inputs"
| "collect_inputs ((i, port, backends) # rest) inputs =
     (let q = qualified_id i
      in if \<not> label_id i \<or> port = 0 then Inl (InvalidSnapshot q)
         else if map_of inputs q \<noteq> None then Inl (AlreadyRegistered q)
         else let inputs' = bt_insert q (i, port, backends) inputs
              in if length inputs' > VIP_SPACE then Inl (VipSpaceExhausted q)
                 else collect_inputs rest inputs')"

fun assign_vips ::
  "(string \<Rightarrow> nat) \<Rightarrow> endpoint_catalog \<Rightarrow> (string \<times> service_input) list \<Rightarrow> nat set \<Rightarrow> onion_error + endpoint_catalog" where
  "assign_vips hash old [] allocated = Inr []"
| "assign_vips hash old ((q, i, port, backends) # rest) allocated =
     (case (case map_of old q of Some original \<Rightarrow> Inr (cs_vip original) | None \<Rightarrow> allocate_vip hash i allocated) of
        Inl e \<Rightarrow> Inl e
      | Inr vip \<Rightarrow>
          (case assign_vips hash old rest (insert vip allocated) of
             Inl e \<Rightarrow> Inl e
           | Inr cat \<Rightarrow> Inr ((q, \<lparr>cs_vip = vip, cs_port = port, cs_backends = backends\<rparr>) # cat)))"

definition reconcile_reserving ::
  "(string \<Rightarrow> nat) \<Rightarrow> endpoint_catalog \<Rightarrow> service_input list \<Rightarrow> nat set \<Rightarrow> onion_error + endpoint_catalog" where
  "reconcile_reserving hash old services reserved =
     (case validate_allocations old of
        Some e \<Rightarrow> Inl e
      | None \<Rightarrow>
          (case collect_inputs services [] of
             Inl e \<Rightarrow> Inl e
           | Inr inputs \<Rightarrow>
               assign_vips hash old inputs
                 (cs_vip ` snd ` {(q, s) \<in> set old. map_of inputs q \<noteq> None} \<union> reserved)))"

definition reconcile :: "(string \<Rightarrow> nat) \<Rightarrow> endpoint_catalog \<Rightarrow> service_input list \<Rightarrow> onion_error + endpoint_catalog" where
  "reconcile hash old services = reconcile_reserving hash old services {}"

definition rebuild :: "(string \<Rightarrow> nat) \<Rightarrow> service_input list \<Rightarrow> onion_error + endpoint_catalog" where
  "rebuild hash services = reconcile hash [] services"

section \<open>Withdrawals\<close>

definition MAX_WITHDRAWAL_GENERATIONS :: nat where
  "MAX_WITHDRAWAL_GENERATIONS = 1024"

definition MAX_WITHDRAWAL_EXPOSURES :: nat where
  "MAX_WITHDRAWAL_EXPOSURES = 65536"

definition MAX_WITHDRAWAL_CONFIRMATIONS :: nat where
  "MAX_WITHDRAWAL_CONFIRMATIONS = 262144"

definition RECOVERY_EPOCH_SHIFT :: nat where
  "RECOVERY_EPOCH_SHIFT = 40"

record service_withdrawal =
  sw_service :: catalog_service
  sw_retire_vip :: bool

record endpoint_withdrawal =
  ew_services :: "(string \<times> service_withdrawal) list"
  ew_consumers :: "string set"

record endpoint_withdrawals =
  ews_generation :: nat
  ews_pending :: "(nat \<times> endpoint_withdrawal) list"

datatype withdrawal_error =
    GenerationExhausted
  | WithdrawalCapacity
  | WithdrawalConflict
  | InvalidCatalogue onion_error
  | RetiredVipInUse nat

definition epoch_floor :: "nat \<Rightarrow> nat" where
  "epoch_floor epoch = sat_mul64 epoch (2 ^ RECOVERY_EPOCH_SHIFT)"

definition enter_recovery_epoch :: "nat \<Rightarrow> endpoint_withdrawals \<Rightarrow> endpoint_withdrawals" where
  "enter_recovery_epoch epoch w = w\<lparr>ews_generation := max (ews_generation w) (epoch_floor epoch)\<rparr>"

definition reserved_vips :: "endpoint_withdrawals \<Rightarrow> nat set" where
  "reserved_vips w =
     set (map (cs_vip \<circ> sw_service) (filter sw_retire_vip
       (concat (map (\<lambda>(_, d). map snd (ew_services d)) (ews_pending w)))))"

definition check_reservations :: "endpoint_withdrawals \<Rightarrow> endpoint_catalog \<Rightarrow> withdrawal_error option" where
  "check_reservations w next =
     (case find (\<lambda>(_, s). cs_vip s \<in> reserved_vips w) next of
        None \<Rightarrow> None | Some (_, s) \<Rightarrow> Some (RetiredVipInUse (cs_vip s)))"

definition same_destination :: "catalog_backend \<Rightarrow> catalog_backend \<Rightarrow> bool" where
  "same_destination a b \<longleftrightarrow> cb_node_id a = cb_node_id b \<and> cb_node_ip a = cb_node_ip b \<and> cb_host_port a = cb_host_port b"

definition removed_backends :: "catalog_service option \<Rightarrow> catalog_service \<Rightarrow> catalog_backend list" where
  "removed_backends same_route original = (case same_route of
     None \<Rightarrow> cs_backends original
   | Some service \<Rightarrow>
       filter (\<lambda>b.
           \<not> list_ex (\<lambda>c. same_destination c b \<and> cb_execution c = cb_execution b) (cs_backends service) \<and>
           \<not> (cb_execution b = None \<and> list_ex (\<lambda>c. same_destination c b) (cs_backends service)))
         (cs_backends original))"

definition removed_exposure :: "endpoint_catalog \<Rightarrow> string \<Rightarrow> catalog_service \<Rightarrow> service_withdrawal option" where
  "removed_exposure next q original =
     (let replacement = map_of next q;
          retire_vip = (case replacement of None \<Rightarrow> True | Some s \<Rightarrow> cs_vip s \<noteq> cs_vip original);
          same_route = (case replacement of
            None \<Rightarrow> None
          | Some s \<Rightarrow> if cs_vip s = cs_vip original \<and> cs_port s = cs_port original then Some s else None);
          backends = removed_backends same_route original
      in if same_route \<noteq> None \<and> backends = [] then None
         else Some \<lparr>sw_service = \<lparr>cs_vip = cs_vip original, cs_port = cs_port original, cs_backends = backends\<rparr>,
                    sw_retire_vip = retire_vip\<rparr>)"

definition removed_exposures :: "endpoint_catalog \<Rightarrow> endpoint_catalog \<Rightarrow> (string \<times> service_withdrawal) list" where
  "removed_exposures prev next =
     List.map_filter (\<lambda>(q, s). map_option (Pair q) (removed_exposure next q s)) prev"

definition usage :: "endpoint_withdrawals \<Rightarrow> nat \<times> nat" where
  "usage w = foldl (\<lambda>(exposures, confirmations) (_, d).
       (foldl (\<lambda>n (_, r). sat_add64 (sat_add64 n 1) (length (cs_backends (sw_service r)))) exposures (ew_services d),
        sat_add64 confirmations (card (ew_consumers d)))) (0, 0) (ews_pending w)"

definition check_capacity :: "endpoint_withdrawals \<Rightarrow> withdrawal_error option" where
  "check_capacity w =
     (let (exposures, confirmations) = usage w
      in if length (ews_pending w) > MAX_WITHDRAWAL_GENERATIONS \<or> exposures > MAX_WITHDRAWAL_EXPOSURES \<or>
            confirmations > MAX_WITHDRAWAL_CONFIRMATIONS
         then Some WithdrawalCapacity else None)"

definition plan_publication ::
  "endpoint_withdrawals \<Rightarrow> endpoint_catalog \<Rightarrow> endpoint_catalog \<Rightarrow> string set \<Rightarrow> withdrawal_error + endpoint_withdrawals" where
  "plan_publication w prev next consumers =
     (case validate_allocations prev of Some e \<Rightarrow> Inl (InvalidCatalogue e)
      | None \<Rightarrow> case validate_allocations next of Some e \<Rightarrow> Inl (InvalidCatalogue e)
      | None \<Rightarrow> case check_reservations w next of Some e \<Rightarrow> Inl e
      | None \<Rightarrow>
          if list_ex (\<lambda>(g, _). g \<ge> ews_generation w) (ews_pending w) then Inl WithdrawalConflict
          else if prev = next then Inr w
          else case checked_add64 (ews_generation w) 1 of None \<Rightarrow> Inl GenerationExhausted
          | Some generation \<Rightarrow>
              let services = removed_exposures prev next;
                  planned = (if consumers \<noteq> {} \<and> services \<noteq> []
                    then w\<lparr>ews_pending := bt_insert (ews_generation w)
                             \<lparr>ew_services = services, ew_consumers = consumers\<rparr> (ews_pending w)\<rparr>
                    else w)
              in (case check_capacity planned of Some e \<Rightarrow> Inl e
                  | None \<Rightarrow> case check_reservations planned next of Some e \<Rightarrow> Inl e
                  | None \<Rightarrow> Inr (planned\<lparr>ews_generation := generation\<rparr>)))"

definition retire_consumer :: "string \<Rightarrow> endpoint_withdrawals \<Rightarrow> endpoint_withdrawals" where
  "retire_consumer node w = w\<lparr>ews_pending :=
     filter (\<lambda>(_, d). ew_consumers d \<noteq> {})
       (map (\<lambda>(g, d). (g, d\<lparr>ew_consumers := ew_consumers d - {node}\<rparr>)) (ews_pending w))\<rparr>"

definition owed_by :: "endpoint_withdrawals \<Rightarrow> string \<Rightarrow> nat" where
  "owed_by w consumer = length (filter (\<lambda>(_, d). consumer \<in> ew_consumers d) (ews_pending w))"

section \<open>Fences of producers\<close>

definition MAX_PRODUCER_RETIREMENTS :: nat where
  "MAX_PRODUCER_RETIREMENTS = 65536"

datatype producer_error = ProducerNode | InvalidExecution | ProducerConflict | ProducerCapacity

type_synonym producer_retirements = "(string \<times> (string \<times> string) list) list"

definition canonical_execution :: "runtime_execution \<Rightarrow> bool" where
  "canonical_execution x = (case parse_instance (rx_instance_id x) of
     None \<Rightarrow> False
   | Some i \<Rightarrow> instance_id i = rx_instance_id x \<and> valid_workload_label (ii_namespace i) \<and> valid_workload_label (ii_app i))"

definition fenced_instance :: "producer_retirements \<Rightarrow> string \<Rightarrow> string \<Rightarrow> string option" where
  "fenced_instance r node gen = (case map_of r node of None \<Rightarrow> None | Some entries \<Rightarrow> map_of entries gen)"

definition plan_retirement :: "producer_retirements \<Rightarrow> string \<Rightarrow> runtime_execution \<Rightarrow> producer_error + producer_retirements" where
  "plan_retirement r node x =
     (if \<not> validate_node_id node then Inl ProducerNode
      else if \<not> canonical_execution x then Inl InvalidExecution
      else case fenced_instance r node (rx_generation x) of
        Some original \<Rightarrow> if original = rx_instance_id x then Inr r else Inl ProducerConflict
      | None \<Rightarrow>
          if sum_list (map (length \<circ> snd) r) \<ge> MAX_PRODUCER_RETIREMENTS then Inl ProducerCapacity
          else Inr (bt_insert node
                 (bt_insert (rx_generation x) (rx_instance_id x)
                   (case map_of r node of None \<Rightarrow> [] | Some entries \<Rightarrow> entries)) r))"

definition fences :: "producer_retirements \<Rightarrow> string \<Rightarrow> runtime_execution \<Rightarrow> bool" where
  "fences r node x \<longleftrightarrow> fenced_instance r node (rx_generation x) = Some (rx_instance_id x)"

definition blocks :: "producer_retirements \<Rightarrow> string \<Rightarrow> runtime_execution option \<Rightarrow> bool" where
  "blocks r node x = (case map_of r node of
     None \<Rightarrow> False
   | Some entries \<Rightarrow> (case x of None \<Rightarrow> True | Some x' \<Rightarrow> map_of entries (rx_generation x') \<noteq> None))"

definition keep_backends :: "(catalog_backend \<Rightarrow> bool) \<Rightarrow> endpoint_catalog \<Rightarrow> endpoint_catalog" where
  "keep_backends keep cat = map (\<lambda>(q, s). (q, s\<lparr>cs_backends := filter keep (cs_backends s)\<rparr>)) cat"

definition withdraw :: "producer_retirements \<Rightarrow> endpoint_catalog \<Rightarrow> endpoint_catalog" where
  "withdraw r cat = keep_backends (\<lambda>b. \<not> blocks r (cb_node_id b) (cb_execution b)) cat"

definition release_confirmed :: "producer_retirements \<Rightarrow> string \<Rightarrow> runtime_execution \<Rightarrow> endpoint_withdrawals \<Rightarrow> bool" where
  "release_confirmed r node x w \<longleftrightarrow> fences r node x \<and>
     \<not> list_ex (\<lambda>(_, d). ew_consumers d \<noteq> {} \<and>
         list_ex (\<lambda>(_, s). list_ex (\<lambda>b. cb_node_id b = node \<and>
             (case cb_execution b of None \<Rightarrow> True | Some original \<Rightarrow> rx_generation original = rx_generation x))
           (cs_backends (sw_service s))) (ew_services d)) (ews_pending w)"

section \<open>The handlers of the replicated log\<close>

text \<open>The four discovery fields of the desired state; \<open>retired\<close> holds the retired node names.\<close>

record endpoint_state =
  es_catalog :: endpoint_catalog
  es_withdrawals :: endpoint_withdrawals
  es_consumers :: "string set"
  es_retirements :: producer_retirements

definition endpoint_default :: endpoint_state where
  "endpoint_default = \<lparr>es_catalog = [], es_withdrawals = \<lparr>ews_generation = 0, ews_pending = []\<rparr>,
     es_consumers = {}, es_retirements = []\<rparr>"

datatype endpoint_refusal =
    BadNodeId
  | NodeRetired
  | ConsumerLimit
  | ConsumerUnknown
  | NotWithdrawnGeneration
  | PublicationChanged nat nat
  | TargetsRetiredNode
  | TargetsFencedExecution
  | ProducerRefused producer_error
  | WithdrawalRefused withdrawal_error

definition register_endpoint_consumer :: "string set \<Rightarrow> string \<Rightarrow> endpoint_state \<Rightarrow> endpoint_refusal + endpoint_state" where
  "register_endpoint_consumer retired node s =
     (if \<not> validate_node_id node then Inl BadNodeId
      else if node \<in> retired then Inl NodeRetired
      else if node \<notin> es_consumers s \<and> card (es_consumers s) \<ge> MAX_ENDPOINT_CONSUMERS then Inl ConsumerLimit
      else Inr (s\<lparr>es_consumers := insert node (es_consumers s)\<rparr>))"

definition discharge_row :: "string \<Rightarrow> nat \<Rightarrow> endpoint_withdrawals \<Rightarrow> endpoint_withdrawals" where
  "discharge_row node g w = (case map_of (ews_pending w) g of
     None \<Rightarrow> w
   | Some d \<Rightarrow>
       let left = ew_consumers d - {node}
       in w\<lparr>ews_pending := (if left = {} then bt_remove g (ews_pending w)
                             else bt_insert g (d\<lparr>ew_consumers := left\<rparr>) (ews_pending w))\<rparr>)"

definition acknowledge_endpoint_withdrawal ::
  "string set \<Rightarrow> string \<Rightarrow> nat \<Rightarrow> endpoint_state \<Rightarrow> endpoint_refusal + endpoint_state" where
  "acknowledge_endpoint_withdrawal retired node g s =
     (if \<not> validate_node_id node then Inl BadNodeId
      else if node \<in> retired then Inl NodeRetired
      else if node \<notin> es_consumers s then Inl ConsumerUnknown
      else if g = 0 \<or> g \<ge> ews_generation (es_withdrawals s) then Inl NotWithdrawnGeneration
      else Inr (s\<lparr>es_withdrawals := discharge_row node g (es_withdrawals s)\<rparr>))"

definition discharge_endpoint_consumer :: "string \<Rightarrow> endpoint_state \<Rightarrow> endpoint_refusal + endpoint_state" where
  "discharge_endpoint_consumer node s =
     (if \<not> validate_node_id node then Inl BadNodeId
      else if node \<in> es_consumers s
      then Inr (s\<lparr>es_consumers := es_consumers s - {node}, es_withdrawals := retire_consumer node (es_withdrawals s)\<rparr>)
      else Inr s)"

definition retire_endpoint_execution ::
  "string set \<Rightarrow> string \<Rightarrow> runtime_execution \<Rightarrow> endpoint_state \<Rightarrow> endpoint_refusal + (bool \<times> endpoint_state)" where
  "retire_endpoint_execution retired node x s =
     (if node \<in> retired then Inl NodeRetired
      else case plan_retirement (es_retirements s) node x of
        Inl e \<Rightarrow> Inl (ProducerRefused e)
      | Inr retirements \<Rightarrow>
          let cat = withdraw retirements (es_catalog s)
          in (case plan_publication (es_withdrawals s) (es_catalog s) cat (es_consumers s) of
                Inl e \<Rightarrow> Inl (WithdrawalRefused e)
              | Inr withdrawals \<Rightarrow>
                  Inr (release_confirmed retirements node x withdrawals,
                    s\<lparr>es_retirements := retirements, es_catalog := cat, es_withdrawals := withdrawals\<rparr>)))"

definition publish_endpoints ::
  "string set \<Rightarrow> nat \<Rightarrow> endpoint_catalog \<Rightarrow> endpoint_state \<Rightarrow> endpoint_refusal + endpoint_state" where
  "publish_endpoints retired expected cat s =
     (if expected \<noteq> ews_generation (es_withdrawals s)
      then Inl (PublicationChanged expected (ews_generation (es_withdrawals s)))
      else if list_ex (\<lambda>(_, v). list_ex (\<lambda>b. cb_node_id b \<in> retired) (cs_backends v)) cat
      then Inl TargetsRetiredNode
      else if list_ex (\<lambda>(_, v). list_ex (\<lambda>b. blocks (es_retirements s) (cb_node_id b) (cb_execution b)) (cs_backends v)) cat
      then Inl TargetsFencedExecution
      else case plan_publication (es_withdrawals s) (es_catalog s) cat (es_consumers s) of
        Inl e \<Rightarrow> Inl (WithdrawalRefused e)
      | Inr withdrawals \<Rightarrow> Inr (s\<lparr>es_withdrawals := withdrawals, es_catalog := cat\<rparr>))"

text \<open>The discovery part of retiring a node: its backends leave the catalogue and its debts are forgiven.\<close>

definition decommission_endpoints :: "string \<Rightarrow> endpoint_state \<Rightarrow> endpoint_refusal + endpoint_state" where
  "decommission_endpoints node s =
     (let cat = keep_backends (\<lambda>b. cb_node_id b \<noteq> node) (es_catalog s);
          consumers = es_consumers s - {node}
      in case plan_publication (retire_consumer node (es_withdrawals s)) (es_catalog s) cat consumers of
           Inl e \<Rightarrow> Inl (WithdrawalRefused e)
         | Inr withdrawals \<Rightarrow> Inr (s\<lparr>es_catalog := cat, es_withdrawals := withdrawals, es_consumers := consumers\<rparr>))"

section \<open>What consumers still owe\<close>

text \<open>
  \<open>lists cat n x\<close>: the catalogue sends connections to execution generation \<open>x\<close> of node \<open>n\<close>.
  \<open>owes w g c n x\<close>: the ledger holds consumer \<open>c\<close> to withdraw that destination of publication \<open>g\<close>.
\<close>

definition exposes :: "catalog_service \<Rightarrow> string \<Rightarrow> string \<Rightarrow> bool" where
  "exposes s n x \<longleftrightarrow> (\<exists>b \<in> set (cs_backends s). cb_node_id b = n \<and> map_option rx_generation (cb_execution b) = Some x)"

definition lists :: "endpoint_catalog \<Rightarrow> string \<Rightarrow> string \<Rightarrow> bool" where
  "lists cat n x \<longleftrightarrow> (\<exists>q s. (q, s) \<in> set cat \<and> exposes s n x)"

definition owes :: "endpoint_withdrawals \<Rightarrow> nat \<Rightarrow> string \<Rightarrow> string \<Rightarrow> string \<Rightarrow> bool" where
  "owes w g c n x \<longleftrightarrow> (\<exists>d q r. map_of (ews_pending w) g = Some d \<and> c \<in> ew_consumers d \<and>
     (q, r) \<in> set (ew_services d) \<and> exposes (sw_service r) n x)"

lemma lists_code [code]: "lists cat n x = list_ex (\<lambda>(_, s). exposes s n x) cat"
  by (force simp: lists_def list_ex_iff)

lemma removed_exposures_list:
  assumes "lists prev n x" and "\<not> lists next n x"
  shows "\<exists>q r. (q, r) \<in> set (removed_exposures prev next) \<and> exposes (sw_service r) n x"
proof -
  obtain q s b where s: "(q, s) \<in> set prev" and b: "b \<in> set (cs_backends s)" "cb_node_id b = n"
    "map_option rx_generation (cb_execution b) = Some x"
    using assms(1) by (auto simp: lists_def exposes_def)
  define route where "route = (case map_of next q of
      None \<Rightarrow> None | Some v \<Rightarrow> if cs_vip v = cs_vip s \<and> cs_port v = cs_port s then Some v else None)"
  have kept: "b \<in> set (removed_backends route s)"
  proof (cases route)
    case (Some v)
    then have v: "(q, v) \<in> set next"
      by (auto simp: route_def split: option.splits if_splits dest: map_of_SomeD)
    have "\<not> (cb_node_id c = n \<and> cb_execution c = cb_execution b)" if "c \<in> set (cs_backends v)" for c
      using assms(2) v that b(3) unfolding lists_def exposes_def by metis
    then show ?thesis
      using b Some by (auto simp: removed_backends_def list_ex_iff same_destination_def)
  qed (use b in \<open>simp add: removed_backends_def\<close>)
  then have "removed_backends route s \<noteq> []" by auto
  then obtain r where r: "removed_exposure next q s = Some r" "cs_backends (sw_service r) = removed_backends route s"
    unfolding removed_exposure_def Let_def route_def [symmetric] by simp
  then have "(q, r) \<in> set (removed_exposures prev next)"
    using s by (force simp: removed_exposures_def List.map_filter_def)
  moreover have "exposes (sw_service r) n x" using kept b r(2) unfolding exposes_def by metis
  ultimately show ?thesis by blast
qed

lemma owes_keep:
  assumes "owes w g c n x"
    and "\<And>d. map_of (ews_pending w) g = Some d \<Longrightarrow> c \<in> ew_consumers d \<Longrightarrow>
      \<exists>d'. map_of (ews_pending w') g = Some d' \<and> ew_services d' = ew_services d \<and> c \<in> ew_consumers d'"
  shows "owes w' g c n x"
  using assms unfolding owes_def by metis

lemma plan_publication_Inr:
  assumes "plan_publication w prev next consumers = Inr w'"
  shows "validate_allocations next = None \<and> check_reservations w' next = None \<and>
    list_all (\<lambda>(g, _). g < ews_generation w) (ews_pending w) \<and>
    (w' = w \<and> prev = next \<or>
     prev \<noteq> next \<and> ews_generation w' = Suc (ews_generation w) \<and>
     ews_pending w' = (if consumers \<noteq> {} \<and> removed_exposures prev next \<noteq> []
       then bt_insert (ews_generation w)
              \<lparr>ew_services = removed_exposures prev next, ew_consumers = consumers\<rparr> (ews_pending w)
       else ews_pending w))"
  using assms
  by (auto simp: plan_publication_def Let_def list_ex_iff list_all_iff not_le check_reservations_def reserved_vips_def
      checked_add64_def split: option.splits if_splits)

lemma plan_publication_owes:
  assumes "plan_publication w prev next consumers = Inr w'"
  shows "owes w g c n x \<Longrightarrow> owes w' g c n x"
    and "c \<in> consumers \<Longrightarrow> lists prev n x \<Longrightarrow> \<not> lists next n x \<Longrightarrow> owes w' (ews_generation w) c n x"
    and "bt_ok (ews_pending w) \<Longrightarrow> bt_ok (ews_pending w')"
    and "ews_generation w \<le> ews_generation w'"
proof -
  note plan = plan_publication_Inr [OF assms]
  have fresh: "map_of (ews_pending w) (ews_generation w) = None"
    using plan by (fastforce simp: map_of_eq_None_iff list_all_iff)
  show "owes w g c n x \<Longrightarrow> owes w' g c n x"
    by (erule owes_keep) (use plan fresh in \<open>auto simp: map_of_bt_insert split: if_splits\<close>)
  show "owes w' (ews_generation w) c n x" if h: "c \<in> consumers" "lists prev n x" "\<not> lists next n x"
  proof -
    obtain q r where ex: "(q, r) \<in> set (removed_exposures prev next)" "exposes (sw_service r) n x"
      using removed_exposures_list [OF h(2,3)] by blast
    then have "removed_exposures prev next \<noteq> []" by auto
    moreover have "prev \<noteq> next" using h by auto
    ultimately have "map_of (ews_pending w') (ews_generation w) =
        Some \<lparr>ew_services = removed_exposures prev next, ew_consumers = consumers\<rparr>"
      using plan h(1) by (auto simp: map_of_bt_insert)
    then show ?thesis using ex h(1) unfolding owes_def by (intro exI conjI) auto
  qed
  show "bt_ok (ews_pending w) \<Longrightarrow> bt_ok (ews_pending w')"
    using plan by (auto simp: bt_ok_insert)
  show "ews_generation w \<le> ews_generation w'" using plan by auto
qed

lemma bt_ok_map_values: "bt_ok m \<Longrightarrow> bt_ok (map (\<lambda>(k, v). (k, f v)) m)"
  by (simp add: bt_ok_def comp_def split_beta)

lemma retire_consumer_ok: "bt_ok (ews_pending w) \<Longrightarrow> bt_ok (ews_pending (retire_consumer node w))"
  by (simp add: retire_consumer_def bt_ok_filter bt_ok_map_values)

lemma retire_consumer_owes:
  assumes "bt_ok (ews_pending w)" and "owes w g c n x" and "c \<noteq> node"
  shows "owes (retire_consumer node w) g c n x"
proof (rule owes_keep [OF assms(2)])
  fix d assume d: "map_of (ews_pending w) g = Some d" "c \<in> ew_consumers d"
  let ?d = "d\<lparr>ew_consumers := ew_consumers d - {node}\<rparr>"
  have "(g, ?d) \<in> set (ews_pending (retire_consumer node w))"
    using map_of_SomeD [OF d(1)] d(2) assms(3) by (force simp: retire_consumer_def)
  then have "map_of (ews_pending (retire_consumer node w)) g = Some ?d"
    using bt_ok_get [OF retire_consumer_ok [OF assms(1)]] by blast
  then show "\<exists>d'. map_of (ews_pending (retire_consumer node w)) g = Some d' \<and>
      ew_services d' = ew_services d \<and> c \<in> ew_consumers d'"
    using d(2) assms(3) by simp
qed

lemma discharge_row_owes:
  assumes "owes w g c n x" and "c \<noteq> node \<or> g \<noteq> h"
  shows "owes (discharge_row node h w) g c n x"
  by (rule owes_keep [OF assms(1)])
    (use assms(2) in \<open>auto simp: discharge_row_def Let_def map_of_bt_insert map_of_bt_remove split: option.splits if_splits\<close>)

lemma discharge_row_ok: "bt_ok (ews_pending w) \<Longrightarrow> bt_ok (ews_pending (discharge_row node h w))"
  by (simp add: discharge_row_def Let_def bt_ok_insert bt_ok_remove split: option.split)

lemma release_confirmed_owes: "release_confirmed r n x w \<Longrightarrow> \<not> owes w g c n (rx_generation x)"
  unfolding release_confirmed_def owes_def exposes_def list_ex_iff by (fastforce dest!: map_of_SomeD)


section \<open>Runs of the discovery state\<close>

datatype endpoint_cmd =
    RegisterConsumer string
  | AcknowledgeWithdrawal string nat
  | DischargeConsumer string
  | RetireExecution string runtime_execution
  | PublishEndpoints nat endpoint_catalog
  | RetireNode string
  | EnterEpoch nat

text \<open>
  A run carries, beside the state and the retired nodes, what the consumers really may still route:
  a publication that drops a destination leaves every consumer of the time routing to it, until that
  consumer acknowledges the publication, is discharged or is retired. The ledger is not consulted.
\<close>

type_synonym debts = "(nat \<times> string \<times> string \<times> string) set"

definition dropped :: "endpoint_state \<Rightarrow> endpoint_state \<Rightarrow> debts" where
  "dropped s s' = {(g, c, n, x). g = ews_generation (es_withdrawals s) \<and> c \<in> es_consumers s' \<and>
     lists (es_catalog s) n x \<and> \<not> lists (es_catalog s') n x}"

definition forgive :: "(nat \<Rightarrow> string \<Rightarrow> bool) \<Rightarrow> debts \<Rightarrow> debts" where
  "forgive P D = {(g, c, n, x). (g, c, n, x) \<in> D \<and> \<not> P g c}"

definition listed :: "endpoint_catalog \<Rightarrow> (string \<times> string) set" where
  "listed cat = set (concat (map (\<lambda>(_, s). List.map_filter (\<lambda>b. map_option (\<lambda>e. (cb_node_id b, rx_generation e)) (cb_execution b))
     (cs_backends s)) cat))"

lemma in_listed_service:
  "(n, x) \<in> set (List.map_filter (\<lambda>b. map_option (\<lambda>e. (cb_node_id b, rx_generation e)) (cb_execution b)) bs) \<longleftrightarrow>
   (\<exists>b \<in> set bs. cb_node_id b = n \<and> map_option rx_generation (cb_execution b) = Some x)"
  by (induction bs) (auto simp: map_filter_simps split: option.splits)

lemma in_listed: "(n, x) \<in> listed cat \<longleftrightarrow> lists cat n x"
  unfolding lists_code list_ex_iff exposes_def listed_def
  by (simp add: in_listed_service split_beta)

lemma dropped_code [code]:
  "dropped s s' = (\<lambda>(c, n, x). (ews_generation (es_withdrawals s), c, n, x)) `
     (es_consumers s' \<times> Set.filter (\<lambda>(n, x). \<not> lists (es_catalog s') n x) (listed (es_catalog s)))"
  by (auto simp: dropped_def in_listed)

lemma forgive_code [code]: "forgive P D = Set.filter (\<lambda>(g, c, n, x). \<not> P g c) D"
  by (auto simp: forgive_def)

fun endpoint_exec :: "endpoint_cmd \<Rightarrow> endpoint_state \<times> string set \<times> debts \<Rightarrow> endpoint_state \<times> string set \<times> debts" where
  "endpoint_exec (RegisterConsumer node) (s, R, D) = (case register_endpoint_consumer R node s of
     Inl _ \<Rightarrow> (s, R, D) | Inr s' \<Rightarrow> (s', R, D))"
| "endpoint_exec (AcknowledgeWithdrawal node g) (s, R, D) = (case acknowledge_endpoint_withdrawal R node g s of
     Inl _ \<Rightarrow> (s, R, D) | Inr s' \<Rightarrow> (s', R, forgive (\<lambda>h c. h = g \<and> c = node) D))"
| "endpoint_exec (DischargeConsumer node) (s, R, D) = (case discharge_endpoint_consumer node s of
     Inl _ \<Rightarrow> (s, R, D)
   | Inr s' \<Rightarrow> (s', R, if node \<in> es_consumers s then forgive (\<lambda>_ c. c = node) D else D))"
| "endpoint_exec (RetireExecution node x) (s, R, D) = (case retire_endpoint_execution R node x s of
     Inl _ \<Rightarrow> (s, R, D) | Inr (_, s') \<Rightarrow> (s', R, D \<union> dropped s s'))"
| "endpoint_exec (PublishEndpoints g cat) (s, R, D) = (case publish_endpoints R g cat s of
     Inl _ \<Rightarrow> (s, R, D) | Inr s' \<Rightarrow> (s', R, D \<union> dropped s s'))"
| "endpoint_exec (RetireNode node) (s, R, D) =
     (if node \<in> R then (s, R, D) else case decommission_endpoints node s of
        Inl _ \<Rightarrow> (s, R, D)
      | Inr s' \<Rightarrow> (s', insert node R, forgive (\<lambda>_ c. c = node) D \<union> dropped s s'))"
| "endpoint_exec (EnterEpoch epoch) (s, R, D) =
     (s\<lparr>es_withdrawals := enter_recovery_epoch epoch (es_withdrawals s)\<rparr>, R, D)"

definition unblocked :: "producer_retirements \<Rightarrow> endpoint_catalog \<Rightarrow> bool" where
  "unblocked r cat \<longleftrightarrow> (\<forall>q s b. (q, s) \<in> set cat \<longrightarrow> b \<in> set (cs_backends s) \<longrightarrow>
     \<not> blocks r (cb_node_id b) (cb_execution b))"

definition vips_ok :: "endpoint_withdrawals \<Rightarrow> endpoint_catalog \<Rightarrow> bool" where
  "vips_ok w cat \<longleftrightarrow> distinct (map (cs_vip \<circ> snd) cat) \<and>
     (\<forall>q s. (q, s) \<in> set cat \<longrightarrow> cs_vip s \<notin> reserved_vips w)"

definition endpoint_inv :: "endpoint_state \<times> string set \<times> debts \<Rightarrow> bool" where
  "endpoint_inv = (\<lambda>(s, R, D).
     bt_ok (ews_pending (es_withdrawals s)) \<and>
     (\<forall>g c n x. (g, c, n, x) \<in> D \<longrightarrow> owes (es_withdrawals s) g c n x) \<and>
     unblocked (es_retirements s) (es_catalog s) \<and>
     vips_ok (es_withdrawals s) (es_catalog s))"

lemma validate_allocations_vips:
  assumes "validate_allocations_from vips cat = None"
  shows "distinct (map (cs_vip \<circ> snd) cat) \<and> (\<forall>(q, s) \<in> set cat. cs_vip s \<notin> vips)"
  using assms by (induction vips cat rule: validate_allocations_from.induct) (auto split: if_splits)

lemma check_reservations_None:
  "check_reservations w cat = None \<longleftrightarrow> (\<forall>q s. (q, s) \<in> set cat \<longrightarrow> cs_vip s \<notin> reserved_vips w)"
  by (induction cat) (auto simp: check_reservations_def split: option.splits)

lemma plan_publication_vips: "plan_publication w prev next consumers = Inr w' \<Longrightarrow> vips_ok w' next"
  by (drule plan_publication_Inr)
    (auto simp: vips_ok_def validate_allocations_def check_reservations_None dest!: validate_allocations_vips)

lemma in_reserved_vips: "v \<in> reserved_vips w \<longleftrightarrow> (\<exists>g d q r. (g, d) \<in> set (ews_pending w) \<and>
    (q, r) \<in> set (ew_services d) \<and> sw_retire_vip r \<and> v = cs_vip (sw_service r))"
  by (force simp: reserved_vips_def)

lemma reserved_vips_mono:
  assumes "\<And>g d'. (g, d') \<in> set (ews_pending w') \<Longrightarrow> \<exists>d. (g, d) \<in> set (ews_pending w) \<and> ew_services d = ew_services d'"
  shows "reserved_vips w' \<subseteq> reserved_vips w"
  unfolding subset_iff in_reserved_vips by (metis assms)

lemma vips_ok_mono: "vips_ok w cat \<Longrightarrow> reserved_vips w' \<subseteq> reserved_vips w \<Longrightarrow> vips_ok w' cat"
  unfolding vips_ok_def by blast

lemma retire_consumer_vips: "reserved_vips (retire_consumer node w) \<subseteq> reserved_vips w"
  by (rule reserved_vips_mono) (auto simp: retire_consumer_def)

lemma discharge_row_vips:
  assumes "bt_ok (ews_pending w)"
  shows "reserved_vips (discharge_row node g w) \<subseteq> reserved_vips w"
  by (rule reserved_vips_mono)
    (use assms in \<open>auto simp: discharge_row_def Let_def set_bt_insert set_bt_remove dest: map_of_SomeD split: option.splits if_splits\<close>)

lemma unblocked_keep: "unblocked r cat \<Longrightarrow> unblocked r (keep_backends P cat)"
  unfolding unblocked_def keep_backends_def by fastforce

lemma unblocked_withdraw: "unblocked r (withdraw r cat)"
  unfolding unblocked_def withdraw_def keep_backends_def by fastforce

lemma publication_debts:
  assumes plan: "plan_publication w (es_catalog s) (es_catalog s') (es_consumers s') = Inr w'"
    and old: "\<forall>g c n x. (g, c, n, x) \<in> D \<longrightarrow> owes w g c n x"
    and gen: "ews_generation w = ews_generation (es_withdrawals s)"
  shows "\<forall>g c n x. (g, c, n, x) \<in> D \<union> dropped s s' \<longrightarrow> owes w' g c n x"
  using plan_publication_owes(1,2) [OF plan] old gen unfolding dropped_def by auto


lemma endpoint_exec_inv:
  assumes "endpoint_inv t"
  shows "endpoint_inv (endpoint_exec cmd t)"
proof -
  obtain s R D where t: "t = (s, R, D)" by (cases t)
  have ok: "bt_ok (ews_pending (es_withdrawals s))" and debts: "\<forall>g c n x. (g, c, n, x) \<in> D \<longrightarrow> owes (es_withdrawals s) g c n x"
    and free: "unblocked (es_retirements s) (es_catalog s)" and vips: "vips_ok (es_withdrawals s) (es_catalog s)"
    using assms by (simp_all add: t endpoint_inv_def)
  show ?thesis
  proof (cases cmd)
    case (RegisterConsumer node)
    then show ?thesis using ok debts free vips
      by (auto simp: t endpoint_inv_def register_endpoint_consumer_def split: sum.splits if_splits)
  next
    case (AcknowledgeWithdrawal node g)
    have "owes (discharge_row node g (es_withdrawals s)) h c n x" if "(h, c, n, x) \<in> forgive (\<lambda>h c. h = g \<and> c = node) D" for h c n x
      using that debts by (auto simp: forgive_def intro!: discharge_row_owes)
    then show ?thesis
      using assms free discharge_row_ok [OF ok] vips_ok_mono [OF vips discharge_row_vips [OF ok]] AcknowledgeWithdrawal
      by (auto simp: t endpoint_inv_def acknowledge_endpoint_withdrawal_def split: sum.splits if_splits)
  next
    case (DischargeConsumer node)
    have "owes (retire_consumer node (es_withdrawals s)) h c n x" if "(h, c, n, x) \<in> forgive (\<lambda>_ c. c = node) D" for h c n x
      using that debts by (auto simp: forgive_def intro!: retire_consumer_owes [OF ok])
    then show ?thesis
      using assms free retire_consumer_ok [OF ok] vips_ok_mono [OF vips retire_consumer_vips] DischargeConsumer
      by (auto simp: t endpoint_inv_def discharge_endpoint_consumer_def split: sum.splits if_splits)
  next
    case (RetireExecution node x)
    show ?thesis
    proof (cases "retire_endpoint_execution R node x s")
      case (Inr r)
      then obtain w' ret where s': "snd r = s\<lparr>es_retirements := ret, es_catalog := withdraw ret (es_catalog s), es_withdrawals := w'\<rparr>"
        and plan: "plan_publication (es_withdrawals s) (es_catalog s) (withdraw ret (es_catalog s)) (es_consumers s) = Inr w'"
        by (auto simp: retire_endpoint_execution_def Let_def split: if_splits sum.splits)
      have "\<forall>g c n x. (g, c, n, x) \<in> D \<union> dropped s (snd r) \<longrightarrow> owes w' g c n x"
        by (rule publication_debts [OF _ debts]) (simp_all add: s' plan)
      then show ?thesis
        using RetireExecution Inr plan_publication_owes(3) [OF plan ok] plan_publication_vips [OF plan] unblocked_withdraw
        by (simp add: t endpoint_inv_def s' split_beta)
    qed (use assms RetireExecution in \<open>simp add: t\<close>)
  next
    case (PublishEndpoints g cat)
    show ?thesis
    proof (cases "publish_endpoints R g cat s")
      case (Inr s1)
      then obtain w' where s': "s1 = s\<lparr>es_withdrawals := w', es_catalog := cat\<rparr>"
        and plan: "plan_publication (es_withdrawals s) (es_catalog s) cat (es_consumers s) = Inr w'"
        and free': "unblocked (es_retirements s) cat"
        by (fastforce simp: publish_endpoints_def list_ex_iff unblocked_def split: if_splits sum.splits)
      have "\<forall>g c n x. (g, c, n, x) \<in> D \<union> dropped s s1 \<longrightarrow> owes w' g c n x"
        by (rule publication_debts [OF _ debts]) (simp_all add: s' plan)
      then show ?thesis
        using PublishEndpoints Inr plan_publication_owes(3) [OF plan ok] plan_publication_vips [OF plan] free'
        by (simp add: t endpoint_inv_def s')
    qed (use assms PublishEndpoints in \<open>simp add: t\<close>)
  next
    case (RetireNode node)
    let ?cat = "keep_backends (\<lambda>b. cb_node_id b \<noteq> node) (es_catalog s)" and ?w = "retire_consumer node (es_withdrawals s)"
    show ?thesis
    proof (cases "decommission_endpoints node s")
      case (Inr s1)
      then obtain w' where s': "s1 = s\<lparr>es_catalog := ?cat, es_withdrawals := w', es_consumers := es_consumers s - {node}\<rparr>"
        and plan: "plan_publication ?w (es_catalog s) ?cat (es_consumers s - {node}) = Inr w'"
        by (auto simp: decommission_endpoints_def Let_def split: sum.splits)
      have gen: "ews_generation ?w = ews_generation (es_withdrawals s)" by (simp add: retire_consumer_def)
      have "\<forall>h c n x. (h, c, n, x) \<in> forgive (\<lambda>_ c. c = node) D \<longrightarrow> owes ?w h c n x"
        using debts by (auto simp: forgive_def intro!: retire_consumer_owes [OF ok])
      then have "\<forall>g c n x. (g, c, n, x) \<in> forgive (\<lambda>_ c. c = node) D \<union> dropped s s1 \<longrightarrow> owes w' g c n x"
        by (intro publication_debts [of ?w]) (simp_all add: s' plan gen)
      then show ?thesis
        using assms RetireNode Inr plan_publication_owes(3) [OF plan retire_consumer_ok [OF ok]] plan_publication_vips [OF plan]
          unblocked_keep [OF free]
        by (simp add: t endpoint_inv_def s')
    qed (use assms RetireNode in \<open>simp add: t\<close>)
  next
    case (EnterEpoch epoch)
    then show ?thesis using assms
      by (simp add: t endpoint_inv_def enter_recovery_epoch_def owes_def vips_ok_def reserved_vips_def)
  qed
qed

interpretation discovery_log: command_machine endpoint_exec "\<lambda>_. True" endpoint_inv
  by unfold_locales (rule endpoint_exec_inv)

lemma endpoint_default_inv: "endpoint_inv (endpoint_default, {}, {})"
  by (simp add: endpoint_inv_def endpoint_default_def unblocked_def vips_ok_def)

lemma fence_permanent:
  assumes "fences (es_retirements (fst t)) n x"
  shows "fences (es_retirements (fst (endpoint_exec cmd t))) n x"
proof -
  obtain s R D where t: "t = (s, R, D)" by (cases t)
  have "fences r' n x" if "plan_retirement r node y = Inr r'" "fences r n x" for r r' node y
    using that by (auto simp: plan_retirement_def fences_def fenced_instance_def map_of_bt_insert split: if_splits option.splits)
  then show ?thesis
    using assms
    by (cases cmd)
      (auto simp: t register_endpoint_consumer_def acknowledge_endpoint_withdrawal_def discharge_endpoint_consumer_def
        retire_endpoint_execution_def publish_endpoints_def decommission_endpoints_def Let_def split: sum.splits if_splits)
qed

lemma fence_permanent_run:
  "fences (es_retirements (fst t)) n x \<Longrightarrow> fences (es_retirements (fst (fold endpoint_exec cmds t))) n x"
proof (induction cmds arbitrary: t)
  case (Cons cmd cmds)
  then show ?case using fence_permanent [of t n x cmd] by simp
qed simp

lemma fenced_not_listed:
  assumes "unblocked r cat" and "fences r n x"
  shows "\<not> lists cat n (rx_generation x)"
  using assms unfolding unblocked_def lists_def exposes_def
  by (fastforce simp: fences_def fenced_instance_def blocks_def split: option.splits)

lemma endpoint_exec_debts:
  assumes "endpoint_inv t" and "fences (es_retirements (fst t)) n x"
    and "(g, c, n, rx_generation x) \<in> snd (snd (endpoint_exec cmd t))"
  shows "(g, c, n, rx_generation x) \<in> snd (snd t)"
proof -
  obtain s R D where t: "t = (s, R, D)" by (cases t)
  have "\<not> lists (es_catalog s) n (rx_generation x)"
    using assms(1,2) by (intro fenced_not_listed) (simp_all add: t endpoint_inv_def)
  then show ?thesis
    using assms(3) by (cases cmd) (auto simp: t dropped_def forgive_def split: sum.splits if_splits)
qed

lemma endpoint_run_debts:
  "endpoint_inv t \<Longrightarrow> fences (es_retirements (fst t)) n x \<Longrightarrow>
   (g, c, n, rx_generation x) \<in> snd (snd (fold endpoint_exec cmds t)) \<Longrightarrow> (g, c, n, rx_generation x) \<in> snd (snd t)"
proof (induction cmds arbitrary: t)
  case (Cons cmd cmds)
  then show ?case
    using endpoint_exec_debts [of t n x g c cmd] endpoint_exec_inv [of t cmd] fence_permanent [of t n x cmd] by simp
qed simp

text \<open>
  C19: The release of a producer is safe. Take any run of the discovery state and a moment at which
  the state confirms the release of an execution of a node. Then, and at every later moment of the
  run, the catalogue does not list the execution, and no consumer that was sent a catalogue listing
  it still has to be told: each of them has acknowledged that publication, been discharged, or been
  retired. So the address of the execution can be used again.
\<close>

theorem released_producer_unreferenced:
  assumes "t = fold endpoint_exec cmds (endpoint_default, {}, {})"
    and "release_confirmed (es_retirements (fst t)) node x (es_withdrawals (fst t))"
    and "fold endpoint_exec later t = (s', R', D')"
  shows "\<not> lists (es_catalog s') node (rx_generation x) \<and> (\<forall>g c. (g, c, node, rx_generation x) \<notin> D')"
proof -
  have inv: "endpoint_inv t" unfolding assms(1) by (rule discovery_log.run_inv [OF endpoint_default_inv]) simp
  have fenced: "fences (es_retirements (fst t)) node x" using assms(2) by (simp add: release_confirmed_def)
  have "endpoint_inv (s', R', D')" unfolding assms(3) [symmetric] by (rule discovery_log.run_inv [OF inv]) simp
  then have "\<not> lists (es_catalog s') node (rx_generation x)"
    using fence_permanent_run [OF fenced, of later] by (intro fenced_not_listed) (simp_all add: endpoint_inv_def assms(3))
  moreover have "(g, c, node, rx_generation x) \<notin> D'" for g c
  proof
    assume "(g, c, node, rx_generation x) \<in> D'"
    then have "(g, c, node, rx_generation x) \<in> snd (snd t)"
      using endpoint_run_debts [OF inv fenced, of g c later] by (simp add: assms(3))
    then show False
      using inv release_confirmed_owes [OF assms(2)] by (cases t) (simp add: endpoint_inv_def, blast)
  qed
  ultimately show ?thesis by blast
qed


definition demo_execution :: runtime_execution where
  "demo_execution = \<lparr>rx_instance_id = ''shop__web-0'', rx_generation = ''gen1''\<rparr>"

definition demo_catalogue :: "catalog_backend list \<Rightarrow> endpoint_catalog" where
  "demo_catalogue bs = [(''shop__web'', \<lparr>cs_vip = 0x7f800005, cs_port = 80, cs_backends = bs\<rparr>)]"

definition demo_backend :: catalog_backend where
  "demo_backend = \<lparr>cb_execution = Some demo_execution, cb_node_id = ''n1'', cb_node_ip = 0x0a000001,
     cb_host_port = 31000, cb_healthy = True\<rparr>"

definition demo_discovery :: "endpoint_cmd list" where
  "demo_discovery = [RegisterConsumer ''n2'', PublishEndpoints 0 (demo_catalogue [demo_backend]),
     RetireExecution ''n1'' demo_execution]"

theorem released_producer_unreferenced_witness:
  "let t = fold endpoint_exec demo_discovery (endpoint_default, {}, {});
       t' = endpoint_exec (AcknowledgeWithdrawal ''n2'' 1) t
   in \<not> release_confirmed (es_retirements (fst t)) ''n1'' demo_execution (es_withdrawals (fst t)) \<and>
      release_confirmed (es_retirements (fst t')) ''n1'' demo_execution (es_withdrawals (fst t')) \<and>
      es_consumers (fst t') = {''n2''} \<and>
      \<not> lists (es_catalog (fst t')) ''n1'' ''gen1'' \<and> (1, ''n2'', ''n1'', ''gen1'') \<notin> snd (snd t')"
proof -
  let ?t = "fold endpoint_exec demo_discovery (endpoint_default, {}, {})"
  let ?t' = "fold endpoint_exec (demo_discovery @ [AcknowledgeWithdrawal ''n2'' 1]) (endpoint_default, {}, {})"
  have pending: "\<not> release_confirmed (es_retirements (fst ?t)) ''n1'' demo_execution (es_withdrawals (fst ?t))"
    and confirmed: "release_confirmed (es_retirements (fst ?t')) ''n1'' demo_execution (es_withdrawals (fst ?t'))"
    and consumer: "es_consumers (fst ?t') = {''n2''}"
    by code_simp+
  have "\<not> lists (es_catalog (fst ?t')) ''n1'' (rx_generation demo_execution) \<and>
      (\<forall>g c. (g, c, ''n1'', rx_generation demo_execution) \<notin> snd (snd ?t'))"
    by (rule released_producer_unreferenced [OF refl confirmed, where later = "[]" and R' = "fst (snd ?t')"]) simp
  then show ?thesis
    using pending confirmed consumer by (simp add: Let_def demo_execution_def)
qed


end
