(* ===== verification/Jobs.thy ===== *)
theory Jobs
  imports Cron Endpoints
begin

text \<open>
  Jobs (\<open>config/job.rs\<close>, \<open>meat/job.rs\<close> and \<open>validate_template\<close> of \<open>meat/task_array.rs\<close>): the job of a
  configuration, the definition it is normalised to, and the catalogue of definitions and run provenance that every
  replica keeps. A \<open>BTreeMap\<close> is a sorted association list, a \<open>BTreeSet\<close> a set. The JSON encoder, SHA-256 and the
  calendar are the parameters of \<open>job_library\<close>; \<open>None\<close> is an encoder's or the calendar's error.
\<close>

section \<open>The job of a configuration\<close>

datatype job_runtime = RuntimeRunc | RuntimeProcess | RuntimeSharedRunc

datatype overlap_policy = OverlapForbid | OverlapAllow

record job_spec =
  js_runtime :: job_runtime
  js_image :: "string option"
  js_command :: "string list option"
  js_schedule :: "string option"
  js_run_before :: "string list"
  js_memory :: "resource_range option"
  js_cpu :: "resource_range option"
  js_pids :: "nat option"
  js_env :: "(string \<times> env_value) list"
  js_namespace :: "string option"
  js_exec :: "path option"
  js_script :: "string option"
  js_firewall :: "firewall_spec option"
  js_egress :: "egress_spec option"
  js_max_attempts :: "nat option"
  js_task_timeout_secs :: "nat option"
  js_overlap :: "overlap_policy option"
  js_replay_unknown :: bool
  js_provenance :: "provenance option"

definition job_is_host :: "job_spec \<Rightarrow> bool" where
  "job_is_host spec \<longleftrightarrow> js_runtime spec = RuntimeProcess \<or> js_exec spec \<noteq> None \<or> js_script spec \<noteq> None"

definition has_run_policy :: "job_spec \<Rightarrow> bool" where
  "has_run_policy spec \<longleftrightarrow>
     js_max_attempts spec \<noteq> None \<or> js_task_timeout_secs spec \<noteq> None \<or> js_overlap spec \<noteq> None \<or> js_replay_unknown spec"

definition validate_runtime :: "job_spec \<Rightarrow> template_fault + unit" where
  "validate_runtime spec =
     (case js_runtime spec of
        RuntimeProcess \<Rightarrow>
          if js_image spec \<noteq> None then Inl ProcessWithImage
          else if (js_exec spec \<noteq> None) = (js_script spec \<noteq> None) then Inl ProcessNeedsOneCommand
          else Inr ()
      | _ \<Rightarrow>
          if js_image spec = None then Inl ContainerNeedsImage
          else if js_exec spec \<noteq> None \<or> js_script spec \<noteq> None then Inl ContainerWithHostCommand
          else Inr ())"

section \<open>Definitions\<close>

datatype missed_run_policy = MissedSkip

record cron_policy =
  cp_expression :: string
  cp_overlap :: overlap_policy
  cp_missed :: missed_run_policy

record job_definition =
  jd_template :: job_spec
  jd_tasks :: task_array_spec
  jd_cron :: "cron_policy option"
  jd_replay_unknown :: bool
  jd_hook :: bool

datatype run_trigger = Manual string | Hook string | CronMinute int

record job_library =
  jl_template_json :: "job_spec \<Rightarrow> string option"
  jl_definition_json :: "job_definition \<Rightarrow> string option"
  jl_identity_json :: "string \<times> string \<times> run_trigger \<Rightarrow> string option"
  jl_sha256_hex :: "string \<Rightarrow> string"
  jl_utc :: "int \<Rightarrow> cron_time option"

datatype job_error =
    DefinitionTooLarge
  | DefinitionInvalid task_array_spec_error
  | ScheduleInvalid cron_error
  | NotSerialisable
  | InvalidJobKey
  | InvalidTriggerIdentity
  | OccurrenceBeforeEpoch
  | UnknownDefinition
  | RevisionExhausted
  | DefinitionNamespaceDisagrees
  | CronOutsideSchedule
  | TriggerNamesOtherDefinition
  | UnknownRunOwnsJob
  | NamespaceDefinitionsFull string nat
  | DefinitionsFull nat
  | CronTimeOutOfRange
  | StaleRevision
  | NoCronSchedule
  | NotTheObservedMinute
  | OccurrenceDoesNotMatch
  | JobRunsFull nat

text \<open>\<open>validate_template\<close>: a template names one backend, fits 16 KiB and has no trigger or policy of its own.\<close>

definition oversized :: "nat \<Rightarrow> string option \<Rightarrow> bool" where
  "oversized limit encoded \<longleftrightarrow> (case encoded of None \<Rightarrow> True | Some json \<Rightarrow> length json > limit)"

definition zero_request :: "resource_range option \<Rightarrow> bool" where
  "zero_request r \<longleftrightarrow> (case r of None \<Rightarrow> False | Some res \<Rightarrow> rr_request res = 0)"

definition validate_template :: "'l job_library_scheme \<Rightarrow> job_spec \<Rightarrow> task_array_spec_error + unit" where
  "validate_template lib t =
     (case validate_runtime t of
        Inl fault \<Rightarrow> Inl (TemplateField fault)
      | Inr _ \<Rightarrow>
          if oversized (16 * 1024) (jl_template_json lib t) then Inl (TemplateField TemplateTooLarge)
          else if of_bool (js_image t \<noteq> None) + of_bool (js_exec t \<noteq> None) + of_bool (js_script t \<noteq> None) \<noteq> (1 :: nat)
          then Inl UnsupportedTemplate
          else if zero_request (js_cpu t) \<or> zero_request (js_memory t) then Inl (TemplateField ZeroRequest)
          else if js_schedule t \<noteq> None then Inl (TemplateField HasSchedule)
          else if js_run_before t \<noteq> [] then Inl (TemplateField HasRunBefore)
          else if has_run_policy t then Inl (TemplateField HasRunPolicy)
          else Inr ())"

definition definition_from_spec :: "job_spec \<Rightarrow> job_definition" where
  "definition_from_spec t =
     (let overlap = (case js_overlap t of None \<Rightarrow> OverlapForbid | Some p \<Rightarrow> p);
          cron = map_option (\<lambda>e. \<lparr>cp_expression = e, cp_overlap = overlap, cp_missed = MissedSkip\<rparr>) (js_schedule t);
          hook = (js_run_before t \<noteq> [])
      in \<lparr>jd_template = t\<lparr>js_schedule := None, js_run_before := [], js_max_attempts := None, js_task_timeout_secs := None,
                          js_overlap := None, js_replay_unknown := False\<rparr>,
          jd_tasks = (with_count 1)\<lparr>
            max_attempts := (case js_max_attempts t of Some n \<Rightarrow> n | None \<Rightarrow> if hook then 1 else 4),
            task_timeout_secs := (case js_task_timeout_secs t of Some n \<Rightarrow> n | None \<Rightarrow> if hook then 600 else 0)\<rparr>,
          jd_cron = cron, jd_replay_unknown = js_replay_unknown t, jd_hook = hook\<rparr>)"

definition to_spec :: "job_definition \<Rightarrow> job_spec" where
  "to_spec d =
     (let t = jd_template d;
          scheduled = (case jd_cron d of
             None \<Rightarrow> t | Some c \<Rightarrow> t\<lparr>js_schedule := Some (cp_expression c), js_overlap := Some (cp_overlap c)\<rparr>)
      in scheduled\<lparr>js_max_attempts := Some (max_attempts (jd_tasks d)),
                    js_task_timeout_secs := Some (task_timeout_secs (jd_tasks d)),
                    js_replay_unknown := jd_replay_unknown d\<rparr>)"

definition is_lasting :: "job_definition \<Rightarrow> bool" where
  "is_lasting d \<longleftrightarrow> jd_cron d \<noteq> None \<or> jd_hook d"

definition definition_validate :: "'l job_library_scheme \<Rightarrow> job_definition \<Rightarrow> job_error + unit" where
  "definition_validate lib d =
     (if oversized (20 * 1024) (jl_definition_json lib d) then Inl DefinitionTooLarge
      else case validate (jd_tasks d) of
        Inl e \<Rightarrow> Inl (DefinitionInvalid e)
      | Inr _ \<Rightarrow> (case validate_template lib (jd_template d) of
          Inl e \<Rightarrow> Inl (DefinitionInvalid e)
        | Inr _ \<Rightarrow> (case jd_cron d of
            None \<Rightarrow> Inr ()
          | Some c \<Rightarrow> (case parse_schedule (cp_expression c) of Inl e \<Rightarrow> Inl (ScheduleInvalid e) | Inr _ \<Rightarrow> Inr ()))))"

definition definition_digest :: "'l job_library_scheme \<Rightarrow> job_definition \<Rightarrow> job_error + string" where
  "definition_digest lib d =
     (case jl_definition_json lib d of None \<Rightarrow> Inl NotSerialisable | Some json \<Rightarrow> Inr (jl_sha256_hex lib json))"

definition invalid_identity :: "string \<Rightarrow> bool" where
  "invalid_identity i \<longleftrightarrow> i = [] \<or> length i > 128 \<or> has_control i"

fun trigger_validate :: "run_trigger \<Rightarrow> job_error + unit" where
  "trigger_validate (Manual i) = (if invalid_identity i then Inl InvalidTriggerIdentity else Inr ())"
| "trigger_validate (Hook i) = (if invalid_identity i then Inl InvalidTriggerIdentity else Inr ())"
| "trigger_validate (CronMinute m) = (if m < 0 then Inl OccurrenceBeforeEpoch else Inr ())"

section \<open>The catalogue\<close>

definition MAX_JOB_DEFINITIONS :: nat where "MAX_JOB_DEFINITIONS = 1024"
definition MAX_JOB_DEFINITIONS_PER_NAMESPACE :: nat where "MAX_JOB_DEFINITIONS_PER_NAMESPACE = 64"
definition MAX_JOB_RUNS :: nat where "MAX_JOB_RUNS = 2048"
definition MAX_DEFINITION_HISTORY :: nat where "MAX_DEFINITION_HISTORY = 10"

record run_outcome =
  ro_run :: nat
  ro_started_at :: nat
  ro_finished_at :: nat
  ro_status :: task_array_status
  ro_succeeded :: nat
  ro_failed :: nat
  ro_not_run :: nat
  ro_first_failed_index :: "nat option"

definition outcome_failed :: "run_outcome \<Rightarrow> bool" where
  "outcome_failed out \<longleftrightarrow> ro_status out = Failed \<or> ro_status out = CompletedWithFailures"

datatype skip_reason = SkipCapacity

record skipped_occurrence =
  so_minute :: int
  so_reason :: skip_reason

record definition_record =
  dr_definition :: job_definition
  dr_revision :: nat
  dr_last_observed_minute :: "int option"
  dr_skipped :: "skipped_occurrence option"
  dr_skipped_count :: nat
  dr_history :: "run_outcome list"

record run_record =
  rn_name :: string
  rn_namespace :: string
  rn_revision :: nat
  rn_trigger :: run_trigger
  rn_definition_digest :: string
  rn_replay_unknown :: bool
  rn_unknown_owners :: "string set"

record job_catalog =
  jc_definitions :: "(string \<times> definition_record) list"
  jc_runs :: "(nat \<times> run_record) list"

datatype job_write =
    PutJob string string job_definition "run_trigger option" nat
  | FireJob string string nat int nat

datatype job_plan = RegisterRun job_definition run_record nat | ExistingRun nat | Recorded

definition jobs_default :: job_catalog where
  "jobs_default = \<lparr>jc_definitions = [], jc_runs = []\<rparr>"

definition validate_key :: "string \<Rightarrow> string \<Rightarrow> job_error + unit" where
  "validate_key ns name =
     (if \<not> valid_workload_label ns \<or> \<not> valid_workload_label name then Inl InvalidJobKey else Inr ())"

definition job_key :: "string \<Rightarrow> string \<Rightarrow> string" where
  "job_key ns name = ns @ ''/'' @ name"

definition find_definition :: "job_catalog \<Rightarrow> string \<Rightarrow> string \<Rightarrow> definition_record option" where
  "find_definition c ns name = map_of (jc_definitions c) (job_key ns name)"

definition find_run :: "job_catalog \<Rightarrow> nat \<Rightarrow> run_record option" where
  "find_run c i = map_of (jc_runs c) i"

definition owns_job :: "string \<Rightarrow> string \<Rightarrow> run_record \<Rightarrow> bool" where
  "owns_job ns name r \<longleftrightarrow> rn_namespace r = ns \<and> rn_name r = name"

definition stop_definition :: "string \<Rightarrow> string \<Rightarrow> bool \<Rightarrow> job_catalog \<Rightarrow> job_error + job_catalog" where
  "stop_definition ns name forget c =
     (case find_definition c ns name of
        None \<Rightarrow> Inl UnknownDefinition
      | Some r \<Rightarrow>
          case (if jd_cron (dr_definition r) = None then Inr r
                else case checked_add64 (dr_revision r) 1 of
                  None \<Rightarrow> Inl RevisionExhausted
                | Some n \<Rightarrow> Inr (r\<lparr>dr_revision := n, dr_definition := (dr_definition r)\<lparr>jd_cron := None\<rparr>\<rparr>)) of
            Inl e \<Rightarrow> Inl e
          | Inr r' \<Rightarrow>
              let held = bt_insert (job_key ns name) r' (jc_definitions c)
              in Inr (c\<lparr>jc_definitions := if forget then bt_remove (job_key ns name) held else held\<rparr>))"

definition record_skip :: "string \<Rightarrow> string \<Rightarrow> int \<Rightarrow> job_catalog \<Rightarrow> job_catalog" where
  "record_skip ns name minute c =
     (case find_definition c ns name of
        None \<Rightarrow> c
      | Some r \<Rightarrow> c\<lparr>jc_definitions := bt_insert (job_key ns name)
          (r\<lparr>dr_skipped := Some \<lparr>so_minute = minute, so_reason = SkipCapacity\<rparr>,
             dr_skipped_count := sat_add64 (dr_skipped_count r) 1\<rparr>) (jc_definitions c)\<rparr>)"

definition record_outcome :: "string \<Rightarrow> string \<Rightarrow> run_outcome \<Rightarrow> job_catalog \<Rightarrow> job_catalog" where
  "record_outcome ns name outcome c =
     (case find_definition c ns name of
        None \<Rightarrow> c
      | Some r \<Rightarrow>
          if list_ex (\<lambda>known. ro_run known = ro_run outcome) (dr_history r) then c
          else let history = dr_history r @ [outcome]
               in c\<lparr>jc_definitions := bt_insert (job_key ns name)
                      (r\<lparr>dr_history := drop (length history - MAX_DEFINITION_HISTORY) history\<rparr>) (jc_definitions c)\<rparr>)"

definition expire_one_off :: "(string \<Rightarrow> string \<Rightarrow> bool) \<Rightarrow> job_catalog \<Rightarrow> job_catalog" where
  "expire_one_off owned c =
     c\<lparr>jc_definitions := filter (\<lambda>(key, r). case split_once (CHR ''/'') key of
          None \<Rightarrow> True
        | Some (ns, name) \<Rightarrow> is_lasting (dr_definition r) \<or>
            list_ex (\<lambda>(_, run). owns_job ns name run) (jc_runs c) \<or> owned ns name) (jc_definitions c)\<rparr>"

definition definitions_in :: "string \<Rightarrow> job_catalog \<Rightarrow> nat" where
  "definitions_in ns c =
     (let prefix = ns @ ''/''
      in length (takeWhile (\<lambda>(key, _). starts_with key prefix) (dropWhile (\<lambda>(key, _). key < prefix) (jc_definitions c))))"

definition retain_runs :: "nat set \<Rightarrow> job_catalog \<Rightarrow> job_catalog" where
  "retain_runs retained c = c\<lparr>jc_runs := filter (\<lambda>(i, _). i \<in> retained) (jc_runs c)\<rparr>"

definition record_run :: "nat \<Rightarrow> run_record \<Rightarrow> job_catalog \<Rightarrow> job_catalog" where
  "record_run i run c = c\<lparr>jc_runs := bt_insert i run (jc_runs c)\<rparr>"

section \<open>Preparing a job transaction\<close>

definition i64_of_u64 :: "nat \<Rightarrow> int option" where
  "i64_of_u64 n = (if n < 2 ^ 63 then Some (int n) else None)"

definition later_minute :: "int option \<Rightarrow> int option \<Rightarrow> int option" where
  "later_minute a b = (case a of None \<Rightarrow> b | Some x \<Rightarrow> (case b of None \<Rightarrow> a | Some y \<Rightarrow> Some (max x y)))"

definition known_run ::
  "'l job_library_scheme \<Rightarrow> string \<Rightarrow> string \<Rightarrow> job_definition \<Rightarrow> run_trigger \<Rightarrow> job_catalog \<Rightarrow> job_error + nat option" where
  "known_run lib ns name d trigger c =
     (case trigger_validate trigger of
        Inl e \<Rightarrow> Inl e
      | Inr _ \<Rightarrow>
          if (case trigger of CronMinute _ \<Rightarrow> True | _ \<Rightarrow> False) then Inl CronOutsideSchedule
          else case find (\<lambda>(_, run). owns_job ns name run \<and> rn_trigger run = trigger) (jc_runs c) of
            None \<Rightarrow> Inr None
          | Some (i, run) \<Rightarrow> (case definition_digest lib d of
              Inl e \<Rightarrow> Inl e
            | Inr digest \<Rightarrow> if rn_definition_digest run \<noteq> digest then Inl TriggerNamesOtherDefinition else Inr (Some i)))"

definition next_revision :: "string \<Rightarrow> string \<Rightarrow> job_definition \<Rightarrow> job_catalog \<Rightarrow> job_error + nat" where
  "next_revision ns name d c =
     (case find_definition c ns name of
        Some r \<Rightarrow>
          if dr_definition r = d then Inr (dr_revision r)
          else (case checked_add64 (dr_revision r) 1 of None \<Rightarrow> Inl RevisionExhausted | Some n \<Rightarrow> Inr n)
      | None \<Rightarrow>
          let held = definitions_in ns c
          in if held \<ge> MAX_JOB_DEFINITIONS_PER_NAMESPACE then Inl (NamespaceDefinitionsFull ns held)
             else if length (jc_definitions c) \<ge> MAX_JOB_DEFINITIONS then Inl (DefinitionsFull (length (jc_definitions c)))
             else (case checked_add64 (fold max (map (rn_revision \<circ> snd) (filter (\<lambda>(_, run). owns_job ns name run) (jc_runs c))) 0) 1 of
                 None \<Rightarrow> Inl RevisionExhausted | Some n \<Rightarrow> Inr n))"

definition cron_baseline :: "job_definition \<Rightarrow> nat \<Rightarrow> definition_record option \<Rightarrow> job_error + int option" where
  "cron_baseline d now prior =
     (if jd_cron d \<noteq> None \<and>
         (case prior of None \<Rightarrow> True | Some r \<Rightarrow> dr_definition r \<noteq> d \<or> dr_last_observed_minute r = None)
      then (case i64_of_u64 (now div 60) of None \<Rightarrow> Inl CronTimeOutOfRange | Some m \<Rightarrow> Inr (Some m))
      else Inr None)"

definition plan_run ::
  "'l job_library_scheme \<Rightarrow> string \<Rightarrow> string \<Rightarrow> job_definition \<Rightarrow> nat \<Rightarrow> run_trigger \<Rightarrow> nat \<Rightarrow> job_catalog \<Rightarrow>
     job_error + job_plan \<times> job_catalog" where
  "plan_run lib ns name d revision trigger now c =
     (if length (jc_runs c) \<ge> MAX_JOB_RUNS then Inl (JobRunsFull (length (jc_runs c)))
      else case definition_digest lib d of
        Inl e \<Rightarrow> Inl e
      | Inr digest \<Rightarrow> Inr (RegisterRun d
          \<lparr>rn_name = name, rn_namespace = ns, rn_revision = revision, rn_trigger = trigger, rn_definition_digest = digest,
           rn_replay_unknown = jd_replay_unknown d, rn_unknown_owners = {}\<rparr> now, c))"

definition prepare_put ::
  "'l job_library_scheme \<Rightarrow> string \<Rightarrow> string \<Rightarrow> job_definition \<Rightarrow> run_trigger option \<Rightarrow> nat \<Rightarrow> nat set \<Rightarrow> job_catalog \<Rightarrow>
     job_error + job_plan \<times> job_catalog" where
  "prepare_put lib ns name declared trigger now active c =
     (let d = declared\<lparr>jd_template := (jd_template declared)\<lparr>js_namespace := Some ns\<rparr>\<rparr>;
          prior = find_definition c ns name
      in if js_namespace (jd_template declared) \<notin> {None, Some ns} then Inl DefinitionNamespaceDisagrees
         else case definition_validate lib d of
           Inl e \<Rightarrow> Inl e
         | Inr _ \<Rightarrow>
         case (case trigger of None \<Rightarrow> Inr None | Some t \<Rightarrow> known_run lib ns name d t c) of
           Inl e \<Rightarrow> Inl e
         | Inr (Some i) \<Rightarrow> Inr (ExistingRun i, c)
         | Inr None \<Rightarrow>
         if trigger \<noteq> None \<and>
            list_ex (\<lambda>(i, run). i \<in> active \<and> owns_job ns name run \<and> rn_unknown_owners run \<noteq> {}) (jc_runs c)
         then Inl UnknownRunOwnsJob
         else case next_revision ns name d c of
           Inl e \<Rightarrow> Inl e
         | Inr revision \<Rightarrow>
         case cron_baseline d now prior of
           Inl e \<Rightarrow> Inl e
         | Inr baseline \<Rightarrow>
             let c' = c\<lparr>jc_definitions := bt_insert (job_key ns name)
                   \<lparr>dr_definition = d, dr_revision = revision,
                    dr_last_observed_minute = later_minute (Option.bind prior dr_last_observed_minute) baseline,
                    dr_skipped = Option.bind prior dr_skipped,
                    dr_skipped_count = (case prior of None \<Rightarrow> 0 | Some r \<Rightarrow> dr_skipped_count r),
                    dr_history = (case prior of None \<Rightarrow> [] | Some r \<Rightarrow> dr_history r)\<rparr> (jc_definitions c)\<rparr>
             in case trigger of
                  None \<Rightarrow> Inr (Recorded, c')
                | Some t \<Rightarrow> plan_run lib ns name d revision t now c')"

definition schedule_due :: "'l job_library_scheme \<Rightarrow> cron_policy \<Rightarrow> nat \<Rightarrow> job_error + bool" where
  "schedule_due lib cron now =
     (case Option.bind (i64_of_u64 now) (jl_utc lib) of
        None \<Rightarrow> Inl CronTimeOutOfRange
      | Some at \<Rightarrow> (case parse_schedule (cp_expression cron) of
          Inl e \<Rightarrow> Inl (ScheduleInvalid e) | Inr s \<Rightarrow> Inr (schedule_matches s at)))"

definition prepare_fire ::
  "'l job_library_scheme \<Rightarrow> string \<Rightarrow> string \<Rightarrow> nat \<Rightarrow> int \<Rightarrow> nat \<Rightarrow> nat set \<Rightarrow> job_catalog \<Rightarrow>
     job_error + job_plan \<times> job_catalog" where
  "prepare_fire lib ns name revision minute now active c =
     (case find_definition c ns name of
        None \<Rightarrow> Inl UnknownDefinition
      | Some r \<Rightarrow>
      if dr_revision r \<noteq> revision then Inl StaleRevision
      else case jd_cron (dr_definition r) of
        None \<Rightarrow> Inl NoCronSchedule
      | Some cron \<Rightarrow>
      if minute < 0 then Inl NotTheObservedMinute
      else case i64_of_u64 (now div 60) of
        None \<Rightarrow> Inl CronTimeOutOfRange
      | Some observed \<Rightarrow>
      if minute \<noteq> observed then Inl NotTheObservedMinute
      else if (case dr_last_observed_minute r of None \<Rightarrow> False | Some seen \<Rightarrow> seen \<ge> minute) then Inr (Recorded, c)
      else case schedule_due lib cron now of
        Inl e \<Rightarrow> Inl e
      | Inr due \<Rightarrow>
      if \<not> due then Inl OccurrenceDoesNotMatch
      else let c' = c\<lparr>jc_definitions := bt_insert (job_key ns name) (r\<lparr>dr_last_observed_minute := Some minute\<rparr>) (jc_definitions c)\<rparr>
           in if list_ex (\<lambda>(i, run). owns_job ns name run \<and>
                   (\<not> rn_replay_unknown run \<and> rn_unknown_owners run \<noteq> {} \<or> cp_overlap cron = OverlapForbid \<and> i \<in> active)) (jc_runs c')
              then Inr (Recorded, c')
              else plan_run lib ns name (dr_definition r) revision (CronMinute minute) now c')"

fun prepare :: "'l job_library_scheme \<Rightarrow> job_write \<Rightarrow> nat set \<Rightarrow> job_catalog \<Rightarrow> job_error + job_plan \<times> job_catalog" where
  "prepare lib (PutJob name ns d trigger now) active c =
     (case validate_key ns name of Inl e \<Rightarrow> Inl e | Inr _ \<Rightarrow> prepare_put lib ns name d trigger now active c)"
| "prepare lib (FireJob name ns revision minute now) active c =
     (case validate_key ns name of Inl e \<Rightarrow> Inl e | Inr _ \<Rightarrow> prepare_fire lib ns name revision minute now active c)"

section \<open>Reading a catalogue\<close>

datatype read_error =
    CatalogExceedsBounds
  | InvalidDefinitionKey
  | ReadJob job_error
  | InvalidDefinitionRecord
  | InvalidRunProvenance
  | DuplicateRunTrigger
  | StoreExceedsBounds
  | InvalidRunIdentity
  | ReadTemplate task_array_spec_error
  | ReadState snapshot_error
  | InconsistentTerminalReceipt
  | ProvenanceWithoutRun
  | InvalidManifest
  | ManifestProfileMissing
  | InvalidDeployment
  | DeploymentConfigInvalid
  | DeploymentHooksDisagree
  | DeploymentJobsDisagree
  | InconsistentSettlement
  | DeploymentUnknownJob
  | DeploymentLostRun
  | DeploymentForeignRun
  | DeploymentWithoutHookProof
  | ConflictingOwnership

definition read_definition :: "'l job_library_scheme \<Rightarrow> string \<Rightarrow> definition_record \<Rightarrow> read_error + unit" where
  "read_definition lib key r =
     (case split_once (CHR ''/'') key of
        None \<Rightarrow> Inl InvalidDefinitionKey
      | Some (ns, name) \<Rightarrow> (case validate_key ns name of
          Inl e \<Rightarrow> Inl (ReadJob e)
        | Inr _ \<Rightarrow> (case definition_validate lib (dr_definition r) of
            Inl e \<Rightarrow> Inl (ReadJob e)
          | Inr _ \<Rightarrow>
              if dr_revision r = 0 \<or> js_namespace (jd_template (dr_definition r)) \<noteq> Some ns \<or>
                 (case dr_last_observed_minute r of None \<Rightarrow> False | Some m \<Rightarrow> m < 0) \<or>
                 (case dr_skipped r of None \<Rightarrow> False
                  | Some skip \<Rightarrow> (case dr_last_observed_minute r of None \<Rightarrow> True | Some m \<Rightarrow> so_minute skip > m)) \<or>
                 length (dr_history r) > MAX_DEFINITION_HISTORY
              then Inl InvalidDefinitionRecord
              else Inr ())))"

definition ascii_hexdigit :: "char \<Rightarrow> bool" where
  "ascii_hexdigit c \<longleftrightarrow> is_digit c \<or> CHR ''a'' \<le> c \<and> c \<le> CHR ''f'' \<or> CHR ''A'' \<le> c \<and> c \<le> CHR ''F''"

fun read_runs :: "'l job_library_scheme \<Rightarrow> string set \<Rightarrow> (nat \<times> run_record) list \<Rightarrow> read_error + unit" where
  "read_runs lib triggers [] = Inr ()"
| "read_runs lib triggers ((i, run) # rest) =
     (case validate_key (rn_namespace run) (rn_name run) of
        Inl e \<Rightarrow> Inl (ReadJob e)
      | Inr _ \<Rightarrow> (case trigger_validate (rn_trigger run) of
          Inl e \<Rightarrow> Inl (ReadJob e)
        | Inr _ \<Rightarrow>
            if i = 0 \<or> card (rn_unknown_owners run) > 64 \<or> rn_revision run = 0 \<or> length (rn_definition_digest run) \<noteq> 64 \<or>
               \<not> list_all ascii_hexdigit (rn_definition_digest run)
            then Inl InvalidRunProvenance
            else (case jl_identity_json lib (rn_namespace run, rn_name run, rn_trigger run) of
                None \<Rightarrow> Inl (ReadJob NotSerialisable)
              | Some identity \<Rightarrow>
                  if identity \<in> triggers then Inl DuplicateRunTrigger else read_runs lib (insert identity triggers) rest)))"

fun check_each :: "('a \<Rightarrow> 'e + unit) \<Rightarrow> 'a list \<Rightarrow> 'e + unit" where
  "check_each f [] = Inr ()"
| "check_each f (x # xs) = (case f x of Inl e \<Rightarrow> Inl e | Inr _ \<Rightarrow> check_each f xs)"

definition read_catalog :: "'l job_library_scheme \<Rightarrow> job_catalog \<Rightarrow> read_error + unit" where
  "read_catalog lib c =
     (if length (jc_definitions c) > MAX_JOB_DEFINITIONS \<or> length (jc_runs c) > MAX_JOB_RUNS then Inl CatalogExceedsBounds
      else case check_each (\<lambda>(key, r). read_definition lib key r) (jc_definitions c) of
        Inl e \<Rightarrow> Inl e
      | Inr _ \<Rightarrow> read_runs lib {} (jc_runs c))"

end
