(* ===== verification/Operations.thy ===== *)
theory Operations
  imports Security Scheduler
begin

text \<open>
  The smaller parts of the desired state: the owners of apps (\<open>council/owner.rs\<close>), permissions and
  policies (\<open>config/permission.rs\<close>, \<open>config/policy.rs\<close>), the reservation of a node fault and its
  fence on the target (\<open>smoker/reservation.rs\<close>), tracked builds (\<open>bun/build_runner.rs\<close>), GitOps
  records (\<open>lettuce/types.rs\<close>), rolling binary upgrades (\<open>upgrade/types.rs\<close>) and the shared
  batch-id counter (\<open>meat/batch_ids.rs\<close>). A version of the \<open>semver\<close> package is its text, and so is
  the table of defaults of a policy.
\<close>

section \<open>Owners of apps\<close>

definition MAX_OWNER_BYTES :: nat where
  "MAX_OWNER_BYTES = 128"

record owner_caller =
  oc_name :: string
  oc_admin :: bool

definition speaks_for :: "owner_caller \<Rightarrow> string \<Rightarrow> bool" where
  "speaks_for c owner \<longleftrightarrow> oc_admin c \<or> oc_name c = owner"

datatype apply_verdict = WriteApp | SkipApp string

datatype owner_error =
    NotTheCaller app_id string string
  | ClaimedByOther app_id string string
  | NotOwner app_id string string
  | NotOwned app_id

definition owner_status :: "owner_error \<Rightarrow> nat" where
  "owner_status e = (case e of NotTheCaller _ _ _ \<Rightarrow> 403 | _ \<Rightarrow> 409)"

definition judge_apply ::
  "app_id \<Rightarrow> string option \<Rightarrow> string option \<Rightarrow> owner_caller \<Rightarrow> owner_error + apply_verdict" where
  "judge_apply app declared current caller =
     (case declared of
        Some owner \<Rightarrow>
          if \<not> speaks_for caller owner then Inl (NotTheCaller app owner (oc_name caller))
          else (case current of
              None \<Rightarrow> Inr WriteApp
            | Some c \<Rightarrow> if c = owner then Inr WriteApp else Inl (ClaimedByOther app c owner))
      | None \<Rightarrow> (case current of None \<Rightarrow> Inr WriteApp | Some c \<Rightarrow> Inr (SkipApp c)))"

definition judge_command :: "app_id \<Rightarrow> string option \<Rightarrow> owner_caller \<Rightarrow> string \<Rightarrow> owner_error option" where
  "judge_command app current caller verb =
     (case current of
        Some owner \<Rightarrow> if \<not> speaks_for caller owner then Some (NotOwner app owner verb) else None
      | None \<Rightarrow> None)"

definition judge_release :: "app_id \<Rightarrow> string option \<Rightarrow> owner_caller \<Rightarrow> owner_error option" where
  "judge_release app current caller =
     (if current = None then Some (NotOwned app) else judge_command app current caller ''release'')"

definition stored_owner_conflict :: "string option \<Rightarrow> string option \<Rightarrow> bool" where
  "stored_owner_conflict stored incoming = (case stored of None \<Rightarrow> False | Some s \<Rightarrow> incoming \<noteq> Some s)"

definition validate_owner :: "string \<Rightarrow> bool" where
  "validate_owner owner \<longleftrightarrow> owner \<noteq> [] \<and> length owner \<le> MAX_OWNER_BYTES \<and>
     list_all (\<lambda>c. CHR ''!'' \<le> c \<and> c \<le> CHR ''~'') owner"

definition without_owner :: "app_spec \<Rightarrow> app_spec" where
  "without_owner spec = spec\<lparr>as_owner := None\<rparr>"

section \<open>Permissions and policies\<close>

record permission_spec =
  ps_actions :: "string list"
  ps_apps :: "string list"
  ps_namespaces :: "string list option"

datatype permission_action =
    ActDeploy | ActScale | ActLogs | ActMetrics | ActExec | ActHostExec | ActFault | ActAdmin
  | ActSecretRead | ActSecretWrite

definition action_str :: "permission_action \<Rightarrow> string" where
  "action_str a = (case a of
     ActDeploy \<Rightarrow> ''deploy'' | ActScale \<Rightarrow> ''scale'' | ActLogs \<Rightarrow> ''logs'' | ActMetrics \<Rightarrow> ''metrics''
   | ActExec \<Rightarrow> ''exec'' | ActHostExec \<Rightarrow> ''host-exec'' | ActFault \<Rightarrow> ''fault'' | ActAdmin \<Rightarrow> ''admin''
   | ActSecretRead \<Rightarrow> ''secret-read'' | ActSecretWrite \<Rightarrow> ''secret-write'')"

definition permission_allows :: "permission_spec \<Rightarrow> permission_action \<Rightarrow> string \<Rightarrow> string \<Rightarrow> bool" where
  "permission_allows p action app ns \<longleftrightarrow>
     list_ex (\<lambda>a. a = action_str action \<or> a = action_str ActAdmin) (ps_actions p) \<and>
     list_ex (\<lambda>a. a = ''*'' \<or> a = app) (ps_apps p) \<and>
     (case ps_namespaces p of None \<Rightarrow> True | Some nss \<Rightarrow> list_ex (\<lambda>n. n = ns) nss)"

definition allows_cluster_wide :: "permission_spec \<Rightarrow> permission_action \<Rightarrow> bool" where
  "allows_cluster_wide p action \<longleftrightarrow>
     list_ex (\<lambda>a. a = action_str action \<or> a = action_str ActAdmin) (ps_actions p) \<and>
     ps_namespaces p = None \<and> list_ex (\<lambda>a. a = ''*'') (ps_apps p)"

datatype policy_action = PolicyDeny | PolicyWarn | PolicyAudit

datatype policy_target = TargetApps | TargetJobs | TargetBoth

record policy_spec =
  po_match_expression :: "string option"
  po_deny :: "string option"
  po_message :: "string option"
  po_action :: policy_action
  po_applies_to :: policy_target
  po_default :: "string option"

section \<open>Node faults\<close>

datatype fault_type =
    FaultDelay nat nat "string option"
  | FaultDrop nat
  | FaultDnsNxdomain
  | FaultPartition "string option"
  | FaultCouncilPartition "string list"
  | FaultBandwidth nat
  | FaultCpuStress nat "nat option"
  | FaultMemoryPressure nat
  | FaultDiskIoThrottle nat bool
  | FaultKill nat
  | FaultPause
  | FaultResume
  | FaultNodeDrain
  | FaultNodeKill bool
  | FaultNodePressure nat nat

definition is_node_operation :: "fault_type \<Rightarrow> bool" where
  "is_node_operation f = (case f of
     FaultNodeDrain \<Rightarrow> True | FaultNodeKill _ \<Rightarrow> True | FaultCouncilPartition _ \<Rightarrow> True | _ \<Rightarrow> False)"

definition requires_admin_reversal :: "fault_type \<Rightarrow> bool" where
  "requires_admin_reversal f \<longleftrightarrow> is_node_operation f \<or> (case f of FaultNodePressure _ _ \<Rightarrow> True | _ \<Rightarrow> False)"

datatype workload_kind = KindApp | KindJob | KindTaskArray

record fault_request =
  fq_fault_type :: fault_type
  fq_target_service :: string
  fq_namespace :: "string option"
  fq_target_instance :: "string option"
  fq_workload :: workload_kind
  fq_task_index :: "nat option"
  fq_target_node :: "string option"
  fq_duration :: nat
  fq_injected_by :: string
  fq_reason :: "string option"
  fq_include_leader :: bool
  fq_override_safety :: bool
  fq_acknowledged :: bool

record node_fault_reservation =
  nfr_sequence :: nat
  nfr_boot_id :: string
  nfr_request :: fault_request
  nfr_cleanup_after_unix_ms :: nat

record node_fault_reservations =
  nfs_last_sequence :: nat
  nfs_active :: "node_fault_reservation option"

datatype reservation_error = ReservedBy nat | StaleSequence | InvalidReservation | ReleaseMismatch

definition reserve_fault :: "node_fault_reservation \<Rightarrow> node_fault_reservations \<Rightarrow> reservation_error + node_fault_reservations" where
  "reserve_fault r s =
     (case nfs_active s of
        Some active \<Rightarrow> if active = r then Inr s else Inl (ReservedBy (nfr_sequence active))
      | None \<Rightarrow>
          if checked_add64 (nfs_last_sequence s) 1 \<noteq> Some (nfr_sequence r) then Inl StaleSequence
          else if nfr_boot_id r = [] \<or> (case fq_target_node (nfr_request r) of None \<Rightarrow> True | Some n \<Rightarrow> n = []) \<or>
               fq_duration (nfr_request r) = 0 \<or> nfr_cleanup_after_unix_ms r = 0 \<or>
               \<not> requires_admin_reversal (fq_fault_type (nfr_request r))
            then Inl InvalidReservation
          else Inr (s\<lparr>nfs_last_sequence := nfr_sequence r, nfs_active := Some r\<rparr>))"

definition release_fault :: "nat \<Rightarrow> node_fault_reservations \<Rightarrow> reservation_error + node_fault_reservations" where
  "release_fault sequence s =
     (case nfs_active s of
        Some active \<Rightarrow> if nfr_sequence active = sequence then Inr (s\<lparr>nfs_active := None\<rparr>) else Inl ReleaseMismatch
      | None \<Rightarrow> if sequence = nfs_last_sequence s \<and> sequence \<noteq> 0 then Inr s else Inl ReleaseMismatch)"

record node_fault_fence =
  nff_boot_id :: string
  nff_through :: nat
  nff_active :: "(nat \<times> nat) option"

definition fence_activate :: "node_fault_reservation \<Rightarrow> fault_request \<Rightarrow> node_fault_fence \<Rightarrow> node_fault_fence option" where
  "fence_activate grant request f =
     (if nff_boot_id f = [] \<or> nfr_boot_id grant \<noteq> nff_boot_id f \<or> nfr_sequence grant \<le> nff_through f \<or>
         nfr_request grant \<noteq> request \<or> nff_active f \<noteq> None
      then None else Some (f\<lparr>nff_through := nfr_sequence grant\<rparr>))"

definition fence_consumed :: "node_fault_fence \<Rightarrow> node_fault_reservation \<Rightarrow> bool" where
  "fence_consumed f grant \<longleftrightarrow> nfr_boot_id grant \<noteq> nff_boot_id f \<or> nfr_sequence grant \<le> nff_through f"

definition fence_grant :: "node_fault_reservation \<Rightarrow> node_fault_fence \<Rightarrow> nat option \<times> node_fault_fence" where
  "fence_grant grant f =
     (if nfr_boot_id grant \<noteq> nff_boot_id f then (None, f)
      else (case nff_active f of
              None \<Rightarrow> None
            | Some (sequence, i) \<Rightarrow> if sequence \<le> nfr_sequence grant then Some i else None,
            f\<lparr>nff_through := max (nff_through f) (nfr_sequence grant)\<rparr>))"

section \<open>Builds\<close>

definition TERMINAL_BUILD_RETENTION_SECS :: nat where
  "TERMINAL_BUILD_RETENTION_SECS = 3600"

definition MAX_TERMINAL_BUILDS :: nat where
  "MAX_TERMINAL_BUILDS = 50"

datatype build_state =
    BuildRunning
  | BuildCompleted string
  | BuildFailed string
  | BuildDelegated string nat

definition build_kind :: "build_state \<Rightarrow> string" where
  "build_kind s = (case s of
     BuildRunning \<Rightarrow> ''running'' | BuildCompleted _ \<Rightarrow> ''completed'' | BuildFailed _ \<Rightarrow> ''failed''
   | BuildDelegated _ _ \<Rightarrow> ''delegated'')"

definition build_is_terminal :: "build_state \<Rightarrow> bool" where
  "build_is_terminal s \<longleftrightarrow> s \<noteq> BuildRunning"

record build_record =
  br_name :: string
  br_runner_node :: "string option"
  br_state :: build_state
  br_created_at_epoch_secs :: nat
  br_repository :: "string option"

record build_durable_state =
  bd_next_build_id :: nat
  bd_builds :: "(nat \<times> build_record) list"

definition build_default :: build_durable_state where
  "build_default = \<lparr>bd_next_build_id = 1, bd_builds = []\<rparr>"

datatype build_update_error = UnknownBuild nat | IllegalTransition string string

fun drop_terminal :: "nat \<Rightarrow> (nat \<times> build_record) list \<Rightarrow> (nat \<times> build_record) list" where
  "drop_terminal n [] = []"
| "drop_terminal n ((i, r) # rest) =
     (if n > 0 \<and> build_is_terminal (br_state r) then drop_terminal (n - 1) rest
      else (i, r) # drop_terminal n rest)"

definition prune_terminal :: "nat \<Rightarrow> (nat \<times> build_record) list \<Rightarrow> (nat \<times> build_record) list" where
  "prune_terminal now builds =
     (let kept = filter (\<lambda>(_, r). \<not> (build_is_terminal (br_state r) \<and>
             now - br_created_at_epoch_secs r > TERMINAL_BUILD_RETENTION_SECS)) builds;
          terminal = length (filter (\<lambda>(_, r). build_is_terminal (br_state r)) kept)
      in if terminal > MAX_TERMINAL_BUILDS then drop_terminal (terminal - MAX_TERMINAL_BUILDS) kept else kept)"

definition build_register :: "build_record \<Rightarrow> build_durable_state \<Rightarrow> nat \<times> build_durable_state" where
  "build_register r s =
     (let i = max (bd_next_build_id s) 1
      in (i, \<lparr>bd_next_build_id = add64 i 1,
              bd_builds = prune_terminal (br_created_at_epoch_secs r) (bd_builds s) @ [(i, r)]\<rparr>))"

definition build_get :: "build_durable_state \<Rightarrow> nat \<Rightarrow> build_record option" where
  "build_get s i = map_of (bd_builds s) i"

definition build_update :: "nat \<Rightarrow> build_state \<Rightarrow> build_durable_state \<Rightarrow> build_update_error + build_durable_state" where
  "build_update i st s =
     (case find (\<lambda>(j, _). j = i) (bd_builds s) of
        None \<Rightarrow> Inl (UnknownBuild i)
      | Some (_, r) \<Rightarrow>
          if build_kind (br_state r) = build_kind st then Inr s
          else if build_is_terminal (br_state r) then Inl (IllegalTransition (build_kind (br_state r)) (build_kind st))
          else Inr (s\<lparr>bd_builds := update_first (\<lambda>(j, _). j = i) (\<lambda>(j, r). (j, r\<lparr>br_state := st\<rparr>)) (bd_builds s)\<rparr>))"

section \<open>GitOps records\<close>

record gitops_config =
  gc_repo :: string
  gc_branch :: string
  gc_path :: string
  gc_poll_interval_secs :: nat
  gc_require_signed_commits :: bool
  gc_trusted_signing_keys :: "string list"
  gc_webhook_secret :: "string option"
  gc_webhook_rate_limit :: nat

definition differing_fields :: "gitops_config \<Rightarrow> gitops_config \<Rightarrow> string list" where
  "differing_fields a b = map fst (filter snd
     [(''repo'', gc_repo a \<noteq> gc_repo b), (''branch'', gc_branch a \<noteq> gc_branch b), (''path'', gc_path a \<noteq> gc_path b),
      (''poll_interval_secs'', gc_poll_interval_secs a \<noteq> gc_poll_interval_secs b),
      (''require_signed_commits'', gc_require_signed_commits a \<noteq> gc_require_signed_commits b),
      (''trusted_signing_keys'', gc_trusted_signing_keys a \<noteq> gc_trusted_signing_keys b),
      (''webhook_secret'', gc_webhook_secret a \<noteq> gc_webhook_secret b),
      (''webhook_rate_limit'', gc_webhook_rate_limit a \<noteq> gc_webhook_rate_limit b)])"

record stored_gitops_config =
  sg_config :: gitops_config
  sg_sealed_credentials :: "wrapped_key option"

datatype local_config_check =
    LocalUnknown | NoClusterConfig | NoLocalConfig | LocalMatches | LocalDiffers "string list" | LocalUnreadable string

definition check_local_config :: "gitops_config option \<Rightarrow> (string + gitops_config) option \<Rightarrow> local_config_check" where
  "check_local_config local cluster = (case cluster of
     None \<Rightarrow> NoClusterConfig
   | Some (Inl reason) \<Rightarrow> LocalUnreadable reason
   | Some (Inr c) \<Rightarrow> (case local of
       None \<Rightarrow> NoLocalConfig
     | Some l \<Rightarrow> (case differing_fields l c of [] \<Rightarrow> LocalMatches | names \<Rightarrow> LocalDiffers names)))"

record gitops_ownership =
  go_apps :: "app_id set"
  go_namespaces :: "string set"
  go_permissions :: "string set"
  go_policies :: "string set"

datatype signature_status = SigVerified | SigUntrustedKey | SigInvalid | SigUnsigned | SigNotChecked

record commit_info =
  ci_sha :: string
  ci_message :: string
  ci_author :: string
  ci_timestamp :: nat
  ci_signature :: signature_status

datatype sync_phase =
    SyncIdle | SyncFetching | SyncVerifying | SyncParsing | SyncDiffing | SyncApplying | SyncError

record diff_summary =
  df_added :: nat
  df_modified :: nat
  df_removed :: nat

datatype sync_result =
    SyncSuccess | SyncPartialSuccess "string list" | SyncFailure string | SyncSkipped string

record sync_history_entry =
  sh_commit :: commit_info
  sh_timestamp :: nat
  sh_duration_ms :: nat
  sh_result :: sync_result
  sh_diff_summary :: "diff_summary option"

record sync_state =
  sy_requested_generation :: nat
  sy_completed_generation :: nat
  sy_webhook_receipts :: "string list"
  sy_last_applied_commit :: "commit_info option"
  sy_last_fetched_commit :: "commit_info option"
  sy_phase :: sync_phase
  sy_last_sync_at :: "nat option"
  sy_last_attempt_at :: "nat option"
  sy_last_sync_duration_ms :: nat
  sy_consecutive_failures :: nat
  sy_last_error :: "string option"
  sy_file_errors :: "(string \<times> string) list"
  sy_last_diff_summary :: "diff_summary option"
  sy_history :: "sync_history_entry list"
  sy_coordinator_node_id :: "string option"
  sy_warnings :: "string list"

definition sync_default :: sync_state where
  "sync_default = \<lparr>sy_requested_generation = 0, sy_completed_generation = 0, sy_webhook_receipts = [],
     sy_last_applied_commit = None, sy_last_fetched_commit = None, sy_phase = SyncIdle, sy_last_sync_at = None,
     sy_last_attempt_at = None, sy_last_sync_duration_ms = 0, sy_consecutive_failures = 0, sy_last_error = None,
     sy_file_errors = [], sy_last_diff_summary = None, sy_history = [], sy_coordinator_node_id = None,
     sy_warnings = []\<rparr>"

datatype election_reason = ElectInitial | ElectFailover | ElectRebalance

record coordinator_election =
  el_node_id :: string
  el_reason :: election_reason
  el_timestamp :: nat

section \<open>Binary upgrades\<close>

datatype upgrade_direction = DirUpgrade | DirRollback

datatype cluster_upgrade_phase =
    UpPreparing | UpUpgradingWorkers | UpUpgradingCouncil | UpTransferringLeadership | UpUpgradingLeader
  | UpCompleted | UpPaused string | UpAborted string

datatype node_role = RoleWorker | RoleCouncil | RoleLeader

datatype node_upgrade_phase =
    NodePending | NodeDirected | NodeVerifying | NodeHealthy | NodeFailed string | NodeRolledBack

record directive_retry =
  dr_attempts :: nat
  dr_first_failed_at :: system_time
  dr_last_failed_at :: system_time
  dr_last_error :: string

record node_upgrade_record =
  nu_node_id :: string
  nu_address :: string
  nu_role :: node_role
  nu_platform :: "string option"
  nu_from_version :: "string option"
  nu_phase :: node_upgrade_phase
  nu_since :: "system_time option"
  nu_directive_retry :: "directive_retry option"

record platform_binary =
  pb_platform :: string
  pb_sha256 :: string
  pb_embedded_signature :: string
  pb_external_signature :: "string option"

record cluster_upgrade_state =
  cu_upgrade_id :: string
  cu_target_version :: string
  cu_binaries :: "platform_binary list"
  cu_parallel :: nat
  cu_direction :: upgrade_direction
  cu_phase :: cluster_upgrade_phase
  cu_registry_address :: string
  cu_allow_downgrade :: bool
  cu_nodes :: "node_upgrade_record list"

definition select_binary :: "platform_binary list \<Rightarrow> string option \<Rightarrow> platform_binary option" where
  "select_binary binaries platform = (case platform of
     Some p \<Rightarrow> find (\<lambda>b. pb_platform b = p) binaries
   | None \<Rightarrow> (case binaries of [only] \<Rightarrow> Some only | _ \<Rightarrow> None))"

definition is_node_cordoned :: "cluster_upgrade_state \<Rightarrow> string \<Rightarrow> bool" where
  "is_node_cordoned u node \<longleftrightarrow>
     list_ex (\<lambda>r. nu_node_id r = node \<and> (nu_phase r = NodeDirected \<or> nu_phase r = NodeVerifying)) (cu_nodes u)"

section \<open>Batch identities\<close>

definition batch_preflight :: "nat \<Rightarrow> nat \<Rightarrow> bool" where
  "batch_preflight next n \<longleftrightarrow> n = 0 \<or> checked_add64 (max next 1) n \<noteq> None"

definition batch_allocate :: "nat \<Rightarrow> nat \<times> nat" where
  "batch_allocate next = (let i = max next 1 in (i, sat_add64 i 1))"

section \<open>Laws\<close>

lemma judge_apply_stored:
  "judge_apply app declared current caller = Inr WriteApp \<Longrightarrow> \<not> stored_owner_conflict current declared"
  by (auto simp: judge_apply_def stored_owner_conflict_def split: option.splits if_splits)

lemma differing_fields_empty: "differing_fields a b = [] \<longleftrightarrow> a = b"
  by (cases a; cases b) (auto simp: differing_fields_def)

lemma reserve_fault_sequence:
  "reserve_fault r s = Inr s' \<Longrightarrow> nfs_active s = None \<Longrightarrow> nfs_active s' = Some r \<and> nfr_sequence r = Suc (nfs_last_sequence s)"
  by (auto simp: reserve_fault_def checked_add64_def split: if_splits)

lemma fence_stops_grant: "fence_activate grant request (snd (fence_grant grant f)) = None"
  by (auto simp: fence_activate_def fence_grant_def)

lemma set_drop_terminal: "set (drop_terminal n bs) \<subseteq> set bs"
  by (induction n bs rule: drop_terminal.induct) auto

lemma drop_terminal_running: "(i, r) \<in> set bs \<Longrightarrow> br_state r = BuildRunning \<Longrightarrow> (i, r) \<in> set (drop_terminal n bs)"
  by (induction n bs rule: drop_terminal.induct) (auto simp: build_is_terminal_def)

lemma register_keeps_running:
  "(i, r) \<in> set (bd_builds s) \<Longrightarrow> br_state r = BuildRunning \<Longrightarrow> (i, r) \<in> set (bd_builds (snd (build_register b s)))"
  by (auto simp: build_register_def prune_terminal_def Let_def build_is_terminal_def intro!: drop_terminal_running)

end
