(* ===== verification/Task_Store.thy ===== *)
theory Task_Store
  imports Jobs Quota Operations
begin

text \<open>
  The replicated store of task arrays (\<open>meat/task_array_store.rs\<close>, \<open>meat/job_deploy.rs\<close>, \<open>meat/batch_ids.rs\<close>): arrays
  with their retained results, manifests of several arrays, the job catalogue and the deployments that wait for hooks.
  Every change is a \<open>task_array_write\<close>; \<open>store_apply\<close> is \<open>TaskArrays::apply\<close> and \<open>read_store\<close> the check of a store that
  is read back. The allocator of identities is a function on a state of its own. Encoders, SHA-256 and the validation
  of a whole configuration are parameters (\<open>store_library\<close>).
\<close>

section \<open>Configurations\<close>

datatype param_type = ParamString | ParamInt | ParamBool

datatype param_value = BoolValue bool | IntValue int | StringValue string

record param_spec =
  pm_kind :: param_type
  pm_default :: "param_value option"

record template_spec =
  tp_params :: "(string \<times> param_spec) list"
  tp_body :: string

record use_spec =
  us_template :: string
  us_values :: "(string \<times> param_value) list"

record build_spec =
  bd_context :: path
  bd_dockerfile :: string
  bd_destination :: string
  bd_args :: "(string \<times> string) list"
  bd_namespace :: "string option"
  bd_platform :: "string list"

record config =
  cg_app :: "(string \<times> app_spec) list"
  cg_job :: "(string \<times> job_spec) list"
  cg_namespace :: "(string \<times> namespace_spec) list"
  cg_permission :: "(string \<times> permission_spec) list"
  cg_policy :: "(string \<times> policy_spec) list"
  cg_build :: "(string \<times> build_spec) list"
  cg_template :: "(string \<times> template_spec) list"
  cg_uses :: "(string \<times> use_spec) list"

definition or_default :: "string option \<Rightarrow> string" where
  "or_default ns = (case ns of None \<Rightarrow> ''default'' | Some n \<Rightarrow> n)"

definition config_workloads :: "config \<Rightarrow> (string \<times> string) list" where
  "config_workloads cfg = map (\<lambda>(name, a). (name, or_default (as_namespace a))) (cg_app cfg) @
     map (\<lambda>(name, j). (name, or_default (js_namespace j))) (cg_job cfg)"

section \<open>Deployments\<close>

datatype deployment_outcome = OutcomeCompleted | OutcomeFailed | OutcomeCancelled

record deployment_record =
  dep_config :: config
  dep_hook_runs :: "(string \<times> nat) list"
  dep_job_runs :: "(string \<times> nat) list"
  dep_apps_committed :: bool
  dep_cancelled :: bool
  dep_completed :: bool
  dep_outcome :: "deployment_outcome option"
  dep_finished_at :: "nat option"
  dep_submitted_at :: nat

definition in_namespace :: "string option \<Rightarrow> string \<Rightarrow> bool" where
  "in_namespace declared ns \<longleftrightarrow> or_default declared = ns"

definition deployment_blocks :: "deployment_record \<Rightarrow> string \<Rightarrow> string \<Rightarrow> bool" where
  "deployment_blocks d name ns \<longleftrightarrow> \<not> dep_completed d \<and>
     (\<not> dep_apps_committed d \<and>
        (case map_of (cg_app (dep_config d)) name of None \<Rightarrow> False | Some a \<Rightarrow> in_namespace (as_namespace a) ns) \<or>
      (case map_of (cg_job (dep_config d)) name of
         None \<Rightarrow> False
       | Some j \<Rightarrow> in_namespace (js_namespace j) ns \<and> (\<not> dep_apps_committed d \<or> map_of (dep_job_runs d) name \<noteq> None)))"

definition deployment_runs :: "deployment_record \<Rightarrow> nat list" where
  "deployment_runs d = map snd (dep_hook_runs d) @ map snd (dep_job_runs d)"

section \<open>The store\<close>

definition TERMINAL_RETENTION_SECS :: nat where "TERMINAL_RETENTION_SECS = 3600"
definition MAX_TERMINAL_ARRAYS :: nat where "MAX_TERMINAL_ARRAYS = 24"
definition MAX_TERMINAL_PER_NAMESPACE :: nat where "MAX_TERMINAL_PER_NAMESPACE = 20"
definition MAX_ACTIVE_ARRAYS :: nat where "MAX_ACTIVE_ARRAYS = 128"
definition RESERVED_TRIGGERED_RUNS :: nat where "RESERVED_TRIGGERED_RUNS = 32"
definition MAX_ACTIVE_RUNS_PER_NAMESPACE :: nat where "MAX_ACTIVE_RUNS_PER_NAMESPACE = 64"
definition MAX_TICK_WRITES :: nat where "MAX_TICK_WRITES = 1024"
definition MAX_UNRUNNABLE_REASON_BYTES :: nat where "MAX_UNRUNNABLE_REASON_BYTES = 1024"
definition MAX_FINITE_BATCH_JOBS :: nat where "MAX_FINITE_BATCH_JOBS = 64"

lemmas store_limits = TERMINAL_RETENTION_SECS_def MAX_TERMINAL_ARRAYS_def MAX_TERMINAL_PER_NAMESPACE_def
  MAX_ACTIVE_ARRAYS_def RESERVED_TRIGGERED_RUNS_def MAX_ACTIVE_RUNS_PER_NAMESPACE_def

record task_array_record =
  tar_name :: string
  tar_namespace :: string
  tar_template :: job_spec
  tar_state :: task_array_state
  tar_terminal_at :: "nat option"
  tar_quota_blocked :: "quota_error option"
  tar_unrunnable :: "string option"

record manifest_cohort =
  mc_name :: string
  mc_spec :: task_array_spec
  mc_template :: job_spec

record task_manifest =
  tm_name :: string
  tm_namespace :: string
  tm_cohorts :: "(string \<times> nat) list"
  tm_common_jobs :: bool
  tm_request :: "(string \<times> string) option"
  tm_submitted_at :: nat

record task_arrays =
  tas_jobs :: job_catalog
  tas_cron_observed_minute :: "int option"
  tas_deployments :: "(string \<times> deployment_record) list"
  tas_arrays :: "(nat \<times> task_array_record) list"
  tas_manifests :: "(nat \<times> task_manifest) list"

definition store_default :: task_arrays where
  "store_default = \<lparr>tas_jobs = jobs_default, tas_cron_observed_minute = None, tas_deployments = [], tas_arrays = [],
     tas_manifests = []\<rparr>"

record store_library = job_library +
  sl_cohorts_json :: "string \<times> string \<times> manifest_cohort list \<Rightarrow> string option"
  sl_jobs_json :: "(string \<times> job_spec) list \<Rightarrow> string option"
  sl_config_json :: "config \<Rightarrow> string option"
  sl_grants_json :: "nat \<times> string \<times> (nat \<times> nat) list \<Rightarrow> string option"
  sl_config_valid :: "config \<Rightarrow> bool"
  sl_config_valid_with :: "string list \<Rightarrow> config \<Rightarrow> bool"

datatype task_array_write =
    RegisterJobs string "(string \<times> job_spec) list" nat
  | StopDefinition string string bool nat
  | DeployBegin string config nat
  | DeployCommitted string nat
  | DeployCancel string nat
  | DeployRelease string
  | JobTransaction job_write
  | CronObserve int
  | PruneRuns nat nat
  | UnknownOwner nat string
  | Replay nat string string nat
  | RegisterManifest string string string "manifest_cohort list" nat
  | CancelManifest nat nat
  | RegisterArray string string job_spec task_array_spec nat
  | SyncArray nat nat "(string \<times> chunk_result) list" "(string \<times> index_range_set) list"
  | CancelArray nat nat
  | RequeueNode nat string nat
  | BlockQuota nat "quota_error option"
  | Unrunnable nat string nat
  | Tick "task_array_write list"

fun progress_batch_id :: "task_array_write \<Rightarrow> nat option" where
  "progress_batch_id (SyncArray now i results grants) = Some i"
| "progress_batch_id (RequeueNode i node now) = Some i"
| "progress_batch_id (UnknownOwner i node) = Some i"
| "progress_batch_id (Unrunnable i reason now) = Some i"
| "progress_batch_id (BlockQuota i reason) = Some i"
| "progress_batch_id _ = None"

definition clock_or :: "nat \<Rightarrow> nat \<Rightarrow> nat" where
  "clock_or now at = (if at = 0 then now else at)"

fun stamp :: "nat \<Rightarrow> task_array_write \<Rightarrow> task_array_write" where
  "stamp now (SyncArray at i results grants) = SyncArray (clock_or now at) i results grants"
| "stamp now (CancelArray i at) = CancelArray i (clock_or now at)"
| "stamp now (RequeueNode i node at) = RequeueNode i node (clock_or now at)"
| "stamp now (Unrunnable i reason at) = Unrunnable i reason (clock_or now at)"
| "stamp now (Replay i node digest at) = Replay i node digest (clock_or now at)"
| "stamp now (CancelManifest i at) = CancelManifest i (clock_or now at)"
| "stamp now (Tick writes) = Tick (map (stamp now) writes)"
| "stamp now w = w"

fun write_registration_ids :: "task_array_write \<Rightarrow> nat" where
  "write_registration_ids (RegisterArray name ns template spec at) = 1"
| "write_registration_ids (JobTransaction w) = 1"
| "write_registration_ids (RegisterManifest name ns request cohorts at) = length cohorts + 1"
| "write_registration_ids _ = 0"

datatype job_refusal =
    CatalogRefused job_error
  | DeploymentOwnsWorkload
  | MinuteBeforeEpoch
  | TickTooLarge
  | ReasonTooLong
  | NotAHeldGrant
  | UnknownJobRun
  | UnknownOwnerLimit
  | OwnerResolved
  | StaleGrants
  | NeedsAcknowledgedReplay
  | FiniteBatchShape
  | FiniteBatchNames
  | FiniteBatchNamespace
  | FiniteBatchEncoding
  | BatchNamesOtherWork
  | FiniteJobWithoutRun
  | InvalidOperationId
  | DeploymentConfigRefused
  | DeploymentTooLarge
  | DeploymentNamesOtherWork
  | TooManyDeployments
  | WorkloadOwned
  | AppIdentityIsJob
  | HookWithoutRun
  | UnknownDeployment
  | DeploymentWasCancelled
  | HooksNotSucceeded
  | DeploymentNotSettled
  | NotADeployment

datatype manifest_refusal =
    ManifestIdentity
  | ManifestShape
  | ManifestProfileNames
  | ManifestTooManyTasks
  | ManifestEncoding
  | KeyNamesOtherWork

datatype store_error =
    JobRefused job_refusal
  | ManifestRefused manifest_refusal
  | UnknownArray nat
  | InvalidArray task_array_spec_error
  | EmptyArrayName
  | TooManyActive nat nat
  | NamespaceFull string nat

datatype task_array_applied =
    JobRecorded
  | Registered nat
  | QuotaRecorded
  | Synced nat nat nat nat
  | CancelledRuns
  | Requeued index_range_set
  | Ticked "(nat \<times> store_error) list"

datatype admission = Bulk | Triggered

definition admission_of :: "run_trigger option \<Rightarrow> admission" where
  "admission_of trigger = (case trigger of
     Some (CronMinute _) \<Rightarrow> Triggered | Some (Hook _) \<Rightarrow> Triggered | Some (Manual _) \<Rightarrow> Bulk | None \<Rightarrow> Bulk)"

definition find_array :: "task_arrays \<Rightarrow> nat \<Rightarrow> task_array_record option" where
  "find_array s i = map_of (tas_arrays s) i"

definition finished :: "task_array_record \<Rightarrow> bool" where
  "finished r \<longleftrightarrow> is_terminal (status (tar_state r))"

definition active_arrays :: "task_arrays \<Rightarrow> (nat \<times> task_array_record) list" where
  "active_arrays s = filter (\<lambda>(_, r). \<not> finished r) (tas_arrays s)"

definition deployment_owner :: "task_arrays \<Rightarrow> string \<Rightarrow> string \<Rightarrow> string option" where
  "deployment_owner s name ns = map_option fst (find (\<lambda>(_, d). deployment_blocks d name ns) (tas_deployments s))"

definition job_identity_reserved :: "task_arrays \<Rightarrow> string \<Rightarrow> string \<Rightarrow> bool" where
  "job_identity_reserved s ns name \<longleftrightarrow>
     find_definition (tas_jobs s) ns name \<noteq> None \<or> list_ex (\<lambda>(_, run). owns_job ns name run) (jc_runs (tas_jobs s))"

section \<open>Finishing, retention and capacity\<close>

definition outcome_of :: "nat \<Rightarrow> nat \<Rightarrow> task_array_state \<Rightarrow> run_outcome" where
  "outcome_of i at st =
     (let sm = summary st
      in \<lparr>ro_run = i, ro_started_at = ta_submitted_at st, ro_finished_at = at, ro_status = sm_status sm,
          ro_succeeded = sm_succeeded sm, ro_failed = sm_failed sm, ro_not_run = sm_not_run sm,
          ro_first_failed_index = (case ta_failed_indices st of [] \<Rightarrow> None | (first, _) # _ \<Rightarrow> Some first)\<rparr>)"

definition resolve_owners :: "nat \<Rightarrow> task_array_state \<Rightarrow> job_catalog \<Rightarrow> job_catalog" where
  "resolve_owners i st c =
     (case find_run c i of
        None \<Rightarrow> c
      | Some run \<Rightarrow> c\<lparr>jc_runs := bt_insert i
          (run\<lparr>rn_unknown_owners := Set.filter (\<lambda>node. held_by st node \<noteq> None) (rn_unknown_owners run)\<rparr>) (jc_runs c)\<rparr>)"

definition mark_terminal :: "nat \<Rightarrow> nat \<Rightarrow> task_arrays \<Rightarrow> store_error + task_arrays" where
  "mark_terminal i now s =
     (case find_array s i of
        None \<Rightarrow> Inl (UnknownArray i)
      | Some r \<Rightarrow>
          let ends = (finished r \<and> tar_terminal_at r = None);
              at = max now (ta_submitted_at (tar_state r));
              r' = (if ends then r\<lparr>tar_terminal_at := Some at, tar_quota_blocked := None\<rparr> else r);
              jobs = (if ends \<and> find_run (tas_jobs s) i \<noteq> None
                      then record_outcome (tar_namespace r) (tar_name r) (outcome_of i at (tar_state r)) (tas_jobs s)
                      else tas_jobs s)
          in Inr (s\<lparr>tas_arrays := bt_insert i r' (tas_arrays s), tas_jobs := resolve_owners i (tar_state r) jobs\<rparr>))"

definition update_array :: "nat \<Rightarrow> (task_array_state \<Rightarrow> task_array_state) \<Rightarrow> task_arrays \<Rightarrow> store_error + task_arrays" where
  "update_array i f s =
     (case find_array s i of
        None \<Rightarrow> Inl (UnknownArray i)
      | Some r \<Rightarrow> Inr (s\<lparr>tas_arrays := bt_insert i (r\<lparr>tar_state := f (tar_state r)\<rparr>) (tas_arrays s)\<rparr>))"

definition cancel_run :: "nat \<Rightarrow> nat \<Rightarrow> task_arrays \<Rightarrow> store_error + task_arrays" where
  "cancel_run now i s = (case update_array i cancel s of Inl e \<Rightarrow> Inl e | Inr s' \<Rightarrow> mark_terminal i now s')"

record retention_unit =
  ru_finished_at :: nat
  ru_id :: nat
  ru_parent :: bool
  ru_namespace :: string

definition group_unit :: "retention_unit \<Rightarrow> (string \<times> (nat \<times> bool) list) list \<Rightarrow> (string \<times> (nat \<times> bool) list) list" where
  "group_unit u kept = bt_insert (ru_namespace u)
     ((case map_of kept (ru_namespace u) of None \<Rightarrow> [] | Some us \<Rightarrow> us) @ [(ru_id u, ru_parent u)]) kept"

fun first_longest :: "('k \<times> 'a list) list \<Rightarrow> ('k \<times> 'a list) option" where
  "first_longest [] = None"
| "first_longest (e # m) =
     (case first_longest m of
        None \<Rightarrow> Some e
      | Some best \<Rightarrow> Some (if length (snd best) > length (snd e) then best else e))"

text \<open>The loop that drops the oldest unit of the namespace keeping most runs once for each unit above the limit.\<close>

primrec trim_longest :: "nat \<Rightarrow> (string \<times> 'a list) list \<Rightarrow> 'a list" where
  "trim_longest 0 kept = []"
| "trim_longest (Suc excess) kept =
     (case first_longest kept of
        None \<Rightarrow> []
      | Some (ns, us) \<Rightarrow> take 1 us @ trim_longest excess (bt_insert ns (drop 1 us) kept))"

definition past_retention :: "nat \<Rightarrow> nat \<Rightarrow> retention_unit \<Rightarrow> bool" where
  "past_retention now retention u \<longleftrightarrow> now - ru_finished_at u > retention"

definition retention_evictions :: "retention_unit list \<Rightarrow> nat \<Rightarrow> nat \<Rightarrow> (nat \<times> bool) list" where
  "retention_evictions terminal now retention =
     (let expired = map (\<lambda>u. (ru_id u, ru_parent u)) (filter (past_retention now retention) terminal);
          kept = fold group_unit (filter (\<lambda>u. \<not> past_retention now retention u) terminal) [];
          crowded = concat (map (\<lambda>(_, us). take (length us - MAX_TERMINAL_PER_NAMESPACE) us) kept);
          kept' = map (\<lambda>(ns, us). (ns, drop (length us - MAX_TERMINAL_PER_NAMESPACE) us)) kept;
          total = sum_list (map (length \<circ> snd) kept')
      in expired @ crowded @ trim_longest (total - MAX_TERMINAL_ARRAYS) kept')"

definition manifest_unit :: "task_arrays \<Rightarrow> nat \<times> task_manifest \<Rightarrow> retention_unit option" where
  "manifest_unit s e =
     (let times = map (\<lambda>(_, child). Option.bind (find_array s child) tar_terminal_at) (tm_cohorts (snd e))
      in if None \<in> set times then None
         else Some \<lparr>ru_finished_at = fold max (map the times) 0, ru_id = fst e, ru_parent = True, ru_namespace = tm_namespace (snd e)\<rparr>)"

definition array_unit :: "nat set \<Rightarrow> nat \<times> task_array_record \<Rightarrow> retention_unit option" where
  "array_unit held e =
     (if fst e \<in> held then None
      else map_option (\<lambda>at. \<lparr>ru_finished_at = at, ru_id = fst e, ru_parent = False, ru_namespace = tar_namespace (snd e)\<rparr>)
             (tar_terminal_at (snd e)))"

definition manifest_children :: "task_arrays \<Rightarrow> nat set" where
  "manifest_children s = set (concat (map (\<lambda>(_, m). map snd (tm_cohorts m)) (tas_manifests s)))"

definition pinned_runs :: "task_arrays \<Rightarrow> nat set" where
  "pinned_runs s = set (concat (map (deployment_runs \<circ> snd) (filter (\<lambda>(_, d). \<not> dep_completed d) (tas_deployments s))))"

definition retention_units :: "task_arrays \<Rightarrow> retention_unit list" where
  "retention_units s = sort_key (\<lambda>u. (ru_finished_at u, ru_id u))
     (List.map_filter (manifest_unit s) (tas_manifests s) @
      List.map_filter (array_unit (manifest_children s \<union> pinned_runs s)) (tas_arrays s))"

definition expired_units :: "nat \<Rightarrow> nat \<Rightarrow> task_arrays \<Rightarrow> (nat \<times> bool) list" where
  "expired_units now retention s = retention_evictions (retention_units s) now retention"

definition drop_unit :: "nat \<times> bool \<Rightarrow> task_arrays \<Rightarrow> task_arrays" where
  "drop_unit u s =
     (if snd u
      then (case map_of (tas_manifests s) (fst u) of
          None \<Rightarrow> s
        | Some m \<Rightarrow> s\<lparr>tas_manifests := bt_remove (fst u) (tas_manifests s),
                       tas_arrays := fold bt_remove (map snd (tm_cohorts m)) (tas_arrays s)\<rparr>)
      else s\<lparr>tas_arrays := bt_remove (fst u) (tas_arrays s)\<rparr>)"

definition array_ids :: "task_arrays \<Rightarrow> nat set" where
  "array_ids s = fst ` set (tas_arrays s)"

definition prune_within :: "nat \<Rightarrow> nat \<Rightarrow> task_arrays \<Rightarrow> task_arrays" where
  "prune_within now retention s =
     (let s' = fold drop_unit (expired_units now retention s) s
      in s'\<lparr>tas_jobs := expire_one_off (\<lambda>ns name. list_ex (\<lambda>(_, d). deployment_blocks d name ns) (tas_deployments s'))
             (retain_runs (array_ids s') (tas_jobs s'))\<rparr>)"

definition prune_runs :: "nat \<Rightarrow> task_arrays \<Rightarrow> task_arrays" where
  "prune_runs now s = prune_within now TERMINAL_RETENTION_SECS s"

definition has_expired :: "nat \<Rightarrow> nat \<Rightarrow> task_arrays \<Rightarrow> bool" where
  "has_expired now retention s \<longleftrightarrow> expired_units now retention s \<noteq> []"

definition run_admission :: "task_arrays \<Rightarrow> nat \<Rightarrow> admission" where
  "run_admission s i = admission_of (map_option rn_trigger (find_run (tas_jobs s) i))"

definition bulk_in :: "string \<Rightarrow> task_arrays \<Rightarrow> nat" where
  "bulk_in ns s = length (filter (\<lambda>(i, r). tar_namespace r = ns \<and> run_admission s i = Bulk) (active_arrays s))"

definition check_run_capacity :: "string \<Rightarrow> admission \<Rightarrow> nat \<Rightarrow> task_arrays \<Rightarrow> store_error + unit" where
  "check_run_capacity ns a adding s =
     (let active = length (active_arrays s);
          limit = (case a of Bulk \<Rightarrow> MAX_ACTIVE_ARRAYS - RESERVED_TRIGGERED_RUNS | Triggered \<Rightarrow> MAX_ACTIVE_ARRAYS)
      in if active + adding > limit then Inl (TooManyActive active limit)
         else if a = Bulk \<and> bulk_in ns s + adding > MAX_ACTIVE_RUNS_PER_NAMESPACE
         then Inl (NamespaceFull ns (bulk_in ns s))
         else Inr ())"

section \<open>Job transactions\<close>

definition fresh_record :: "string \<Rightarrow> string \<Rightarrow> job_spec \<Rightarrow> task_array_state \<Rightarrow> task_array_record" where
  "fresh_record name ns template st =
     \<lparr>tar_name = name, tar_namespace = ns, tar_template = template, tar_state = st, tar_terminal_at = None,
      tar_quota_blocked = None, tar_unrunnable = None\<rparr>"

definition is_existing :: "job_plan \<Rightarrow> bool" where
  "is_existing p \<longleftrightarrow> (case p of ExistingRun _ \<Rightarrow> True | _ \<Rightarrow> False)"

definition occurrence_passed :: "job_write \<Rightarrow> task_arrays \<Rightarrow> bool" where
  "occurrence_passed w s \<longleftrightarrow> (case w of
     FireJob _ _ _ minute _ \<Rightarrow> (case tas_cron_observed_minute s of None \<Rightarrow> False | Some seen \<Rightarrow> seen > minute)
   | PutJob _ _ _ _ _ \<Rightarrow> False)"

definition job_write_now :: "job_write \<Rightarrow> nat" where
  "job_write_now w = (case w of PutJob _ _ _ _ now \<Rightarrow> now | FireJob _ _ _ _ now \<Rightarrow> now)"

definition foreign_owner :: "job_write \<Rightarrow> task_arrays \<Rightarrow> bool" where
  "foreign_owner w s \<longleftrightarrow> (case w of
     PutJob name ns _ trigger _ \<Rightarrow>
       (case deployment_owner s name ns of
          None \<Rightarrow> False | Some owner \<Rightarrow> (case trigger of Some (Hook operation) \<Rightarrow> operation \<noteq> owner | _ \<Rightarrow> True))
   | FireJob name ns _ _ _ \<Rightarrow> deployment_owner s name ns \<noteq> None)"

definition admit_plan ::
  "('g \<Rightarrow> nat \<times> 'g) \<Rightarrow> job_plan \<Rightarrow> job_catalog \<Rightarrow> task_arrays \<Rightarrow> 'g \<Rightarrow> task_arrays \<Rightarrow>
     store_error + task_array_applied \<times> 'g \<times> task_arrays" where
  "admit_plan alloc plan jobs retained g s =
     (case plan of
        ExistingRun i \<Rightarrow> Inr (Registered i, g, s)
      | Recorded \<Rightarrow> Inr (JobRecorded, g, retained\<lparr>tas_jobs := jobs\<rparr>)
      | RegisterRun d run now \<Rightarrow>
          (case ta_new (jd_tasks d) now of
             Inl e \<Rightarrow> Inl (InvalidArray e)
           | Inr st \<Rightarrow>
               (case check_run_capacity (rn_namespace run) (admission_of (Some (rn_trigger run))) 1 retained of
                  Inl full \<Rightarrow>
                    (case rn_trigger run of
                       CronMinute minute \<Rightarrow>
                         Inr (JobRecorded, g, (prune_runs now s)\<lparr>tas_jobs := record_skip (rn_namespace run) (rn_name run) minute jobs\<rparr>)
                     | _ \<Rightarrow> Inl full)
                | Inr _ \<Rightarrow>
                    let s' = prune_runs now s; (i, g') = alloc g;
                        arrays = bt_insert i (fresh_record (rn_name run) (rn_namespace run) (jd_template d) st) (tas_arrays s')
                    in Inr (Registered i, g', s'\<lparr>tas_arrays := arrays,
                         tas_jobs := retain_runs (fst ` set arrays) (record_run i run jobs)\<rparr>))))"

definition apply_job ::
  "'l job_library_scheme \<Rightarrow> ('g \<Rightarrow> nat \<times> 'g) \<Rightarrow> job_write \<Rightarrow> 'g \<Rightarrow> task_arrays \<Rightarrow>
     store_error + task_array_applied \<times> 'g \<times> task_arrays" where
  "apply_job lib alloc w g s =
     (if occurrence_passed w s then Inr (JobRecorded, g, s)
      else let active = fst ` set (active_arrays s)
           in case prepare lib w active (tas_jobs s) of
                Inr (ExistingRun i, _) \<Rightarrow> Inr (Registered i, g, s)
              | _ \<Rightarrow>
                  let retained = prune_runs (job_write_now w) s
                  in case prepare lib w active (tas_jobs retained) of
                       Inl e \<Rightarrow> Inl (JobRefused (CatalogRefused e))
                     | Inr (plan, jobs) \<Rightarrow>
                         if \<not> is_existing plan \<and> foreign_owner w s then Inl (JobRefused DeploymentOwnsWorkload)
                         else admit_plan alloc plan jobs retained g s)"

section \<open>Identities\<close>

record batch_ids =
  bi_next :: nat

definition batch_ids_default :: batch_ids where
  "batch_ids_default = \<lparr>bi_next = 1\<rparr>"

definition preflight :: "nat \<Rightarrow> batch_ids \<Rightarrow> bool" where
  "preflight n ids \<longleftrightarrow> n = 0 \<or> checked_add64 (max (bi_next ids) 1) n \<noteq> None"

definition allocate :: "batch_ids \<Rightarrow> nat \<times> batch_ids" where
  "allocate ids = (let i = max (bi_next ids) 1 in (i, \<lparr>bi_next = sat_add64 i 1\<rparr>))"

text \<open>
  A preview numbers its runs with identities the store does not use: \<open>next += 1\<close>, and on while the number is taken.
\<close>

function next_unused :: "nat list \<Rightarrow> nat \<Rightarrow> nat" where
  "next_unused used n = (if n \<in> set used then next_unused used (n + 1) else n)"
  by auto
termination
proof (relation "measure (\<lambda>(used, n). card {i \<in> set used. n \<le> i})")
  fix used :: "nat list" and n assume n: "n \<in> set used"
  have "n \<in> {i \<in> set used. n \<le> i} - {i \<in> set used. n + 1 \<le> i}" using n by simp
  then have "{i \<in> set used. n + 1 \<le> i} \<subset> {i \<in> set used. n \<le> i}" by fastforce
  then show "((used, n + 1), used, n) \<in> measure (\<lambda>(used, n). card {i \<in> set used. n \<le> i})" by (simp add: psubset_card_mono)
qed simp

declare next_unused.simps [simp del]

definition used_ids :: "task_arrays \<Rightarrow> nat list" where
  "used_ids s = map fst (tas_arrays s) @ map fst (tas_manifests s)"

definition preview_allocate :: "task_arrays \<Rightarrow> nat \<Rightarrow> nat \<times> nat" where
  "preview_allocate s n = (let i = next_unused (used_ids s) (n + 1) in (i, i))"

definition counting_allocate :: "task_arrays \<Rightarrow> nat \<times> nat \<Rightarrow> nat \<times> nat \<times> nat" where
  "counting_allocate s g = (let i = next_unused (used_ids s) (fst g + 1) in (i, i, snd g + 1))"

section \<open>Groups of jobs and deployments\<close>

fun fold_try :: "('a \<Rightarrow> 's \<Rightarrow> 'e + 's) \<Rightarrow> 'a list \<Rightarrow> 's \<Rightarrow> 'e + 's" where
  "fold_try f [] s = Inr s"
| "fold_try f (x # xs) s = (case f x s of Inl e \<Rightarrow> Inl e | Inr s' \<Rightarrow> fold_try f xs s')"

definition check_finite_job ::
  "'l job_library_scheme \<Rightarrow> string \<times> job_spec \<Rightarrow> string set \<times> (string \<times> job_spec) list \<Rightarrow>
     store_error + string set \<times> (string \<times> job_spec) list" where
  "check_finite_job lib e acc =
     (let name = fst e; spec = (snd e)\<lparr>js_namespace := Some (or_default (js_namespace (snd e)))\<rparr>
      in if \<not> valid_workload_label name \<or> name \<in> fst acc \<or> js_schedule (snd e) \<noteq> None \<or> js_run_before (snd e) \<noteq> []
         then Inl (JobRefused FiniteBatchNames)
         else if \<not> valid_workload_label (or_default (js_namespace (snd e))) then Inl (JobRefused FiniteBatchNamespace)
         else case definition_validate lib (definition_from_spec spec) of
           Inl e \<Rightarrow> Inl (JobRefused (CatalogRefused e))
         | Inr _ \<Rightarrow> Inr (insert name (fst acc), snd acc @ [(name, spec)]))"

definition admit_finite_job ::
  "'l job_library_scheme \<Rightarrow> ('g \<Rightarrow> nat \<times> 'g) \<Rightarrow> string \<Rightarrow> nat \<Rightarrow> string \<times> job_spec \<Rightarrow>
     (string \<times> nat) list \<times> 'g \<times> task_arrays \<Rightarrow> store_error + (string \<times> nat) list \<times> 'g \<times> task_arrays" where
  "admit_finite_job lib alloc request at e acc =
     (case acc of (cohorts, g, s) \<Rightarrow>
        (case apply_job lib alloc (PutJob (fst e) (or_default (js_namespace (snd e))) (definition_from_spec (snd e)) (Some (Manual request)) at) g s of
           Inl err \<Rightarrow> Inl err
         | Inr (Registered i, g', s') \<Rightarrow> Inr (cohorts @ [(fst e, i)], g', s')
         | Inr _ \<Rightarrow> Inl (JobRefused FiniteJobWithoutRun)))"

definition request_manifest :: "string \<Rightarrow> task_arrays \<Rightarrow> (nat \<times> task_manifest) option" where
  "request_manifest request s = find (\<lambda>(_, m). map_option fst (tm_request m) = Some request) (tas_manifests s)"

definition register_jobs ::
  "'l store_library_scheme \<Rightarrow> ('g \<Rightarrow> nat \<times> 'g) \<Rightarrow> string \<Rightarrow> (string \<times> job_spec) list \<Rightarrow> nat \<Rightarrow> 'g \<Rightarrow> task_arrays \<Rightarrow>
     store_error + task_array_applied \<times> 'g \<times> task_arrays" where
  "register_jobs lib alloc request jobs at g s =
     (if invalid_identity request \<or> jobs = [] \<or> length jobs > MAX_FINITE_BATCH_JOBS then Inl (JobRefused FiniteBatchShape)
      else case fold_try (check_finite_job lib) (sort_key fst jobs) ({}, []) of
        Inl e \<Rightarrow> Inl e
      | Inr (_, named) \<Rightarrow>
      case sl_jobs_json lib named of
        None \<Rightarrow> Inl (JobRefused FiniteBatchEncoding)
      | Some json \<Rightarrow>
      let digest = jl_sha256_hex lib json
      in case request_manifest request s of
        Some (i, prior) \<Rightarrow>
          if map_option snd (tm_request prior) = Some digest then Inr (Registered i, g, s)
          else Inl (JobRefused BatchNamesOtherWork)
      | None \<Rightarrow>
      case fold_try (admit_finite_job lib alloc request at) named ([], g, s) of
        Inl e \<Rightarrow> Inl e
      | Inr (cohorts, g', s') \<Rightarrow>
          let (i, g'') = alloc g'
          in Inr (Registered i, g'', s'\<lparr>tas_manifests := bt_insert i
               \<lparr>tm_name = ''jobs-'' @ take 32 (jl_sha256_hex lib request), tm_namespace = ''default'', tm_cohorts = cohorts,
                tm_common_jobs = True, tm_request = Some (request, digest), tm_submitted_at = at\<rparr> (tas_manifests s')\<rparr>))"

definition deploy_put :: "string \<Rightarrow> bool \<Rightarrow> nat \<Rightarrow> string \<times> job_spec \<Rightarrow> job_write" where
  "deploy_put op hook now e =
     (let ns = or_default (js_namespace (snd e)); d = definition_from_spec (snd e)
      in PutJob (fst e) ns (d\<lparr>jd_template := (jd_template d)\<lparr>js_namespace := Some ns\<rparr>\<rparr>)
           (if hook \<or> jd_cron d = None then Some (Hook op) else None) now)"

definition valid_operation_id :: "string \<Rightarrow> bool" where
  "valid_operation_id op \<longleftrightarrow> length op = 32 \<and> list_all ascii_hexdigit op"

definition unsettled :: "task_arrays \<Rightarrow> nat" where
  "unsettled s = length (filter (\<lambda>(_, d). \<not> dep_completed d) (tas_deployments s))"

definition trim_receipts :: "(string \<times> deployment_record) list \<Rightarrow> (string \<times> deployment_record) list" where
  "trim_receipts deployments =
     (let terminal = sort (map (\<lambda>(i, d). (dep_submitted_at d, i)) (filter (\<lambda>(_, d). dep_completed d) deployments))
      in fold bt_remove (map snd (take (length terminal - 19) terminal)) deployments)"

definition put_deployment :: "string \<Rightarrow> deployment_record \<Rightarrow> task_arrays \<Rightarrow> task_arrays" where
  "put_deployment op d s = s\<lparr>tas_deployments := bt_insert op d (tas_deployments s)\<rparr>"

definition admit_hook ::
  "'l job_library_scheme \<Rightarrow> ('g \<Rightarrow> nat \<times> 'g) \<Rightarrow> string \<Rightarrow> nat \<Rightarrow> string \<times> job_spec \<Rightarrow>
     deployment_record \<times> 'g \<times> task_arrays \<Rightarrow> store_error + deployment_record \<times> 'g \<times> task_arrays" where
  "admit_hook lib alloc op now e acc =
     (case acc of (d, g, s) \<Rightarrow>
        (case apply_job lib alloc (deploy_put op True now e) g s of
           Inl err \<Rightarrow> Inl err
         | Inr (Registered i, g', s') \<Rightarrow>
             let d' = d\<lparr>dep_hook_runs := bt_insert (fst e) i (dep_hook_runs d)\<rparr> in Inr (d', g', put_deployment op d' s')
         | Inr _ \<Rightarrow> Inl (JobRefused HookWithoutRun)))"

definition deploy_begin ::
  "'l store_library_scheme \<Rightarrow> ('g \<Rightarrow> nat \<times> 'g) \<Rightarrow> string \<Rightarrow> config \<Rightarrow> nat \<Rightarrow> 'g \<Rightarrow> task_arrays \<Rightarrow>
     store_error + task_array_applied \<times> 'g \<times> task_arrays" where
  "deploy_begin lib alloc op cfg now g s =
     (if \<not> valid_operation_id op then Inl (JobRefused InvalidOperationId)
      else if \<not> sl_config_valid lib cfg then Inl (JobRefused DeploymentConfigRefused)
      else if oversized (128 * 1024) (sl_config_json lib cfg) then Inl (JobRefused DeploymentTooLarge)
      else case map_of (tas_deployments s) op of
        Some prior \<Rightarrow> if dep_config prior = cfg then Inr (JobRecorded, g, s) else Inl (JobRefused DeploymentNamesOtherWork)
      | None \<Rightarrow>
      if unsettled s \<ge> 64 then Inl (JobRefused TooManyDeployments)
      else if list_ex (\<lambda>(name, ns). deployment_owner s name ns \<noteq> None) (config_workloads cfg) then Inl (JobRefused WorkloadOwned)
      else if list_ex (\<lambda>(name, a). job_identity_reserved s (or_default (as_namespace a)) name) (cg_app cfg)
      then Inl (JobRefused AppIdentityIsJob)
      else case fold_try (\<lambda>e (n, p). map_sum id snd (apply_job lib (preview_allocate s) (deploy_put op False now e) n p)) (cg_job cfg) (0, s) of
        Inl e \<Rightarrow> Inl e
      | Inr _ \<Rightarrow>
          let d = \<lparr>dep_config = cfg, dep_hook_runs = [], dep_job_runs = [], dep_apps_committed = False, dep_cancelled = False,
                   dep_completed = False, dep_outcome = None, dep_finished_at = None, dep_submitted_at = now\<rparr>;
              s' = s\<lparr>tas_deployments := bt_insert op d (trim_receipts (tas_deployments s))\<rparr>
          in case fold_try (admit_hook lib alloc op now) (filter (\<lambda>(_, j). js_run_before j \<noteq> []) (cg_job cfg)) (d, g, s') of
               Inl e \<Rightarrow> Inl e
             | Inr (_, g', s'') \<Rightarrow> Inr (JobRecorded, g', s''))"

definition run_status :: "task_arrays \<Rightarrow> nat \<Rightarrow> task_array_status option" where
  "run_status s i = map_option (status \<circ> tar_state) (find_array s i)"

definition admit_ordinary ::
  "'l job_library_scheme \<Rightarrow> ('g \<Rightarrow> nat \<times> 'g) \<Rightarrow> string \<Rightarrow> nat \<Rightarrow> string \<times> job_spec \<Rightarrow>
     deployment_record \<times> 'g \<times> task_arrays \<Rightarrow> store_error + deployment_record \<times> 'g \<times> task_arrays" where
  "admit_ordinary lib alloc op now e acc =
     (case acc of (d, g, s) \<Rightarrow>
        (case apply_job lib alloc (deploy_put op False now e) g s of
           Inl err \<Rightarrow> Inl err
         | Inr (applied, g', s') \<Rightarrow>
             let d' = (case applied of Registered i \<Rightarrow> d\<lparr>dep_job_runs := bt_insert (fst e) i (dep_job_runs d)\<rparr> | _ \<Rightarrow> d)
             in Inr (d', g', put_deployment op d' s')))"

definition deploy_committed ::
  "'l job_library_scheme \<Rightarrow> ('g \<Rightarrow> nat \<times> 'g) \<Rightarrow> string \<Rightarrow> nat \<Rightarrow> 'g \<Rightarrow> task_arrays \<Rightarrow>
     store_error + task_array_applied \<times> 'g \<times> task_arrays" where
  "deploy_committed lib alloc op now g s =
     (case map_of (tas_deployments s) op of
        None \<Rightarrow> Inl (JobRefused UnknownDeployment)
      | Some d \<Rightarrow>
      if dep_cancelled d then Inl (JobRefused DeploymentWasCancelled)
      else if dep_apps_committed d then Inr (JobRecorded, g, s)
      else if \<not> list_all (\<lambda>(_, i). run_status s i = Some Succeeded) (dep_hook_runs d) then Inl (JobRefused HooksNotSucceeded)
      else let d' = d\<lparr>dep_apps_committed := True\<rparr>
           in case fold_try (admit_ordinary lib alloc op now) (filter (\<lambda>(_, j). js_run_before j = []) (cg_job (dep_config d)))
                     (d', g, put_deployment op d' s) of
                Inl e \<Rightarrow> Inl e
              | Inr (d'', g', s') \<Rightarrow> Inr (JobRecorded, g', put_deployment op d'' s'))"

definition deploy_cancel :: "string \<Rightarrow> nat \<Rightarrow> 'g \<Rightarrow> task_arrays \<Rightarrow> store_error + task_array_applied \<times> 'g \<times> task_arrays" where
  "deploy_cancel op now g s =
     (case map_of (tas_deployments s) op of
        None \<Rightarrow> Inl (JobRefused UnknownDeployment)
      | Some d \<Rightarrow>
      if dep_completed d then Inr (JobRecorded, g, s)
      else case fold_try (cancel_run now) (deployment_runs d) s of
        Inl e \<Rightarrow> Inl e
      | Inr s' \<Rightarrow> Inr (CancelledRuns, g, put_deployment op (d\<lparr>dep_cancelled := True\<rparr>) s'))"

definition ends_badly :: "task_array_status option \<Rightarrow> bool" where
  "ends_badly st \<longleftrightarrow> (case st of None \<Rightarrow> False | Some v \<Rightarrow> is_terminal v \<and> v \<noteq> Succeeded)"

definition deploy_release :: "string \<Rightarrow> 'g \<Rightarrow> task_arrays \<Rightarrow> store_error + task_array_applied \<times> 'g \<times> task_arrays" where
  "deploy_release op g s =
     (case map_of (tas_deployments s) op of
        None \<Rightarrow> Inl (JobRefused UnknownDeployment)
      | Some d \<Rightarrow>
      if dep_completed d then Inr (JobRecorded, g, s)
      else
        let runs = deployment_runs d;
            terminal = list_all (\<lambda>i. case run_status s i of None \<Rightarrow> False | Some v \<Rightarrow> is_terminal v) runs;
            failed = list_ex (\<lambda>(_, i). ends_badly (run_status s i)) (dep_hook_runs d);
            any_failed = list_ex (\<lambda>i. run_status s i \<in> {Some Failed, Some CompletedWithFailures}) runs;
            times = List.map_filter (\<lambda>i. Option.bind (find_array s i) tar_terminal_at) runs;
            outcome = (if any_failed then OutcomeFailed else if dep_cancelled d then OutcomeCancelled else OutcomeCompleted)
        in if \<not> terminal \<or> \<not> dep_apps_committed d \<and> \<not> dep_cancelled d \<and> \<not> failed then Inl (JobRefused DeploymentNotSettled)
           else Inr (JobRecorded, g, put_deployment op (d\<lparr>dep_completed := True, dep_outcome := Some outcome,
                  dep_finished_at := Some (case times of [] \<Rightarrow> dep_submitted_at d | _ \<Rightarrow> fold max times 0)\<rparr>) s))"

fun apply_deployment ::
  "'l store_library_scheme \<Rightarrow> ('g \<Rightarrow> nat \<times> 'g) \<Rightarrow> task_array_write \<Rightarrow> 'g \<Rightarrow> task_arrays \<Rightarrow>
     store_error + task_array_applied \<times> 'g \<times> task_arrays" where
  "apply_deployment lib alloc (RegisterJobs request jobs at) g s = register_jobs lib alloc request jobs at g s"
| "apply_deployment lib alloc (DeployBegin op cfg now) g s = deploy_begin lib alloc op cfg now g s"
| "apply_deployment lib alloc (DeployCommitted op now) g s = deploy_committed lib alloc op now g s"
| "apply_deployment lib alloc (DeployCancel op now) g s = deploy_cancel op now g s"
| "apply_deployment lib alloc (DeployRelease op) g s = deploy_release op g s"
| "apply_deployment lib alloc _ g s = Inl (JobRefused NotADeployment)"

section \<open>Applying a write\<close>

definition manifest_digest ::
  "'l store_library_scheme \<Rightarrow> string \<Rightarrow> string \<Rightarrow> manifest_cohort list \<Rightarrow> store_error + string" where
  "manifest_digest lib name ns cohorts =
     (case sl_cohorts_json lib (name, ns, cohorts) of
        None \<Rightarrow> Inl (ManifestRefused ManifestEncoding) | Some json \<Rightarrow> Inr (jl_sha256_hex lib json))"

fun manifest_replay :: "'l store_library_scheme \<Rightarrow> task_array_write \<Rightarrow> task_arrays \<Rightarrow> store_error + nat option" where
  "manifest_replay lib (RegisterManifest name ns request cohorts at) s =
     (if invalid_identity request then Inl (ManifestRefused ManifestIdentity)
      else case request_manifest request s of
        None \<Rightarrow> Inr None
      | Some (i, prior) \<Rightarrow> (case manifest_digest lib name ns cohorts of
          Inl e \<Rightarrow> Inl e
        | Inr digest \<Rightarrow>
            if map_option snd (tm_request prior) = Some digest then Inr (Some i) else Inl (ManifestRefused KeyNamesOtherWork)))"
| "manifest_replay lib _ s = Inr None"

fun check_cohorts ::
  "'l store_library_scheme \<Rightarrow> string set \<Rightarrow> nat \<Rightarrow> manifest_cohort list \<Rightarrow> store_error + nat" where
  "check_cohorts lib names tasks [] = Inr tasks"
| "check_cohorts lib names tasks (c # cs) =
     (if \<not> valid_workload_label (mc_name c) \<or> mc_name c \<in> names then Inl (ManifestRefused ManifestProfileNames)
      else case validate (mc_spec c) of
        Inl e \<Rightarrow> Inl (InvalidArray e)
      | Inr _ \<Rightarrow> (case validate_template lib (mc_template c) of
          Inl e \<Rightarrow> Inl (InvalidArray e)
        | Inr _ \<Rightarrow> check_cohorts lib (insert (mc_name c) names) (add64 tasks (task_count (mc_spec c))) cs))"

fun insert_cohorts ::
  "('g \<Rightarrow> nat \<times> 'g) \<Rightarrow> string \<Rightarrow> string \<Rightarrow> nat \<Rightarrow> manifest_cohort list \<Rightarrow> (string \<times> nat) list \<Rightarrow> 'g \<Rightarrow> task_arrays \<Rightarrow>
     (store_error + (string \<times> nat) list) \<times> 'g \<times> task_arrays" where
  "insert_cohorts alloc name ns at [] identities g s = (Inr identities, g, s)"
| "insert_cohorts alloc name ns at (c # cs) identities g s =
     (let (i, g') = alloc g
      in case ta_new (mc_spec c) at of
           Inl e \<Rightarrow> (Inl (InvalidArray e), g', s)
         | Inr st \<Rightarrow> insert_cohorts alloc name ns at cs (identities @ [(mc_name c, i)]) g'
             (s\<lparr>tas_arrays := bt_insert i (fresh_record name ns (mc_template c) st) (tas_arrays s)\<rparr>))"

definition register_manifest ::
  "'l store_library_scheme \<Rightarrow> ('g \<Rightarrow> nat \<times> 'g) \<Rightarrow> string \<Rightarrow> string \<Rightarrow> string \<Rightarrow> manifest_cohort list \<Rightarrow> nat \<Rightarrow> 'g \<Rightarrow> task_arrays \<Rightarrow>
     (store_error + task_array_applied) \<times> 'g \<times> task_arrays" where
  "register_manifest lib alloc name ns request cohorts at g s =
     (case manifest_replay lib (RegisterManifest name ns request cohorts at) s of
        Inl e \<Rightarrow> (Inl e, g, s)
      | Inr (Some i) \<Rightarrow> (Inr (Registered i), g, s)
      | Inr None \<Rightarrow>
      if \<not> valid_workload_label name \<or> \<not> valid_workload_label ns \<or> cohorts = [] \<or> length cohorts > 16
      then (Inl (ManifestRefused ManifestShape), g, s)
      else case check_cohorts lib {} 0 cohorts of
        Inl e \<Rightarrow> (Inl e, g, s)
      | Inr tasks \<Rightarrow>
      if tasks > MAX_TASK_COUNT then (Inl (ManifestRefused ManifestTooManyTasks), g, s)
      else case check_run_capacity ns Bulk (length cohorts) s of
        Inl e \<Rightarrow> (Inl e, g, s)
      | Inr _ \<Rightarrow>
      let (i, g') = alloc g
      in case insert_cohorts alloc name ns at cohorts [] g' (prune_runs at s) of
        (Inl e, g'', s') \<Rightarrow> (Inl e, g'', s')
      | (Inr identities, g'', s') \<Rightarrow>
      case manifest_digest lib name ns cohorts of
        Inl e \<Rightarrow> (Inl e, g'', s')
      | Inr digest \<Rightarrow>
          (Inr (Registered i), g'', s'\<lparr>tas_manifests := bt_insert i
             \<lparr>tm_name = name, tm_namespace = ns, tm_cohorts = identities, tm_common_jobs = False,
              tm_request = Some (request, digest), tm_submitted_at = at\<rparr> (tas_manifests s')\<rparr>))"

definition register_array ::
  "'l job_library_scheme \<Rightarrow> ('g \<Rightarrow> nat \<times> 'g) \<Rightarrow> string \<Rightarrow> string \<Rightarrow> job_spec \<Rightarrow> task_array_spec \<Rightarrow> nat \<Rightarrow> 'g \<Rightarrow> task_arrays \<Rightarrow>
     (store_error + task_array_applied) \<times> 'g \<times> task_arrays" where
  "register_array lib alloc name ns template spec at g s =
     (if \<not> valid_workload_label name \<or> \<not> valid_workload_label ns then (Inl EmptyArrayName, g, s)
      else case validate_template lib template of
        Inl e \<Rightarrow> (Inl (InvalidArray e), g, s)
      | Inr _ \<Rightarrow> (case ta_new spec at of
          Inl e \<Rightarrow> (Inl (InvalidArray e), g, s)
        | Inr st \<Rightarrow>
            let s' = prune_runs at s
            in case check_run_capacity ns Bulk 1 s' of
                 Inl e \<Rightarrow> (Inl e, g, s')
               | Inr _ \<Rightarrow>
                   let (i, g') = alloc g
                   in (Inr (Registered i), g', s'\<lparr>tas_arrays := bt_insert i (fresh_record name ns template st) (tas_arrays s')\<rparr>)))"

text \<open>A group is cancelled one run after the other; what was cancelled stays so when a later one is missing.\<close>

fun cancel_runs :: "nat \<Rightarrow> nat list \<Rightarrow> task_arrays \<Rightarrow> (store_error + task_array_applied) \<times> task_arrays" where
  "cancel_runs now [] s = (Inr CancelledRuns, s)"
| "cancel_runs now (i # is) s =
     (case cancel_run now i s of Inl e \<Rightarrow> (Inl e, s) | Inr s' \<Rightarrow> cancel_runs now is s')"

fun apply_results :: "(string \<times> chunk_result) list \<Rightarrow> nat \<times> nat \<times> task_array_state \<Rightarrow> nat \<times> nat \<times> task_array_state" where
  "apply_results [] acc = acc"
| "apply_results ((node, r) # rest) (ok, refused, st) =
     (case complete node r st of
        Inl _ \<Rightarrow> apply_results rest (ok, add32 refused 1, st)
      | Inr (_, st') \<Rightarrow> apply_results rest (add32 ok 1, refused, st'))"

fun apply_grants :: "(string \<times> index_range_set) list \<Rightarrow> nat \<times> nat \<times> task_array_state \<Rightarrow> nat \<times> nat \<times> task_array_state" where
  "apply_grants [] acc = acc"
| "apply_grants ((node, chunks) # rest) (ok, refused, st) =
     (case grant node chunks st of
        Inl _ \<Rightarrow> apply_grants rest (ok, add32 refused 1, st)
      | Inr st' \<Rightarrow> apply_grants rest (add32 ok 1, refused, st'))"

definition sync_array ::
  "nat \<Rightarrow> nat \<Rightarrow> (string \<times> chunk_result) list \<Rightarrow> (string \<times> index_range_set) list \<Rightarrow> task_arrays \<Rightarrow>
     (store_error + task_array_applied) \<times> task_arrays" where
  "sync_array now i results grants s =
     (case find_array s i of
        None \<Rightarrow> (Inl (UnknownArray i), s)
      | Some r \<Rightarrow>
          let (done_ok, done_refused, st) = apply_results results (0, 0, tar_state r);
              (grant_ok, grant_refused, st') = apply_grants grants (0, 0, st);
              s' = s\<lparr>tas_arrays := bt_insert i (r\<lparr>tar_state := st'\<rparr>) (tas_arrays s)\<rparr>
          in case mark_terminal i now s' of
               Inl e \<Rightarrow> (Inl e, s')
             | Inr s'' \<Rightarrow> (Inr (Synced done_ok done_refused grant_ok grant_refused), s''))"

definition unrunnable_array :: "nat \<Rightarrow> string \<Rightarrow> nat \<Rightarrow> task_arrays \<Rightarrow> (store_error + task_array_applied) \<times> task_arrays" where
  "unrunnable_array i reason now s =
     (if length reason > MAX_UNRUNNABLE_REASON_BYTES then (Inl (JobRefused ReasonTooLong), s)
      else case find_array s i of
        None \<Rightarrow> (Inl (UnknownArray i), s)
      | Some r \<Rightarrow>
          let r' = (if ta_stopped (tar_state r) = None
                    then r\<lparr>tar_state := refuse_unrunnable (tar_state r), tar_unrunnable := Some reason\<rparr> else r);
              s' = s\<lparr>tas_arrays := bt_insert i r' (tas_arrays s)\<rparr>
          in case mark_terminal i now s' of Inl e \<Rightarrow> (Inl e, s') | Inr s'' \<Rightarrow> (Inr CancelledRuns, s''))"

definition unknown_owner :: "nat \<Rightarrow> string \<Rightarrow> task_arrays \<Rightarrow> (store_error + task_array_applied) \<times> task_arrays" where
  "unknown_owner i node s =
     (case find_array s i of
        None \<Rightarrow> (Inl (UnknownArray i), s)
      | Some r \<Rightarrow>
          if held_by (tar_state r) node = None then (Inl (JobRefused NotAHeldGrant), s)
          else case find_run (tas_jobs s) i of
            None \<Rightarrow> (Inl (JobRefused UnknownJobRun), s)
          | Some run \<Rightarrow>
              if card (rn_unknown_owners run) \<ge> 64 \<and> node \<notin> rn_unknown_owners run then (Inl (JobRefused UnknownOwnerLimit), s)
              else (Inr JobRecorded, s\<lparr>tas_jobs := (tas_jobs s)\<lparr>jc_runs := bt_insert i
                     (run\<lparr>rn_unknown_owners := insert node (rn_unknown_owners run)\<rparr>) (jc_runs (tas_jobs s))\<rparr>\<rparr>))"

definition requeue_run :: "nat \<Rightarrow> string \<Rightarrow> nat \<Rightarrow> (job_catalog \<Rightarrow> job_catalog) \<Rightarrow> task_arrays \<Rightarrow>
    (store_error + task_array_applied) \<times> task_arrays" where
  "requeue_run i node now f s =
     (case find_array s i of
        None \<Rightarrow> (Inl (UnknownArray i), s)
      | Some r \<Rightarrow>
          let (chunks, st) = requeue_node node (tar_state r);
              s' = s\<lparr>tas_arrays := bt_insert i (r\<lparr>tar_state := st\<rparr>) (tas_arrays s), tas_jobs := f (tas_jobs s)\<rparr>
          in case mark_terminal i now s' of Inl e \<Rightarrow> (Inl e, s') | Inr s'' \<Rightarrow> (Inr (Requeued chunks), s''))"

definition quota_blocked :: "nat \<Rightarrow> quota_error option \<Rightarrow> task_arrays \<Rightarrow> (store_error + task_array_applied) \<times> task_arrays" where
  "quota_blocked i reason s =
     (case find_array s i of
        None \<Rightarrow> (Inl (UnknownArray i), s)
      | Some r \<Rightarrow> (Inr QuotaRecorded, s\<lparr>tas_arrays := bt_insert i
          (r\<lparr>tar_quota_blocked := if finished r then None else reason\<rparr>) (tas_arrays s)\<rparr>))"

definition requeue_lost :: "nat \<Rightarrow> string \<Rightarrow> nat \<Rightarrow> task_arrays \<Rightarrow> (store_error + task_array_applied) \<times> task_arrays" where
  "requeue_lost i node now s =
     (case find_run (tas_jobs s) i of
        Some run \<Rightarrow> if \<not> rn_replay_unknown run then (Inl (JobRefused NeedsAcknowledgedReplay), s) else requeue_run i node now id s
      | None \<Rightarrow> requeue_run i node now id s)"

definition owner_fingerprint :: "'l store_library_scheme \<Rightarrow> nat \<Rightarrow> string \<Rightarrow> task_arrays \<Rightarrow> string option" where
  "owner_fingerprint lib i node s =
     Option.bind (find_array s i) (\<lambda>r. Option.bind (held_by (tar_state r) node) (\<lambda>held.
       map_option (jl_sha256_hex lib)
         (sl_grants_json lib (i, node, map (\<lambda>chunk. (chunk, attempt_of (tar_state r) chunk)) (set_iter held)))))"

definition forget_owner :: "nat \<Rightarrow> string \<Rightarrow> job_catalog \<Rightarrow> job_catalog" where
  "forget_owner i node c =
     (case find_run c i of
        None \<Rightarrow> c
      | Some run \<Rightarrow> c\<lparr>jc_runs := bt_insert i (run\<lparr>rn_unknown_owners := rn_unknown_owners run - {node}\<rparr>) (jc_runs c)\<rparr>)"

definition replay_owner ::
  "'l store_library_scheme \<Rightarrow> nat \<Rightarrow> string \<Rightarrow> string \<Rightarrow> nat \<Rightarrow> task_arrays \<Rightarrow> (store_error + task_array_applied) \<times> task_arrays" where
  "replay_owner lib i node digest now s =
     (case find_run (tas_jobs s) i of
        None \<Rightarrow> (Inl (JobRefused UnknownJobRun), s)
      | Some run \<Rightarrow>
          if node \<notin> rn_unknown_owners run then (Inl (JobRefused OwnerResolved), s)
          else if owner_fingerprint lib i node s \<noteq> Some digest then (Inl (JobRefused StaleGrants), s)
          else requeue_run i node now (forget_owner i node) s)"

text \<open>The progress writes, which a tick carries; no other write is applied as one.\<close>

fun apply_progress :: "task_array_write \<Rightarrow> task_arrays \<Rightarrow> (store_error + task_array_applied) \<times> task_arrays" where
  "apply_progress (SyncArray now i results grants) s = sync_array now i results grants s"
| "apply_progress (RequeueNode i node now) s = requeue_lost i node now s"
| "apply_progress (UnknownOwner i node) s = unknown_owner i node s"
| "apply_progress (Unrunnable i reason now) s = unrunnable_array i reason now s"
| "apply_progress (BlockQuota i reason) s = quota_blocked i reason s"
| "apply_progress _ s = (Inr JobRecorded, s)"

fun apply_tick :: "task_array_write list \<Rightarrow> task_arrays \<Rightarrow> (nat \<times> store_error) list \<times> task_arrays" where
  "apply_tick [] s = ([], s)"
| "apply_tick (w # ws) s =
     (case apply_progress w s of
        (Inr _, s') \<Rightarrow> apply_tick ws s'
      | (Inl e, s') \<Rightarrow>
          (let (refused, s'') = apply_tick ws s'
           in ((case progress_batch_id w of None \<Rightarrow> 0 | Some i \<Rightarrow> i, e) # refused, s'')))"

fun write_owned :: "task_array_write \<Rightarrow> task_arrays \<Rightarrow> bool" where
  "write_owned (RegisterArray name ns template spec at) s = (deployment_owner s name ns \<noteq> None)"
| "write_owned (RegisterManifest name ns request cohorts at) s = (deployment_owner s name ns \<noteq> None)"
| "write_owned _ s = False"

fun is_transaction :: "task_array_write \<Rightarrow> bool" where
  "is_transaction (RegisterJobs request jobs at) = True"
| "is_transaction (DeployBegin op cfg now) = True"
| "is_transaction (DeployCommitted op now) = True"
| "is_transaction (DeployCancel op now) = True"
| "is_transaction (DeployRelease op) = True"
| "is_transaction _ = False"

definition registration_ids :: "'l store_library_scheme \<Rightarrow> task_array_write \<Rightarrow> task_arrays \<Rightarrow> store_error + nat" where
  "registration_ids lib w s =
     (case manifest_replay lib w s of
        Inl e \<Rightarrow> Inl e
      | Inr (Some _) \<Rightarrow> Inr 0
      | Inr None \<Rightarrow>
          if is_transaction w then map_sum id (\<lambda>(_, (_, n), _). n) (apply_deployment lib (counting_allocate s) w (0, 0) s)
          else (case w of
              JobTransaction j \<Rightarrow>
                if occurrence_passed j s then Inr 0
                else map_sum id (\<lambda>(_, (_, n), _). n) (apply_job lib (counting_allocate s) j (0, 0) s)
            | _ \<Rightarrow> Inr (write_registration_ids w)))"

definition planned_ids :: "'l store_library_scheme \<Rightarrow> task_array_write \<Rightarrow> task_arrays \<Rightarrow> store_error + nat" where
  "planned_ids lib w s =
     (case registration_ids lib w s of
        Inl e \<Rightarrow> Inl e
      | Inr n \<Rightarrow> (case w of
          DeployBegin op cfg now \<Rightarrow>
            if map_of (tas_deployments s) op = None
            then Inr (max (length (filter (\<lambda>(_, j). js_schedule j = None) (cg_job cfg))) n) else Inr n
        | _ \<Rightarrow> Inr n))"

definition all_or_nothing ::
  "'g \<Rightarrow> task_arrays \<Rightarrow> store_error + task_array_applied \<times> 'g \<times> task_arrays \<Rightarrow>
     (store_error + task_array_applied) \<times> 'g \<times> task_arrays" where
  "all_or_nothing g s r = (case r of Inl e \<Rightarrow> (Inl e, g, s) | Inr (applied, g', s') \<Rightarrow> (Inr applied, g', s'))"

definition apply_transaction ::
  "'l store_library_scheme \<Rightarrow> ('g \<Rightarrow> nat \<times> 'g) \<Rightarrow> task_array_write \<Rightarrow> 'g \<Rightarrow> task_arrays \<Rightarrow>
     (store_error + task_array_applied) \<times> 'g \<times> task_arrays" where
  "apply_transaction lib alloc w g s =
     (case registration_ids lib w s of
        Inl e \<Rightarrow> (Inl e, g, s)
      | Inr _ \<Rightarrow> all_or_nothing g s (apply_deployment lib alloc w g s))"

definition stop_job :: "string \<Rightarrow> string \<Rightarrow> bool \<Rightarrow> nat \<Rightarrow> task_arrays \<Rightarrow> (store_error + task_array_applied) \<times> task_arrays" where
  "stop_job name ns forget now s =
     (case stop_definition ns name forget (tas_jobs s) of
        Inl e \<Rightarrow> (Inl (JobRefused (CatalogRefused e)), s)
      | Inr jobs \<Rightarrow> cancel_runs now (map fst (filter (\<lambda>(_, run). owns_job ns name run) (jc_runs jobs))) (s\<lparr>tas_jobs := jobs\<rparr>))"

definition cancel_manifest :: "nat \<Rightarrow> nat \<Rightarrow> task_arrays \<Rightarrow> (store_error + task_array_applied) \<times> task_arrays" where
  "cancel_manifest i now s =
     (case map_of (tas_manifests s) i of
        None \<Rightarrow> (Inl (UnknownArray i), s)
      | Some m \<Rightarrow> cancel_runs now (map snd (tm_cohorts m)) s)"

fun apply_write ::
  "'l store_library_scheme \<Rightarrow> ('g \<Rightarrow> nat \<times> 'g) \<Rightarrow> task_array_write \<Rightarrow> 'g \<Rightarrow> task_arrays \<Rightarrow>
     (store_error + task_array_applied) \<times> 'g \<times> task_arrays" where
  "apply_write lib alloc (StopDefinition name ns forget now) g s = map_prod id (Pair g) (stop_job name ns forget now s)"
| "apply_write lib alloc (CronObserve minute) g s =
     (if minute < 0 then (Inl (JobRefused MinuteBeforeEpoch), g, s)
      else (Inr JobRecorded, g, s\<lparr>tas_cron_observed_minute := later_minute (tas_cron_observed_minute s) (Some minute)\<rparr>))"
| "apply_write lib alloc (PruneRuns now retention) g s = (Inr JobRecorded, g, prune_within now retention s)"
| "apply_write lib alloc (JobTransaction w) g s = all_or_nothing g s (apply_job lib alloc w g s)"
| "apply_write lib alloc (Tick writes) g s =
     (if length writes > MAX_TICK_WRITES \<or> list_ex (\<lambda>w. progress_batch_id w = None) writes then (Inl (JobRefused TickTooLarge), g, s)
      else let (refused, s') = apply_tick writes s in (Inr (Ticked refused), g, s'))"
| "apply_write lib alloc (RegisterManifest name ns request cohorts at) g s = register_manifest lib alloc name ns request cohorts at g s"
| "apply_write lib alloc (CancelManifest i now) g s = map_prod id (Pair g) (cancel_manifest i now s)"
| "apply_write lib alloc (RegisterArray name ns template spec at) g s = register_array lib alloc name ns template spec at g s"
| "apply_write lib alloc (CancelArray i now) g s = map_prod id (Pair g) (cancel_runs now [i] s)"
| "apply_write lib alloc (Replay i node digest now) g s = map_prod id (Pair g) (replay_owner lib i node digest now s)"
| "apply_write lib alloc (SyncArray now i results grants) g s = map_prod id (Pair g) (sync_array now i results grants s)"
| "apply_write lib alloc (RequeueNode i node now) g s = map_prod id (Pair g) (requeue_lost i node now s)"
| "apply_write lib alloc (UnknownOwner i node) g s = map_prod id (Pair g) (unknown_owner i node s)"
| "apply_write lib alloc (Unrunnable i reason now) g s = map_prod id (Pair g) (unrunnable_array i reason now s)"
| "apply_write lib alloc (BlockQuota i reason) g s = map_prod id (Pair g) (quota_blocked i reason s)"
| "apply_write lib alloc w g s = apply_transaction lib alloc w g s"

definition store_apply ::
  "'l store_library_scheme \<Rightarrow> ('g \<Rightarrow> nat \<times> 'g) \<Rightarrow> task_array_write \<Rightarrow> 'g \<Rightarrow> task_arrays \<Rightarrow>
     (store_error + task_array_applied) \<times> 'g \<times> task_arrays" where
  "store_apply lib alloc w g s =
     (if write_owned w s then (Inl (JobRefused DeploymentOwnsWorkload), g, s) else apply_write lib alloc w g s)"

section \<open>Reading a store back\<close>

definition completed_deployments :: "task_arrays \<Rightarrow> nat" where
  "completed_deployments s = length (filter (\<lambda>(_, d). dep_completed d) (tas_deployments s))"

definition beyond_bounds :: "task_arrays \<Rightarrow> bool" where
  "beyond_bounds s \<longleftrightarrow>
     (case tas_cron_observed_minute s of None \<Rightarrow> False | Some m \<Rightarrow> m < 0) \<or> length (active_arrays s) > MAX_ACTIVE_ARRAYS \<or>
     length (tas_arrays s) > 2048 \<or> length (tas_manifests s) > 84 \<or> unsettled s > 64 \<or> completed_deployments s > 20"

definition read_array :: "'l job_library_scheme \<Rightarrow> nat \<times> task_array_record \<Rightarrow> read_error + unit" where
  "read_array lib e =
     (let r = snd e
      in if fst e = 0 \<or> \<not> valid_workload_label (tar_name r) \<or> \<not> valid_workload_label (tar_namespace r) then Inl InvalidRunIdentity
         else case validate_template lib (tar_template r) of
           Inl err \<Rightarrow> Inl (ReadTemplate err)
         | Inr _ \<Rightarrow> (case validate_snapshot (tar_state r) of
             Inl err \<Rightarrow> Inl (ReadState err)
           | Inr _ \<Rightarrow> if finished r \<noteq> (tar_terminal_at r \<noteq> None) then Inl InconsistentTerminalReceipt else Inr ()))"

definition read_provenance :: "task_arrays \<Rightarrow> nat \<times> run_record \<Rightarrow> read_error + unit" where
  "read_provenance s e =
     (case find_array s (fst e) of
        None \<Rightarrow> Inl ProvenanceWithoutRun
      | Some r \<Rightarrow>
          if tar_name r \<noteq> rn_name (snd e) \<or> tar_namespace r \<noteq> rn_namespace (snd e) then Inl ProvenanceWithoutRun else Inr ())"

fun read_profiles ::
  "task_arrays \<Rightarrow> bool \<Rightarrow> (string \<times> nat) list \<Rightarrow> string set \<Rightarrow> nat set \<Rightarrow> read_error + nat set" where
  "read_profiles s common [] names children = Inr children"
| "read_profiles s common ((name, child) # rest) names children =
     (if name \<in> names \<or> child \<in> children \<or> find_array s child = None \<or> common \<and> find_run (tas_jobs s) child = None
      then Inl ManifestProfileMissing
      else read_profiles s common rest (insert name names) (insert child children))"

definition read_manifest :: "task_arrays \<Rightarrow> nat \<times> task_manifest \<Rightarrow> nat set \<Rightarrow> read_error + nat set" where
  "read_manifest s e children =
     (if fst e = 0 \<or> find_array s (fst e) \<noteq> None \<or> tm_cohorts (snd e) = [] \<or>
         length (tm_cohorts (snd e)) > (if tm_common_jobs (snd e) then 64 else 16)
      then Inl InvalidManifest
      else read_profiles s (tm_common_jobs (snd e)) (tm_cohorts (snd e)) {} children)"

definition hook_names :: "config \<Rightarrow> string set" where
  "hook_names cfg = set (map fst (filter (\<lambda>(_, j). js_run_before j \<noteq> []) (cg_job cfg)))"

definition ordinary_names :: "config \<Rightarrow> string set" where
  "ordinary_names cfg = set (map fst (filter (\<lambda>(_, j). js_run_before j = [] \<and> js_schedule j = None) (cg_job cfg)))"

definition read_pinned :: "task_arrays \<Rightarrow> string \<Rightarrow> deployment_record \<Rightarrow> string \<times> nat \<Rightarrow> read_error + unit" where
  "read_pinned s op d e =
     (case map_of (cg_job (dep_config d)) (fst e) of
        None \<Rightarrow> Inl DeploymentUnknownJob
      | Some spec \<Rightarrow> (case find_run (tas_jobs s) (snd e) of
          None \<Rightarrow> Inl DeploymentLostRun
        | Some run \<Rightarrow>
            if rn_name run \<noteq> fst e \<or> rn_namespace run \<noteq> or_default (js_namespace spec) \<or> rn_trigger run \<noteq> Hook op
            then Inl DeploymentForeignRun else Inr ()))"

fun claim_workloads :: "deployment_record \<Rightarrow> (string \<times> string) list \<Rightarrow> (string \<times> string) set \<Rightarrow> read_error + (string \<times> string) set" where
  "claim_workloads d [] owned = Inr owned"
| "claim_workloads d ((name, ns) # rest) owned =
     (if deployment_blocks d name ns
      then (if (ns, name) \<in> owned then Inl ConflictingOwnership else claim_workloads d rest (insert (ns, name) owned))
      else claim_workloads d rest owned)"

definition read_deployment ::
  "'l store_library_scheme \<Rightarrow> task_arrays \<Rightarrow> string \<times> deployment_record \<Rightarrow> (string \<times> string) set \<Rightarrow> read_error + (string \<times> string) set" where
  "read_deployment lib s e owned =
     (let op = fst e; d = snd e; cfg = dep_config d
      in if \<not> valid_operation_id op \<or> oversized (128 * 1024) (sl_config_json lib cfg) then Inl InvalidDeployment
         else if \<not> sl_config_valid lib cfg then Inl DeploymentConfigInvalid
         else if set (map fst (dep_hook_runs d)) \<noteq> hook_names cfg then Inl DeploymentHooksDisagree
         else if dep_apps_committed d \<and> set (map fst (dep_job_runs d)) \<noteq> ordinary_names cfg \<or>
                 \<not> dep_apps_committed d \<and> dep_job_runs d \<noteq> []
         then Inl DeploymentJobsDisagree
         else if dep_completed d \<noteq> (dep_outcome d \<noteq> None) \<or> dep_completed d \<noteq> (dep_finished_at d \<noteq> None)
         then Inl InconsistentSettlement
         else if dep_completed d then Inr owned
         else case check_each (read_pinned s op d) (dep_hook_runs d @ dep_job_runs d) of
           Inl err \<Rightarrow> Inl err
         | Inr _ \<Rightarrow>
             if dep_apps_committed d \<and> \<not> list_all (\<lambda>(_, i). run_status s i = Some Succeeded) (dep_hook_runs d)
             then Inl DeploymentWithoutHookProof
             else claim_workloads d (config_workloads cfg) owned)"

definition read_store :: "'l store_library_scheme \<Rightarrow> task_arrays \<Rightarrow> read_error + task_arrays" where
  "read_store lib s =
     (case read_catalog lib (tas_jobs s) of
        Inl e \<Rightarrow> Inl e
      | Inr _ \<Rightarrow>
      if beyond_bounds s then Inl StoreExceedsBounds
      else case check_each (read_array lib) (tas_arrays s) of
        Inl e \<Rightarrow> Inl e
      | Inr _ \<Rightarrow>
      case check_each (read_provenance s) (jc_runs (tas_jobs s)) of
        Inl e \<Rightarrow> Inl e
      | Inr _ \<Rightarrow>
      case fold_try (read_manifest s) (tas_manifests s) {} of
        Inl e \<Rightarrow> Inl e
      | Inr _ \<Rightarrow>
      case fold_try (read_deployment lib s) (tas_deployments s) {} of
        Inl e \<Rightarrow> Inl e
      | Inr _ \<Rightarrow> Inr s)"

end
