(* ===== verification/Desired_State.thy ===== *)
theory Desired_State
  imports Test_Lease Deploy Task_Store
begin

text \<open>
  The replicated desired state (\<open>council/types.rs\<close>) and the helpers of its state machine that the
  handlers share (\<open>council/state_machine.rs\<close>): storing and removing an app, sealing of its secrets,
  and admission of placements. A \<open>HashMap\<close> is an association list with distinct keys, a
  \<open>BTreeMap\<close> a sorted one, and sets are sets. The task arrays are the store of \<open>Task_Store\<close>.
\<close>

section \<open>Types\<close>

record log_id =
  lg_term :: nat
  lg_node :: nat
  lg_index :: nat

record stored_membership =
  sm_log_id :: "log_id option"
  sm_joint_config :: "nat set list"
  sm_nodes :: "(nat \<times> string) list"

record unschedulable_app =
  un_placed :: nat
  un_wanted :: nat
  un_reason :: unplaced_reason

record desired_state =
  ds_apps :: "(app_id \<times> app_spec) list"
  ds_scheduling :: "(app_id \<times> placement list) list"
  ds_config :: "(string \<times> string) list"
  ds_manifest_catalog :: manifest_catalog
  ds_registry_gc_generations :: "(nat \<times> nat) list"
  ds_autoscale_overrides :: "(string \<times> nat) list"
  ds_stopped_apps :: "app_id set"
  ds_last_placed_nodes :: "(app_id \<times> node_id list) list"
  ds_quota_blocked :: "(app_id \<times> quota_error) list"
  ds_unschedulable :: "(app_id \<times> unschedulable_app) list"
  ds_rollouts :: "(app_id \<times> app_rollouts) list"
  ds_gitops_sync_state :: "sync_state option"
  ds_gitops_coordinator :: "coordinator_election option"
  ds_gitops_config :: "stored_gitops_config option"
  ds_gitops_owned :: gitops_ownership
  ds_security_state :: security_state
  ds_active_upgrade :: "cluster_upgrade_state option"
  ds_upgrade_history :: "cluster_upgrade_state list"
  ds_task_arrays :: task_arrays
  ds_batch_ids :: batch_ids
  ds_build_state :: build_durable_state
  ds_namespaces :: "(string \<times> namespace_spec) list"
  ds_permissions :: "(string \<times> permission_spec) list"
  ds_policies :: "(string \<times> policy_spec) list"
  ds_policy_generation :: nat
  ds_declared_apps :: "(app_id \<times> app_spec) list"
  ds_endpoints :: endpoint_state
  ds_test_leases :: "(string \<times> test_lease) list"
  ds_node_fault_reservations :: node_fault_reservations
  ds_last_membership :: stored_membership

definition desired_default :: desired_state where
  "desired_default = \<lparr>
     ds_apps = [], ds_scheduling = [], ds_config = [], ds_manifest_catalog = catalog_default,
     ds_registry_gc_generations = [], ds_autoscale_overrides = [], ds_stopped_apps = {},
     ds_last_placed_nodes = [], ds_quota_blocked = [], ds_unschedulable = [], ds_rollouts = [],
     ds_gitops_sync_state = None, ds_gitops_coordinator = None, ds_gitops_config = None,
     ds_gitops_owned = \<lparr>go_apps = {}, go_namespaces = {}, go_permissions = {}, go_policies = {}\<rparr>,
     ds_security_state = security_default, ds_active_upgrade = None, ds_upgrade_history = [],
     ds_task_arrays = store_default, ds_batch_ids = batch_ids_default,
     ds_build_state = build_default, ds_namespaces = [], ds_permissions = [], ds_policies = [],
     ds_policy_generation = 0, ds_declared_apps = [], ds_endpoints = endpoint_default,
     ds_test_leases = [], ds_node_fault_reservations = \<lparr>nfs_last_sequence = 0, nfs_active = None\<rparr>,
     ds_last_membership = \<lparr>sm_log_id = None, sm_joint_config = [], sm_nodes = []\<rparr>\<rparr>"

definition app_id_string :: "app_id \<Rightarrow> string" where
  "app_id_string a = ai_namespace a @ ''/'' @ ai_name a"

definition raft_id_from_name :: "string \<Rightarrow> nat" where
  "raft_id_from_name name =
     (let hash = foldl (\<lambda>acc b. add64 (mul64 acc 33) (of_char b)) 5381 name in if hash = 0 then 1 else hash)"

definition retired_nodes :: "desired_state \<Rightarrow> string set" where
  "retired_nodes s = fst ` set (crl_retired_nodes (ss_crl (ds_security_state s)))"

section \<open>Jobs\<close>

definition app_in_deployment :: "desired_state \<Rightarrow> app_id \<Rightarrow> bool" where
  "app_in_deployment s a \<longleftrightarrow> deployment_owner (ds_task_arrays s) (ai_name a) (ai_namespace a) \<noteq> None"

definition pinned_image_digests :: "desired_state \<Rightarrow> string set" where
  "pinned_image_digests s = set (List.map_filter image_pin_digest
     (concat (map image_references (map snd (ds_apps s) @ concat (map (ar_released \<circ> snd) (ds_rollouts s)))) @
      List.map_filter (js_image \<circ> jd_template \<circ> dr_definition \<circ> snd) (jc_definitions (tas_jobs (ds_task_arrays s))) @
      List.map_filter (js_image \<circ> tar_template \<circ> snd) (tas_arrays (ds_task_arrays s))))"

section \<open>Registry\<close>

definition gc_generation :: "desired_state \<Rightarrow> nat \<Rightarrow> nat" where
  "gc_generation s node = (case map_of (ds_registry_gc_generations s) node of None \<Rightarrow> 0 | Some g \<Rightarrow> g)"

definition registry_publication_is_current :: "manifest_commit \<Rightarrow> desired_state \<Rightarrow> bool" where
  "registry_publication_is_current c s \<longleftrightarrow>
     (\<forall>node \<in> mc_holder_nodes c. gc_generation s node = mc_observed_gc_generation c)"

definition registry_node_retired :: "nat \<Rightarrow> desired_state \<Rightarrow> bool" where
  "registry_node_retired node s \<longleftrightarrow>
     list_ex (\<lambda>(name, _). raft_id_from_name name = node) (crl_retired_nodes (ss_crl (ds_security_state s)))"

section \<open>Secrets of an app\<close>

definition encrypted_value :: "env_value \<Rightarrow> bool" where
  "encrypted_value v = (case v of Encrypted _ \<Rightarrow> True | _ \<Rightarrow> False)"

definition effective_secret_scope :: "security_state \<Rightarrow> app_id \<Rightarrow> age_key_scope" where
  "effective_secret_scope ss a =
     (if list_ex (\<lambda>kp. kp_scope kp = NamespaceKey (ai_namespace a)) (ss_age_keypairs ss)
      then NamespaceKey (ai_namespace a) else ClusterWide)"

definition seal_key :: "app_id \<Rightarrow> string \<Rightarrow> string" where
  "seal_key a env_key = app_id_string a @ ''/'' @ env_key"

definition forget_seals :: "app_id \<Rightarrow> security_state \<Rightarrow> security_state" where
  "forget_seals a ss = ss\<lparr>ss_secret_seals :=
     filter (\<lambda>(k, _). \<not> starts_with k (app_id_string a @ ''/'')) (ss_secret_seals ss)\<rparr>"

definition record_secret_seals :: "app_id \<Rightarrow> app_spec \<Rightarrow> security_state \<Rightarrow> security_state" where
  "record_secret_seals a spec ss0 =
     (let ss = forget_seals a ss0; scope = effective_secret_scope ss a
      in case active_age_keypair ss scope of
           None \<Rightarrow> ss
         | Some kp \<Rightarrow>
             ss\<lparr>ss_secret_seals :=
               foldl (\<lambda>m k. bt_insert (seal_key a k) \<lparr>seal_scope = scope, seal_generation = kp_generation kp\<rparr> m)
                 (ss_secret_seals ss) (map fst (filter (\<lambda>(_, v). encrypted_value v) (as_env spec)))\<rparr>)"

definition stale_secret :: "security_state \<Rightarrow> age_key_scope \<Rightarrow> nat \<Rightarrow> app_id \<Rightarrow> string \<Rightarrow> bool" where
  "stale_secret ss scope newest a env_key = (case map_of (ss_secret_seals ss) (seal_key a env_key) of
     Some seal \<Rightarrow> seal_scope seal = scope \<and> seal_generation seal < newest
   | None \<Rightarrow> effective_secret_scope ss a = scope)"

definition stale_sealed_secrets :: "age_key_scope \<Rightarrow> nat \<Rightarrow> desired_state \<Rightarrow> string list" where
  "stale_sealed_secrets scope newest s =
     sort (concat (map (\<lambda>(a, spec).
         map (\<lambda>(k, _). seal_key a k)
           (filter (\<lambda>(k, v). encrypted_value v \<and> stale_secret (ds_security_state s) scope newest a k) (as_env spec)))
       (ds_apps s)))"

definition ENC_PREFIX :: string where
  "ENC_PREFIX = ''ENC[AGE:''"

definition is_encrypted :: "string \<Rightarrow> bool" where
  "is_encrypted v \<longleftrightarrow> starts_with v ENC_PREFIX \<and> strip_suffix '']'' v \<noteq> None"

datatype reseal_error =
    ResealNotNamespace
  | ResealNotFirst string
  | ResealOtherNamespace app_id string
  | ResealPlain app_id string
  | ResealStale app_id string

definition reseal_entry_error :: "string \<Rightarrow> desired_state \<Rightarrow> resealed_secret \<Rightarrow> reseal_error option" where
  "reseal_entry_error ns s r =
     (if ai_namespace (rs_app_id r) \<noteq> ns then Some (ResealOtherNamespace (rs_app_id r) (rs_env_key r))
      else if \<not> is_encrypted (rs_sealed r) then Some (ResealPlain (rs_app_id r) (rs_env_key r))
      else case map_of (ds_apps s) (rs_app_id r) of
        None \<Rightarrow> Some (ResealStale (rs_app_id r) (rs_env_key r))
      | Some spec \<Rightarrow>
          if map_of (as_env spec) (rs_env_key r) = Some (Encrypted (rs_previous r)) then None
          else Some (ResealStale (rs_app_id r) (rs_env_key r)))"

definition first_some :: "('a \<Rightarrow> 'b option) \<Rightarrow> 'a list \<Rightarrow> 'b option" where
  "first_some f xs = (case List.map_filter f xs of [] \<Rightarrow> None | y # _ \<Rightarrow> Some y)"

definition check_reseal :: "age_key_scope \<Rightarrow> bool \<Rightarrow> resealed_secret list \<Rightarrow> desired_state \<Rightarrow> reseal_error option" where
  "check_reseal scope first_key resealed s = (case scope of
     ClusterWide \<Rightarrow> Some ResealNotNamespace
   | NamespaceKey ns \<Rightarrow>
       if \<not> first_key then Some (ResealNotFirst ns) else first_some (reseal_entry_error ns s) resealed)"

text \<open>\<open>get_mut\<close> on a map: the value of a key that is there changes in place.\<close>

definition alter_key :: "'k \<Rightarrow> ('v \<Rightarrow> 'v) \<Rightarrow> ('k \<times> 'v) list \<Rightarrow> ('k \<times> 'v) list" where
  "alter_key k f = map (\<lambda>(j, v). (j, if j = k then f v else v))"

definition reseal_value :: "resealed_secret \<Rightarrow> (app_id \<times> app_spec) list \<Rightarrow> (app_id \<times> app_spec) list" where
  "reseal_value r = alter_key (rs_app_id r)
     (\<lambda>spec. spec\<lparr>as_env := bt_insert (rs_env_key r) (Encrypted (rs_sealed r)) (as_env spec)\<rparr>)"

definition adopt_namespace_key :: "string \<Rightarrow> resealed_secret list \<Rightarrow> desired_state \<Rightarrow> desired_state" where
  "adopt_namespace_key ns resealed s =
     (let apps = fold reseal_value resealed (ds_apps s)
      in s\<lparr>ds_apps := apps,
           ds_security_state := fold (\<lambda>(a, spec). record_secret_seals a spec)
             (filter (\<lambda>(a, _). ai_namespace a = ns) apps) (ds_security_state s)\<rparr>)"

section \<open>Storing and removing an app\<close>

definition clamp_to_bounds :: "nat \<Rightarrow> autoscale_spec \<Rightarrow> nat" where
  "clamp_to_bounds n a = min (max n (au_min a)) (au_max a)"

definition drop_override :: "string \<Rightarrow> (string \<times> nat) list \<Rightarrow> (string \<times> nat) list" where
  "drop_override key = filter (\<lambda>(k, _). k \<noteq> key)"

definition owner_conflict :: "app_id \<Rightarrow> app_spec \<Rightarrow> desired_state \<Rightarrow> bool" where
  "owner_conflict a spec s =
     stored_owner_conflict (case map_of (ds_apps s) a of None \<Rightarrow> None | Some stored \<Rightarrow> as_owner stored) (as_owner spec)"

definition namespace_is_leased :: "string \<Rightarrow> desired_state \<Rightarrow> bool" where
  "namespace_is_leased ns s \<longleftrightarrow> list_ex (\<lambda>(_, l). tl_namespace l = ns) (ds_test_leases s)"

definition overrides_after_spec :: "app_id \<Rightarrow> app_spec \<Rightarrow> desired_state \<Rightarrow> (string \<times> nat) list" where
  "overrides_after_spec a spec s =
     (let key = app_id_string a;
          baseline_changed = (case map_of (ds_apps s) a of None \<Rightarrow> False | Some old \<Rightarrow> as_replicas old \<noteq> as_replicas spec);
          kept = (if baseline_changed then drop_override key (ds_autoscale_overrides s) else ds_autoscale_overrides s)
      in case as_autoscale spec of
           None \<Rightarrow> drop_override key kept
         | Some au \<Rightarrow> alter_key key (\<lambda>n. clamp_to_bounds n au) kept)"

definition apply_app_spec :: "app_id \<Rightarrow> app_spec \<Rightarrow> desired_state \<Rightarrow> desired_state" where
  "apply_app_spec a spec s =
     (let identical = (case map_of (ds_apps s) a of
            None \<Rightarrow> False | Some old \<Rightarrow> without_owner old = without_owner spec);
          owned = ds_gitops_owned s
      in s\<lparr>ds_autoscale_overrides := overrides_after_spec a spec s,
           ds_gitops_owned := (if as_owner spec \<noteq> None then owned\<lparr>go_apps := go_apps owned - {a}\<rparr> else owned),
           ds_apps := AList.update a spec (ds_apps s),
           ds_declared_apps := (if identical then ds_declared_apps s else AList.delete a (ds_declared_apps s)),
           ds_rollouts := (if identical then ds_rollouts s
                           else alter_key a (\<lambda>r. r\<lparr>ar_failed := None\<rparr>) (ds_rollouts s)),
           ds_stopped_apps := ds_stopped_apps s - {a},
           ds_security_state := record_secret_seals a spec (ds_security_state s)\<rparr>)"

definition remove_app :: "app_id \<Rightarrow> desired_state \<Rightarrow> desired_state option" where
  "remove_app a s =
     (if app_in_deployment s a then None
      else Some (s\<lparr>
        ds_apps := AList.delete a (ds_apps s),
        ds_declared_apps := AList.delete a (ds_declared_apps s),
        ds_stopped_apps := ds_stopped_apps s - {a},
        ds_rollouts := AList.delete a (ds_rollouts s),
        ds_scheduling := AList.delete a (ds_scheduling s),
        ds_last_placed_nodes := AList.delete a (ds_last_placed_nodes s),
        ds_quota_blocked := AList.delete a (ds_quota_blocked s),
        ds_unschedulable := AList.delete a (ds_unschedulable s),
        ds_gitops_owned := (ds_gitops_owned s)\<lparr>go_apps := go_apps (ds_gitops_owned s) - {a}\<rparr>,
        ds_autoscale_overrides := drop_override (app_id_string a) (ds_autoscale_overrides s),
        ds_security_state := forget_seals a (ds_security_state s)\<rparr>))"

section \<open>Admission of placements\<close>

datatype placement_refusal =
    RetiredTarget
  | SharedOrdinal app_id
  | NoLeaseOwner
  | LeaseCleaningOrDeleted
  | EmptyNode
  | PlacementLimit

definition lease_placements :: "scheduling_decision \<Rightarrow> desired_state \<Rightarrow> placement_refusal + desired_state" where
  "lease_placements d s =
     (case find (\<lambda>(_, l). LeasedApp (sd_app_id d) \<in> tl_resources l) (ds_test_leases s) of
        None \<Rightarrow> Inl NoLeaseOwner
      | Some (i, l) \<Rightarrow>
          if tl_state l \<noteq> LeaseActive \<or> map_of (ds_apps s) (sd_app_id d) = None then Inl LeaseCleaningOrDeleted
          else if list_ex (\<lambda>p. pl_node_id p = []) (sd_placements d) then Inl EmptyNode
          else let owners = tl_placements l \<union> (\<lambda>p. (sd_app_id d, pl_node_id p)) ` set (sd_placements d)
               in if card owners > MAX_LEASED_PLACEMENTS then Inl PlacementLimit
                  else Inr (s\<lparr>ds_test_leases := alter_key i (\<lambda>l. l\<lparr>tl_placements := owners\<rparr>) (ds_test_leases s)\<rparr>))"

definition apply_scheduling_decision :: "scheduling_decision \<Rightarrow> desired_state \<Rightarrow> placement_refusal + desired_state" where
  "apply_scheduling_decision d s =
     (if list_ex (\<lambda>p. pl_node_id p \<in> retired_nodes s) (sd_placements d) then Inl RetiredTarget
      else if \<not> distinct (map pl_ordinal (sd_placements d)) then Inl (SharedOrdinal (sd_app_id d))
      else case (if starts_with (ai_namespace (sd_app_id d)) ''rbtest-'' then lease_placements d s else Inr s) of
        Inl e \<Rightarrow> Inl e
      | Inr s1 \<Rightarrow>
          Inr (s1\<lparr>
            ds_last_placed_nodes := (if sd_placements d = [] then ds_last_placed_nodes s1
              else AList.update (sd_app_id d) (map pl_node_id (sort_key pl_ordinal (sd_placements d))) (ds_last_placed_nodes s1)),
            ds_scheduling := AList.update (sd_app_id d) (sd_placements d) (ds_scheduling s1)\<rparr>))"

section \<open>Leases\<close>

definition lease_workloads_absent :: "test_lease \<Rightarrow> desired_state \<Rightarrow> bool" where
  "lease_workloads_absent l s \<longleftrightarrow> tl_state l \<noteq> LeaseActive \<and> tl_placements l = {} \<and>
     (\<forall>r \<in> tl_resources l. case r of
        LeasedApp a \<Rightarrow> map_of (ds_apps s) a = None
      | LeasedJob a \<Rightarrow> find_definition (tas_jobs (ds_task_arrays s)) (ai_namespace a) (ai_name a) = None \<and>
          deployment_owner (ds_task_arrays s) (ai_name a) (ai_namespace a) = None
      | LeasedNamespace n \<Rightarrow> map_of (ds_namespaces s) n = None
      | LeasedToken n _ \<Rightarrow> \<not> list_ex (\<lambda>t. tok_name t = n) (ss_api_tokens (ds_security_state s)))"

end
