(* ===== verification/Council.thy ===== *)
theory Council
  imports Desired_State
begin

text \<open>
  The replicated state machine of the council (\<open>council/state_machine.rs\<close>): one definition per
  request of the log, each the whole arm of \<open>apply_request_at\<close> with its refusals, and the
  dispatcher \<open>apply_request_at\<close>, which re-enters itself for the writes of GitOps and for
  policy-fenced writes. A handler answers with the response for the proposer (\<open>None\<close> is the
  generic one) and the new state. The reason of a refusal is a constructor instead of a text.
  The digest of a spec, the fingerprint of a token and the check of a CA's signature are library
  functions and come in \<open>library\<close>. Requests on task arrays and the commit of a job deployment are
  not part of this theory.
\<close>

section \<open>Requests and responses\<close>

record library =
  lib_spec_digest :: "app_spec \<Rightarrow> string"
  lib_token_digest :: "string \<Rightarrow> string"
  lib_signed_by :: "string \<Rightarrow> string \<Rightarrow> bool"

record apply_position =
  ap_previous_log_id :: "log_id option"
  ap_current_log_id :: "log_id option"

record image_copy =
  cp_repository :: string
  cp_manifest_digest :: string
  cp_node_id :: nat
  cp_lease_id :: "string option"
  cp_observed_gc_generation :: nat
  cp_observed_at_unix_ms :: nat

datatype app_request =
    AppSpecWrite app_id app_spec
  | AppStop app_id
  | AppDelete app_id
  | AppRelease app_id
  | SchedulingDecisionWrite scheduling_decision
  | SchedulingDecisions "log_id option" "scheduling_decision list"
  | ConfigSet string string
  | AutoscaleOverride app_id nat string
  | RolloutFailed app_id rollout_failure
  | RolloutReleased app_id app_spec
  | QuotaBlocked "(app_id \<times> quota_error) list"
  | Unschedulable "(app_id \<times> unschedulable_app) list"
  | NamespaceSpecWrite string namespace_spec
  | NamespaceDelete string
  | PermissionSpecWrite string permission_spec
  | PermissionDelete string
  | PolicySpecWrite string policy_spec
  | PolicyDelete string

datatype registry_request =
    ManifestCommitWrite manifest_commit
  | UpdateLayerLocations "(string \<times> nat set) list"
  | ConfirmImageCopy image_copy
  | GcReportWrite gc_report
  | DeleteTagWrite delete_tag
  | ExpireManifestWrite expire_manifest
  | AttachSignatureWrite attach_signature

datatype security_request =
    SecurityStateInit security_state
  | CreateJoinToken join_token
  | ConsumeJoinToken string
  | ConsumeJoinTokenForIssue string
  | CreateApiToken api_token
  | RevokeApiToken string
  | RotateApiToken token_rotation
  | SweepExpiredApiTokens nat
  | AllocateSerial
  | AllocateNodeSerial string
  | RotateSecretKey age_key_scope age_keypair "resealed_secret list"
  | FinalizeSecretRotation age_key_scope
  | RevokeCertificate crl_entry
  | CaRotationBegin ca_role certificate_authority
  | CaRotationPrepare ca_role nat string wrapped_key
  | CaRotationFinalize ca_role nat
  | AcknowledgeNodeTrust string nat

datatype lease_request =
    TestLeaseCreate test_lease
  | TestLeaseRegistryWriter string string nat "string option" nat
  | TestLeaseManifestCommit string nat manifest_commit
  | TestLeaseWorkloadsRetired string
  | TestLeaseRegistryRetired string string nat
  | TestLeaseJobs string nat "app_id list"
  | TestLeaseAppSpec string nat app_id app_spec
  | TestLeaseNamespaceSpec string nat string namespace_spec
  | TestLeaseApiToken string string nat api_token
  | TestLeaseRevokeApiToken string string string
  | TestLeaseRenew string string nat nat
  | TestLeaseBeginCleanup string
  | TestLeaseFinishCleanup string
  | TestLeaseCleanupFailed string string
  | TestLeasePlacementRetired string "app_id \<times> node_id"
  | TestLeaseAppDelete string app_id
  | TestLeaseNamespaceDelete string string

datatype cluster_request =
    Noop
  | GitOpsCoordinatorElection coordinator_election
  | GitOpsSyncUpdate sync_state
  | GitOpsSyncRequested string
  | GitOpsConfigSet "stored_gitops_config option" bool
  | UpgradeUpdate cluster_upgrade_state
  | UpgradeClear string
  | BuildRegister build_record
  | BuildUpdate nat build_state
  | ReserveNodeFault node_fault_reservation "log_id option" "nat set"
  | ReleaseNodeFault nat
  | DecommissionNode string string string nat "log_id option"
  | RegisterEndpointConsumer string
  | AcknowledgeEndpointWithdrawal string nat
  | DischargeEndpointConsumer string
  | RetireEndpointExecution string runtime_execution
  | PublishEndpointCatalog nat endpoint_catalog

datatype raft_request =
    AppReq app_request
  | RegistryReq registry_request
  | SecurityReq security_request
  | LeaseReq lease_request
  | ClusterReq cluster_request
  | GitOpsWrite nat raft_request
  | PolicyFenced nat raft_request "app_spec option"

datatype app_refusal =
    IdentityBelongsToJob
  | DeploymentOwnsApp
  | LeasedWriteRequired
  | ImagesRefused lease_error
  | OwnedByOther app_id
  | AppNotDeployed app_id
  | NoOwnerToRelease app_id
  | LeaseOwnsResource
  | PlacementNeedsPass
  | RevisionChanged
  | PassTooLarge
  | RepeatedApplication
  | PlacementRefused placement_refusal
  | NoAutoscale app_id
  | NotCurrentSpec app_id
  | AlreadyReleased app_id
  | NoSuchPolicy string

datatype registry_refusal =
    NeedsLeaseAndReceipt
  | WriterRetired
  | NeedsCopyConfirmation
  | CopyNotPermitted
  | ManifestGoneRefusal
  | GcGenerationExhausted
  | ExpiryRefused expiry_refused
  | NoManifest string

datatype security_refusal =
    AlreadyInitialised
  | NodeIdentityRetired
  | JoinTokenUnknown
  | JoinTokenSpent
  | TokenNameTaken
  | LastAdmin string
  | LeaseTokenRotation
  | NoToken string
  | RotationInProgress
  | ResealRefused reseal_error
  | NoActiveKey
  | StaleSecrets "string list"
  | CaRefused ca_rotation_error

datatype lease_refusal =
    LeaseInvalid lease_error
  | LeaseNotFresh
  | LeaseExists
  | TooManyLeases
  | NamespaceLeased
  | LeaseMissing
  | RepositoryDenied lease_denied
  | RegistryLeaseInactive
  | WorkloadsRemain
  | WorkloadsNotRetired
  | RepositoryNotLeased
  | LeaseNotActive
  | WrongLeaseScope
  | LeaseNamespaceMismatch
  | LeaseResourceLimit
  | OwnedElsewhere
  | TokenNotLeased
  | TokenReplaced
  | ExpiryNotFuture
  | CleanupNotStarted
  | PlacementsRemain
  | ResourcesRemain
  | RegistryWritersRemain
  | NotRetiring

datatype cluster_refusal =
    DuplicateDelivery
  | TriggerExhausted
  | GitOpsConfigured
  | BuildRefused build_update_error
  | UnstableMembership
  | QuorumRisk
  | ReservationRefused reservation_error
  | InvalidRetirement
  | RetiredLimit
  | MembershipChanged
  | OtherFaultActive
  | EndpointRefused endpoint_refusal
  | LeadershipChanged nat "nat option"
  | OwnerInRepository app_id
  | NotDeclarative
  | NotGitOpsOwned
  | FenceNeedsAppWrite

datatype refusal =
    AppRefusal app_refusal
  | RegistryRefusal registry_refusal
  | SecurityRefusal security_refusal
  | LeaseRefusal lease_refusal
  | ClusterRefusal cluster_refusal

datatype council_response =
    RespOk
  | RespApplied nat
  | SerialAllocated nat
  | GcApproved "string list"
  | Refused refusal
  | BuildRegistered nat
  | JoinTokenConsumed nat
  | NodeDecommissioned node_retirement
  | RegistryPublicationStale
  | EndpointExecutionRetired bool
  | ApiTokensSwept "string list"
  | SyncRequested nat
  | PolicyGenerationMoved nat

type_synonym outcome = "council_response option \<times> desired_state"

definition refuse :: "refusal \<Rightarrow> desired_state \<Rightarrow> outcome" where
  "refuse e s = (Some (Refused e), s)"

definition accept :: "desired_state \<Rightarrow> outcome" where
  "accept s = (None, s)"

definition is_refused :: "council_response option \<Rightarrow> bool" where
  "is_refused r = (case r of Some (Refused _) \<Rightarrow> True | _ \<Rightarrow> False)"

section \<open>Apps\<close>

definition on_app_spec :: "app_id \<Rightarrow> app_spec \<Rightarrow> desired_state \<Rightarrow> outcome" where
  "on_app_spec a spec s =
     (if job_identity_reserved (ds_task_arrays s) (ai_namespace a) (ai_name a) then refuse (AppRefusal IdentityBelongsToJob) s
      else if app_in_deployment s a then refuse (AppRefusal DeploymentOwnsApp) s
      else if valid_test_namespace (ai_namespace a) then refuse (AppRefusal LeasedWriteRequired) s
      else case authorise_image_references (image_references spec) None of
        Some e \<Rightarrow> refuse (AppRefusal (ImagesRefused e)) s
      | None \<Rightarrow>
          if owner_conflict a spec s then refuse (AppRefusal (OwnedByOther a)) s
          else accept (apply_app_spec a spec s))"

definition on_app_stop :: "app_id \<Rightarrow> desired_state \<Rightarrow> outcome" where
  "on_app_stop a s =
     (if app_in_deployment s a then refuse (AppRefusal DeploymentOwnsApp) s
      else if map_of (ds_apps s) a = None then refuse (AppRefusal (AppNotDeployed a)) s
      else accept (s\<lparr>ds_stopped_apps := insert a (ds_stopped_apps s)\<rparr>))"

definition removed_or_refused :: "app_id \<Rightarrow> desired_state \<Rightarrow> outcome" where
  "removed_or_refused a s = (case remove_app a s of None \<Rightarrow> refuse (AppRefusal DeploymentOwnsApp) s | Some s' \<Rightarrow> accept s')"

definition on_app_delete :: "app_id \<Rightarrow> desired_state \<Rightarrow> outcome" where
  "on_app_delete a s =
     (if namespace_is_leased (ai_namespace a) s then refuse (AppRefusal LeaseOwnsResource) s else removed_or_refused a s)"

definition on_app_release :: "app_id \<Rightarrow> desired_state \<Rightarrow> outcome" where
  "on_app_release a s =
     (case map_of (ds_apps s) a of
        None \<Rightarrow> refuse (AppRefusal (AppNotDeployed a)) s
      | Some spec \<Rightarrow>
          if as_owner spec = None then refuse (AppRefusal (NoOwnerToRelease a)) s
          else accept (s\<lparr>ds_apps := AList.update a (spec\<lparr>as_owner := None\<rparr>) (ds_apps s)\<rparr>))"

fun admit_decisions :: "app_id set \<Rightarrow> scheduling_decision list \<Rightarrow> desired_state \<Rightarrow> refusal + desired_state" where
  "admit_decisions seen [] s = Inr s"
| "admit_decisions seen (d # ds) s =
     (if sd_app_id d \<in> seen then Inl (AppRefusal RepeatedApplication)
      else case apply_scheduling_decision d s of
        Inl e \<Rightarrow> Inl (AppRefusal (PlacementRefused e))
      | Inr s' \<Rightarrow> admit_decisions (insert (sd_app_id d) seen) ds s')"

definition on_scheduling_decisions ::
  "apply_position \<Rightarrow> log_id option \<Rightarrow> scheduling_decision list \<Rightarrow> desired_state \<Rightarrow> outcome" where
  "on_scheduling_decisions pos expected decisions s =
     (if expected \<noteq> ap_previous_log_id pos then refuse (AppRefusal RevisionChanged) s
      else if length decisions > 4096 \<or> sum_list (map (length \<circ> sd_placements) decisions) > 131072
        then refuse (AppRefusal PassTooLarge) s
      else case admit_decisions {} decisions s of Inl e \<Rightarrow> refuse e s | Inr s' \<Rightarrow> accept s')"

definition on_autoscale_override :: "app_id \<Rightarrow> nat \<Rightarrow> desired_state \<Rightarrow> outcome" where
  "on_autoscale_override a replicas s =
     (case (case map_of (ds_apps s) a of None \<Rightarrow> None | Some spec \<Rightarrow> as_autoscale spec) of
        None \<Rightarrow> refuse (AppRefusal (NoAutoscale a)) s
      | Some au \<Rightarrow>
          let n = clamp_to_bounds replicas au; key = app_id_string a
          in accept (s\<lparr>ds_autoscale_overrides :=
               (if list_ex (\<lambda>(k, _). k = key) (ds_autoscale_overrides s)
                then update_first (\<lambda>(k, _). k = key) (\<lambda>(k, _). (k, n)) (ds_autoscale_overrides s)
                else ds_autoscale_overrides s @ [(key, n)])\<rparr>))"

definition rollouts_of :: "app_id \<Rightarrow> desired_state \<Rightarrow> app_rollouts" where
  "rollouts_of a s = (case map_of (ds_rollouts s) a of None \<Rightarrow> app_rollouts_default | Some r \<Rightarrow> r)"

definition on_rollout_failed :: "library \<Rightarrow> app_id \<Rightarrow> rollout_failure \<Rightarrow> desired_state \<Rightarrow> outcome" where
  "on_rollout_failed lib a failure s =
     (let fp = rollout_fingerprint (lib_spec_digest lib)
      in if map_option fp (map_of (ds_apps s) a) \<noteq> Some (rf_fingerprint failure) then refuse (AppRefusal (NotCurrentSpec a)) s
         else let r = rollouts_of a s; entered = s\<lparr>ds_rollouts := AList.update a r (ds_rollouts s)\<rparr>
              in if map_option fp (last_released r) = Some (rf_fingerprint failure) then refuse (AppRefusal (AlreadyReleased a)) entered
                 else if failed_for r (rf_fingerprint failure) = None
                 then accept (s\<lparr>ds_rollouts := AList.update a
                        (r\<lparr>ar_failed := Some (failure\<lparr>rf_reason := take_chars 512 (rf_reason failure)\<rparr>)\<rparr>) (ds_rollouts s)\<rparr>)
                 else accept entered)"

definition on_rollout_released :: "library \<Rightarrow> app_id \<Rightarrow> app_spec \<Rightarrow> desired_state \<Rightarrow> outcome" where
  "on_rollout_released lib a spec s =
     (let fp = rollout_fingerprint (lib_spec_digest lib)
      in if map_option fp (map_of (ds_apps s) a) \<noteq> Some (fp spec) then refuse (AppRefusal (NotCurrentSpec a)) s
         else let r = rollouts_of a s;
                  r1 = (if failed_for r (fp spec) \<noteq> None then r\<lparr>ar_failed := None\<rparr> else r)
              in accept (s\<lparr>ds_rollouts := AList.update a (ar_release (lib_spec_digest lib) spec r1) (ds_rollouts s)\<rparr>))"

text \<open>Collecting pairs into a hash map: the last value of a key stays.\<close>

definition collect_map :: "('k \<times> 'v) list \<Rightarrow> ('k \<times> 'v) list" where
  "collect_map ps = foldl (\<lambda>m (k, v). AList.update k v m) [] ps"

definition deployed_only :: "(app_id \<times> 'v) list \<Rightarrow> desired_state \<Rightarrow> (app_id \<times> 'v) list" where
  "deployed_only ps s = collect_map (filter (\<lambda>(a, _). map_of (ds_apps s) a \<noteq> None) ps)"

definition on_namespace_spec :: "string \<Rightarrow> namespace_spec \<Rightarrow> desired_state \<Rightarrow> outcome" where
  "on_namespace_spec name spec s =
     (if valid_test_namespace name then refuse (AppRefusal LeasedWriteRequired) s
      else accept (s\<lparr>ds_namespaces := bt_insert name spec (ds_namespaces s)\<rparr>))"

definition forget_namespace :: "string \<Rightarrow> desired_state \<Rightarrow> desired_state" where
  "forget_namespace name s = s\<lparr>ds_namespaces := bt_remove name (ds_namespaces s),
     ds_gitops_owned := (ds_gitops_owned s)\<lparr>go_namespaces := go_namespaces (ds_gitops_owned s) - {name}\<rparr>\<rparr>"

definition on_namespace_delete :: "string \<Rightarrow> desired_state \<Rightarrow> outcome" where
  "on_namespace_delete name s =
     (if namespace_is_leased name s then refuse (AppRefusal LeaseOwnsResource) s else accept (forget_namespace name s))"

definition on_permission_delete :: "string \<Rightarrow> desired_state \<Rightarrow> outcome" where
  "on_permission_delete name s = accept (s\<lparr>ds_permissions := bt_remove name (ds_permissions s),
     ds_gitops_owned := (ds_gitops_owned s)\<lparr>go_permissions := go_permissions (ds_gitops_owned s) - {name}\<rparr>\<rparr>)"

definition on_policy_spec :: "string \<Rightarrow> policy_spec \<Rightarrow> desired_state \<Rightarrow> outcome" where
  "on_policy_spec name spec s = accept (s\<lparr>ds_policies := bt_insert name spec (ds_policies s),
     ds_policy_generation := sat_add64 (ds_policy_generation s) 1\<rparr>)"

definition on_policy_delete :: "string \<Rightarrow> desired_state \<Rightarrow> outcome" where
  "on_policy_delete name s =
     (if map_of (ds_policies s) name = None then refuse (AppRefusal (NoSuchPolicy name)) s
      else accept (s\<lparr>ds_policies := bt_remove name (ds_policies s),
        ds_gitops_owned := (ds_gitops_owned s)\<lparr>go_policies := go_policies (ds_gitops_owned s) - {name}\<rparr>,
        ds_policy_generation := sat_add64 (ds_policy_generation s) 1\<rparr>))"

fun apply_app_request :: "library \<Rightarrow> apply_position \<Rightarrow> app_request \<Rightarrow> desired_state \<Rightarrow> outcome" where
  "apply_app_request lib pos (AppSpecWrite a spec) s = on_app_spec a spec s"
| "apply_app_request lib pos (AppStop a) s = on_app_stop a s"
| "apply_app_request lib pos (AppDelete a) s = on_app_delete a s"
| "apply_app_request lib pos (AppRelease a) s = on_app_release a s"
| "apply_app_request lib pos (SchedulingDecisionWrite d) s = refuse (AppRefusal PlacementNeedsPass) s"
| "apply_app_request lib pos (SchedulingDecisions expected ds) s = on_scheduling_decisions pos expected ds s"
| "apply_app_request lib pos (ConfigSet key v) s = accept (s\<lparr>ds_config := AList.update key v (ds_config s)\<rparr>)"
| "apply_app_request lib pos (AutoscaleOverride a n reason) s = on_autoscale_override a n s"
| "apply_app_request lib pos (RolloutFailed a f) s = on_rollout_failed lib a f s"
| "apply_app_request lib pos (RolloutReleased a spec) s = on_rollout_released lib a spec s"
| "apply_app_request lib pos (QuotaBlocked ps) s = accept (s\<lparr>ds_quota_blocked := deployed_only ps s\<rparr>)"
| "apply_app_request lib pos (Unschedulable ps) s = accept (s\<lparr>ds_unschedulable := deployed_only ps s\<rparr>)"
| "apply_app_request lib pos (NamespaceSpecWrite name spec) s = on_namespace_spec name spec s"
| "apply_app_request lib pos (NamespaceDelete name) s = on_namespace_delete name s"
| "apply_app_request lib pos (PermissionSpecWrite name spec) s =
     accept (s\<lparr>ds_permissions := bt_insert name spec (ds_permissions s)\<rparr>)"
| "apply_app_request lib pos (PermissionDelete name) s = on_permission_delete name s"
| "apply_app_request lib pos (PolicySpecWrite name spec) s = on_policy_spec name spec s"
| "apply_app_request lib pos (PolicyDelete name) s = on_policy_delete name s"

section \<open>The registry\<close>

definition on_manifest_commit :: "manifest_commit \<Rightarrow> desired_state \<Rightarrow> outcome" where
  "on_manifest_commit c s =
     (if \<not> registry_publication_is_current c s then (Some RegistryPublicationStale, s)
      else if reserved_repository (im_repository (mc_manifest c)) then refuse (RegistryRefusal NeedsLeaseAndReceipt) s
      else if list_ex (\<lambda>(name, _). let i = raft_id_from_name name
             in im_pushed_by (mc_manifest c) = i \<or> i \<in> mc_holder_nodes c)
           (crl_retired_nodes (ss_crl (ds_security_state s)))
        then refuse (RegistryRefusal WriterRetired) s
      else accept (s\<lparr>ds_manifest_catalog := apply_manifest_commit c (ds_manifest_catalog s)\<rparr>))"

definition copy_permitted :: "image_copy \<Rightarrow> desired_state \<Rightarrow> bool" where
  "copy_permitted c s =
     (let owner = map_of (mcat_repository_owners (ds_manifest_catalog s)) (cp_repository c);
          reserved = reserved_repository (cp_repository c)
      in case cp_lease_id c of
           Some i \<Rightarrow> reserved \<and> owner = Some i \<and>
             (case map_of (ds_test_leases s) i of
                None \<Rightarrow> False
              | Some l \<Rightarrow> permits_registry_copy l (cp_repository c) (cp_node_id c) (cp_observed_at_unix_ms c))
         | None \<Rightarrow> \<not> reserved \<and> owner = None)"

definition on_confirm_image_copy :: "image_copy \<Rightarrow> desired_state \<Rightarrow> outcome" where
  "on_confirm_image_copy c s =
     (if registry_node_retired (cp_node_id c) s then refuse (RegistryRefusal WriterRetired) s
      else if gc_generation s (cp_node_id c) \<noteq> cp_observed_gc_generation c then (Some RegistryPublicationStale, s)
      else if \<not> copy_permitted c s then refuse (RegistryRefusal CopyNotPermitted) s
      else let (found, cat) = add_manifest_holder (cp_repository c) (cp_manifest_digest c) (cp_node_id c) (ds_manifest_catalog s)
           in if \<not> found then refuse (RegistryRefusal ManifestGoneRefusal) (s\<lparr>ds_manifest_catalog := cat\<rparr>)
              else accept (s\<lparr>ds_manifest_catalog := cat\<rparr>))"

definition on_gc_report :: "gc_report \<Rightarrow> desired_state \<Rightarrow> outcome" where
  "on_gc_report r s =
     (if registry_node_retired (gr_node_id r) s then refuse (RegistryRefusal WriterRetired) s
      else let (approved, cat) = apply_gc_report r (ds_manifest_catalog s)
           in if approved = [] then (Some (GcApproved approved), s)
              else case checked_add64 (gc_generation s (gr_node_id r)) 1 of
                None \<Rightarrow> refuse (RegistryRefusal GcGenerationExhausted) s
              | Some g \<Rightarrow> (Some (GcApproved approved),
                  s\<lparr>ds_registry_gc_generations := bt_insert (gr_node_id r) g (ds_registry_gc_generations s),
                    ds_manifest_catalog := cat\<rparr>))"

definition on_expire_manifest :: "expire_manifest \<Rightarrow> desired_state \<Rightarrow> outcome" where
  "on_expire_manifest e s =
     (case apply_expire_manifest e (pinned_image_digests s) (ds_manifest_catalog s) of
        Inl r \<Rightarrow> refuse (RegistryRefusal (ExpiryRefused r)) s
      | Inr cat \<Rightarrow> accept (s\<lparr>ds_manifest_catalog := cat\<rparr>))"

definition on_attach_signature :: "attach_signature \<Rightarrow> desired_state \<Rightarrow> outcome" where
  "on_attach_signature a s =
     (let (found, cat) = apply_attach_signature a (ds_manifest_catalog s)
      in if \<not> found then refuse (RegistryRefusal (NoManifest (at_manifest_digest a))) (s\<lparr>ds_manifest_catalog := cat\<rparr>)
         else accept (s\<lparr>ds_manifest_catalog := cat\<rparr>))"

fun apply_registry_request :: "registry_request \<Rightarrow> desired_state \<Rightarrow> outcome" where
  "apply_registry_request (ManifestCommitWrite c) s = on_manifest_commit c s"
| "apply_registry_request (UpdateLayerLocations u) s = refuse (RegistryRefusal NeedsCopyConfirmation) s"
| "apply_registry_request (ConfirmImageCopy c) s = on_confirm_image_copy c s"
| "apply_registry_request (GcReportWrite r) s = on_gc_report r s"
| "apply_registry_request (DeleteTagWrite d) s =
     accept (s\<lparr>ds_manifest_catalog := snd (apply_delete_tag d (ds_manifest_catalog s))\<rparr>)"
| "apply_registry_request (ExpireManifestWrite e) s = on_expire_manifest e s"
| "apply_registry_request (AttachSignatureWrite a) s = on_attach_signature a s"

section \<open>Security\<close>

text \<open>The change of the security state inside the desired state.\<close>

definition secured :: "desired_state \<Rightarrow> security_state \<Rightarrow> desired_state" where
  "secured s ss = s\<lparr>ds_security_state := ss\<rparr>"

definition on_security_init :: "security_state \<Rightarrow> desired_state \<Rightarrow> outcome" where
  "on_security_init ss s =
     (if is_initialised (ds_security_state s) then refuse (SecurityRefusal AlreadyInitialised) s else accept (secured s ss))"

definition on_create_join_token :: "join_token \<Rightarrow> desired_state \<Rightarrow> outcome" where
  "on_create_join_token jt s =
     (if jt_node_id jt \<in> retired_nodes s then refuse (SecurityRefusal NodeIdentityRetired) s
      else accept (secured s (add_join_token jt (ds_security_state s))))"

definition on_consume_join_token :: "string \<Rightarrow> desired_state \<Rightarrow> outcome" where
  "on_consume_join_token h s = accept (secured s ((ds_security_state s)\<lparr>
     ss_join_tokens := consume_first h (ss_join_tokens (ds_security_state s))\<rparr>))"

definition on_consume_for_issue :: "string \<Rightarrow> desired_state \<Rightarrow> outcome" where
  "on_consume_for_issue h s =
     (let ss = ds_security_state s
      in case find (\<lambda>t. jt_token_hash t = h) (ss_join_tokens ss) of
           None \<Rightarrow> refuse (SecurityRefusal JoinTokenUnknown) s
         | Some t \<Rightarrow>
             if jt_node_id t \<in> retired_nodes s then refuse (SecurityRefusal NodeIdentityRetired) s
             else if jt_consumed t then refuse (SecurityRefusal JoinTokenSpent) s
             else let (serial, ss1) = allocate_serial (ss\<lparr>ss_join_tokens := consume_first h (ss_join_tokens ss)\<rparr>)
                  in (Some (JoinTokenConsumed serial), secured s (record_node_leaf (jt_node_id t) serial ss1)))"

definition on_create_api_token :: "api_token \<Rightarrow> desired_state \<Rightarrow> outcome" where
  "on_create_api_token t s =
     (let ss = ds_security_state s
      in if starts_with (tok_name t) ''rbtest-'' \<or> list_ex (\<lambda>e. tok_name e = tok_name t) (ss_api_tokens ss)
         then refuse (SecurityRefusal TokenNameTaken) s
         else accept (secured s (ss\<lparr>ss_api_tokens := ss_api_tokens ss @ [t]\<rparr>)))"

definition on_revoke_api_token :: "string \<Rightarrow> desired_state \<Rightarrow> outcome" where
  "on_revoke_api_token name s =
     (let ss = ds_security_state s; toks = ss_api_tokens ss
      in if list_ex (\<lambda>t. tok_name t = name \<and> tok_role t = Admin) toks \<and>
            length (filter (\<lambda>t. tok_role t = Admin) toks) \<le> 1
         then refuse (SecurityRefusal (LastAdmin name)) s
         else accept (secured s (ss\<lparr>ss_api_tokens := filter (\<lambda>t. tok_name t \<noteq> name) toks\<rparr>)))"

definition on_rotate_api_token :: "token_rotation \<Rightarrow> desired_state \<Rightarrow> outcome" where
  "on_rotate_api_token r s =
     (let ss = ds_security_state s
      in if starts_with (tr_name r) ''rbtest-'' then refuse (SecurityRefusal LeaseTokenRotation) s
         else if \<not> list_ex (\<lambda>t. tok_name t = tr_name r) (ss_api_tokens ss) then refuse (SecurityRefusal (NoToken (tr_name r))) s
         else accept (secured s (ss\<lparr>ss_api_tokens :=
           update_first (\<lambda>t. tok_name t = tr_name r) (apply_rotation r) (ss_api_tokens ss)\<rparr>)))"

definition on_sweep_tokens :: "nat \<Rightarrow> desired_state \<Rightarrow> outcome" where
  "on_sweep_tokens now s =
     (let ss = ds_security_state s; removed = tokens_to_sweep (ss_api_tokens ss) now
      in (Some (ApiTokensSwept removed),
          secured s (ss\<lparr>ss_api_tokens := filter (\<lambda>t. tok_name t \<notin> set removed) (ss_api_tokens ss)\<rparr>)))"

definition on_allocate_serial :: "desired_state \<Rightarrow> outcome" where
  "on_allocate_serial s =
     (let (serial, ss) = allocate_serial (ds_security_state s) in (Some (SerialAllocated serial), secured s ss))"

definition on_allocate_node_serial :: "string \<Rightarrow> desired_state \<Rightarrow> outcome" where
  "on_allocate_node_serial node s =
     (if node \<in> retired_nodes s then refuse (SecurityRefusal NodeIdentityRetired) s
      else let (serial, ss) = allocate_serial (ds_security_state s)
           in (Some (SerialAllocated serial), secured s (record_node_leaf node serial ss)))"

definition keys_of_scope :: "age_key_scope \<Rightarrow> security_state \<Rightarrow> (age_keypair \<Rightarrow> bool) \<Rightarrow> bool" where
  "keys_of_scope scope ss P \<longleftrightarrow> list_ex (\<lambda>kp. kp_scope kp = scope \<and> P kp) (ss_age_keypairs ss)"

definition with_new_key :: "age_key_scope \<Rightarrow> age_keypair \<Rightarrow> age_keypair list \<Rightarrow> age_keypair list" where
  "with_new_key scope kp kps = map (\<lambda>k. if kp_scope k = scope then k\<lparr>kp_read_only := True\<rparr> else k) kps @ [kp]"

definition on_rotate_secret_key :: "age_key_scope \<Rightarrow> age_keypair \<Rightarrow> resealed_secret list \<Rightarrow> desired_state \<Rightarrow> outcome" where
  "on_rotate_secret_key scope kp resealed s =
     (let ss = ds_security_state s
      in if keys_of_scope scope ss (\<lambda>k. kp_generation k = kp_generation kp) then accept s
         else if keys_of_scope scope ss kp_read_only then refuse (SecurityRefusal RotationInProgress) s
         else let first_key = (\<not> keys_of_scope scope ss (\<lambda>_. True))
              in case (if resealed \<noteq> [] then check_reseal scope first_key resealed s else None) of
                   Some e \<Rightarrow> refuse (SecurityRefusal (ResealRefused e)) s
                 | None \<Rightarrow>
                     let s1 = secured s (ss\<lparr>ss_age_keypairs := with_new_key scope kp (ss_age_keypairs ss)\<rparr>)
                     in (case scope of
                           NamespaceKey ns \<Rightarrow> accept (if first_key then adopt_namespace_key ns resealed s1 else s1)
                         | ClusterWide \<Rightarrow> accept s1))"

definition opens_root_ca_backup :: "age_keypair \<Rightarrow> bool" where
  "opens_root_ca_backup kp \<longleftrightarrow> kp_scope kp = ClusterWide \<and> kp_generation kp = 0"

definition newest_generation :: "age_key_scope \<Rightarrow> security_state \<Rightarrow> nat" where
  "newest_generation scope ss = foldr max (map kp_generation (filter (\<lambda>k. kp_scope k = scope) (ss_age_keypairs ss))) 0"

definition on_finalize_secret_rotation :: "age_key_scope \<Rightarrow> desired_state \<Rightarrow> outcome" where
  "on_finalize_secret_rotation scope s =
     (let ss = ds_security_state s
      in if \<not> keys_of_scope scope ss (\<lambda>k. \<not> kp_read_only k) then refuse (SecurityRefusal NoActiveKey) s
         else let stale = stale_sealed_secrets scope (newest_generation scope ss) s
              in if stale \<noteq> [] then refuse (SecurityRefusal (StaleSecrets stale)) s
                 else accept (secured s (ss\<lparr>ss_age_keypairs :=
                   filter (\<lambda>k. kp_scope k \<noteq> scope \<or> \<not> kp_read_only k \<or> opens_root_ca_backup k) (ss_age_keypairs ss)\<rparr>)))"

definition on_revoke_certificate :: "crl_entry \<Rightarrow> desired_state \<Rightarrow> outcome" where
  "on_revoke_certificate e s =
     (let ss = ds_security_state s; c = ss_crl ss; now = ce_revoked_at e
      in accept (secured s (ss\<lparr>ss_crl := c\<lparr>
           crl_entries := filter (\<lambda>x. case ce_expires_at x of None \<Rightarrow> True | Some expiry \<Rightarrow> expiry > now) (crl_entries c @ [e]),
           crl_version := add64 (crl_version c) 1,
           crl_updated_at := now\<rparr>\<rparr>)))"

definition on_ca_begin :: "library \<Rightarrow> ca_role \<Rightarrow> certificate_authority \<Rightarrow> desired_state \<Rightarrow> outcome" where
  "on_ca_begin lib role ca s =
     (case begin_rotation (lib_signed_by lib) role ca (ds_security_state s) of
        Inl e \<Rightarrow> refuse (SecurityRefusal (CaRefused e)) s | Inr (_, ss) \<Rightarrow> accept (secured s ss))"

definition on_ca_prepare :: "ca_role \<Rightarrow> nat \<Rightarrow> string \<Rightarrow> wrapped_key \<Rightarrow> desired_state \<Rightarrow> outcome" where
  "on_ca_prepare role gen csr key s =
     (case prepare_rotation role gen csr key (ds_security_state s) of
        Inl e \<Rightarrow> refuse (SecurityRefusal (CaRefused e)) s
      | Inr (serial, ss) \<Rightarrow> (Some (SerialAllocated serial), secured s ss))"

definition on_ca_finalize :: "ca_role \<Rightarrow> nat \<Rightarrow> desired_state \<Rightarrow> outcome" where
  "on_ca_finalize role now s =
     (case finalize_rotation role (int now * 1000000) (ds_security_state s) of
        Inl e \<Rightarrow> refuse (SecurityRefusal (CaRefused e)) s | Inr ss \<Rightarrow> accept (secured s ss))"

definition on_acknowledge_trust :: "string \<Rightarrow> nat \<Rightarrow> desired_state \<Rightarrow> outcome" where
  "on_acknowledge_trust node gen s =
     (case acknowledge_trust node gen (ds_security_state s) of
        Inl e \<Rightarrow> refuse (SecurityRefusal (CaRefused e)) s | Inr ss \<Rightarrow> accept (secured s ss))"

fun apply_security_request :: "library \<Rightarrow> security_request \<Rightarrow> desired_state \<Rightarrow> outcome" where
  "apply_security_request lib (SecurityStateInit ss) s = on_security_init ss s"
| "apply_security_request lib (CreateJoinToken jt) s = on_create_join_token jt s"
| "apply_security_request lib (ConsumeJoinToken h) s = on_consume_join_token h s"
| "apply_security_request lib (ConsumeJoinTokenForIssue h) s = on_consume_for_issue h s"
| "apply_security_request lib (CreateApiToken t) s = on_create_api_token t s"
| "apply_security_request lib (RevokeApiToken name) s = on_revoke_api_token name s"
| "apply_security_request lib (RotateApiToken r) s = on_rotate_api_token r s"
| "apply_security_request lib (SweepExpiredApiTokens now) s = on_sweep_tokens now s"
| "apply_security_request lib AllocateSerial s = on_allocate_serial s"
| "apply_security_request lib (AllocateNodeSerial node) s = on_allocate_node_serial node s"
| "apply_security_request lib (RotateSecretKey scope kp resealed) s = on_rotate_secret_key scope kp resealed s"
| "apply_security_request lib (FinalizeSecretRotation scope) s = on_finalize_secret_rotation scope s"
| "apply_security_request lib (RevokeCertificate e) s = on_revoke_certificate e s"
| "apply_security_request lib (CaRotationBegin role ca) s = on_ca_begin lib role ca s"
| "apply_security_request lib (CaRotationPrepare role gen csr key) s = on_ca_prepare role gen csr key s"
| "apply_security_request lib (CaRotationFinalize role now) s = on_ca_finalize role now s"
| "apply_security_request lib (AcknowledgeNodeTrust node gen) s = on_acknowledge_trust node gen s"

section \<open>Test leases\<close>

definition update_lease :: "string \<Rightarrow> (test_lease \<Rightarrow> test_lease) \<Rightarrow> desired_state \<Rightarrow> desired_state" where
  "update_lease i f s = s\<lparr>ds_test_leases := alter_key i f (ds_test_leases s)\<rparr>"

definition attach_resource :: "string \<Rightarrow> leased_resource \<Rightarrow> desired_state \<Rightarrow> desired_state" where
  "attach_resource i r = update_lease i (\<lambda>l. l\<lparr>tl_resources := insert r (tl_resources l)\<rparr>)"

definition on_lease_create :: "test_lease \<Rightarrow> desired_state \<Rightarrow> outcome" where
  "on_lease_create l s =
     (if tl_repositories l \<noteq> [] \<or> tl_workloads_retired l then refuse (LeaseRefusal LeaseNotFresh) s
      else case lease_validate l of
        Some e \<Rightarrow> refuse (LeaseRefusal (LeaseInvalid e)) s
      | None \<Rightarrow>
          if map_of (ds_test_leases s) (tl_lease_id l) \<noteq> None then refuse (LeaseRefusal LeaseExists) s
          else if length (ds_test_leases s) \<ge> MAX_ACTIVE_TEST_LEASES then refuse (LeaseRefusal TooManyLeases) s
          else if list_ex (\<lambda>(_, e). tl_namespace e = tl_namespace l) (ds_test_leases s)
            then refuse (LeaseRefusal NamespaceLeased) s
          else accept (s\<lparr>ds_test_leases := bt_insert (tl_lease_id l) l (ds_test_leases s)\<rparr>))"

definition on_lease_registry_writer ::
  "string \<Rightarrow> string \<Rightarrow> nat \<Rightarrow> string option \<Rightarrow> nat \<Rightarrow> desired_state \<Rightarrow> outcome" where
  "on_lease_registry_writer i repository node owner now s =
     (if registry_node_retired node s then refuse (RegistryRefusal WriterRetired) s
      else case map_of (ds_test_leases s) i of
        None \<Rightarrow> refuse (LeaseRefusal LeaseMissing) s
      | Some l \<Rightarrow>
          (case attach_registry_writer repository node owner now l of
             Inl e \<Rightarrow> refuse (LeaseRefusal (LeaseInvalid e)) s
           | Inr l' \<Rightarrow> accept (update_lease i (\<lambda>_. l') s)))"

definition on_lease_manifest_commit :: "string \<Rightarrow> nat \<Rightarrow> manifest_commit \<Rightarrow> desired_state \<Rightarrow> outcome" where
  "on_lease_manifest_commit i now c s =
     (if \<not> registry_publication_is_current c s then (Some RegistryPublicationStale, s)
      else if registry_node_retired (im_pushed_by (mc_manifest c)) s \<or>
           (case map_of (ds_test_leases s) i of None \<Rightarrow> True | Some l \<Rightarrow> \<not> permits_registry_commit l c now)
        then refuse (LeaseRefusal RegistryLeaseInactive) s
      else case claim_repository (im_repository (mc_manifest c)) i (ds_manifest_catalog s) of
        Inl e \<Rightarrow> refuse (LeaseRefusal (RepositoryDenied e)) s
      | Inr cat \<Rightarrow> accept (s\<lparr>ds_manifest_catalog := apply_manifest_commit c cat\<rparr>))"

definition on_lease_workloads_retired :: "string \<Rightarrow> desired_state \<Rightarrow> outcome" where
  "on_lease_workloads_retired i s =
     (case map_of (ds_test_leases s) i of
        None \<Rightarrow> refuse (LeaseRefusal LeaseMissing) s
      | Some l \<Rightarrow>
          if \<not> lease_workloads_absent l s then refuse (LeaseRefusal WorkloadsRemain) s
          else accept (update_lease i (\<lambda>l. l\<lparr>tl_workloads_retired := True\<rparr>) s))"

definition on_lease_registry_retired :: "string \<Rightarrow> string \<Rightarrow> nat \<Rightarrow> desired_state \<Rightarrow> outcome" where
  "on_lease_registry_retired i repository node s =
     (case map_of (ds_test_leases s) i of
        None \<Rightarrow> refuse (LeaseRefusal LeaseMissing) s
      | Some l \<Rightarrow>
          if \<not> tl_workloads_retired l \<or> tl_state l = LeaseActive then refuse (LeaseRefusal WorkloadsNotRetired) s
          else if map_of (tl_repositories l) repository = None then refuse (LeaseRefusal RepositoryNotLeased) s
          else accept (update_lease i (\<lambda>l. l\<lparr>tl_repositories :=
            alter_key repository (\<lambda>owners. owners - {node}) (tl_repositories l)\<rparr>) s))"

definition on_lease_jobs :: "string \<Rightarrow> nat \<Rightarrow> app_id list \<Rightarrow> desired_state \<Rightarrow> outcome" where
  "on_lease_jobs i now jobs s =
     (case map_of (ds_test_leases s) i of
        None \<Rightarrow> refuse (LeaseRefusal LeaseMissing) s
      | Some l \<Rightarrow>
          if \<not> is_active_at l now then refuse (LeaseRefusal LeaseNotActive) s
          else if tl_scope l \<noteq> NodeJobs then refuse (LeaseRefusal WrongLeaseScope) s
          else if list_ex (\<lambda>j. ai_namespace j \<noteq> tl_namespace l) jobs then refuse (LeaseRefusal LeaseNamespaceMismatch) s
          else let resources = LeasedJob ` set jobs
               in if resource_count l + card (resources - tl_resources l) > MAX_LEASED_RESOURCES
                    then refuse (LeaseRefusal LeaseResourceLimit) s
                  else if list_ex (\<lambda>(j, c). j \<noteq> i \<and> resources \<inter> tl_resources c \<noteq> {}) (ds_test_leases s)
                    then refuse (LeaseRefusal OwnedElsewhere) s
                  else accept (update_lease i (\<lambda>l. l\<lparr>tl_resources := tl_resources l \<union> resources\<rparr>) s))"

definition on_lease_app_spec :: "string \<Rightarrow> nat \<Rightarrow> app_id \<Rightarrow> app_spec \<Rightarrow> desired_state \<Rightarrow> outcome" where
  "on_lease_app_spec i now a spec s =
     (if app_in_deployment s a then refuse (AppRefusal DeploymentOwnsApp) s
      else case map_of (ds_test_leases s) i of
        None \<Rightarrow> refuse (LeaseRefusal LeaseMissing) s
      | Some l \<Rightarrow>
          if tl_scope l \<noteq> Applications then refuse (LeaseRefusal WrongLeaseScope) s
          else if \<not> is_active_at l now then refuse (LeaseRefusal LeaseNotActive) s
          else if ai_namespace a \<noteq> tl_namespace l then refuse (LeaseRefusal LeaseNamespaceMismatch) s
          else case authorise_image_references (image_references spec) (Some (l, now)) of
            Some e \<Rightarrow> refuse (AppRefusal (ImagesRefused e)) s
          | None \<Rightarrow>
              let owned = LeasedApp a \<in> tl_resources l
              in if \<not> owned \<and> resource_count l \<ge> MAX_LEASED_RESOURCES then refuse (LeaseRefusal LeaseResourceLimit) s
                 else if list_ex (\<lambda>(j, c). j \<noteq> i \<and> LeasedApp a \<in> tl_resources c) (ds_test_leases s) \<or>
                      (map_of (ds_apps s) a \<noteq> None \<and> \<not> owned)
                   then refuse (LeaseRefusal OwnedElsewhere) s
                 else if owner_conflict a spec s then refuse (AppRefusal (OwnedByOther a)) s
                 else accept (apply_app_spec a spec (attach_resource i (LeasedApp a) s)))"

definition on_lease_namespace_spec :: "string \<Rightarrow> nat \<Rightarrow> string \<Rightarrow> namespace_spec \<Rightarrow> desired_state \<Rightarrow> outcome" where
  "on_lease_namespace_spec i now name spec s =
     (case map_of (ds_test_leases s) i of
        None \<Rightarrow> refuse (LeaseRefusal LeaseMissing) s
      | Some l \<Rightarrow>
          if tl_scope l \<noteq> Applications then refuse (LeaseRefusal WrongLeaseScope) s
          else if \<not> is_active_at l now then refuse (LeaseRefusal LeaseNotActive) s
          else if name \<noteq> tl_namespace l then refuse (LeaseRefusal LeaseNamespaceMismatch) s
          else let owned = LeasedNamespace name \<in> tl_resources l
               in if \<not> owned \<and> resource_count l \<ge> MAX_LEASED_RESOURCES then refuse (LeaseRefusal LeaseResourceLimit) s
                  else if map_of (ds_namespaces s) name \<noteq> None \<and> \<not> owned then refuse (LeaseRefusal OwnedElsewhere) s
                  else accept ((attach_resource i (LeasedNamespace name) s)\<lparr>
                    ds_namespaces := bt_insert name spec (ds_namespaces s)\<rparr>))"

definition names_token :: "string \<Rightarrow> leased_resource \<Rightarrow> bool" where
  "names_token name r = (case r of LeasedToken n _ \<Rightarrow> n = name | _ \<Rightarrow> False)"

definition on_lease_api_token :: "library \<Rightarrow> string \<Rightarrow> string \<Rightarrow> nat \<Rightarrow> api_token \<Rightarrow> desired_state \<Rightarrow> outcome" where
  "on_lease_api_token lib i owner now t s =
     (case map_of (ds_test_leases s) i of
        None \<Rightarrow> refuse (LeaseRefusal LeaseMissing) s
      | Some l \<Rightarrow>
          if tl_scope l \<noteq> Applications then refuse (LeaseRefusal WrongLeaseScope) s
          else case token_resource (lib_token_digest lib) l t owner now of
            Inl e \<Rightarrow> refuse (LeaseRefusal (LeaseInvalid e)) s
          | Inr r \<Rightarrow>
              let ss = ds_security_state s
              in if list_ex (\<lambda>(_, l). \<exists>r \<in> tl_resources l. names_token (tok_name t) r) (ds_test_leases s) \<or>
                    list_ex (\<lambda>e. tok_name e = tok_name t) (ss_api_tokens ss)
                 then refuse (SecurityRefusal TokenNameTaken) s
                 else accept (secured (attach_resource i r s) (ss\<lparr>ss_api_tokens := ss_api_tokens ss @ [t]\<rparr>)))"

definition on_lease_revoke_token :: "library \<Rightarrow> string \<Rightarrow> string \<Rightarrow> string \<Rightarrow> desired_state \<Rightarrow> outcome" where
  "on_lease_revoke_token lib i name fingerprint s =
     (let ss = ds_security_state s
      in if (case map_of (ds_test_leases s) i of
               None \<Rightarrow> True
             | Some l \<Rightarrow> tl_state l = LeaseActive \<or> LeasedToken name fingerprint \<notin> tl_resources l)
         then refuse (LeaseRefusal TokenNotLeased) s
         else if list_ex (\<lambda>t. tok_name t = name \<and>
                (lib_token_digest lib (tok_token_hash t) \<noteq> fingerprint \<or> tok_role t = Admin)) (ss_api_tokens ss)
         then refuse (LeaseRefusal TokenReplaced) s
         else accept (secured s (ss\<lparr>ss_api_tokens := filter (\<lambda>t. tok_name t \<noteq> name) (ss_api_tokens ss)\<rparr>)))"

definition on_lease_renew :: "string \<Rightarrow> string \<Rightarrow> nat \<Rightarrow> nat \<Rightarrow> desired_state \<Rightarrow> outcome" where
  "on_lease_renew i owner renewed expires s =
     (case map_of (ds_test_leases s) i of
        None \<Rightarrow> refuse (LeaseRefusal LeaseMissing) s
      | Some l \<Rightarrow>
          (case authorise_owner l owner renewed of
             Some e \<Rightarrow> refuse (LeaseRefusal (LeaseInvalid e)) s
           | None \<Rightarrow>
               if expires \<le> renewed then refuse (LeaseRefusal ExpiryNotFuture) s
               else accept (update_lease i (\<lambda>l. l\<lparr>tl_expires_at_unix_ms := expires\<rparr>) s)))"

definition on_lease_begin_cleanup :: "string \<Rightarrow> desired_state \<Rightarrow> outcome" where
  "on_lease_begin_cleanup i s =
     (case map_of (ds_test_leases s) i of
        None \<Rightarrow> refuse (LeaseRefusal LeaseMissing) s
      | Some l \<Rightarrow>
          let attempts = (case tl_state l of LeaseActive \<Rightarrow> 1 | LeaseCleaning n _ \<Rightarrow> min (n + 1) u32_max)
          in accept (update_lease i (\<lambda>l. l\<lparr>tl_state := LeaseCleaning attempts None\<rparr>) s))"

definition resource_remains :: "desired_state \<Rightarrow> leased_resource \<Rightarrow> bool" where
  "resource_remains s r = (case r of
     LeasedJob a \<Rightarrow> find_definition (tas_jobs (ds_task_arrays s)) (ai_namespace a) (ai_name a) \<noteq> None \<or>
       deployment_owner (ds_task_arrays s) (ai_name a) (ai_namespace a) \<noteq> None
   | LeasedToken name _ \<Rightarrow> list_ex (\<lambda>t. tok_name t = name) (ss_api_tokens (ds_security_state s))
   | LeasedApp a \<Rightarrow> map_of (ds_apps s) a \<noteq> None
   | LeasedNamespace name \<Rightarrow> map_of (ds_namespaces s) name \<noteq> None)"

definition on_lease_finish_cleanup :: "string \<Rightarrow> desired_state \<Rightarrow> outcome" where
  "on_lease_finish_cleanup i s =
     (case map_of (ds_test_leases s) i of
        None \<Rightarrow> refuse (LeaseRefusal LeaseMissing) s
      | Some l \<Rightarrow>
          if tl_state l = LeaseActive then refuse (LeaseRefusal CleanupNotStarted) s
          else if tl_placements l \<noteq> {} then refuse (LeaseRefusal PlacementsRemain) s
          else if \<exists>r \<in> tl_resources l. resource_remains s r then refuse (LeaseRefusal ResourcesRemain) s
          else if \<not> registry_retirement_confirmed l then refuse (LeaseRefusal RegistryWritersRemain) s
          else let repositories = map fst (tl_repositories l)
               in case first_some (\<lambda>r. check_repository_owner (ds_manifest_catalog s) r i) repositories of
                    Some e \<Rightarrow> refuse (LeaseRefusal (RepositoryDenied e)) s
                  | None \<Rightarrow> accept (s\<lparr>ds_manifest_catalog := fold retire_repository repositories (ds_manifest_catalog s),
                                       ds_test_leases := bt_remove i (ds_test_leases s)\<rparr>))"

definition on_lease_cleanup_failed :: "string \<Rightarrow> string \<Rightarrow> desired_state \<Rightarrow> outcome" where
  "on_lease_cleanup_failed i reason s =
     (case map_of (ds_test_leases s) i of
        None \<Rightarrow> refuse (LeaseRefusal LeaseMissing) s
      | Some l \<Rightarrow>
          (case tl_state l of
             LeaseActive \<Rightarrow> refuse (LeaseRefusal CleanupNotStarted) s
           | LeaseCleaning attempts _ \<Rightarrow>
               accept (update_lease i (\<lambda>l. l\<lparr>tl_state := LeaseCleaning attempts (Some (take_chars 512 reason))\<rparr>) s)))"

definition on_lease_placement_retired :: "string \<Rightarrow> app_id \<times> node_id \<Rightarrow> desired_state \<Rightarrow> outcome" where
  "on_lease_placement_retired i p s =
     (case map_of (ds_test_leases s) i of
        None \<Rightarrow> refuse (LeaseRefusal LeaseMissing) s
      | Some l \<Rightarrow>
          if tl_state l = LeaseActive \<or> map_of (ds_apps s) (fst p) \<noteq> None \<or> LeasedApp (fst p) \<notin> tl_resources l
          then refuse (LeaseRefusal NotRetiring) s
          else accept (update_lease i (\<lambda>l. l\<lparr>tl_placements := tl_placements l - {p}\<rparr>) s))"

definition lease_namespace_is :: "string \<Rightarrow> string \<Rightarrow> desired_state \<Rightarrow> bool" where
  "lease_namespace_is i ns s = (case map_of (ds_test_leases s) i of None \<Rightarrow> False | Some l \<Rightarrow> tl_namespace l = ns)"

definition on_lease_app_delete :: "string \<Rightarrow> app_id \<Rightarrow> desired_state \<Rightarrow> outcome" where
  "on_lease_app_delete i a s =
     (if \<not> lease_namespace_is i (ai_namespace a) s then refuse (LeaseRefusal LeaseNamespaceMismatch) s
      else removed_or_refused a s)"

definition on_lease_namespace_delete :: "string \<Rightarrow> string \<Rightarrow> desired_state \<Rightarrow> outcome" where
  "on_lease_namespace_delete i name s =
     (if \<not> lease_namespace_is i name s then refuse (LeaseRefusal LeaseNamespaceMismatch) s
      else accept (forget_namespace name s))"

fun apply_lease_request :: "library \<Rightarrow> lease_request \<Rightarrow> desired_state \<Rightarrow> outcome" where
  "apply_lease_request lib (TestLeaseCreate l) s = on_lease_create l s"
| "apply_lease_request lib (TestLeaseRegistryWriter i repository node owner now) s =
     on_lease_registry_writer i repository node owner now s"
| "apply_lease_request lib (TestLeaseManifestCommit i now c) s = on_lease_manifest_commit i now c s"
| "apply_lease_request lib (TestLeaseWorkloadsRetired i) s = on_lease_workloads_retired i s"
| "apply_lease_request lib (TestLeaseRegistryRetired i repository node) s = on_lease_registry_retired i repository node s"
| "apply_lease_request lib (TestLeaseJobs i now jobs) s = on_lease_jobs i now jobs s"
| "apply_lease_request lib (TestLeaseAppSpec i now a spec) s = on_lease_app_spec i now a spec s"
| "apply_lease_request lib (TestLeaseNamespaceSpec i now name spec) s = on_lease_namespace_spec i now name spec s"
| "apply_lease_request lib (TestLeaseApiToken i owner now t) s = on_lease_api_token lib i owner now t s"
| "apply_lease_request lib (TestLeaseRevokeApiToken i name fingerprint) s = on_lease_revoke_token lib i name fingerprint s"
| "apply_lease_request lib (TestLeaseRenew i owner renewed expires) s = on_lease_renew i owner renewed expires s"
| "apply_lease_request lib (TestLeaseBeginCleanup i) s = on_lease_begin_cleanup i s"
| "apply_lease_request lib (TestLeaseFinishCleanup i) s = on_lease_finish_cleanup i s"
| "apply_lease_request lib (TestLeaseCleanupFailed i reason) s = on_lease_cleanup_failed i reason s"
| "apply_lease_request lib (TestLeasePlacementRetired i p) s = on_lease_placement_retired i p s"
| "apply_lease_request lib (TestLeaseAppDelete i a) s = on_lease_app_delete i a s"
| "apply_lease_request lib (TestLeaseNamespaceDelete i name) s = on_lease_namespace_delete i name s"

section \<open>Cluster operations\<close>

definition on_gitops_sync_update :: "sync_state \<Rightarrow> desired_state \<Rightarrow> outcome" where
  "on_gitops_sync_update y s =
     (let previous = (case ds_gitops_sync_state s of None \<Rightarrow> sync_default | Some p \<Rightarrow> p);
          requested = sy_requested_generation previous
      in accept (s\<lparr>ds_gitops_sync_state := Some (y\<lparr>
           sy_requested_generation := requested,
           sy_webhook_receipts := sy_webhook_receipts previous,
           sy_completed_generation := max (min (sy_completed_generation y) requested) (sy_completed_generation previous)\<rparr>)\<rparr>))"

definition on_gitops_sync_requested :: "string \<Rightarrow> desired_state \<Rightarrow> outcome" where
  "on_gitops_sync_requested delivery s =
     (let sync = (case ds_gitops_sync_state s of None \<Rightarrow> sync_default | Some y \<Rightarrow> y);
          entered = s\<lparr>ds_gitops_sync_state := Some sync\<rparr>
      in if delivery \<in> set (sy_webhook_receipts sync) then refuse (ClusterRefusal DuplicateDelivery) entered
         else case checked_add64 (sy_requested_generation sync) 1 of
           None \<Rightarrow> refuse (ClusterRefusal TriggerExhausted) entered
         | Some g \<Rightarrow>
             let receipts = sy_webhook_receipts sync @ [delivery]
             in (Some (SyncRequested g), s\<lparr>ds_gitops_sync_state := Some (sync\<lparr>
                  sy_requested_generation := g,
                  sy_webhook_receipts := drop (length receipts - 1000) receipts\<rparr>)\<rparr>))"

definition on_gitops_config_set :: "stored_gitops_config option \<Rightarrow> bool \<Rightarrow> desired_state \<Rightarrow> outcome" where
  "on_gitops_config_set config seed s =
     (if seed \<and> ds_gitops_config s \<noteq> None then refuse (ClusterRefusal GitOpsConfigured) s
      else accept (s\<lparr>ds_gitops_config := config\<rparr>))"

definition on_upgrade_update :: "cluster_upgrade_state \<Rightarrow> desired_state \<Rightarrow> outcome" where
  "on_upgrade_update u s =
     (case ds_active_upgrade s of
        Some active \<Rightarrow>
          if cu_upgrade_id active \<noteq> cu_upgrade_id u \<and> (case cu_phase active of UpPaused _ \<Rightarrow> False | _ \<Rightarrow> True)
          then accept s else accept (s\<lparr>ds_active_upgrade := Some u\<rparr>)
      | None \<Rightarrow> accept (s\<lparr>ds_active_upgrade := Some u\<rparr>))"

definition on_upgrade_clear :: "string \<Rightarrow> desired_state \<Rightarrow> outcome" where
  "on_upgrade_clear i s =
     (case ds_active_upgrade s of
        None \<Rightarrow> accept s
      | Some active \<Rightarrow>
          if cu_upgrade_id active = i
          then let history = ds_upgrade_history s @ [active]
               in accept (s\<lparr>ds_active_upgrade := None,
                    ds_upgrade_history := (if length history > 20 then tl history else history)\<rparr>)
          else accept s)"

definition on_build_register :: "build_record \<Rightarrow> desired_state \<Rightarrow> outcome" where
  "on_build_register b s =
     (let (i, st) = build_register b (ds_build_state s) in (Some (BuildRegistered i), s\<lparr>ds_build_state := st\<rparr>))"

definition on_build_update :: "nat \<Rightarrow> build_state \<Rightarrow> desired_state \<Rightarrow> outcome" where
  "on_build_update i st s =
     (case build_update i st (ds_build_state s) of
        Inl e \<Rightarrow> refuse (ClusterRefusal (BuildRefused e)) s
      | Inr b \<Rightarrow> accept (s\<lparr>ds_build_state := b\<rparr>))"

definition on_reserve_node_fault :: "node_fault_reservation \<Rightarrow> log_id option \<Rightarrow> nat set \<Rightarrow> desired_state \<Rightarrow> outcome" where
  "on_reserve_node_fault r membership unavailable s =
     (let m = ds_last_membership s; voters = \<Union> (set (sm_joint_config m)); q = nfr_request r
      in if sm_log_id m \<noteq> membership \<or> length (sm_joint_config m) \<noteq> 1 \<or> voters = {}
           then refuse (ClusterRefusal UnstableMembership) s
         else if (case fq_target_node q of None \<Rightarrow> False | Some n \<Rightarrow> n \<in> retired_nodes s)
           then refuse (SecurityRefusal NodeIdentityRetired) s
         else if fq_fault_type q \<noteq> FaultNodeDrain \<and> card (unavailable \<inter> voters) + 1 > (card voters - 1) div 2
           then refuse (ClusterRefusal QuorumRisk) s
         else case reserve_fault r (ds_node_fault_reservations s) of
           Inl e \<Rightarrow> refuse (ClusterRefusal (ReservationRefused e)) s
         | Inr rs \<Rightarrow> accept (s\<lparr>ds_node_fault_reservations := rs\<rparr>))"

definition on_release_node_fault :: "nat \<Rightarrow> desired_state \<Rightarrow> outcome" where
  "on_release_node_fault sequence s =
     (case release_fault sequence (ds_node_fault_reservations s) of
        Inl e \<Rightarrow> refuse (ClusterRefusal (ReservationRefused e)) s
      | Inr rs \<Rightarrow> accept (s\<lparr>ds_node_fault_reservations := rs\<rparr>))"

definition MAX_RETIRED_NODES :: nat where
  "MAX_RETIRED_NODES = 65536"

definition valid_decommission :: "string \<Rightarrow> string \<Rightarrow> bool" where
  "valid_decommission node reason \<longleftrightarrow> validate_node_id node \<and> trim reason \<noteq> [] \<and> length reason \<le> 1024"

definition remaining_voters :: "string \<Rightarrow> desired_state \<Rightarrow> nat set \<Rightarrow> nat set" where
  "remaining_voters node s voters = Set.filter (\<lambda>i. case map_of (sm_nodes (ds_last_membership s)) i of
     None \<Rightarrow> False | Some name \<Rightarrow> name \<noteq> node \<and> name \<notin> retired_nodes s) voters"

definition quorum_lost :: "string \<Rightarrow> desired_state \<Rightarrow> bool" where
  "quorum_lost node s \<longleftrightarrow>
     list_ex (\<lambda>voters. voters \<noteq> {} \<and> card (remaining_voters node s voters) < card voters div 2 + 1)
       (sm_joint_config (ds_last_membership s))"

definition release_node_of_lease :: "string \<Rightarrow> test_lease \<Rightarrow> test_lease" where
  "release_node_of_lease node l = l\<lparr>
     tl_repositories := map (\<lambda>(r, owners). (r, owners - {raft_id_from_name node})) (tl_repositories l),
     tl_placements := Set.filter (\<lambda>(_, n). n \<noteq> node) (tl_placements l)\<rparr>"

definition released_writers :: "string \<Rightarrow> test_lease \<Rightarrow> nat" where
  "released_writers node l = length (filter (\<lambda>(_, owners). raft_id_from_name node \<in> owners) (tl_repositories l))"

definition released_placements :: "string \<Rightarrow> test_lease \<Rightarrow> nat" where
  "released_placements node l = card (tl_placements l) - card (tl_placements (release_node_of_lease node l))"

definition positive_counts :: "(test_lease \<Rightarrow> nat) \<Rightarrow> (string \<times> test_lease) list \<Rightarrow> (string \<times> nat) list" where
  "positive_counts f ls = filter (\<lambda>(_, n). n > 0) (map (\<lambda>(i, l). (i, f l)) ls)"

definition on_decommission_node ::
  "string \<Rightarrow> string \<Rightarrow> string \<Rightarrow> nat \<Rightarrow> log_id option \<Rightarrow> desired_state \<Rightarrow> outcome" where
  "on_decommission_node node by_whom reason at_ms membership s =
     (let m = ds_last_membership s; ss = ds_security_state s; c = ss_crl ss
      in if \<not> valid_decommission node reason \<or> by_whom = [] \<or> length by_whom > 256 \<or> at_ms = 0
           then refuse (ClusterRefusal InvalidRetirement) s
         else case map_of (crl_retired_nodes c) node of
           Some r \<Rightarrow> (Some (NodeDecommissioned r), s)
         | None \<Rightarrow>
             if length (crl_retired_nodes c) \<ge> MAX_RETIRED_NODES then refuse (ClusterRefusal RetiredLimit) s
             else if sm_log_id m \<noteq> membership \<or> length (sm_joint_config m) > 1
               then refuse (ClusterRefusal MembershipChanged) s
             else if (case nfs_active (ds_node_fault_reservations s) of
                        None \<Rightarrow> False | Some active \<Rightarrow> fq_target_node (nfr_request active) \<noteq> Some node)
               then refuse (ClusterRefusal OtherFaultActive) s
             else if quorum_lost node s then refuse (ClusterRefusal QuorumRisk) s
             else case decommission_endpoints node (ds_endpoints s) of
               Inl e \<Rightarrow> refuse (ClusterRefusal (EndpointRefused e)) s
             | Inr es \<Rightarrow>
                 let r = \<lparr>ret_node_id = node, ret_retired_by = by_whom, ret_reason = reason, ret_retired_at_unix_ms = at_ms,
                          ret_released_placements = positive_counts (released_placements node) (ds_test_leases s),
                          ret_released_registry_writers = positive_counts (released_writers node) (ds_test_leases s),
                          ret_released_node_fault = map_option nfr_sequence (nfs_active (ds_node_fault_reservations s)),
                          ret_released_endpoint_consumer = (node \<in> es_consumers (ds_endpoints s))\<rparr>
                 in (Some (NodeDecommissioned r),
                     s\<lparr>ds_test_leases := map (\<lambda>(i, l). (i, release_node_of_lease node l)) (ds_test_leases s),
                       ds_scheduling := map (\<lambda>(a, ps). (a, filter (\<lambda>p. pl_node_id p \<noteq> node) ps)) (ds_scheduling s),
                       ds_manifest_catalog := remove_node_holdings (raft_id_from_name node) (ds_manifest_catalog s),
                       ds_endpoints := es,
                       ds_node_fault_reservations := (ds_node_fault_reservations s)\<lparr>nfs_active := None\<rparr>,
                       ds_security_state := ss\<lparr>ss_crl := c\<lparr>
                         crl_retired_nodes := bt_insert node r (crl_retired_nodes c),
                         crl_version := add64 (crl_version c) 1,
                         crl_updated_at := int at_ms * 1000000\<rparr>\<rparr>\<rparr>))"

definition on_endpoints :: "endpoint_refusal + endpoint_state \<Rightarrow> desired_state \<Rightarrow> outcome" where
  "on_endpoints r s = (case r of
     Inl e \<Rightarrow> refuse (ClusterRefusal (EndpointRefused e)) s | Inr es \<Rightarrow> accept (s\<lparr>ds_endpoints := es\<rparr>))"

definition on_retire_execution :: "string \<Rightarrow> runtime_execution \<Rightarrow> desired_state \<Rightarrow> outcome" where
  "on_retire_execution node x s =
     (case retire_endpoint_execution (retired_nodes s) node x (ds_endpoints s) of
        Inl e \<Rightarrow> refuse (ClusterRefusal (EndpointRefused e)) s
      | Inr (released, es) \<Rightarrow> (Some (EndpointExecutionRetired released), s\<lparr>ds_endpoints := es\<rparr>))"

fun apply_cluster_request :: "cluster_request \<Rightarrow> desired_state \<Rightarrow> outcome" where
  "apply_cluster_request Noop s = accept s"
| "apply_cluster_request (GitOpsCoordinatorElection e) s = accept (s\<lparr>ds_gitops_coordinator := Some e\<rparr>)"
| "apply_cluster_request (GitOpsSyncUpdate y) s = on_gitops_sync_update y s"
| "apply_cluster_request (GitOpsSyncRequested delivery) s = on_gitops_sync_requested delivery s"
| "apply_cluster_request (GitOpsConfigSet config seed) s = on_gitops_config_set config seed s"
| "apply_cluster_request (UpgradeUpdate u) s = on_upgrade_update u s"
| "apply_cluster_request (UpgradeClear i) s = on_upgrade_clear i s"
| "apply_cluster_request (BuildRegister b) s = on_build_register b s"
| "apply_cluster_request (BuildUpdate i st) s = on_build_update i st s"
| "apply_cluster_request (ReserveNodeFault r membership unavailable) s = on_reserve_node_fault r membership unavailable s"
| "apply_cluster_request (ReleaseNodeFault sequence) s = on_release_node_fault sequence s"
| "apply_cluster_request (DecommissionNode node by_whom reason at_ms membership) s =
     on_decommission_node node by_whom reason at_ms membership s"
| "apply_cluster_request (RegisterEndpointConsumer node) s =
     on_endpoints (register_endpoint_consumer (retired_nodes s) node (ds_endpoints s)) s"
| "apply_cluster_request (AcknowledgeEndpointWithdrawal node g) s =
     on_endpoints (acknowledge_endpoint_withdrawal (retired_nodes s) node g (ds_endpoints s)) s"
| "apply_cluster_request (DischargeEndpointConsumer node) s =
     on_endpoints (discharge_endpoint_consumer node (ds_endpoints s)) s"
| "apply_cluster_request (RetireEndpointExecution node x) s = on_retire_execution node x s"
| "apply_cluster_request (PublishEndpointCatalog g cat) s =
     on_endpoints (publish_endpoints (retired_nodes s) g cat (ds_endpoints s)) s"

section \<open>The dispatcher\<close>

text \<open>Why a write of GitOps is refused before it is tried: a declared owner, a foreign delete, another request.\<close>

definition gitops_refusal :: "raft_request \<Rightarrow> desired_state \<Rightarrow> cluster_refusal option" where
  "gitops_refusal change s =
     (let owned = ds_gitops_owned s; unless = (\<lambda>b. if b then None else Some NotGitOpsOwned)
      in case change of
           AppReq (AppSpecWrite a spec) \<Rightarrow> if as_owner spec \<noteq> None then Some (OwnerInRepository a) else None
         | AppReq (NamespaceSpecWrite _ _) \<Rightarrow> None
         | AppReq (PermissionSpecWrite _ _) \<Rightarrow> None
         | AppReq (PolicySpecWrite _ _) \<Rightarrow> None
         | AppReq (AppDelete a) \<Rightarrow> unless (a \<in> go_apps owned)
         | AppReq (NamespaceDelete name) \<Rightarrow> unless (name \<in> go_namespaces owned)
         | AppReq (PermissionDelete name) \<Rightarrow> unless (name \<in> go_permissions owned)
         | AppReq (PolicyDelete name) \<Rightarrow> unless (name \<in> go_policies owned)
         | _ \<Rightarrow> Some NotDeclarative)"

definition gitops_adopt :: "raft_request \<Rightarrow> gitops_ownership \<Rightarrow> gitops_ownership" where
  "gitops_adopt change owned = (case change of
     AppReq (AppSpecWrite a _) \<Rightarrow> owned\<lparr>go_apps := insert a (go_apps owned)\<rparr>
   | AppReq (NamespaceSpecWrite name _) \<Rightarrow> owned\<lparr>go_namespaces := insert name (go_namespaces owned)\<rparr>
   | AppReq (PermissionSpecWrite name _) \<Rightarrow> owned\<lparr>go_permissions := insert name (go_permissions owned)\<rparr>
   | AppReq (PolicySpecWrite name _) \<Rightarrow> owned\<lparr>go_policies := insert name (go_policies owned)\<rparr>
   | _ \<Rightarrow> owned)"

definition fenced_app :: "raft_request \<Rightarrow> app_id option" where
  "fenced_app change = (case change of
     AppReq (AppSpecWrite a _) \<Rightarrow> Some a
   | LeaseReq (TestLeaseAppSpec _ _ a _) \<Rightarrow> Some a
   | GitOpsWrite _ (AppReq (AppSpecWrite a _)) \<Rightarrow> Some a
   | _ \<Rightarrow> None)"

definition declare_app :: "app_id \<Rightarrow> app_spec option \<Rightarrow> desired_state \<Rightarrow> desired_state" where
  "declare_app a declared s = s\<lparr>ds_declared_apps := (case declared of
     Some spec \<Rightarrow> AList.update a spec (ds_declared_apps s)
   | None \<Rightarrow> AList.delete a (ds_declared_apps s))\<rparr>"

fun apply_request_at :: "library \<Rightarrow> apply_position \<Rightarrow> raft_request \<Rightarrow> desired_state \<Rightarrow> outcome" where
  "apply_request_at lib pos (AppReq r) s = apply_app_request lib pos r s"
| "apply_request_at lib pos (RegistryReq r) s = apply_registry_request r s"
| "apply_request_at lib pos (SecurityReq r) s = apply_security_request lib r s"
| "apply_request_at lib pos (LeaseReq r) s = apply_lease_request lib r s"
| "apply_request_at lib pos (ClusterReq r) s = apply_cluster_request r s"
| "apply_request_at lib pos (GitOpsWrite term change) s =
     (if map_option lg_term (ap_current_log_id pos) \<noteq> Some term
        then refuse (ClusterRefusal (LeadershipChanged term (map_option lg_term (ap_current_log_id pos)))) s
      else case gitops_refusal change s of
        Some e \<Rightarrow> refuse (ClusterRefusal e) s
      | None \<Rightarrow>
          let (response, s') = apply_request_at lib pos change s
          in if is_refused response then (response, s')
             else (response, s'\<lparr>ds_gitops_owned := gitops_adopt change (ds_gitops_owned s')\<rparr>))"
| "apply_request_at lib pos (PolicyFenced generation change declared) s =
     (case fenced_app change of
        None \<Rightarrow> refuse (ClusterRefusal FenceNeedsAppWrite) s
      | Some a \<Rightarrow>
          if generation \<noteq> ds_policy_generation s then (Some (PolicyGenerationMoved (ds_policy_generation s)), s)
          else let (response, s') = apply_request_at lib pos change s
               in (response, if is_refused response then s' else declare_app a declared s'))"

end
