(* ===== verification/Council_Refusals.thy ===== *)
theory Council_Refusals
  imports Council
begin

text \<open>
  A request the council refuses changes nothing. \<open>settles s o\<close> says so of one outcome; every handler
  of the state machine satisfies it, and the two requests that carry another one inherit it by
  induction on the request.
\<close>

definition settles :: "desired_state \<Rightarrow> outcome \<Rightarrow> bool" where
  "settles s out \<longleftrightarrow> (is_refused (fst out) \<longrightarrow> snd out = s)"

lemma settles_simps [simp]:
  "settles s (refuse e s')  \<longleftrightarrow> s' = s"
  "settles s (accept s')"
  "settles s (r, s)"
  "settles s (Some (GcApproved ds), s')"
  "settles s (Some (SerialAllocated n), s')"
  "settles s (Some (JoinTokenConsumed n), s')"
  "settles s (Some (BuildRegistered n), s')"
  "settles s (Some (SyncRequested n), s')"
  "settles s (Some (ApiTokensSwept ns), s')"
  "settles s (Some (NodeDecommissioned d), s')"
  "settles s (Some (EndpointExecutionRetired b), s')"
  by (simp_all add: settles_def refuse_def accept_def is_refused_def)

lemma alist_update_same:
  "map_of xs k = Some v \<Longrightarrow> AList.update k v xs = xs"
  by (induction xs) (auto split: if_splits)

lemma holder_not_found:
  "fst (add_manifest_holder repository d node c) = False \<Longrightarrow> snd (add_manifest_holder repository d node c) = c"
  by (auto simp: add_manifest_holder_def split: option.splits)

lemma signature_not_found:
  assumes "fst (apply_attach_signature a c) = False"
  shows "snd (apply_attach_signature a c) = c"
proof -
  have "\<not> list_ex (\<lambda>(k, _). k = at_manifest_digest a) (mcat_manifests c)"
    using assms by (simp add: apply_attach_signature_def Let_def)
  then have "map (\<lambda>(k, m). if k = at_manifest_digest a then (k, m\<lparr>im_signature := Some (at_signature a)\<rparr>) else (k, m))
    (mcat_manifests c) = mcat_manifests c"
    by (intro map_idI) (auto simp: list_ex_iff)
  then show ?thesis by (simp add: apply_attach_signature_def Let_def)
qed

section \<open>The handlers\<close>

lemma settles_rollout_failed:
  "settles s (on_rollout_failed lib a f s)"
proof -
  have "s\<lparr>ds_rollouts := AList.update a (rollouts_of a s) (ds_rollouts s)\<rparr> = s"
    if "last_released (rollouts_of a s) \<noteq> None"
  proof -
    have "last_released app_rollouts_default = None"
      by (simp add: last_released_def app_rollouts_default_def)
    then have "map_of (ds_rollouts s) a = Some (rollouts_of a s)"
      using that by (auto simp: rollouts_of_def split: option.splits)
    then show ?thesis by (simp add: alist_update_same)
  qed
  then show ?thesis by (auto simp: on_rollout_failed_def Let_def)
qed

lemma settles_app_request:
  "settles s (apply_app_request lib pos r s)"
  by (cases r) (auto simp: on_app_spec_def on_app_stop_def on_app_delete_def removed_or_refused_def on_app_release_def
    on_scheduling_decisions_def on_autoscale_override_def settles_rollout_failed on_rollout_released_def
    on_namespace_spec_def on_namespace_delete_def on_permission_delete_def on_policy_spec_def on_policy_delete_def
    Let_def split: option.split sum.split)

lemma settles_registry_request:
  "settles s (apply_registry_request r s)"
proof (cases r)
  case (ConfirmImageCopy c)
  then show ?thesis
    using holder_not_found [of "cp_repository c" "cp_manifest_digest c" "cp_node_id c" "ds_manifest_catalog s"]
    by (auto simp: on_confirm_image_copy_def split: prod.split)
next
  case (AttachSignatureWrite a)
  then show ?thesis
    using signature_not_found [of a "ds_manifest_catalog s"] by (auto simp: on_attach_signature_def split: prod.split)
qed (auto simp: on_manifest_commit_def on_gc_report_def on_expire_manifest_def split: prod.split option.split sum.split)

lemma settles_security_request:
  "settles s (apply_security_request lib r s)"
  by (cases r) (auto simp: on_security_init_def on_create_join_token_def on_consume_join_token_def on_consume_for_issue_def
    on_create_api_token_def on_revoke_api_token_def on_rotate_api_token_def on_sweep_tokens_def on_allocate_serial_def
    on_allocate_node_serial_def on_rotate_secret_key_def on_finalize_secret_rotation_def on_revoke_certificate_def
    on_ca_begin_def on_ca_prepare_def on_ca_finalize_def on_acknowledge_trust_def Let_def
    split: option.split sum.split prod.split age_key_scope.split)

lemma settles_lease_request:
  "settles s (apply_lease_request lib r s)"
  by (cases r) (auto simp: on_lease_create_def on_lease_registry_writer_def on_lease_manifest_commit_def
    on_lease_workloads_retired_def on_lease_registry_retired_def on_lease_jobs_def on_lease_app_spec_def
    on_lease_namespace_spec_def on_lease_api_token_def on_lease_revoke_token_def on_lease_renew_def
    on_lease_begin_cleanup_def on_lease_finish_cleanup_def on_lease_cleanup_failed_def on_lease_placement_retired_def
    on_lease_app_delete_def removed_or_refused_def on_lease_namespace_delete_def Let_def
    split: option.split sum.split test_lease_state.split)

lemma settles_sync_requested:
  "settles s (on_gitops_sync_requested d s)"
  by (cases "ds_gitops_sync_state s")
    (auto simp: on_gitops_sync_requested_def Let_def sync_default_def checked_add64_def split: option.split if_splits)

lemma settles_cluster_request:
  "settles s (apply_cluster_request r s)"
  by (cases r) (auto simp: on_gitops_sync_update_def settles_sync_requested on_gitops_config_set_def on_upgrade_update_def
    on_upgrade_clear_def on_build_register_def on_build_update_def on_reserve_node_fault_def on_release_node_fault_def
    on_decommission_node_def on_endpoints_def on_retire_execution_def Let_def
    split: option.split sum.split prod.split cluster_upgrade_phase.split)

lemma settles_request:
  "settles s (apply_request_at lib pos r s)"
proof (induction r)
  case (GitOpsWrite t change)
  then show ?case by (auto simp: settles_def is_refused_def refuse_def split: option.splits prod.splits)
next
  case (PolicyFenced generation change declared)
  then show ?case by (auto simp: settles_def is_refused_def refuse_def split: option.splits prod.splits)
qed (simp_all add: settles_app_request settles_registry_request settles_security_request settles_lease_request
  settles_cluster_request)

section \<open>The property\<close>


definition demo_library :: library where
  "demo_library = \<lparr>lib_spec_digest = (\<lambda>spec. ''digest''), lib_token_digest = (\<lambda>h. h), lib_signed_by = (\<lambda>a b. True)\<rparr>"

definition demo_position :: apply_position where
  "demo_position = \<lparr>ap_previous_log_id = None, ap_current_log_id = Some \<lparr>lg_term = 3, lg_node = 1, lg_index = 7\<rparr>\<rparr>"

definition demo_app_id :: app_id where
  "demo_app_id = \<lparr>ai_name = ''web'', ai_namespace = ''shop''\<rparr>"

definition demo_app_spec :: app_spec where
  "demo_app_spec = \<lparr>
     as_image = Some ''web:1'', as_command = [], as_args = [], as_working_dir = None, as_run_as_user = None, as_run_as_group = None,
     as_exec = None, as_script = None, as_replicas = Fixed 2, as_ordinals = None, as_port = None, as_health = None,
     as_memory = None, as_cpu = None, as_gpu = None, as_env = [(''KEY'', Encrypted ''ENC[AGE:a]'')], as_config_file = [],
     as_volumes = [], as_init = [], as_sidecar = [], as_ingress = None, as_placement = None, as_deploy = None,
     as_stop_signal = None, as_stop_grace = None, as_pre_stop = [], as_pre_stop_timeout = None, as_runtime = None,
     as_firewall = None, as_egress = None, as_autoscale = None, as_metrics = None, as_namespace = None,
     as_provenance = None, as_owner = None\<rparr>"


end
