(* ===== verification/Council_Apps.thy ===== *)
theory Council_Apps
  imports Council_Refusals Transition_Systems
begin

text \<open>
  The tables of the desired state that are keyed by app stay consistent along every log: each of them
  speaks of deployed apps only, an autoscale override lies inside the bounds its app declares, and an
  app a controller owns is never also owned by GitOps. From this follows who can take an app away from
  its owner. \<open>council_exec\<close> applies one entry of the log.
\<close>

definition council_exec :: "library \<Rightarrow> apply_position \<times> raft_request \<Rightarrow> desired_state \<Rightarrow> desired_state" where
  "council_exec lib entry s = snd (apply_request_at lib (fst entry) (snd entry) s)"

definition deployed :: "desired_state \<Rightarrow> app_id set" where
  "deployed s = fst ` set (ds_apps s)"

definition override_ok :: "(app_id \<times> app_spec) list \<Rightarrow> string \<times> nat \<Rightarrow> bool" where
  "override_ok apps ov \<longleftrightarrow> (\<exists>a spec au. map_of apps a = Some spec \<and> as_autoscale spec = Some au \<and>
     app_id_string a = fst ov \<and> clamp_to_bounds (snd ov) au = snd ov)"

definition owner_of :: "desired_state \<Rightarrow> app_id \<Rightarrow> string option" where
  "owner_of s a = Option.bind (map_of (ds_apps s) a) as_owner"

definition apps_ok :: "desired_state \<Rightarrow> bool" where
  "apps_ok s \<longleftrightarrow>
     distinct (map fst (ds_apps s)) \<and> distinct (map fst (ds_rollouts s)) \<and> distinct (map fst (ds_declared_apps s)) \<and>
     distinct (map fst (ds_quota_blocked s)) \<and> distinct (map fst (ds_unschedulable s)) \<and>
     distinct (map fst (ds_autoscale_overrides s)) \<and>
     ds_stopped_apps s \<subseteq> deployed s \<and> fst ` set (ds_rollouts s) \<subseteq> deployed s \<and>
     fst ` set (ds_declared_apps s) \<subseteq> deployed s \<and> fst ` set (ds_quota_blocked s) \<subseteq> deployed s \<and>
     fst ` set (ds_unschedulable s) \<subseteq> deployed s \<and> go_apps (ds_gitops_owned s) \<subseteq> deployed s \<and>
     (\<forall>a \<in> go_apps (ds_gitops_owned s). owner_of s a = None) \<and>
     (\<forall>ov \<in> set (ds_autoscale_overrides s). override_ok (ds_apps s) ov)"

lemma apps_okI:
  assumes "distinct (map fst (ds_apps s))" "distinct (map fst (ds_rollouts s))" "distinct (map fst (ds_declared_apps s))"
    "distinct (map fst (ds_quota_blocked s))" "distinct (map fst (ds_unschedulable s))"
    "distinct (map fst (ds_autoscale_overrides s))" "ds_stopped_apps s \<subseteq> deployed s"
    "fst ` set (ds_rollouts s) \<subseteq> deployed s" "fst ` set (ds_declared_apps s) \<subseteq> deployed s"
    "fst ` set (ds_quota_blocked s) \<subseteq> deployed s" "fst ` set (ds_unschedulable s) \<subseteq> deployed s"
    "go_apps (ds_gitops_owned s) \<subseteq> deployed s" "\<forall>a \<in> go_apps (ds_gitops_owned s). owner_of s a = None"
    "\<forall>ov \<in> set (ds_autoscale_overrides s). override_ok (ds_apps s) ov"
  shows "apps_ok s"
  using assms unfolding apps_ok_def by (intro conjI)

lemma apps_okD:
  assumes "apps_ok s"
  shows "distinct (map fst (ds_apps s))" "distinct (map fst (ds_rollouts s))" "distinct (map fst (ds_declared_apps s))"
    "distinct (map fst (ds_quota_blocked s))" "distinct (map fst (ds_unschedulable s))"
    "distinct (map fst (ds_autoscale_overrides s))" "ds_stopped_apps s \<subseteq> deployed s"
    "fst ` set (ds_rollouts s) \<subseteq> deployed s" "fst ` set (ds_declared_apps s) \<subseteq> deployed s"
    "fst ` set (ds_quota_blocked s) \<subseteq> deployed s" "fst ` set (ds_unschedulable s) \<subseteq> deployed s"
    "go_apps (ds_gitops_owned s) \<subseteq> deployed s" "\<And>a. a \<in> go_apps (ds_gitops_owned s) \<Longrightarrow> owner_of s a = None"
    "\<And>ov. ov \<in> set (ds_autoscale_overrides s) \<Longrightarrow> override_ok (ds_apps s) ov"
  using assms unfolding apps_ok_def by simp_all

section \<open>What does not touch the tables\<close>

lemma apps_ok_frame [simp]:
  "apps_ok (s\<lparr>ds_scheduling := x1\<rparr>) = apps_ok s"
  "apps_ok (s\<lparr>ds_config := x2\<rparr>) = apps_ok s"
  "apps_ok (s\<lparr>ds_manifest_catalog := x3\<rparr>) = apps_ok s"
  "apps_ok (s\<lparr>ds_registry_gc_generations := x4\<rparr>) = apps_ok s"
  "apps_ok (s\<lparr>ds_last_placed_nodes := x5\<rparr>) = apps_ok s"
  "apps_ok (s\<lparr>ds_gitops_sync_state := x6\<rparr>) = apps_ok s"
  "apps_ok (s\<lparr>ds_gitops_coordinator := x7\<rparr>) = apps_ok s"
  "apps_ok (s\<lparr>ds_gitops_config := x8\<rparr>) = apps_ok s"
  "apps_ok (s\<lparr>ds_security_state := x9\<rparr>) = apps_ok s"
  "apps_ok (s\<lparr>ds_active_upgrade := x10\<rparr>) = apps_ok s"
  "apps_ok (s\<lparr>ds_upgrade_history := x11\<rparr>) = apps_ok s"
  "apps_ok (s\<lparr>ds_build_state := x12\<rparr>) = apps_ok s"
  "apps_ok (s\<lparr>ds_namespaces := x13\<rparr>) = apps_ok s"
  "apps_ok (s\<lparr>ds_permissions := x14\<rparr>) = apps_ok s"
  "apps_ok (s\<lparr>ds_policies := x15\<rparr>) = apps_ok s"
  "apps_ok (s\<lparr>ds_policy_generation := x16\<rparr>) = apps_ok s"
  "apps_ok (s\<lparr>ds_endpoints := x17\<rparr>) = apps_ok s"
  "apps_ok (s\<lparr>ds_test_leases := x18\<rparr>) = apps_ok s"
  "apps_ok (s\<lparr>ds_node_fault_reservations := x19\<rparr>) = apps_ok s"
  by (simp_all add: apps_ok_def deployed_def owner_of_def)

lemma apps_ok_owned_frame [simp]:
  "go_apps o' = go_apps (ds_gitops_owned s) \<Longrightarrow> apps_ok (s\<lparr>ds_gitops_owned := o'\<rparr>) = apps_ok s"
  by (simp add: apps_ok_def deployed_def owner_of_def)

lemma apps_ok_secured [simp]: "apps_ok (secured s ss) = apps_ok s"
  by (simp add: secured_def)

lemma apps_ok_update_lease [simp]: "apps_ok (update_lease i f s) = apps_ok s"
  by (simp add: update_lease_def)

lemma apps_ok_refuse [simp]: "apps_ok (snd (refuse e s)) = apps_ok s"
  by (simp add: refuse_def)

lemma apps_ok_accept [simp]: "apps_ok (snd (accept s)) = apps_ok s"
  by (simp add: accept_def)

lemma deployed_iff: "a \<in> deployed s \<longleftrightarrow> map_of (ds_apps s) a \<noteq> None"
  by (auto simp: deployed_def map_of_eq_None_iff)

section \<open>What does\<close>

lemma fst_alter_key [simp]: "map fst (alter_key k f xs) = map fst xs"
  by (induction xs) (auto simp: alter_key_def)

lemma fst_set_alter_key [simp]: "fst ` set (alter_key k f xs) = fst ` set xs"
  by (metis fst_alter_key list.set_map)

lemma map_of_alter_key: "map_of (alter_key k f xs) j = (if j = k then map_option f (map_of xs j) else map_of xs j)"
  by (induction xs) (auto simp: alter_key_def)

lemma fst_set_delete: "fst ` set (AList.delete k xs) = fst ` set xs - {k}"
  by (auto simp: AList.delete_eq)

lemma distinct_fst_filter: "distinct (map fst xs) \<Longrightarrow> distinct (map fst (filter P xs))"
  by (induction xs) auto

lemma distinct_drop_override: "distinct (map fst xs) \<Longrightarrow> distinct (map fst (drop_override k xs))"
  by (simp add: drop_override_def distinct_fst_filter)

lemma clamp_idem: "clamp_to_bounds (clamp_to_bounds n au) au = clamp_to_bounds n au"
  by (auto simp: clamp_to_bounds_def)

lemma override_other:
  assumes "override_ok apps ov" "fst ov \<noteq> app_id_string a" "\<And>b. b \<noteq> a \<Longrightarrow> map_of apps' b = map_of apps b"
  shows "override_ok apps' ov"
  using assms unfolding override_ok_def by metis

lemma overrides_after_spec_ok:
  assumes s: "\<forall>ov \<in> set (ds_autoscale_overrides s). override_ok (ds_apps s) ov"
    and ov: "ov \<in> set (overrides_after_spec a spec s)"
  shows "override_ok (AList.update a spec (ds_apps s)) ov"
proof (cases "fst ov = app_id_string a")
  case True
  then obtain au where au: "as_autoscale spec = Some au"
    using ov by (auto simp: overrides_after_spec_def Let_def drop_override_def split: option.splits if_splits)
  then have "\<exists>n. snd ov = clamp_to_bounds n au"
    using ov True by (auto simp: overrides_after_spec_def Let_def alter_key_def split: if_splits)
  then show ?thesis
    using au True by (auto simp: override_ok_def update_conv clamp_idem intro!: exI [of _ a])
next
  case False
  then have "ov \<in> set (ds_autoscale_overrides s)"
    using ov by (auto simp: overrides_after_spec_def Let_def alter_key_def drop_override_def split: option.splits if_splits)
  then show ?thesis using s False by (auto intro: override_other simp: update_conv)
qed

lemma distinct_overrides_after_spec:
  "distinct (map fst (ds_autoscale_overrides s)) \<Longrightarrow> distinct (map fst (overrides_after_spec a spec s))"
  by (auto simp: overrides_after_spec_def Let_def distinct_drop_override split: option.split)

lemma apply_app_spec_fields:
  "ds_apps (apply_app_spec a spec s) = AList.update a spec (ds_apps s)"
  "ds_autoscale_overrides (apply_app_spec a spec s) = overrides_after_spec a spec s"
  "ds_stopped_apps (apply_app_spec a spec s) = ds_stopped_apps s - {a}"
  "ds_quota_blocked (apply_app_spec a spec s) = ds_quota_blocked s"
  "ds_unschedulable (apply_app_spec a spec s) = ds_unschedulable s"
  "map fst (ds_rollouts (apply_app_spec a spec s)) = map fst (ds_rollouts s)"
  "ds_declared_apps (apply_app_spec a spec s) \<in> {ds_declared_apps s, AList.delete a (ds_declared_apps s)}"
  "go_apps (ds_gitops_owned (apply_app_spec a spec s)) =
     (if as_owner spec \<noteq> None then go_apps (ds_gitops_owned s) - {a} else go_apps (ds_gitops_owned s))"
  by (auto simp: apply_app_spec_def Let_def)

lemma deployed_apply_app_spec [simp]: "deployed (apply_app_spec a spec s) = insert a (deployed s)"
  by (auto simp: deployed_def apply_app_spec_fields dom_update)

lemma owner_of_apply_app_spec [simp]:
  "owner_of (apply_app_spec a spec s) b = (if b = a then as_owner spec else owner_of s b)"
  by (simp add: owner_of_def apply_app_spec_fields update_conv)

lemma apps_ok_apply_app_spec:
  assumes "apps_ok s"
  shows "apps_ok (apply_app_spec a spec s)"
proof -
  note s = assms [unfolded apps_ok_def]
  let ?s = "apply_app_spec a spec s"
  have "distinct (map fst (ds_apps ?s))"
    using s by (simp add: apply_app_spec_fields distinct_update)
  moreover have "\<forall>ov \<in> set (ds_autoscale_overrides ?s). override_ok (ds_apps ?s) ov"
    using overrides_after_spec_ok [of s _ a spec] s by (simp add: apply_app_spec_fields)
  moreover have "distinct (map fst (ds_autoscale_overrides ?s))"
    using distinct_overrides_after_spec [of s a spec] s by (simp add: apply_app_spec_fields)
  moreover have "distinct (map fst (ds_declared_apps ?s)) \<and> fst ` set (ds_declared_apps ?s) \<subseteq> insert a (deployed s)"
    using apply_app_spec_fields(7) [of a spec s] s
    by (elim insertE) (auto simp: fst_set_delete distinct_delete)
  moreover have "fst ` set (ds_rollouts ?s) \<subseteq> insert a (deployed s)"
    using apply_app_spec_fields(6) [of a spec s] s by (metis list.set_map subset_insertI2)
  moreover have "\<forall>b \<in> go_apps (ds_gitops_owned ?s). owner_of ?s b = None"
    using s by (simp add: apply_app_spec_fields)
  moreover have "go_apps (ds_gitops_owned ?s) \<subseteq> insert a (deployed s)"
    using s by (auto simp: apply_app_spec_fields)
  moreover have "ds_stopped_apps ?s \<subseteq> insert a (deployed s)" "fst ` set (ds_quota_blocked ?s) \<subseteq> insert a (deployed s)"
    "fst ` set (ds_unschedulable ?s) \<subseteq> insert a (deployed s)"
    using s by (auto simp: apply_app_spec_fields)
  moreover have "distinct (map fst (ds_rollouts ?s))" "distinct (map fst (ds_quota_blocked ?s))"
    "distinct (map fst (ds_unschedulable ?s))"
    using s by (simp_all add: apply_app_spec_fields)
  ultimately show ?thesis
    by (intro apps_okI) (elim conjE, simp only: deployed_apply_app_spec)+
qed

lemma remove_app_fields:
  assumes "remove_app a s = Some s'"
  shows "ds_apps s' = AList.delete a (ds_apps s)" "ds_autoscale_overrides s' = drop_override (app_id_string a) (ds_autoscale_overrides s)"
    "ds_stopped_apps s' = ds_stopped_apps s - {a}" "ds_rollouts s' = AList.delete a (ds_rollouts s)"
    "ds_declared_apps s' = AList.delete a (ds_declared_apps s)" "ds_quota_blocked s' = AList.delete a (ds_quota_blocked s)"
    "ds_unschedulable s' = AList.delete a (ds_unschedulable s)" "go_apps (ds_gitops_owned s') = go_apps (ds_gitops_owned s) - {a}"
  using assms by (auto simp: remove_app_def split: if_splits)

lemma deployed_remove_app: "remove_app a s = Some s' \<Longrightarrow> deployed s' = deployed s - {a}"
  by (simp add: deployed_def remove_app_fields fst_set_delete)

lemma owner_of_remove_app: "remove_app a s = Some s' \<Longrightarrow> owner_of s' b = (if b = a then None else owner_of s b)"
  by (simp add: owner_of_def remove_app_fields delete_conv)

lemma apps_ok_remove_app:
  assumes ok: "apps_ok s" and r: "remove_app a s = Some s'"
  shows "apps_ok s'"
proof -
  note s = ok [unfolded apps_ok_def] and s' = remove_app_fields [OF r]
  have "override_ok (ds_apps s') ov" if "ov \<in> set (ds_autoscale_overrides s')" for ov
  proof (rule override_other)
    show "override_ok (ds_apps s) ov" "fst ov \<noteq> app_id_string a" using that s by (auto simp: s' drop_override_def)
    show "map_of (ds_apps s') b = map_of (ds_apps s) b" if "b \<noteq> a" for b using that by (simp add: s' delete_conv)
  qed
  then have "\<forall>ov \<in> set (ds_autoscale_overrides s'). override_ok (ds_apps s') ov" by blast
  moreover have "\<forall>b \<in> go_apps (ds_gitops_owned s'). owner_of s' b = None" "go_apps (ds_gitops_owned s') \<subseteq> deployed s'"
    using s by (auto simp: s' owner_of_remove_app [OF r] deployed_remove_app [OF r])
  moreover have "distinct (map fst (ds_apps s'))" "distinct (map fst (ds_rollouts s'))" "distinct (map fst (ds_declared_apps s'))"
    "distinct (map fst (ds_quota_blocked s'))" "distinct (map fst (ds_unschedulable s'))"
    "distinct (map fst (ds_autoscale_overrides s'))"
    using s by (simp_all add: s' distinct_delete distinct_drop_override)
  moreover have "ds_stopped_apps s' \<subseteq> deployed s'" "fst ` set (ds_rollouts s') \<subseteq> deployed s'"
    "fst ` set (ds_declared_apps s') \<subseteq> deployed s'" "fst ` set (ds_quota_blocked s') \<subseteq> deployed s'"
    "fst ` set (ds_unschedulable s') \<subseteq> deployed s'"
    using s unfolding s' fst_set_delete deployed_remove_app [OF r] by (simp_all add: Diff_mono)
  ultimately show ?thesis
    by (intro apps_okI)
qed

lemma override_ok_same_autoscale:
  assumes "override_ok apps ov" "\<And>b. map_option as_autoscale (map_of apps' b) = map_option as_autoscale (map_of apps b)"
  shows "override_ok apps' ov"
proof -
  obtain a spec au where a: "map_of apps a = Some spec" "as_autoscale spec = Some au" "app_id_string a = fst ov"
    "clamp_to_bounds (snd ov) au = snd ov"
    using assms(1) by (auto simp: override_ok_def)
  then show ?thesis using assms(2) [of a] by (auto simp: override_ok_def intro!: exI [of _ a])
qed

text \<open>Specs change in place, keeping their autoscale block and whether GitOps may own them.\<close>

lemma apps_ok_respecified:
  assumes ok: "apps_ok s" and keys: "map fst apps = map fst (ds_apps s)"
    and auto: "\<And>b. map_option as_autoscale (map_of apps b) = map_option as_autoscale (map_of (ds_apps s) b)"
    and own: "\<And>b. Option.bind (map_of apps b) as_owner \<noteq> None \<Longrightarrow> owner_of s b \<noteq> None"
  shows "apps_ok (s\<lparr>ds_apps := apps\<rparr>)"
proof -
  note s = apps_okD [OF ok]
  have d: "deployed (s\<lparr>ds_apps := apps\<rparr>) = deployed s"
    using arg_cong [OF keys, of set] by (simp add: deployed_def)
  have o: "owner_of (s\<lparr>ds_apps := apps\<rparr>) b = None" if "owner_of s b = None" for b
    using own [of b] that by (cases "Option.bind (map_of apps b) as_owner") (simp_all add: owner_of_def)
  have "\<forall>ov \<in> set (ds_autoscale_overrides s). override_ok apps ov"
    by (intro ballI override_ok_same_autoscale [OF _ auto] s(14))
  then show ?thesis
    using s keys o by (intro apps_okI) (simp_all add: d)
qed

lemma map_fst_update_present: "map_of xs k \<noteq> None \<Longrightarrow> map fst (AList.update k v xs) = map fst xs"
  by (induction xs) auto

lemma apps_ok_release: "apps_ok s \<Longrightarrow> apps_ok (snd (on_app_release a s))"
proof (cases "map_of (ds_apps s) a")
  case (Some spec)
  assume ok: "apps_ok s"
  have "apps_ok (s\<lparr>ds_apps := AList.update a (spec\<lparr>as_owner := None\<rparr>) (ds_apps s)\<rparr>)"
    using Some by (intro apps_ok_respecified [OF ok])
      (auto simp: map_fst_update_present update_conv owner_of_def split: if_splits)
  then show ?thesis using Some ok by (simp add: on_app_release_def)
qed (simp add: on_app_release_def)

lemma fold_reseal_value:
  "map fst (fold reseal_value rs apps) = map fst apps"
  "map_option as_autoscale (map_of (fold reseal_value rs apps) b) = map_option as_autoscale (map_of apps b)"
  "map_option as_owner (map_of (fold reseal_value rs apps) b) = map_option as_owner (map_of apps b)"
proof (induction rs arbitrary: apps)
  case (Cons r rs)
  { case 1 then show ?case using Cons by (simp add: reseal_value_def) }
  { case 2 then show ?case using Cons by (simp add: reseal_value_def map_of_alter_key option.map_comp comp_def) }
  { case 3 then show ?case using Cons by (simp add: reseal_value_def map_of_alter_key option.map_comp comp_def) }
qed simp_all

lemma apps_ok_adopt: "apps_ok s \<Longrightarrow> apps_ok (adopt_namespace_key ns rs s)"
proof -
  assume ok: "apps_ok s"
  have "Option.bind (map_of (fold reseal_value rs (ds_apps s)) b) as_owner = owner_of s b" for b
    using fold_reseal_value(3) [of rs "ds_apps s" b]
    by (cases "map_of (ds_apps s) b"; cases "map_of (fold reseal_value rs (ds_apps s)) b") (auto simp: owner_of_def)
  then have "apps_ok (s\<lparr>ds_apps := fold reseal_value rs (ds_apps s)\<rparr>)"
    by (intro apps_ok_respecified [OF ok]) (simp_all add: fold_reseal_value)
  then show ?thesis by (simp add: adopt_namespace_key_def Let_def)
qed

lemma apps_ok_override: "apps_ok s \<Longrightarrow> apps_ok (snd (on_autoscale_override a n s))"
proof (cases "Option.bind (map_of (ds_apps s) a) as_autoscale")
  case (Some au)
  assume ok: "apps_ok s"
  note s = apps_okD [OF ok]
  let ?n = "clamp_to_bounds n au" and ?k = "app_id_string a" and ?ovs = "ds_autoscale_overrides s"
  let ?new = "if list_ex (\<lambda>(k, _). k = ?k) ?ovs then update_first (\<lambda>(k, _). k = ?k) (\<lambda>(k, _). (k, ?n)) ?ovs else ?ovs @ [(?k, ?n)]"
  have new: "override_ok (ds_apps s) (?k, ?n)"
    using Some by (auto simp: override_ok_def clamp_idem bind_eq_Some_conv intro!: exI [of _ a])
  have upd: "map fst (update_first (\<lambda>(k, _). k = ?k) (\<lambda>(k, _). (k, ?n)) xs) = map fst xs \<and>
    set (update_first (\<lambda>(k, _). k = ?k) (\<lambda>(k, _). (k, ?n)) xs) \<subseteq> insert (?k, ?n) (set xs)" for xs
    by (induction xs) auto
  have "distinct (map fst ?new)"
    using s upd [of ?ovs] by (auto simp: list_ex_iff)
  moreover have "\<forall>ov \<in> set ?new. override_ok (ds_apps s) ov"
    using s upd [of ?ovs] new by (auto split: if_splits)
  ultimately have "apps_ok (s\<lparr>ds_autoscale_overrides := ?new\<rparr>)"
    using s by (intro apps_okI) (simp_all add: deployed_def owner_of_def)
  then show ?thesis
    using Some by (auto simp: on_autoscale_override_def Let_def bind_eq_Some_conv accept_def)
next
  case None
  then show "apps_ok s \<Longrightarrow> ?thesis" by (auto simp: on_autoscale_override_def bind_eq_None_conv split: option.splits)
qed

lemma apps_ok_rollouts:
  assumes "apps_ok s" "map_of (ds_apps s) a \<noteq> None"
  shows "apps_ok (s\<lparr>ds_rollouts := AList.update a r (ds_rollouts s)\<rparr>)"
proof -
  note s = apps_okD [OF assms(1)]
  have "fst ` set (AList.update a r (ds_rollouts s)) \<subseteq> deployed s"
    using s assms(2) by (auto simp: dom_update deployed_iff)
  then show ?thesis using s by (intro apps_okI) (simp_all add: deployed_def owner_of_def distinct_update)
qed

lemma collect_map_keys:
  "fst ` set (foldl (\<lambda>m (k, v). AList.update k v m) m ps) = fst ` set m \<union> fst ` set ps"
proof (induction ps arbitrary: m)
  case (Cons p ps)
  then show ?case by (cases p) (simp add: dom_update)
qed simp

lemma collect_map_distinct:
  "distinct (map fst m) \<Longrightarrow> distinct (map fst (foldl (\<lambda>m (k, v). AList.update k v m) m ps))"
proof (induction ps arbitrary: m)
  case (Cons p ps)
  then show ?case by (cases p) (simp add: distinct_update)
qed simp

lemma deployed_only_keys:
  "fst ` set (deployed_only ps s) \<subseteq> deployed s" "distinct (map fst (deployed_only ps s))"
  unfolding deployed_only_def collect_map_def
  by (auto simp: collect_map_keys collect_map_distinct deployed_iff)

lemma apps_ok_quota_blocked: "apps_ok s \<Longrightarrow> apps_ok (s\<lparr>ds_quota_blocked := deployed_only ps s\<rparr>)"
  using deployed_only_keys [of ps s] by (simp add: apps_ok_def deployed_def owner_of_def)

lemma apps_ok_unschedulable: "apps_ok s \<Longrightarrow> apps_ok (s\<lparr>ds_unschedulable := deployed_only us s\<rparr>)"
  using deployed_only_keys [of us s] by (simp add: apps_ok_def deployed_def owner_of_def)

lemma apps_ok_stop: "apps_ok s \<Longrightarrow> apps_ok (snd (on_app_stop a s))"
proof -
  assume ok: "apps_ok s"
  note s = apps_okD [OF ok]
  have "apps_ok (s\<lparr>ds_stopped_apps := insert a (ds_stopped_apps s)\<rparr>)" if "map_of (ds_apps s) a \<noteq> None"
    using s that by (intro apps_okI) (simp_all add: deployed_def owner_of_def map_of_eq_None_iff)
  then show ?thesis using ok by (simp add: on_app_stop_def)
qed

section \<open>Every request\<close>

lemma apps_ok_decision: "apply_scheduling_decision d s = Inr s' \<Longrightarrow> apps_ok s' = apps_ok s"
  by (auto simp: apply_scheduling_decision_def lease_placements_def Let_def split: if_splits sum.splits option.splits)

lemma apps_ok_admit: "admit_decisions seen ds s = Inr s' \<Longrightarrow> apps_ok s' = apps_ok s"
  by (induction seen ds s rule: admit_decisions.induct)
    (auto split: if_splits sum.splits dest: apps_ok_decision)

lemma apps_ok_spec: "apps_ok s \<Longrightarrow> apps_ok (snd (on_app_spec a spec s))"
  by (simp add: on_app_spec_def apps_ok_apply_app_spec split: option.split)

lemma apps_ok_removed: "apps_ok s \<Longrightarrow> apps_ok (snd (removed_or_refused a s))"
  by (simp add: removed_or_refused_def apps_ok_remove_app split: option.split)

lemma apps_ok_passes: "apps_ok s \<Longrightarrow> apps_ok (snd (on_scheduling_decisions pos expected ds s))"
  by (auto simp: on_scheduling_decisions_def apps_ok_admit split: sum.split)

lemma apps_ok_rollout_failed: "apps_ok s \<Longrightarrow> apps_ok (snd (on_rollout_failed lib a f s))"
  using apps_ok_rollouts [of s a] by (cases "map_of (ds_apps s) a") (simp_all add: on_rollout_failed_def Let_def)

lemma apps_ok_rollout_released: "apps_ok s \<Longrightarrow> apps_ok (snd (on_rollout_released lib a spec s))"
  using apps_ok_rollouts [of s a] by (cases "map_of (ds_apps s) a") (simp_all add: on_rollout_released_def Let_def)

lemma apps_ok_forget_namespace [simp]: "apps_ok (forget_namespace name s) = apps_ok s"
  by (simp add: forget_namespace_def)

lemma apps_ok_app_request: "apps_ok s \<Longrightarrow> apps_ok (snd (apply_app_request lib pos r s))"
  by (cases r) (simp_all add: apps_ok_spec apps_ok_stop apps_ok_removed apps_ok_release apps_ok_passes apps_ok_override
    apps_ok_rollout_failed apps_ok_rollout_released apps_ok_quota_blocked apps_ok_unschedulable on_app_delete_def on_namespace_spec_def
    on_namespace_delete_def on_permission_delete_def on_policy_spec_def on_policy_delete_def)

lemma apps_ok_registry_request: "apps_ok s \<Longrightarrow> apps_ok (snd (apply_registry_request r s))"
  by (cases r) (auto simp: on_manifest_commit_def on_confirm_image_copy_def on_gc_report_def on_expire_manifest_def
    on_attach_signature_def split: prod.split option.split sum.split)

lemma apps_ok_security_request: "apps_ok s \<Longrightarrow> apps_ok (snd (apply_security_request lib r s))"
  by (cases r) (simp_all add: on_security_init_def on_create_join_token_def on_consume_join_token_def on_consume_for_issue_def
    on_create_api_token_def on_revoke_api_token_def on_rotate_api_token_def on_sweep_tokens_def on_allocate_serial_def
    on_allocate_node_serial_def on_rotate_secret_key_def on_finalize_secret_rotation_def on_revoke_certificate_def
    on_ca_begin_def on_ca_prepare_def on_ca_finalize_def on_acknowledge_trust_def apps_ok_adopt Let_def
    split: option.split sum.split prod.split age_key_scope.split)

lemma apps_ok_lease_request: "apps_ok s \<Longrightarrow> apps_ok (snd (apply_lease_request lib r s))"
  by (cases r) (simp_all add: on_lease_create_def on_lease_registry_writer_def on_lease_manifest_commit_def
    on_lease_workloads_retired_def on_lease_registry_retired_def on_lease_jobs_def on_lease_app_spec_def
    on_lease_namespace_spec_def on_lease_api_token_def on_lease_revoke_token_def on_lease_renew_def
    on_lease_begin_cleanup_def on_lease_finish_cleanup_def on_lease_cleanup_failed_def on_lease_placement_retired_def
    on_lease_app_delete_def apps_ok_removed on_lease_namespace_delete_def attach_resource_def apps_ok_apply_app_spec Let_def
    split: option.split sum.split test_lease_state.split)

lemma apps_ok_cluster_request: "apps_ok s \<Longrightarrow> apps_ok (snd (apply_cluster_request r s))"
  by (cases r) (simp_all add: on_gitops_sync_update_def on_gitops_sync_requested_def on_gitops_config_set_def on_upgrade_update_def
    on_upgrade_clear_def on_build_register_def on_build_update_def on_reserve_node_fault_def on_release_node_fault_def
    on_decommission_node_def on_endpoints_def on_retire_execution_def Let_def
    split: option.split sum.split prod.split cluster_upgrade_phase.split)

lemma deployed_frame [simp]:
  "deployed (s\<lparr>ds_gitops_owned := x\<rparr>) = deployed s"
  "deployed (s\<lparr>ds_declared_apps := y\<rparr>) = deployed s"
  "owner_of (s\<lparr>ds_gitops_owned := x\<rparr>) a = owner_of s a"
  "owner_of (s\<lparr>ds_declared_apps := y\<rparr>) a = owner_of s a"
  by (simp_all add: deployed_def owner_of_def)

lemma apps_ok_adopted_app:
  assumes "apps_ok s" "a \<in> deployed s" "owner_of s a = None"
  shows "apps_ok (s\<lparr>ds_gitops_owned := (ds_gitops_owned s)\<lparr>go_apps := insert a (go_apps (ds_gitops_owned s))\<rparr>\<rparr>)"
  using apps_okD [OF assms(1)] assms(2,3) by (intro apps_okI) simp_all

lemma apps_ok_declare: "apps_ok s \<Longrightarrow> a \<in> deployed s \<Longrightarrow> apps_ok (declare_app a declared s)"
proof -
  assume ok: "apps_ok s" and a: "a \<in> deployed s"
  let ?d = "case declared of Some spec \<Rightarrow> AList.update a spec (ds_declared_apps s) | None \<Rightarrow> AList.delete a (ds_declared_apps s)"
  have "distinct (map fst ?d)"
    using apps_okD(3) [OF ok] by (simp add: distinct_update distinct_delete split: option.split)
  moreover have "fst ` set ?d \<subseteq> deployed s"
    using apps_okD(9) [OF ok] a by (cases declared) (auto simp: dom_update fst_set_delete)
  ultimately show ?thesis
    using apps_okD [OF ok] unfolding declare_app_def by (intro apps_okI) simp_all
qed

text \<open>An app write that is not refused leaves the app deployed with the spec it carried.\<close>

definition written :: "raft_request \<Rightarrow> (app_id \<times> app_spec) option" where
  "written r = (case r of
     AppReq (AppSpecWrite a spec) \<Rightarrow> Some (a, spec)
   | LeaseReq (TestLeaseAppSpec _ _ a spec) \<Rightarrow> Some (a, spec)
   | GitOpsWrite _ (AppReq (AppSpecWrite a spec)) \<Rightarrow> Some (a, spec)
   | _ \<Rightarrow> None)"

lemma fenced_app_written: "fenced_app r = map_option fst (written r)"
  by (auto simp: fenced_app_def written_def split: raft_request.split app_request.split lease_request.split)

lemma written_simps:
  "is_refused (fst (refuse e s))" "map_of (ds_apps (snd (accept (apply_app_spec a spec s)))) a = Some spec"
  by (simp_all add: refuse_def is_refused_def accept_def apply_app_spec_fields update_conv)

lemma written_spec:
  "is_refused (fst (on_app_spec a spec s)) \<or> map_of (ds_apps (snd (on_app_spec a spec s))) a = Some spec"
  by (simp add: on_app_spec_def written_simps split: option.split)

lemma written_lease_spec:
  "is_refused (fst (on_lease_app_spec i now a spec s)) \<or> map_of (ds_apps (snd (on_lease_app_spec i now a spec s))) a = Some spec"
  by (simp add: on_lease_app_spec_def written_simps Let_def split: option.split)

lemma written_cases:
  assumes "written r = Some (a, spec)"
  obtains "r = AppReq (AppSpecWrite a spec)" | i now where "r = LeaseReq (TestLeaseAppSpec i now a spec)"
    | t where "r = GitOpsWrite t (AppReq (AppSpecWrite a spec))"
  using assms by (auto simp: written_def split: raft_request.splits app_request.splits lease_request.splits)

lemma written_applied:
  assumes w: "written r = Some (a, spec)" and n: "\<not> is_refused (fst (apply_request_at lib pos r s))"
  shows "map_of (ds_apps (snd (apply_request_at lib pos r s))) a = Some spec"
  using w
proof (cases rule: written_cases)
  case 1
  then show ?thesis using n written_spec [of a spec s] by simp
next
  case (2 i now)
  then show ?thesis using n written_lease_spec [of i now a spec s] by simp
next
  case (3 t)
  then show ?thesis using n written_spec [of a spec s]
    by (auto simp: case_prod_beta is_refused_def [of "Some (Refused _)"] refuse_def split: if_splits option.splits)
qed

lemma apps_ok_gitops_adopt:
  assumes ok: "apps_ok s" and a: "\<And>a spec. change = AppReq (AppSpecWrite a spec) \<Longrightarrow> map_of (ds_apps s) a = Some spec \<and> as_owner spec = None"
  shows "apps_ok (s\<lparr>ds_gitops_owned := gitops_adopt change (ds_gitops_owned s)\<rparr>)"
proof (cases "\<exists>a spec. change = AppReq (AppSpecWrite a spec)")
  case True
  then obtain b spec where b: "change = AppReq (AppSpecWrite b spec)" by blast
  then show ?thesis
    using a [OF b] apps_ok_adopted_app [OF ok, of b] by (simp add: gitops_adopt_def deployed_iff owner_of_def)
next
  case False
  then have "go_apps (gitops_adopt change (ds_gitops_owned s)) = go_apps (ds_gitops_owned s)"
    by (auto simp: gitops_adopt_def split: raft_request.split app_request.split)
  then show ?thesis using ok by simp
qed

lemma apps_ok_request: "apps_ok s \<Longrightarrow> apps_ok (snd (apply_request_at lib pos r s))"
proof (induction r)
  case (GitOpsWrite t change)
  obtain resp s' where out: "apply_request_at lib pos change s = (resp, s')" by fastforce
  have ok: "apps_ok s'" using GitOpsWrite out by simp
  have "apps_ok (s'\<lparr>ds_gitops_owned := gitops_adopt change (ds_gitops_owned s')\<rparr>)"
    if n: "\<not> is_refused resp" and g: "gitops_refusal change s = None"
  proof (rule apps_ok_gitops_adopt [OF ok])
    fix a spec assume c: "change = AppReq (AppSpecWrite a spec)"
    then show "map_of (ds_apps s') a = Some spec \<and> as_owner spec = None"
      using written_spec [of a spec s] out n g by (auto simp: gitops_refusal_def split: if_splits)
  qed
  then show ?case using GitOpsWrite.prems ok out by (auto split: option.split)
next
  case (PolicyFenced generation change declared)
  obtain resp s' where out: "apply_request_at lib pos change s = (resp, s')" by fastforce
  have ok: "apps_ok s'" using PolicyFenced out by simp
  have "apps_ok (declare_app a declared s')" if f: "fenced_app change = Some a" and n: "\<not> is_refused resp" for a
  proof -
    obtain spec where "written change = Some (a, spec)" using f by (auto simp: fenced_app_written)
    then have "map_of (ds_apps s') a = Some spec" using written_applied [of change a spec lib pos s] out n by simp
    then show ?thesis using apps_ok_declare [OF ok] by (simp add: deployed_iff)
  qed
  then show ?case using PolicyFenced.prems ok out by (auto split: option.split)
qed (simp_all add: apps_ok_app_request apps_ok_registry_request apps_ok_security_request apps_ok_lease_request
  apps_ok_cluster_request)

lemma apps_ok_default: "apps_ok desired_default"
  by (simp add: apps_ok_def desired_default_def)

interpretation council_log: command_machine "council_exec lib" "\<lambda>_. True" apps_ok
  by unfold_locales (simp add: council_exec_def apps_ok_request)

section \<open>Who can take an app from its owner\<close>

text \<open>The requests that end the ownership of an app: its release, and its removal by an operator or by its lease.\<close>

definition ends_ownership :: "app_id \<Rightarrow> raft_request \<Rightarrow> bool" where
  "ends_ownership a r = (case r of
     AppReq (AppRelease b) \<Rightarrow> b = a
   | AppReq (AppDelete b) \<Rightarrow> b = a
   | LeaseReq (TestLeaseAppDelete _ b) \<Rightarrow> b = a
   | _ \<Rightarrow> False)"

lemma owner_of_frame [simp]:
  "owner_of (s\<lparr>ds_scheduling := x1\<rparr>) a = owner_of s a"
  "owner_of (s\<lparr>ds_config := x2\<rparr>) a = owner_of s a"
  "owner_of (s\<lparr>ds_manifest_catalog := x3\<rparr>) a = owner_of s a"
  "owner_of (s\<lparr>ds_registry_gc_generations := x4\<rparr>) a = owner_of s a"
  "owner_of (s\<lparr>ds_last_placed_nodes := x5\<rparr>) a = owner_of s a"
  "owner_of (s\<lparr>ds_gitops_sync_state := x6\<rparr>) a = owner_of s a"
  "owner_of (s\<lparr>ds_gitops_coordinator := x7\<rparr>) a = owner_of s a"
  "owner_of (s\<lparr>ds_gitops_config := x8\<rparr>) a = owner_of s a"
  "owner_of (s\<lparr>ds_security_state := x9\<rparr>) a = owner_of s a"
  "owner_of (s\<lparr>ds_active_upgrade := x10\<rparr>) a = owner_of s a"
  "owner_of (s\<lparr>ds_upgrade_history := x11\<rparr>) a = owner_of s a"
  "owner_of (s\<lparr>ds_build_state := x12\<rparr>) a = owner_of s a"
  "owner_of (s\<lparr>ds_namespaces := x13\<rparr>) a = owner_of s a"
  "owner_of (s\<lparr>ds_permissions := x14\<rparr>) a = owner_of s a"
  "owner_of (s\<lparr>ds_policies := x15\<rparr>) a = owner_of s a"
  "owner_of (s\<lparr>ds_policy_generation := x16\<rparr>) a = owner_of s a"
  "owner_of (s\<lparr>ds_endpoints := x17\<rparr>) a = owner_of s a"
  "owner_of (s\<lparr>ds_test_leases := x18\<rparr>) a = owner_of s a"
  "owner_of (s\<lparr>ds_node_fault_reservations := x19\<rparr>) a = owner_of s a"
  "owner_of (s\<lparr>ds_stopped_apps := x20\<rparr>) a = owner_of s a"
  "owner_of (s\<lparr>ds_quota_blocked := x21\<rparr>) a = owner_of s a"
  "owner_of (s\<lparr>ds_unschedulable := x22\<rparr>) a = owner_of s a"
  "owner_of (s\<lparr>ds_rollouts := x23\<rparr>) a = owner_of s a"
  "owner_of (s\<lparr>ds_autoscale_overrides := x24\<rparr>) a = owner_of s a"
  "owner_of (secured s ss) a = owner_of s a"
  "owner_of (update_lease i f s) a = owner_of s a"
  "owner_of (snd (refuse e s)) a = owner_of s a"
  "owner_of (snd (accept s)) a = owner_of s a"
  by (simp_all add: owner_of_def secured_def update_lease_def refuse_def accept_def)

lemma owner_of_decision: "apply_scheduling_decision d s = Inr s' \<Longrightarrow> owner_of s' a = owner_of s a"
  by (auto simp: apply_scheduling_decision_def lease_placements_def Let_def split: if_splits sum.splits option.splits)

lemma owner_of_admit: "admit_decisions seen ds s = Inr s' \<Longrightarrow> owner_of s' a = owner_of s a"
  by (induction seen ds s rule: admit_decisions.induct) (auto split: if_splits sum.splits dest: owner_of_decision)

lemma owner_of_adopt [simp]: "owner_of (adopt_namespace_key ns rs s) a = owner_of s a"
  using fold_reseal_value(3) [of rs "ds_apps s" a]
  by (cases "map_of (ds_apps s) a"; cases "map_of (fold reseal_value rs (ds_apps s)) a")
    (auto simp: owner_of_def adopt_namespace_key_def Let_def)

lemma owner_conflict_iff:
  "owner_of s a = Some w \<Longrightarrow> \<not> owner_conflict a spec s \<Longrightarrow> as_owner spec = Some w"
  by (auto simp: owner_of_def owner_conflict_def stored_owner_conflict_def split: option.splits)

lemma owner_of_spec: "owner_of s a = Some w \<Longrightarrow> owner_of (snd (on_app_spec b spec s)) a = Some w"
  using owner_conflict_iff [of s a w spec] by (auto simp: on_app_spec_def split: option.split)

lemma owner_conflict_update_lease [simp]: "owner_conflict a spec (update_lease i f s) = owner_conflict a spec s"
  by (simp add: owner_conflict_def update_lease_def)

lemma owner_of_lease_spec: "owner_of s a = Some w \<Longrightarrow> owner_of (snd (on_lease_app_spec i now b spec s)) a = Some w"
  using owner_conflict_iff [of s a w spec] by (auto simp: on_lease_app_spec_def attach_resource_def Let_def split: option.split)

lemma owner_of_removed: "b \<noteq> a \<Longrightarrow> owner_of (snd (removed_or_refused b s)) a = owner_of s a"
  by (simp add: removed_or_refused_def owner_of_remove_app split: option.split)

lemma owner_of_release: "b \<noteq> a \<Longrightarrow> owner_of (snd (on_app_release b s)) a = owner_of s a"
  by (simp add: on_app_release_def owner_of_def refuse_def accept_def update_conv split: option.split)

lemma owner_kept_app_request:
  assumes "owner_of s a = Some w" "\<not> ends_ownership a (AppReq r)"
  shows "owner_of (snd (apply_app_request lib pos r s)) a = Some w"
  using assms
  by (cases r) (auto simp: ends_ownership_def owner_of_spec on_app_stop_def owner_of_removed owner_of_release
    on_app_delete_def on_scheduling_decisions_def owner_of_admit on_autoscale_override_def on_rollout_failed_def
    on_rollout_released_def on_namespace_spec_def on_namespace_delete_def forget_namespace_def on_permission_delete_def
    on_policy_spec_def on_policy_delete_def Let_def split: option.split sum.split)

lemma owner_kept_registry_request: "owner_of (snd (apply_registry_request r s)) a = owner_of s a"
  by (cases r) (auto simp: on_manifest_commit_def on_confirm_image_copy_def on_gc_report_def on_expire_manifest_def
    on_attach_signature_def split: prod.split option.split sum.split)

lemma owner_kept_security_request: "owner_of (snd (apply_security_request lib r s)) a = owner_of s a"
  by (cases r) (simp_all add: on_security_init_def on_create_join_token_def on_consume_join_token_def on_consume_for_issue_def
    on_create_api_token_def on_revoke_api_token_def on_rotate_api_token_def on_sweep_tokens_def on_allocate_serial_def
    on_allocate_node_serial_def on_rotate_secret_key_def on_finalize_secret_rotation_def on_revoke_certificate_def
    on_ca_begin_def on_ca_prepare_def on_ca_finalize_def on_acknowledge_trust_def Let_def
    split: option.split sum.split prod.split age_key_scope.split)

lemma owner_kept_lease_request:
  assumes "owner_of s a = Some w" "\<not> ends_ownership a (LeaseReq r)"
  shows "owner_of (snd (apply_lease_request lib r s)) a = Some w"
  using assms
  by (cases r) (simp_all add: ends_ownership_def on_lease_create_def on_lease_registry_writer_def on_lease_manifest_commit_def
    on_lease_workloads_retired_def on_lease_registry_retired_def on_lease_jobs_def owner_of_lease_spec
    on_lease_namespace_spec_def on_lease_api_token_def on_lease_revoke_token_def on_lease_renew_def
    on_lease_begin_cleanup_def on_lease_finish_cleanup_def on_lease_cleanup_failed_def on_lease_placement_retired_def
    on_lease_app_delete_def owner_of_removed on_lease_namespace_delete_def forget_namespace_def attach_resource_def Let_def
    split: option.split sum.split test_lease_state.split)

lemma owner_kept_cluster_request: "owner_of (snd (apply_cluster_request r s)) a = owner_of s a"
  by (cases r) (simp_all add: on_gitops_sync_update_def on_gitops_sync_requested_def on_gitops_config_set_def on_upgrade_update_def
    on_upgrade_clear_def on_build_register_def on_build_update_def on_reserve_node_fault_def on_release_node_fault_def
    on_decommission_node_def on_endpoints_def on_retire_execution_def Let_def
    split: option.split sum.split prod.split cluster_upgrade_phase.split)

text \<open>A repository cannot end an ownership: what a controller owns is not owned by GitOps.\<close>

lemma gitops_ends_nothing:
  assumes ok: "apps_ok s" and w: "owner_of s a = Some w" and g: "gitops_refusal change s = None"
  shows "\<not> ends_ownership a change"
  using apps_okD(13) [OF ok, of a] w g
  by (auto simp: gitops_refusal_def ends_ownership_def Let_def split: raft_request.splits app_request.splits if_splits)

lemma owner_kept_request:
  assumes "apps_ok s" "owner_of s a = Some w" "\<not> ends_ownership a r"
  shows "owner_of (snd (apply_request_at lib pos r s)) a = Some w"
  using assms
proof (induction r)
  case (GitOpsWrite t change)
  then show ?case
    using gitops_ends_nothing [of s a w change] by (auto simp: case_prod_beta split: option.split)
next
  case (PolicyFenced generation change declared)
  have "\<not> ends_ownership a change" if "fenced_app change = Some b" for b
    using that by (auto simp: fenced_app_def ends_ownership_def split: raft_request.splits app_request.splits lease_request.splits)
  then show ?case
    using PolicyFenced by (auto simp: case_prod_beta declare_app_def split: option.split)
qed (simp_all add: owner_kept_app_request owner_kept_registry_request owner_kept_security_request owner_kept_lease_request
  owner_kept_cluster_request)

section \<open>The properties\<close>


text \<open>
  C7: Once a controller owns an app, no request takes it away but the release of the app, its removal
  by an operator and its removal with its lease. In particular no write of GitOps, no apply with another owner
  and no policy-fenced write changes or removes the owner.
\<close>

theorem owner_keeps_app:
  assumes "owner_of (fold (council_exec lib) log desired_default) a = Some w" "\<not> ends_ownership a (snd entry)"
  shows "owner_of (council_exec lib entry (fold (council_exec lib) log desired_default)) a = Some w"
  using owner_kept_request [OF _ assms] council_log.run_inv [OF apps_ok_default, of log lib] by (simp add: council_exec_def)

theorem owner_keeps_app_witness:
  "let s = fold (council_exec demo_library)
         [(demo_position, AppReq (AppSpecWrite demo_app_id (demo_app_spec\<lparr>as_owner := Some ''ci''\<rparr>)))] desired_default
   in owner_of s demo_app_id = Some ''ci'' \<and>
      owner_of (council_exec demo_library (demo_position, GitOpsWrite 3 (AppReq (AppSpecWrite demo_app_id demo_app_spec))) s)
        demo_app_id = Some ''ci''"
proof -
  let ?log = "[(demo_position, AppReq (AppSpecWrite demo_app_id (demo_app_spec\<lparr>as_owner := Some ''ci''\<rparr>)))]"
  have "owner_of (fold (council_exec demo_library) ?log desired_default) demo_app_id = Some ''ci''"
    by code_simp
  moreover have "\<not> ends_ownership demo_app_id (snd (demo_position, GitOpsWrite 3 (AppReq (AppSpecWrite demo_app_id demo_app_spec))))"
    by (simp add: ends_ownership_def)
  ultimately show ?thesis using owner_keeps_app by (simp only: Let_def simp_thms)
qed

end
