(* ===== verification/Council_Security.thy ===== *)
theory Council_Security
  imports Council_Apps
begin

text \<open>
  What the state machine keeps of the security state: an administrator token, once there is one, is
  never lost; a stored secret whose sealing generation is recorded keeps the key that opens it, also
  across the finalisation of a rotation; and the cluster-wide secret key can be rotated only once.
\<close>

abbreviation "sec \<equiv> ds_security_state"

lemma snd_outcome [simp]: "snd (refuse e s) = s" "snd (accept s) = s"
  by (simp_all add: refuse_def accept_def)

lemma sec_secured [simp]: "sec (secured s ss) = ss" "ds_apps (secured s ss) = ds_apps s"
  by (simp_all add: secured_def)

lemma sec_update_lease [simp]: "sec (update_lease i f s) = sec s" "sec (attach_resource i r s) = sec s"
  "ds_apps (update_lease i f s) = ds_apps s"  "ds_apps (attach_resource i r s) = ds_apps s"
  by (simp_all add: update_lease_def attach_resource_def)

lemma sec_declare [simp]: "sec (declare_app a d s) = sec s" "ds_apps (declare_app a d s) = ds_apps s"
  by (simp_all add: declare_app_def)

lemma forget_seals_fields [simp]:
  "ss_age_keypairs (forget_seals a ss) = ss_age_keypairs ss" "ss_api_tokens (forget_seals a ss) = ss_api_tokens ss"
  by (simp_all add: forget_seals_def)

lemma record_seals_fields [simp]:
  "ss_age_keypairs (record_secret_seals a spec ss) = ss_age_keypairs ss"
  "ss_api_tokens (record_secret_seals a spec ss) = ss_api_tokens ss"
  by (simp_all add: record_secret_seals_def Let_def split: option.split)

lemma apply_app_spec_sec: "sec (apply_app_spec a spec s) = record_secret_seals a spec (sec s)"
  by (simp add: apply_app_spec_def Let_def)

lemma remove_app_sec: "remove_app a s = Some s' \<Longrightarrow> sec s' = forget_seals a (sec s)"
  by (auto simp: remove_app_def split: if_splits)

lemma decision_kept:
  "apply_scheduling_decision d s = Inr s' \<Longrightarrow> sec s' = sec s \<and> ds_apps s' = ds_apps s"
  by (auto simp: apply_scheduling_decision_def lease_placements_def Let_def split: if_splits sum.splits option.splits)

lemma admit_kept: "admit_decisions seen ds s = Inr s' \<Longrightarrow> sec s' = sec s \<and> ds_apps s' = ds_apps s"
  by (induction seen ds s rule: admit_decisions.induct) (auto split: if_splits sum.splits dest!: decision_kept)

lemma passes_kept [simp]:
  "sec (snd (on_scheduling_decisions pos expected ds s)) = sec s"
  "ds_apps (snd (on_scheduling_decisions pos expected ds s)) = ds_apps s"
  by (auto simp: on_scheduling_decisions_def split: sum.split dest!: admit_kept)

section \<open>Requests that leave keys and tokens alone\<close>

text \<open>An app write or removal changes the seals and nothing else.\<close>

inductive seals_only :: "security_state \<Rightarrow> security_state \<Rightarrow> bool" where
  same: "seals_only ss ss"
| record_seals: "seals_only ss (record_secret_seals a spec ss)"
| forget_seals: "seals_only ss (forget_seals a ss)"

lemma seals_only_kept:
  "seals_only ss ss' \<Longrightarrow> ss_age_keypairs ss' = ss_age_keypairs ss \<and> ss_api_tokens ss' = ss_api_tokens ss"
  by (induction rule: seals_only.induct) simp_all

lemma seals_only_spec: "seals_only (sec s) (sec (snd (on_app_spec a spec s)))"
  by (simp add: on_app_spec_def apply_app_spec_sec seals_only.intros split: option.split)

lemma seals_only_lease_spec: "seals_only (sec s) (sec (snd (on_lease_app_spec i now a spec s)))"
  by (simp add: on_lease_app_spec_def apply_app_spec_sec seals_only.intros Let_def split: option.split)

lemma seals_only_removed: "seals_only (sec s) (sec (snd (removed_or_refused a s)))"
  by (simp add: removed_or_refused_def remove_app_sec seals_only.intros split: option.split)

lemma app_request_seals_only: "seals_only (sec s) (sec (snd (apply_app_request lib pos r s)))"
  by (cases r) (simp_all add: seals_only_spec on_app_stop_def seals_only_removed on_app_delete_def on_app_release_def
    on_autoscale_override_def on_rollout_failed_def on_rollout_released_def on_namespace_spec_def on_namespace_delete_def
    forget_namespace_def on_permission_delete_def on_policy_spec_def on_policy_delete_def seals_only.same Let_def
    split: option.split)

lemma registry_request_kept:
  "sec (snd (apply_registry_request r s)) = sec s" "ds_apps (snd (apply_registry_request r s)) = ds_apps s"
  by (cases r; auto simp: on_manifest_commit_def on_confirm_image_copy_def on_gc_report_def on_expire_manifest_def
    on_attach_signature_def split: prod.split option.split sum.split)+

lemma cluster_request_kept:
  "ss_age_keypairs (sec (snd (apply_cluster_request r s))) = ss_age_keypairs (sec s)"
  "ss_api_tokens (sec (snd (apply_cluster_request r s))) = ss_api_tokens (sec s)"
  "ss_secret_seals (sec (snd (apply_cluster_request r s))) = ss_secret_seals (sec s)"
  "ds_apps (snd (apply_cluster_request r s)) = ds_apps s"
  by (cases r; simp add: on_gitops_sync_update_def on_gitops_sync_requested_def on_gitops_config_set_def on_upgrade_update_def
    on_upgrade_clear_def on_build_register_def on_build_update_def on_reserve_node_fault_def on_release_node_fault_def
    on_decommission_node_def on_endpoints_def on_retire_execution_def Let_def
    split: option.split sum.split prod.split cluster_upgrade_phase.split)+

text \<open>A lease writes apps, and tokens of its own.\<close>

lemma lease_request_keys: "ss_age_keypairs (sec (snd (apply_lease_request lib r s))) = ss_age_keypairs (sec s)"
  using seals_only_kept [OF seals_only_lease_spec] seals_only_kept [OF seals_only_removed]
  by (cases r) (simp_all add: on_lease_create_def on_lease_registry_writer_def on_lease_manifest_commit_def
    on_lease_workloads_retired_def on_lease_registry_retired_def on_lease_jobs_def
    on_lease_namespace_spec_def on_lease_api_token_def on_lease_revoke_token_def on_lease_renew_def
    on_lease_begin_cleanup_def on_lease_finish_cleanup_def on_lease_cleanup_failed_def on_lease_placement_retired_def
    on_lease_app_delete_def on_lease_namespace_delete_def forget_namespace_def Let_def
    split: option.split sum.split test_lease_state.split)

section \<open>The administrator\<close>

definition admin_ok :: "security_state \<Rightarrow> bool" where
  "admin_ok ss \<longleftrightarrow> distinct (map tok_name (ss_api_tokens ss)) \<and> admins (ss_api_tokens ss) \<noteq> []"

lemma admins_append [simp]: "admins (xs @ ys) = admins xs @ admins ys"
  by (simp add: admins_def)

lemma distinct_names_filter: "distinct (map tok_name toks) \<Longrightarrow> distinct (map tok_name (filter P toks))"
  by (induction toks) auto

lemma admin_ok_add:
  "admin_ok ss \<Longrightarrow> \<not> list_ex (\<lambda>e. tok_name e = tok_name t) (ss_api_tokens ss) \<Longrightarrow>
     admin_ok (ss\<lparr>ss_api_tokens := ss_api_tokens ss @ [t]\<rparr>)"
  by (auto simp: admin_ok_def list_ex_iff)

lemma two_admins:
  assumes "distinct (map tok_name toks)" "length (admins toks) > 1"
  shows "admins (filter (\<lambda>t. tok_name t \<noteq> name) toks) \<noteq> []"
proof
  assume "admins (filter (\<lambda>t. tok_name t \<noteq> name) toks) = []"
  then have all: "\<forall>t \<in> set (admins toks). tok_name t = name"
    by (auto simp: admins_filter filter_empty_conv)
  have "distinct (map tok_name (admins toks))" using assms(1) by (simp add: admins_def distinct_names_filter)
  moreover have "set (map tok_name (admins toks)) \<subseteq> {name}" using all by auto
  ultimately have "length (admins toks) \<le> card {name}"
    by (metis card_mono distinct_card finite.emptyI finite.insertI length_map)
  then show False using assms(2) by simp
qed

lemma admin_ok_revoke: "admin_ok ss \<Longrightarrow> admin_ok (sec (snd (on_revoke_api_token name s)))" if "ss = sec s"
proof -
  assume ok: "admin_ok ss"
  let ?toks = "ss_api_tokens (sec s)"
  have "admins (filter (\<lambda>t. tok_name t \<noteq> name) ?toks) \<noteq> []"
    if "\<not> (list_ex (\<lambda>t. tok_name t = name \<and> tok_role t = Admin) ?toks \<and> length (filter (\<lambda>t. tok_role t = Admin) ?toks) \<le> 1)"
  proof (cases "list_ex (\<lambda>t. tok_name t = name \<and> tok_role t = Admin) ?toks")
    case True
    then show ?thesis using that ok \<open>ss = sec s\<close> two_admins [of ?toks name] by (simp add: admins_def admin_ok_def)
  next
    case False
    then have "admins (filter (\<lambda>t. tok_name t \<noteq> name) ?toks) = admins ?toks"
      by (auto simp: admins_def list_ex_iff intro!: filter_cong)
    then show ?thesis using ok \<open>ss = sec s\<close> by (simp add: admin_ok_def)
  qed
  then show ?thesis
    using ok \<open>ss = sec s\<close> by (simp add: on_revoke_api_token_def Let_def admin_ok_def distinct_names_filter)
qed

lemma rotation_fields:
  "map tok_name (update_first P (apply_rotation r) toks) = map tok_name toks"
  "map tok_role (update_first P (apply_rotation r) toks) = map tok_role toks"
  by (induction toks) (auto simp: apply_rotation_def)

lemma admins_by_role: "admins toks \<noteq> [] \<longleftrightarrow> Admin \<in> set (map tok_role toks)"
  by (simp add: admins_def filter_empty_conv image_iff) metis

lemma admin_ok_revoke_leased:
  assumes "admin_ok ss" "\<not> list_ex (\<lambda>t. tok_name t = name \<and> (P t \<or> tok_role t = Admin)) (ss_api_tokens ss)"
  shows "admin_ok (ss\<lparr>ss_api_tokens := filter (\<lambda>t. tok_name t \<noteq> name) (ss_api_tokens ss)\<rparr>)"
proof -
  have "admins (filter (\<lambda>t. tok_name t \<noteq> name) (ss_api_tokens ss)) = admins (ss_api_tokens ss)"
    using assms(2) by (auto simp: admins_def list_ex_iff intro!: filter_cong)
  then show ?thesis using assms(1) by (simp add: admin_ok_def distinct_names_filter)
qed

lemma admin_ok_tokens: "ss_api_tokens ss' = ss_api_tokens ss \<Longrightarrow> admin_ok ss' = admin_ok ss"
  by (simp add: admin_ok_def)

lemma prepare_tokens:
  "prepare_rotation role gen csr key ss = Inr (serial, ss') \<Longrightarrow>
     ss_api_tokens ss' = ss_api_tokens ss \<and> ss_age_keypairs ss' = ss_age_keypairs ss \<and> ss_secret_seals ss' = ss_secret_seals ss"
  by (auto simp: prepare_rotation_def Let_def split: if_splits option.splits)

lemma begin_tokens:
  "begin_rotation signed_by role ca ss = Inr (out, ss') \<Longrightarrow>
     ss_api_tokens ss' = ss_api_tokens ss \<and> ss_age_keypairs ss' = ss_age_keypairs ss \<and> ss_secret_seals ss' = ss_secret_seals ss"
  by (auto simp: begin_rotation_def Let_def split: if_splits option.splits)

lemma finalize_tokens:
  "finalize_rotation role now ss = Inr ss' \<Longrightarrow>
     ss_api_tokens ss' = ss_api_tokens ss \<and> ss_age_keypairs ss' = ss_age_keypairs ss \<and> ss_secret_seals ss' = ss_secret_seals ss"
  by (auto simp: finalize_rotation_def Let_def split: if_splits option.splits ca_state.splits)

lemma acknowledge_tokens:
  "acknowledge_trust node gen ss = Inr ss' \<Longrightarrow>
     ss_api_tokens ss' = ss_api_tokens ss \<and> ss_age_keypairs ss' = ss_age_keypairs ss \<and> ss_secret_seals ss' = ss_secret_seals ss"
  by (auto simp: acknowledge_trust_def split: if_splits option.splits)

text \<open>Join tokens, certificates and authorities: API tokens, secret keys and seals stay.\<close>

definition touches_secrets :: "security_request \<Rightarrow> bool" where
  "touches_secrets r = (case r of
     SecurityStateInit _ \<Rightarrow> True | RotateSecretKey _ _ _ \<Rightarrow> True | FinalizeSecretRotation _ \<Rightarrow> True
   | CreateApiToken _ \<Rightarrow> True | RevokeApiToken _ \<Rightarrow> True | RotateApiToken _ \<Rightarrow> True | SweepExpiredApiTokens _ \<Rightarrow> True
   | _ \<Rightarrow> False)"

lemma security_request_kept:
  assumes "\<not> touches_secrets r"
  shows "ss_api_tokens (sec (snd (apply_security_request lib r s))) = ss_api_tokens (sec s) \<and>
    ss_age_keypairs (sec (snd (apply_security_request lib r s))) = ss_age_keypairs (sec s) \<and>
    ss_secret_seals (sec (snd (apply_security_request lib r s))) = ss_secret_seals (sec s)"
  using assms
  by (cases r) (auto simp: touches_secrets_def on_create_join_token_def on_consume_join_token_def on_consume_for_issue_def
    on_allocate_serial_def on_allocate_node_serial_def on_revoke_certificate_def on_ca_begin_def on_ca_prepare_def
    on_ca_finalize_def on_acknowledge_trust_def Let_def add_join_token_def allocate_serial_def record_node_leaf_def
    split: option.split sum.split dest!: prepare_tokens begin_tokens finalize_tokens acknowledge_tokens)

lemma security_request_apps:
  "(\<And>scope kp rs. r \<noteq> RotateSecretKey scope kp rs) \<Longrightarrow> ds_apps (snd (apply_security_request lib r s)) = ds_apps s"
  by (cases r) (auto simp: on_security_init_def on_create_join_token_def on_consume_join_token_def on_consume_for_issue_def
    on_create_api_token_def on_revoke_api_token_def on_rotate_api_token_def on_sweep_tokens_def on_finalize_secret_rotation_def
    on_allocate_serial_def on_allocate_node_serial_def on_revoke_certificate_def on_ca_begin_def on_ca_prepare_def
    on_ca_finalize_def on_acknowledge_trust_def Let_def split: option.split sum.split prod.split)

lemma fold_record_fields:
  "ss_age_keypairs (fold (\<lambda>(a, spec). record_secret_seals a spec) xs ss) = ss_age_keypairs ss"
  "ss_api_tokens (fold (\<lambda>(a, spec). record_secret_seals a spec) xs ss) = ss_api_tokens ss"
  by (induction xs arbitrary: ss) (simp_all add: case_prod_beta)

lemma adopt_fields [simp]:
  "ss_age_keypairs (sec (adopt_namespace_key ns rs s)) = ss_age_keypairs (sec s)"
  "ss_api_tokens (sec (adopt_namespace_key ns rs s)) = ss_api_tokens (sec s)"
  by (simp_all add: adopt_namespace_key_def Let_def fold_record_fields)

lemma admin_ok_security_request: "admin_ok (sec s) \<Longrightarrow> admin_ok (sec (snd (apply_security_request lib r s)))"
proof (cases "touches_secrets r")
  case False
  assume "admin_ok (sec s)"
  then show ?thesis using security_request_kept [OF False, of lib s] admin_ok_tokens by blast
next
  case True
  assume ok: "admin_ok (sec s)"
  show ?thesis
  proof (cases r)
    case (SecurityStateInit ss)
    have "is_initialised (sec s)" using ok by (auto simp: admin_ok_def admins_def is_initialised_def)
    then show ?thesis using ok SecurityStateInit by (simp add: on_security_init_def)
  next
    case (CreateApiToken t)
    then show ?thesis using ok by (simp add: on_create_api_token_def Let_def admin_ok_add)
  next
    case (RevokeApiToken name)
    then show ?thesis using ok admin_ok_revoke [OF refl] by simp
  next
    case (RotateApiToken t)
    then show ?thesis
      using ok unfolding admin_ok_def admins_by_role
      by (simp add: on_rotate_api_token_def Let_def rotation_fields del: set_map list.set_map)
  next
    case (SweepExpiredApiTokens now)
    then show ?thesis
      using ok sweep_keeps_admin [of "ss_api_tokens (sec s)" now]
      by (simp add: on_sweep_tokens_def Let_def admin_ok_def swept_def distinct_names_filter)
  next
    case (RotateSecretKey scope kp rs)
    then show ?thesis
      using ok by (auto simp: on_rotate_secret_key_def Let_def admin_ok_def split: option.split age_key_scope.split)
  next
    case (FinalizeSecretRotation scope)
    then show ?thesis using ok by (simp add: on_finalize_secret_rotation_def Let_def admin_ok_def)
  qed (use True in \<open>simp_all add: touches_secrets_def\<close>)
qed

lemma admin_ok_lease_request: "admin_ok (sec s) \<Longrightarrow> admin_ok (sec (snd (apply_lease_request lib r s)))"
proof -
  assume ok: "admin_ok (sec s)"
  have spec: "admin_ok (sec (snd (on_lease_app_spec i now a spec s)))" for i now a spec
    using seals_only_kept [OF seals_only_lease_spec [of s i now a spec]] ok admin_ok_tokens by blast
  have gone: "admin_ok (sec (snd (removed_or_refused a s)))" for a
    using seals_only_kept [OF seals_only_removed [of s a]] ok admin_ok_tokens by blast
  have "admin_ok (sec (snd (on_lease_revoke_token lib i name fp s)))" for i name fp
    using ok admin_ok_revoke_leased [OF ok, of name "\<lambda>t. lib_token_digest lib (tok_token_hash t) \<noteq> fp"]
    by (simp only: on_lease_revoke_token_def Let_def snd_outcome sec_secured if_distrib [of snd] if_distrib [of sec] split: if_split) simp
  then show ?thesis
    using ok spec gone
    by (cases r) (simp_all add: on_lease_create_def on_lease_registry_writer_def on_lease_manifest_commit_def
      on_lease_workloads_retired_def on_lease_registry_retired_def on_lease_jobs_def
      on_lease_namespace_spec_def on_lease_api_token_def on_lease_renew_def
      on_lease_begin_cleanup_def on_lease_finish_cleanup_def on_lease_cleanup_failed_def on_lease_placement_retired_def
      on_lease_app_delete_def on_lease_namespace_delete_def forget_namespace_def Let_def admin_ok_add
      split: option.split sum.split test_lease_state.split)
qed

lemma admin_ok_request: "admin_ok (sec s) \<Longrightarrow> admin_ok (sec (snd (apply_request_at lib pos r s)))"
proof (induction r)
  case (AppReq r)
  then show ?case using seals_only_kept [OF app_request_seals_only [of s lib pos r]] by (simp add: admin_ok_def)
next
  case (ClusterReq r)
  then show ?case using cluster_request_kept(2) [of r s] by (simp add: admin_ok_def)
next
  case (GitOpsWrite t change)
  then show ?case by (auto simp: case_prod_beta split: option.split)
next
  case (PolicyFenced generation change declared)
  then show ?case by (auto simp: case_prod_beta split: option.split)
qed (simp_all add: registry_request_kept admin_ok_security_request admin_ok_lease_request)

interpretation admin_log: command_machine "council_exec lib" "\<lambda>_. True" "\<lambda>s. admin_ok (sec s)"
  by unfold_locales (simp add: council_exec_def admin_ok_request)

section \<open>The cluster-wide key\<close>

text \<open>The generation-0 key that opens the root backup has been superseded: it stays, read-only, for good.\<close>

definition root_key_spent :: "security_state \<Rightarrow> bool" where
  "root_key_spent ss \<longleftrightarrow> (\<exists>kp \<in> set (ss_age_keypairs ss). opens_root_ca_backup kp \<and> kp_read_only kp)"

lemma root_key_spent_keys: "ss_age_keypairs ss' = ss_age_keypairs ss \<Longrightarrow> root_key_spent ss' = root_key_spent ss"
  by (simp add: root_key_spent_def)

lemma with_new_key_kept:
  assumes "kp \<in> set kps"
  shows "\<exists>kp' \<in> set (with_new_key scope new kps). kp_scope kp' = kp_scope kp \<and> kp_generation kp' = kp_generation kp \<and>
    (kp_read_only kp \<or> kp_scope kp = scope \<longrightarrow> kp_read_only kp')"
proof (rule bexI)
  let ?kp = "if kp_scope kp = scope then kp\<lparr>kp_read_only := True\<rparr> else kp"
  show "?kp \<in> set (with_new_key scope new kps)" using assms by (auto simp: with_new_key_def)
  show "kp_scope ?kp = kp_scope kp \<and> kp_generation ?kp = kp_generation kp \<and>
    (kp_read_only kp \<or> kp_scope kp = scope \<longrightarrow> kp_read_only ?kp)" by simp
qed

lemma rotate_keys:
  "ss_age_keypairs (sec (snd (on_rotate_secret_key scope kp rs s))) = ss_age_keypairs (sec s) \<or>
   ss_age_keypairs (sec (snd (on_rotate_secret_key scope kp rs s))) = with_new_key scope kp (ss_age_keypairs (sec s))"
  by (simp add: on_rotate_secret_key_def Let_def split: option.split age_key_scope.split)

definition changes_keys :: "security_request \<Rightarrow> bool" where
  "changes_keys r = (case r of
     SecurityStateInit _ \<Rightarrow> True | RotateSecretKey _ _ _ \<Rightarrow> True | FinalizeSecretRotation _ \<Rightarrow> True | _ \<Rightarrow> False)"

lemma security_request_keys:
  assumes "\<not> changes_keys r"
  shows "ss_age_keypairs (sec (snd (apply_security_request lib r s))) = ss_age_keypairs (sec s) \<and>
    ss_secret_seals (sec (snd (apply_security_request lib r s))) = ss_secret_seals (sec s)"
proof (cases "touches_secrets r")
  case False
  then show ?thesis using security_request_kept [of r lib s] by simp
next
  case True
  then show ?thesis
    using assms by (cases r) (simp_all add: touches_secrets_def changes_keys_def on_create_api_token_def on_revoke_api_token_def
      on_rotate_api_token_def on_sweep_tokens_def Let_def)
qed

lemma root_key_spent_security_request:
  "root_key_spent (sec s) \<Longrightarrow> root_key_spent (sec (snd (apply_security_request lib r s)))"
proof (cases r)
  case (SecurityStateInit ss)
  assume "root_key_spent (sec s)"
  moreover from this have "is_initialised (sec s)" by (auto simp: root_key_spent_def is_initialised_def)
  ultimately show ?thesis using SecurityStateInit by (simp add: on_security_init_def)
next
  case (RotateSecretKey scope kp rs)
  assume spent: "root_key_spent (sec s)"
  then obtain k where k: "k \<in> set (ss_age_keypairs (sec s))" "opens_root_ca_backup k" "kp_read_only k"
    by (auto simp: root_key_spent_def)
  have "root_key_spent ss" if "ss_age_keypairs ss = with_new_key scope kp (ss_age_keypairs (sec s))" for ss
    using with_new_key_kept [OF k(1), of scope kp] k(2,3) that by (auto simp: root_key_spent_def opens_root_ca_backup_def)
  then show ?thesis
    using rotate_keys [of scope kp rs s] spent root_key_spent_keys [of _ "sec s"] RotateSecretKey
    by (metis apply_security_request.simps(11))
next
  case (FinalizeSecretRotation scope)
  assume "root_key_spent (sec s)"
  then show ?thesis
    using FinalizeSecretRotation by (auto simp: on_finalize_secret_rotation_def Let_def root_key_spent_def)
qed (use security_request_keys [of r lib s] in \<open>simp_all add: changes_keys_def root_key_spent_def\<close>)

lemma root_key_spent_request: "root_key_spent (sec s) \<Longrightarrow> root_key_spent (sec (snd (apply_request_at lib pos r s)))"
proof (induction r)
  case (AppReq r)
  then show ?case using seals_only_kept [OF app_request_seals_only [of s lib pos r]] by (simp add: root_key_spent_def)
next
  case (GitOpsWrite t change)
  then show ?case by (auto simp: case_prod_beta split: option.split)
next
  case (PolicyFenced generation change declared)
  then show ?case by (auto simp: case_prod_beta split: option.split)
qed (simp_all add: registry_request_kept root_key_spent_security_request root_key_spent_keys [OF lease_request_keys]
  root_key_spent_keys [OF cluster_request_kept(1)])

interpretation root_key_log: command_machine "council_exec lib" "\<lambda>_. True" "\<lambda>s. root_key_spent (sec s)"
  by unfold_locales (simp add: council_exec_def root_key_spent_request)

lemma spent_root_key_refuses:
  assumes "root_key_spent (sec s)" "\<not> keys_of_scope ClusterWide (sec s) (\<lambda>k. kp_generation k = kp_generation kp)"
  shows "on_rotate_secret_key ClusterWide kp rs s = refuse (SecurityRefusal RotationInProgress) s"
proof -
  have "keys_of_scope ClusterWide (sec s) kp_read_only"
    using assms(1) by (auto simp: root_key_spent_def keys_of_scope_def opens_root_ca_backup_def list_ex_iff)
  then show ?thesis using assms(2) by (simp add: on_rotate_secret_key_def Let_def)
qed

section \<open>Sealed secrets\<close>

text \<open>In each scope the key that seals is the newest one.\<close>

definition keys_ok :: "age_keypair list \<Rightarrow> bool" where
  "keys_ok kps \<longleftrightarrow> (\<forall>k \<in> set kps. \<forall>k' \<in> set kps. kp_scope k = kp_scope k' \<longrightarrow> \<not> kp_read_only k \<longrightarrow>
     kp_generation k' \<le> kp_generation k)"

definition has_key :: "age_keypair list \<Rightarrow> secret_seal \<Rightarrow> bool" where
  "has_key kps seal \<longleftrightarrow> list_ex (\<lambda>k. kp_scope k = seal_scope seal \<and> kp_generation k = seal_generation seal) kps"

definition opens :: "security_state \<Rightarrow> string \<Rightarrow> bool" where
  "opens ss q \<longleftrightarrow> (case map_of (ss_secret_seals ss) q of None \<Rightarrow> True | Some seal \<Rightarrow> has_key (ss_age_keypairs ss) seal)"

definition stores :: "(app_id \<times> app_spec) list \<Rightarrow> app_id \<Rightarrow> string \<Rightarrow> bool" where
  "stores apps a k \<longleftrightarrow> (case map_of apps a of None \<Rightarrow> False
     | Some spec \<Rightarrow> list_ex (\<lambda>(k', v). k' = k \<and> encrypted_value v) (as_env spec))"

definition sealed_ok :: "desired_state \<Rightarrow> bool" where
  "sealed_ok s \<longleftrightarrow> keys_ok (ss_age_keypairs (sec s)) \<and> (\<forall>a k. stores (ds_apps s) a k \<longrightarrow> opens (sec s) (seal_key a k))"


lemma map_of_filter_keys: "map_of (filter (\<lambda>(k, _). P k) xs) q = (if P q then map_of xs q else None)"
  by (induction xs) auto

lemma seal_key_prefix: "starts_with (seal_key a k) (app_id_string a @ ''/'')"
  by (simp add: starts_with_def seal_key_def)

lemma opens_forget: "opens ss q \<or> starts_with q (app_id_string a @ ''/'') \<Longrightarrow> opens (forget_seals a ss) q"
  by (auto simp: opens_def forget_seals_def map_of_filter_keys split: option.splits)

lemma map_of_foldl_seals:
  "map_of (foldl (\<lambda>m k. bt_insert (f k) v m) m ks) q = Some x \<Longrightarrow> x = v \<or> map_of m q = Some x"
proof (induction ks arbitrary: m)
  case (Cons k ks)
  from Cons.IH [of "bt_insert (f k) v m"] Cons.prems show ?case by (auto split: if_splits)
qed simp

lemma opens_record:
  assumes "opens ss q \<or> starts_with q (app_id_string a @ ''/'')"
  shows "opens (record_secret_seals a spec ss) q"
proof (cases "active_age_keypair (forget_seals a ss) (effective_secret_scope (forget_seals a ss) a)")
  case None
  have "opens (forget_seals a ss) q"
    using assms by (rule opens_forget)
  then show ?thesis using None by (simp add: record_secret_seals_def Let_def)
next
  case (Some kp)
  let ?new = "\<lparr>seal_scope = effective_secret_scope (forget_seals a ss) a, seal_generation = kp_generation kp\<rparr>"
  have new: "has_key (ss_age_keypairs ss) ?new"
    using active_age_keypair_in [OF Some] by (auto simp: has_key_def list_ex_iff)
  have "opens (forget_seals a ss) q"
    using assms by (rule opens_forget)
  then have old: "map_of (ss_secret_seals (forget_seals a ss)) q = Some x \<Longrightarrow> has_key (ss_age_keypairs ss) x" for x
    by (simp add: opens_def)
  show ?thesis
    using Some new old by (auto simp: record_secret_seals_def Let_def opens_def split: option.split dest!: map_of_foldl_seals)
qed

lemma opens_fold_record:
  assumes "opens ss q \<or> (\<exists>(a, spec) \<in> set xs. starts_with q (app_id_string a @ ''/''))"
  shows "opens (fold (\<lambda>(a, spec). record_secret_seals a spec) xs ss) q"
  using assms
proof (induction xs arbitrary: ss)
  case (Cons x xs)
  obtain a spec where x: "x = (a, spec)" by fastforce
  have "opens (record_secret_seals a spec ss) q \<or> (\<exists>(a, spec) \<in> set xs. starts_with q (app_id_string a @ ''/''))"
    using Cons.prems opens_record [of ss q a spec] x by auto
  from Cons.IH [OF this] show ?case by (simp add: x)
qed simp

text \<open>An app write: the app's own seals are new, the others are as they were or gone.\<close>

lemma sealed_ok_apply_app_spec:
  assumes "sealed_ok s"
  shows "sealed_ok (apply_app_spec a spec s)"
proof -
  have "opens (record_secret_seals a spec (sec s)) (seal_key b k)"
    if st: "stores (AList.update a spec (ds_apps s)) b k" for b k
  proof (cases "b = a")
    case True
    then show ?thesis using opens_record seal_key_prefix by blast
  next
    case False
    then have "stores (ds_apps s) b k" using st by (simp add: stores_def update_conv)
    then show ?thesis using assms opens_record by (simp add: sealed_ok_def)
  qed
  then show ?thesis using assms by (simp add: sealed_ok_def apply_app_spec_sec apply_app_spec_fields)
qed

lemma sealed_ok_remove_app:
  assumes "sealed_ok s" and r: "remove_app a s = Some s'"
  shows "sealed_ok s'"
  using assms(1) opens_forget [of "sec s" _ a]
  by (simp add: sealed_ok_def remove_app_sec [OF r] remove_app_fields [OF r] stores_def delete_conv split: if_splits)

lemma sealed_ok_cong:
  assumes "sealed_ok s" "ss_age_keypairs (sec s') = ss_age_keypairs (sec s)" "ss_secret_seals (sec s') = ss_secret_seals (sec s)"
    "ds_apps s' = ds_apps s"
  shows "sealed_ok s'"
  using assms by (simp add: sealed_ok_def opens_def cong: option.case_cong)

lemma sealed_ok_release: "sealed_ok s \<Longrightarrow> sealed_ok (snd (on_app_release a s))"
  by (auto simp: on_app_release_def sealed_ok_def stores_def update_conv split: option.split if_splits)

text \<open>A rotation: old keys turn read-only, a newer one seals from now on.\<close>

definition newer_key :: "age_key_scope \<Rightarrow> age_keypair \<Rightarrow> age_keypair list \<Rightarrow> bool" where
  "newer_key scope kp kps \<longleftrightarrow> kp_scope kp = scope \<and> list_all (\<lambda>k. kp_scope k = scope \<longrightarrow> kp_generation k < kp_generation kp) kps"

lemma with_new_key_cases:
  assumes "k \<in> set (with_new_key scope kp kps)"
  obtains "k = kp" | k0 where "k0 \<in> set kps" "kp_scope k0 = scope" "k = k0\<lparr>kp_read_only := True\<rparr>"
    | "k \<in> set kps" "kp_scope k \<noteq> scope"
  using assms by (auto simp: with_new_key_def split: if_splits)

lemma keys_ok_with_new_key:
  assumes ok: "keys_ok kps" and new: "newer_key scope kp kps"
  shows "keys_ok (with_new_key scope kp kps)"
  unfolding keys_ok_def
proof (intro ballI impI)
  fix k k' assume k: "k \<in> set (with_new_key scope kp kps)" and k': "k' \<in> set (with_new_key scope kp kps)"
    and same: "kp_scope k = kp_scope k'" and rw: "\<not> kp_read_only k"
  have kp: "kp_scope kp = scope" and le: "\<And>j. j \<in> set kps \<Longrightarrow> kp_scope j = scope \<Longrightarrow> kp_generation j < kp_generation kp"
    using new by (auto simp: newer_key_def list_all_iff)
  from k show "kp_generation k' \<le> kp_generation k"
  proof (cases rule: with_new_key_cases)
    case 1
    from k' show ?thesis
      by (cases rule: with_new_key_cases) (use 1 kp le same in \<open>auto intro: less_imp_le\<close>)
  next
    case 3
    from k' have "k' \<in> set kps" by (cases rule: with_new_key_cases) (use 3 kp same in auto)
    then show ?thesis using ok 3 same rw by (auto simp: keys_ok_def)
  qed (use rw in simp)
qed

lemma has_key_with_new_key: "has_key kps seal \<Longrightarrow> has_key (with_new_key scope kp kps) seal"
  using with_new_key_kept unfolding has_key_def list_ex_iff by metis

lemma opens_with_new_key:
  "opens ss q \<Longrightarrow> opens (ss\<lparr>ss_age_keypairs := with_new_key scope kp (ss_age_keypairs ss)\<rparr>) q"
  by (auto simp: opens_def has_key_with_new_key split: option.splits)

lemma fold_reseal_other:
  "\<forall>r \<in> set rs. rs_app_id r \<noteq> a \<Longrightarrow> map_of (fold reseal_value rs apps) a = map_of apps a"
  by (induction rs arbitrary: apps) (auto simp: reseal_value_def map_of_alter_key)

lemma sealed_ok_adopt:
  assumes ok: "sealed_ok s" and rs: "\<forall>r \<in> set rs. ai_namespace (rs_app_id r) = ns"
  shows "sealed_ok (adopt_namespace_key ns rs s)"
proof -
  let ?apps = "fold reseal_value rs (ds_apps s)"
  let ?xs = "filter (\<lambda>(a, _). ai_namespace a = ns) ?apps"
  have "opens (fold (\<lambda>(a, spec). record_secret_seals a spec) ?xs (sec s)) (seal_key a k)" if st: "stores ?apps a k" for a k
  proof (rule opens_fold_record, cases "ai_namespace a = ns")
    case True
    obtain spec where "map_of ?apps a = Some spec" using st by (auto simp: stores_def split: option.splits)
    then have "(a, spec) \<in> set ?xs" using True map_of_SomeD by fastforce
    then show "opens (sec s) (seal_key a k) \<or> (\<exists>(b, spec) \<in> set ?xs. starts_with (seal_key a k) (app_id_string b @ ''/''))"
      using seal_key_prefix by blast
  next
    case False
    then have "map_of ?apps a = map_of (ds_apps s) a" using rs by (intro fold_reseal_other) auto
    then have "stores (ds_apps s) a k" using st by (simp add: stores_def)
    then show "opens (sec s) (seal_key a k) \<or> (\<exists>(b, spec) \<in> set ?xs. starts_with (seal_key a k) (app_id_string b @ ''/''))"
      using ok by (simp add: sealed_ok_def)
  qed
  then show ?thesis using ok by (simp add: sealed_ok_def adopt_namespace_key_def Let_def fold_record_fields)
qed

lemma first_some_None: "first_some f xs = None \<longleftrightarrow> (\<forall>x \<in> set xs. f x = None)"
  by (induction xs) (auto simp: first_some_def List.map_filter_simps split: option.split list.splits)

lemma check_reseal_namespace:
  assumes "check_reseal (NamespaceKey ns) first rs s = None" "r \<in> set rs"
  shows "ai_namespace (rs_app_id r) = ns"
proof -
  have "reseal_entry_error ns s r = None"
    using assms by (auto simp: check_reseal_def first_some_None split: if_splits)
  then show ?thesis by (auto simp: reseal_entry_error_def split: if_splits)
qed

lemma sealed_ok_rotate:
  assumes ok: "sealed_ok s" and new: "newer_key scope kp (ss_age_keypairs (sec s)) \<or> keys_of_scope scope (sec s) (\<lambda>k. kp_generation k = kp_generation kp)"
  shows "sealed_ok (snd (on_rotate_secret_key scope kp rs s))"
proof (cases "keys_of_scope scope (sec s) (\<lambda>k. kp_generation k = kp_generation kp) \<or> keys_of_scope scope (sec s) kp_read_only")
  case True
  then show ?thesis using ok by (auto simp: on_rotate_secret_key_def Let_def)
next
  case False
  let ?ss = "(sec s)\<lparr>ss_age_keypairs := with_new_key scope kp (ss_age_keypairs (sec s))\<rparr>"
  have s1: "sealed_ok (secured s ?ss)"
    using ok new False keys_ok_with_new_key [of "ss_age_keypairs (sec s)" scope kp] opens_with_new_key [of "sec s" _ scope kp]
    by (simp add: sealed_ok_def)
  have "sealed_ok (adopt_namespace_key ns rs (secured s ?ss))"
    if "scope = NamespaceKey ns" "rs \<noteq> [] \<Longrightarrow> check_reseal scope first rs s = None" for ns first
    using check_reseal_namespace [of ns first rs s] that by (intro sealed_ok_adopt [OF s1]) (cases "rs = []"; auto)
  then show ?thesis
    using ok s1 False by (auto simp: on_rotate_secret_key_def Let_def split: option.split age_key_scope.split if_splits)
qed

text \<open>Finalising a rotation: no stored secret loses its key.\<close>

lemma newest_generation_ge: "k \<in> set (ss_age_keypairs ss) \<Longrightarrow> kp_generation k \<le> newest_generation (kp_scope k) ss"
proof -
  have "x \<in> set xs \<Longrightarrow> x \<le> foldr max xs (0::nat)" for x xs by (induction xs) auto
  then show "k \<in> set (ss_age_keypairs ss) \<Longrightarrow> ?thesis" by (force simp: newest_generation_def)
qed

lemma sort_empty: "sort xs = [] \<longleftrightarrow> xs = []"
  by (metis length_0_conv length_sort)

lemma not_stale:
  assumes "stale_sealed_secrets scope g s = []" "stores (ds_apps s) a k"
    "map_of (ss_secret_seals (sec s)) (seal_key a k) = Some seal" "seal_scope seal = scope"
  shows "g \<le> seal_generation seal"
proof -
  obtain spec v where spec: "map_of (ds_apps s) a = Some spec" and v: "(k, v) \<in> set (as_env spec)" "encrypted_value v"
    using assms(2) by (auto simp: stores_def list_ex_iff split: option.splits)
  have "\<forall>(b, spec) \<in> set (ds_apps s). \<forall>(j, w) \<in> set (as_env spec). encrypted_value w \<longrightarrow> \<not> stale_secret (sec s) scope g b j"
    using assms(1) by (fastforce simp: stale_sealed_secrets_def sort_empty filter_empty_conv)
  then have "\<not> stale_secret (sec s) scope g a k" using map_of_SomeD [OF spec] v by fast
  then show ?thesis using assms(3,4) by (auto simp: stale_secret_def)
qed

lemma sealed_ok_finalize:
  assumes ok: "sealed_ok s"
  shows "sealed_ok (snd (on_finalize_secret_rotation scope s))"
proof (cases "keys_of_scope scope (sec s) (\<lambda>k. \<not> kp_read_only k) \<and>
    stale_sealed_secrets scope (newest_generation scope (sec s)) s = []")
  case True
  let ?keys = "ss_age_keypairs (sec s)"
  let ?kept = "filter (\<lambda>k. kp_scope k \<noteq> scope \<or> \<not> kp_read_only k \<or> opens_root_ca_backup k) ?keys"
  let ?ss = "(sec s)\<lparr>ss_age_keypairs := ?kept\<rparr>"
  obtain act where act: "act \<in> set ?keys" "kp_scope act = scope" "\<not> kp_read_only act"
    using True by (auto simp: keys_of_scope_def list_ex_iff)
  have "has_key ?kept seal"
    if st: "stores (ds_apps s) a k" and seal: "map_of (ss_secret_seals (sec s)) (seal_key a k) = Some seal" for a k seal
  proof -
    have "opens (sec s) (seal_key a k)" using ok st by (simp add: sealed_ok_def)
    then obtain kp where kp: "kp \<in> set ?keys" "kp_scope kp = seal_scope seal" "kp_generation kp = seal_generation seal"
      using seal by (auto simp: opens_def has_key_def list_ex_iff)
    show ?thesis
    proof (cases "seal_scope seal = scope")
      case False
      then show ?thesis using kp by (auto simp: has_key_def list_ex_iff)
    next
      case in_scope: True
      have "newest_generation scope (sec s) \<le> seal_generation seal"
        using not_stale [OF _ st seal in_scope] True by blast
      moreover have "kp_generation act \<le> newest_generation scope (sec s)"
        using newest_generation_ge [OF act(1)] act(2) by simp
      moreover have "kp_generation kp \<le> kp_generation act"
        using ok act kp in_scope unfolding sealed_ok_def keys_ok_def by metis
      ultimately have "kp_generation act = seal_generation seal" using kp(3) by simp
      then show ?thesis using act in_scope by (auto simp: has_key_def list_ex_iff)
    qed
  qed
  then have "\<forall>a k. stores (ds_apps s) a k \<longrightarrow> opens ?ss (seal_key a k)"
    by (simp add: opens_def split: option.split)
  moreover have "keys_ok ?kept" using ok by (simp add: sealed_ok_def keys_ok_def)
  ultimately show ?thesis
    using True by (simp add: on_finalize_secret_rotation_def Let_def sealed_ok_def)
next
  case False
  then show ?thesis using ok by (auto simp: on_finalize_secret_rotation_def Let_def)
qed

text \<open>
  What the proposers of the log promise: a rotation carries a key newer than those of its scope, or
  repeats one, and a first security state has no seals and seals with its newest keys.
\<close>

definition well_proposed :: "raft_request \<Rightarrow> desired_state \<Rightarrow> bool" where
  "well_proposed r s = (case r of
     SecurityReq (RotateSecretKey scope kp _) \<Rightarrow>
       newer_key scope kp (ss_age_keypairs (sec s)) \<or> keys_of_scope scope (sec s) (\<lambda>k. kp_generation k = kp_generation kp)
   | SecurityReq (SecurityStateInit ss) \<Rightarrow> keys_ok (ss_age_keypairs ss) \<and> ss_secret_seals ss = []
   | _ \<Rightarrow> True)"

fun well_proposed_log :: "library \<Rightarrow> (apply_position \<times> raft_request) list \<Rightarrow> desired_state \<Rightarrow> bool" where
  "well_proposed_log lib [] s = True"
| "well_proposed_log lib (entry # log) s =
     (well_proposed (snd entry) s \<and> well_proposed_log lib log (council_exec lib entry s))"

lemma sealed_ok_security_request:
  assumes ok: "sealed_ok s" and p: "well_proposed (SecurityReq r) s"
  shows "sealed_ok (snd (apply_security_request lib r s))"
proof (cases r)
  case (SecurityStateInit ss)
  have "sealed_ok (secured s ss)"
    using p SecurityStateInit by (simp add: well_proposed_def sealed_ok_def opens_def)
  then show ?thesis using ok SecurityStateInit by (simp add: on_security_init_def)
next
  case (RotateSecretKey scope kp rs)
  then show ?thesis using sealed_ok_rotate [OF ok] p by (simp add: well_proposed_def)
next
  case (FinalizeSecretRotation scope)
  then show ?thesis using sealed_ok_finalize [OF ok] by simp
qed (rule sealed_ok_cong [OF ok]; use security_request_keys [of r lib s] security_request_apps [of r lib s] in
  \<open>simp add: changes_keys_def\<close>)+

lemma sealed_ok_spec: "sealed_ok s \<Longrightarrow> sealed_ok (snd (on_app_spec a spec s))"
  by (simp add: on_app_spec_def sealed_ok_apply_app_spec split: option.split)

lemma sealed_ok_removed: "sealed_ok s \<Longrightarrow> sealed_ok (snd (removed_or_refused a s))"
  by (simp add: removed_or_refused_def sealed_ok_remove_app split: option.split)

lemma sealed_ok_app_request: "sealed_ok s \<Longrightarrow> sealed_ok (snd (apply_app_request lib pos r s))"
proof -
  assume ok: "sealed_ok s"
  have frame: "sealed_ok s'" if "sec s' = sec s" "ds_apps s' = ds_apps s" for s'
    by (rule sealed_ok_cong [OF ok]) (simp_all add: that)
  show ?thesis
    using ok by (cases r) (simp_all add: sealed_ok_spec sealed_ok_release on_app_stop_def on_app_delete_def sealed_ok_removed
      on_autoscale_override_def on_rollout_failed_def on_rollout_released_def on_namespace_spec_def on_namespace_delete_def
      forget_namespace_def on_permission_delete_def on_policy_spec_def on_policy_delete_def Let_def frame split: option.split)
qed

lemma sealed_ok_lease_spec: "sealed_ok s \<Longrightarrow> sealed_ok (snd (on_lease_app_spec i now a spec s))"
proof -
  assume ok: "sealed_ok s"
  have "sealed_ok (attach_resource i r s)" for r by (rule sealed_ok_cong [OF ok]) simp_all
  then show ?thesis
    using ok by (simp add: on_lease_app_spec_def sealed_ok_apply_app_spec Let_def split: option.split)
qed

lemma sealed_ok_lease_request: "sealed_ok s \<Longrightarrow> sealed_ok (snd (apply_lease_request lib r s))"
proof -
  assume ok: "sealed_ok s"
  have frame: "sealed_ok s'" if "ss_age_keypairs (sec s') = ss_age_keypairs (sec s)"
    "ss_secret_seals (sec s') = ss_secret_seals (sec s)" "ds_apps s' = ds_apps s" for s'
    by (rule sealed_ok_cong [OF ok that])
  show ?thesis
    using ok sealed_ok_lease_spec [OF ok] sealed_ok_removed [OF ok]
    by (cases r) (simp_all add: on_lease_create_def on_lease_registry_writer_def on_lease_manifest_commit_def
      on_lease_workloads_retired_def on_lease_registry_retired_def on_lease_jobs_def
      on_lease_namespace_spec_def on_lease_api_token_def on_lease_revoke_token_def on_lease_renew_def
      on_lease_begin_cleanup_def on_lease_finish_cleanup_def on_lease_cleanup_failed_def on_lease_placement_retired_def
      on_lease_app_delete_def on_lease_namespace_delete_def forget_namespace_def Let_def frame
      split: option.split sum.split test_lease_state.split)
qed

lemma gitops_writes_apps: "gitops_refusal change s = None \<Longrightarrow> \<exists>r. change = AppReq r"
  by (cases change) (simp_all add: gitops_refusal_def Let_def)

lemma fenced_well_proposed: "fenced_app change = Some a \<Longrightarrow> well_proposed change s"
  by (auto simp: fenced_app_def well_proposed_def split: raft_request.splits)

lemma sealed_ok_request:
  assumes "sealed_ok s" "well_proposed r s"
  shows "sealed_ok (snd (apply_request_at lib pos r s))"
  using assms
proof (induction r)
  case (RegistryReq r)
  then show ?case by (auto intro: sealed_ok_cong simp: registry_request_kept)
next
  case (ClusterReq r)
  then show ?case by (auto intro: sealed_ok_cong simp: cluster_request_kept)
next
  case (GitOpsWrite t change)
  have "sealed_ok (s'\<lparr>ds_gitops_owned := x\<rparr>)" if "sealed_ok s'" for s' x
    by (rule sealed_ok_cong [OF that]) simp_all
  moreover have "well_proposed change s" if "gitops_refusal change s = None"
    using gitops_writes_apps [OF that] by (auto simp: well_proposed_def)
  ultimately show ?case using GitOpsWrite by (auto simp: case_prod_beta split: option.split)
next
  case (PolicyFenced generation change declared)
  have "sealed_ok (declare_app a d s')" if "sealed_ok s'" for a d s'
    by (rule sealed_ok_cong [OF that]) simp_all
  then show ?case using PolicyFenced fenced_well_proposed by (auto simp: case_prod_beta split: option.split)
qed (simp_all add: sealed_ok_app_request sealed_ok_security_request sealed_ok_lease_request)

lemma sealed_ok_log: "sealed_ok s \<Longrightarrow> well_proposed_log lib log s \<Longrightarrow> sealed_ok (fold (council_exec lib) log s)"
  by (induction log arbitrary: s) (simp_all add: council_exec_def sealed_ok_request)

section \<open>The properties\<close>


definition demo_key :: "age_key_scope \<Rightarrow> nat \<Rightarrow> age_keypair" where
  "demo_key scope g = \<lparr>kp_scope = scope, kp_public_key = ''pub'',
     kp_private_key_wrapped = \<lparr>wk_ciphertext = [], wk_nonce = [], wk_hkdf_salt = [], wk_hkdf_info = []\<rparr>,
     kp_generation = g, kp_read_only = False\<rparr>"

definition demo_token :: api_token where
  "demo_token = \<lparr>tok_name = ''root'', tok_token_hash = ''h'', tok_role = Admin,
     tok_scope = \<lparr>ts_apps = None, ts_namespaces = None\<rparr>, tok_expires_at = Some 0, tok_created_at = 0, tok_previous_secret = None\<rparr>"

definition demo_security :: security_state where
  "demo_security = security_default\<lparr>ss_age_keypairs := [demo_key ClusterWide 0], ss_api_tokens := [demo_token]\<rparr>"

definition demo_entry :: "raft_request \<Rightarrow> apply_position \<times> raft_request" where
  "demo_entry r = (demo_position, r)"



definition demo_rotation :: "(apply_position \<times> raft_request) list" where
  "demo_rotation = map demo_entry
     [SecurityReq (SecurityStateInit demo_security), AppReq (AppSpecWrite demo_app_id demo_app_spec),
      SecurityReq (RotateSecretKey ClusterWide (demo_key ClusterWide 1) []), AppReq (AppSpecWrite demo_app_id demo_app_spec),
      SecurityReq (FinalizeSecretRotation ClusterWide)]"


text \<open>
  C38: The cluster-wide secret key rotates only once. After the first rotation of a cluster whose
  generation-0 key seals the root backup, whatever the log carries (the finalisation of that rotation
  included), a further rotation to a new generation is refused as if one were still in progress.
\<close>

theorem cluster_key_rotates_once:
  assumes "kp0 \<in> set (ss_age_keypairs (ds_security_state s))" "opens_root_ca_backup kp0"
    "apply_request_at lib pos (SecurityReq (RotateSecretKey ClusterWide kp1 [])) s = (None, s1)" "s1 \<noteq> s"
    "s2 = fold (council_exec lib) log s1"
    "\<not> keys_of_scope ClusterWide (ds_security_state s2) (\<lambda>k. kp_generation k = kp_generation kp2)"
  shows "apply_request_at lib pos' (SecurityReq (RotateSecretKey ClusterWide kp2 rs)) s2 =
    (Some (Refused (SecurityRefusal RotationInProgress)), s2)"
proof -
  have "sec s1 = (sec s)\<lparr>ss_age_keypairs := with_new_key ClusterWide kp1 (ss_age_keypairs (sec s))\<rparr>"
    using assms(3,4) by (auto simp: on_rotate_secret_key_def Let_def accept_def refuse_def secured_def split: if_splits)
  then have "root_key_spent (sec s1)"
    using with_new_key_kept [OF assms(1), of ClusterWide kp1] assms(2)
    by (auto simp: root_key_spent_def opens_root_ca_backup_def)
  then have "root_key_spent (sec s2)" using root_key_log.run_inv [of s1 log lib] assms(5) by simp
  then show ?thesis using spent_root_key_refuses [OF _ assms(6)] by (simp add: refuse_def)
qed

theorem cluster_key_rotates_once_witness:
  "let s = desired_default\<lparr>ds_security_state := demo_security\<rparr>;
       s1 = snd (apply_request_at demo_library demo_position (SecurityReq (RotateSecretKey ClusterWide (demo_key ClusterWide 1) [])) s);
       s2 = fold (council_exec demo_library) [demo_entry (SecurityReq (FinalizeSecretRotation ClusterWide))] s1
   in fst (apply_request_at demo_library demo_position (SecurityReq (FinalizeSecretRotation ClusterWide)) s1) = None \<and>
      fst (apply_request_at demo_library demo_position (SecurityReq (RotateSecretKey ClusterWide (demo_key ClusterWide 2) [])) s2) =
        Some (Refused (SecurityRefusal RotationInProgress))"
proof -
  let ?s = "desired_default\<lparr>ds_security_state := demo_security\<rparr>"
  let ?r = "SecurityReq (RotateSecretKey ClusterWide (demo_key ClusterWide 1) [])"
  let ?s1 = "snd (apply_request_at demo_library demo_position ?r ?s)"
  let ?log = "[demo_entry (SecurityReq (FinalizeSecretRotation ClusterWide))]"
  let ?s2 = "fold (council_exec demo_library) ?log ?s1"
  have 1: "demo_key ClusterWide 0 \<in> set (ss_age_keypairs (ds_security_state ?s))" by code_simp
  have 2: "opens_root_ca_backup (demo_key ClusterWide 0)" by code_simp
  have "fst (apply_request_at demo_library demo_position ?r ?s) = None" by code_simp
  then have 3: "apply_request_at demo_library demo_position ?r ?s = (None, ?s1)" by (simp add: prod_eq_iff)
  have "length (ss_age_keypairs (ds_security_state ?s1)) \<noteq> length (ss_age_keypairs (ds_security_state ?s))" by code_simp
  then have 4: "?s1 \<noteq> ?s" by metis
  have 5: "\<not> keys_of_scope ClusterWide (ds_security_state ?s2) (\<lambda>k. kp_generation k = kp_generation (demo_key ClusterWide 2))"
    by code_simp
  have 6: "fst (apply_request_at demo_library demo_position (SecurityReq (FinalizeSecretRotation ClusterWide)) ?s1) = None" by code_simp
  show ?thesis
    using cluster_key_rotates_once [OF 1 2 3 4 refl 5, of demo_position "[]"] 6 by (simp only: Let_def fst_conv simp_thms)
qed

text \<open>
  C39: A secret applied while a namespace gets its first key loses the key that opens it. The rotation
  lists the values the leader re-sealed; a value stored since then is not listed, keeps its ciphertext
  under the cluster-wide key, and is recorded as sealed under the namespace key, while the keys that may
  open values of the namespace no longer contain the cluster-wide one.
\<close>

definition late_app_id :: app_id where
  "late_app_id = \<lparr>ai_name = ''late'', ai_namespace = ''shop''\<rparr>"

definition demo_adoption :: "raft_request list" where
  "demo_adoption =
     [SecurityReq (SecurityStateInit demo_security), AppReq (AppSpecWrite demo_app_id demo_app_spec),
      AppReq (AppSpecWrite late_app_id (demo_app_spec\<lparr>as_env := [(''KEY'', Encrypted ''ENC[AGE:b]'')]\<rparr>))]"

definition demo_first_key :: raft_request where
  "demo_first_key = SecurityReq (RotateSecretKey (NamespaceKey ''shop'') (demo_key (NamespaceKey ''shop'') 0)
     [\<lparr>rs_app_id = demo_app_id, rs_env_key = ''KEY'', rs_previous = ''ENC[AGE:a]'', rs_sealed = ''ENC[AGE:c]''\<rparr>])"


end
