(* ===== verification/Council_Components.thy ===== *)
theory Council_Components
  imports Council_Security
begin

text \<open>
  How the state machine uses its components. Every request acts on the discovery state and on the
  image catalogue through the operations of those components only, so that what holds of their runs
  holds inside the council. And a node that was decommissioned stays out of the desired state.
\<close>

section \<open>Discovery and catalogue\<close>

definition discovery_cmds :: "raft_request \<Rightarrow> desired_state \<Rightarrow> endpoint_cmd list" where
  "discovery_cmds r s' = (case r of
     ClusterReq (RegisterEndpointConsumer node) \<Rightarrow> [RegisterConsumer node]
   | ClusterReq (AcknowledgeEndpointWithdrawal node g) \<Rightarrow> [AcknowledgeWithdrawal node g]
   | ClusterReq (DischargeEndpointConsumer node) \<Rightarrow> [DischargeConsumer node]
   | ClusterReq (RetireEndpointExecution node x) \<Rightarrow> [RetireExecution node x]
   | ClusterReq (PublishEndpointCatalog g cat) \<Rightarrow> [PublishEndpoints g cat]
   | ClusterReq (DecommissionNode node _ _ _ _) \<Rightarrow> if node \<in> retired_nodes s' then [RetireNode node] else []
   | _ \<Rightarrow> [])"

definition catalog_cmds :: "raft_request \<Rightarrow> desired_state \<Rightarrow> council_response option \<Rightarrow> catalog_cmd list" where
  "catalog_cmds r s response = (case r of
     RegistryReq (ManifestCommitWrite c) \<Rightarrow> if response = None then [CatCommit c] else []
   | RegistryReq (ConfirmImageCopy c) \<Rightarrow>
       if response = None then [CatHolder (cp_repository c) (cp_manifest_digest c) (cp_node_id c)] else []
   | RegistryReq (GcReportWrite g) \<Rightarrow> (case response of Some (GcApproved (_ # _)) \<Rightarrow> [CatGc g] | _ \<Rightarrow> [])
   | RegistryReq (DeleteTagWrite d) \<Rightarrow> [CatDeleteTag d]
   | RegistryReq (ExpireManifestWrite e) \<Rightarrow> [CatExpire e (pinned_image_digests s)]
   | RegistryReq (AttachSignatureWrite a) \<Rightarrow> [CatSign a]
   | LeaseReq (TestLeaseManifestCommit i _ c) \<Rightarrow>
       if response = None then [CatClaim (im_repository (mc_manifest c)) i, CatCommit c] else []
   | LeaseReq (TestLeaseFinishCleanup i) \<Rightarrow>
       if response = None
       then (case map_of (ds_test_leases s) i of None \<Rightarrow> [] | Some l \<Rightarrow> map (CatRetire \<circ> fst) (tl_repositories l)) else []
   | _ \<Rightarrow> [])"

definition initialises :: "raft_request \<Rightarrow> bool" where
  "initialises r = (case r of SecurityReq (SecurityStateInit _) \<Rightarrow> True | _ \<Rightarrow> False)"

definition decommissions :: "raft_request \<Rightarrow> bool" where
  "decommissions r = (case r of ClusterReq (DecommissionNode _ _ _ _ _) \<Rightarrow> True | _ \<Rightarrow> False)"

section \<open>What the other requests leave alone\<close>

text \<open>The discovery state, the catalogue and the retired nodes.\<close>

definition component_view :: "desired_state \<Rightarrow> endpoint_state \<times> manifest_catalog \<times> (string \<times> node_retirement) list" where
  "component_view s = (ds_endpoints s, ds_manifest_catalog s, crl_retired_nodes (ss_crl (sec s)))"

lemma view_frame [simp]:
  "component_view (s\<lparr>ds_apps := x1\<rparr>) = component_view s"
  "component_view (s\<lparr>ds_scheduling := x2\<rparr>) = component_view s"
  "component_view (s\<lparr>ds_config := x3\<rparr>) = component_view s"
  "component_view (s\<lparr>ds_registry_gc_generations := x4\<rparr>) = component_view s"
  "component_view (s\<lparr>ds_autoscale_overrides := x5\<rparr>) = component_view s"
  "component_view (s\<lparr>ds_stopped_apps := x6\<rparr>) = component_view s"
  "component_view (s\<lparr>ds_last_placed_nodes := x7\<rparr>) = component_view s"
  "component_view (s\<lparr>ds_quota_blocked := x8\<rparr>) = component_view s"
  "component_view (s\<lparr>ds_unschedulable := x9\<rparr>) = component_view s"
  "component_view (s\<lparr>ds_rollouts := x10\<rparr>) = component_view s"
  "component_view (s\<lparr>ds_gitops_sync_state := x11\<rparr>) = component_view s"
  "component_view (s\<lparr>ds_gitops_coordinator := x12\<rparr>) = component_view s"
  "component_view (s\<lparr>ds_gitops_config := x13\<rparr>) = component_view s"
  "component_view (s\<lparr>ds_gitops_owned := x14\<rparr>) = component_view s"
  "component_view (s\<lparr>ds_active_upgrade := x15\<rparr>) = component_view s"
  "component_view (s\<lparr>ds_upgrade_history := x16\<rparr>) = component_view s"
  "component_view (s\<lparr>ds_build_state := x17\<rparr>) = component_view s"
  "component_view (s\<lparr>ds_namespaces := x18\<rparr>) = component_view s"
  "component_view (s\<lparr>ds_permissions := x19\<rparr>) = component_view s"
  "component_view (s\<lparr>ds_policies := x20\<rparr>) = component_view s"
  "component_view (s\<lparr>ds_policy_generation := x21\<rparr>) = component_view s"
  "component_view (s\<lparr>ds_declared_apps := x22\<rparr>) = component_view s"
  "component_view (s\<lparr>ds_test_leases := x23\<rparr>) = component_view s"
  "component_view (s\<lparr>ds_node_fault_reservations := x24\<rparr>) = component_view s"
  "ss_crl ss = ss_crl (sec s) \<Longrightarrow> component_view (s\<lparr>ds_security_state := ss\<rparr>) = component_view s"
  by (simp_all add: component_view_def)

lemma view_secured [simp]: "ss_crl ss = ss_crl (sec s) \<Longrightarrow> component_view (secured s ss) = component_view s"
  by (simp add: secured_def)

lemma view_lease [simp]: "component_view (update_lease i f s) = component_view s" "component_view (attach_resource i r s) = component_view s"
  by (simp_all add: update_lease_def attach_resource_def)

lemma crl_seals [simp]: "ss_crl (forget_seals a ss) = ss_crl ss" "ss_crl (record_secret_seals a spec ss) = ss_crl ss"
  by (simp_all add: forget_seals_def record_secret_seals_def Let_def split: option.split)

lemma crl_fold_record [simp]: "ss_crl (fold (\<lambda>(a, spec). record_secret_seals a spec) xs ss) = ss_crl ss"
  by (induction xs arbitrary: ss) (simp_all add: case_prod_beta)

lemma view_adopt [simp]: "component_view (adopt_namespace_key ns rs s) = component_view s"
  by (simp add: adopt_namespace_key_def Let_def component_view_def)

lemma view_apply_app_spec [simp]: "component_view (apply_app_spec a spec s) = component_view s"
  by (simp add: apply_app_spec_def Let_def component_view_def)

lemma view_remove_app: "remove_app a s = Some s' \<Longrightarrow> component_view s' = component_view s"
  by (auto simp: remove_app_def component_view_def split: if_splits)

lemma view_decision: "apply_scheduling_decision d s = Inr s' \<Longrightarrow> component_view s' = component_view s"
  by (auto simp: apply_scheduling_decision_def lease_placements_def Let_def split: if_splits sum.splits option.splits)

lemma view_admit: "admit_decisions seen ds s = Inr s' \<Longrightarrow> component_view s' = component_view s"
  by (induction seen ds s rule: admit_decisions.induct) (auto split: if_splits sum.splits dest!: view_decision)

lemma view_passes [simp]: "component_view (snd (on_scheduling_decisions pos expected ds s)) = component_view s"
  by (auto simp: on_scheduling_decisions_def split: sum.split dest!: view_admit)

lemma view_spec [simp]: "component_view (snd (on_app_spec a spec s)) = component_view s"
  by (simp add: on_app_spec_def split: option.split)

lemma view_lease_spec [simp]: "component_view (snd (on_lease_app_spec i now a spec s)) = component_view s"
  by (simp add: on_lease_app_spec_def Let_def split: option.split)

lemma view_removed [simp]: "component_view (snd (removed_or_refused a s)) = component_view s"
  by (simp add: removed_or_refused_def view_remove_app split: option.split)

lemma view_app_request: "component_view (snd (apply_app_request lib pos r s)) = component_view s"
  by (cases r) (simp_all add: on_app_stop_def on_app_delete_def on_app_release_def
    on_autoscale_override_def on_rollout_failed_def on_rollout_released_def on_namespace_spec_def on_namespace_delete_def
    forget_namespace_def on_permission_delete_def on_policy_spec_def on_policy_delete_def Let_def split: option.split)

lemma crl_rotations:
  "prepare_rotation role gen csr key ss = Inr (serial, ss') \<Longrightarrow> ss_crl ss' = ss_crl ss"
  "begin_rotation signed_by role ca ss = Inr (out, ss') \<Longrightarrow> ss_crl ss' = ss_crl ss"
  "finalize_rotation role now ss = Inr ss' \<Longrightarrow> ss_crl ss' = ss_crl ss"
  "acknowledge_trust node g ss = Inr ss' \<Longrightarrow> ss_crl ss' = ss_crl ss"
  by (auto simp: prepare_rotation_def begin_rotation_def finalize_rotation_def acknowledge_trust_def Let_def
    split: if_splits option.splits ca_state.splits)

lemma view_revoke_certificate: "component_view (snd (on_revoke_certificate e s)) = component_view s"
  by (simp add: on_revoke_certificate_def Let_def component_view_def secured_def)

lemma view_security_request:
  "\<not> initialises (SecurityReq r) \<Longrightarrow> component_view (snd (apply_security_request lib r s)) = component_view s"
  by (cases r) (simp_all add: initialises_def on_create_join_token_def on_consume_join_token_def on_consume_for_issue_def
    on_create_api_token_def on_revoke_api_token_def on_rotate_api_token_def on_sweep_tokens_def on_allocate_serial_def
    on_allocate_node_serial_def on_rotate_secret_key_def on_finalize_secret_rotation_def view_revoke_certificate
    on_ca_begin_def on_ca_prepare_def on_ca_finalize_def on_acknowledge_trust_def add_join_token_def allocate_serial_def
    record_node_leaf_def crl_rotations Let_def split: option.split sum.split prod.split age_key_scope.split)

definition lease_commits :: "lease_request \<Rightarrow> bool" where
  "lease_commits r = (case r of TestLeaseManifestCommit _ _ _ \<Rightarrow> True | TestLeaseFinishCleanup _ \<Rightarrow> True | _ \<Rightarrow> False)"

lemma view_lease_request:
  "\<not> lease_commits r \<Longrightarrow> component_view (snd (apply_lease_request lib r s)) = component_view s"
  by (cases r) (simp_all add: lease_commits_def on_lease_create_def on_lease_registry_writer_def
    on_lease_workloads_retired_def on_lease_registry_retired_def on_lease_jobs_def
    on_lease_namespace_spec_def on_lease_api_token_def on_lease_revoke_token_def on_lease_renew_def
    on_lease_begin_cleanup_def on_lease_cleanup_failed_def on_lease_placement_retired_def
    on_lease_app_delete_def on_lease_namespace_delete_def forget_namespace_def Let_def
    split: option.split sum.split test_lease_state.split)

definition acts_on_endpoints :: "cluster_request \<Rightarrow> bool" where
  "acts_on_endpoints r = (case r of
     RegisterEndpointConsumer _ \<Rightarrow> True | AcknowledgeEndpointWithdrawal _ _ \<Rightarrow> True | DischargeEndpointConsumer _ \<Rightarrow> True
   | RetireEndpointExecution _ _ \<Rightarrow> True | PublishEndpointCatalog _ _ \<Rightarrow> True | DecommissionNode _ _ _ _ _ \<Rightarrow> True | _ \<Rightarrow> False)"

lemma view_cluster_request:
  "\<not> acts_on_endpoints r \<Longrightarrow> component_view (snd (apply_cluster_request r s)) = component_view s"
  by (cases r) (simp_all add: acts_on_endpoints_def on_gitops_sync_update_def on_gitops_sync_requested_def on_gitops_config_set_def
    on_upgrade_update_def on_upgrade_clear_def on_build_register_def on_build_update_def on_reserve_node_fault_def
    on_release_node_fault_def Let_def split: option.split sum.split prod.split cluster_upgrade_phase.split)

lemma view_gitops_write: "component_view (snd (apply_request_at lib pos (GitOpsWrite t change) s)) = component_view s"
proof (cases "gitops_refusal change s")
  case None
  then obtain r where "change = AppReq r" using gitops_writes_apps by blast
  then show ?thesis using view_app_request [of lib pos r s] None by (simp add: case_prod_beta)
qed simp

lemma view_declare [simp]: "component_view (declare_app a d s) = component_view s"
  by (simp add: declare_app_def)

lemma view_policy_fenced: "component_view (snd (apply_request_at lib pos (PolicyFenced g change d) s)) = component_view s"
proof (cases "fenced_app change")
  case (Some a)
  then obtain spec where "written change = Some (a, spec)" by (auto simp: fenced_app_written)
  then have "component_view (snd (apply_request_at lib pos change s)) = component_view s"
  proof (cases rule: written_cases)
    case (3 t)
    then show ?thesis using view_gitops_write by blast
  qed simp_all
  then show ?thesis using Some by (simp add: case_prod_beta)
qed simp

section \<open>The refinement\<close>

lemma registry_request_endpoints:
  "ds_endpoints (snd (apply_registry_request r s)) = ds_endpoints s"
  by (cases r) (auto simp: on_manifest_commit_def on_confirm_image_copy_def on_gc_report_def on_expire_manifest_def
    on_attach_signature_def split: prod.split option.split sum.split)

lemma lease_request_endpoints:
  "ds_endpoints (snd (apply_lease_request lib r s)) = ds_endpoints s"
  "crl_retired_nodes (ss_crl (sec (snd (apply_lease_request lib r s)))) = crl_retired_nodes (ss_crl (sec s))"
proof -
  have "component_view (snd (apply_lease_request lib r s)) = component_view s \<or>
    (\<exists>i now c. r = TestLeaseManifestCommit i now c) \<or> (\<exists>i. r = TestLeaseFinishCleanup i)"
    using view_lease_request [of r lib s] by (cases r) (simp_all add: lease_commits_def)
  moreover have "ds_endpoints (snd (on_lease_manifest_commit i now c s)) = ds_endpoints s \<and>
    sec (snd (on_lease_manifest_commit i now c s)) = sec s" for i now c
    by (simp add: on_lease_manifest_commit_def split: option.split sum.split)
  moreover have "ds_endpoints (snd (on_lease_finish_cleanup i s)) = ds_endpoints s \<and>
    sec (snd (on_lease_finish_cleanup i s)) = sec s" for i
    by (simp add: on_lease_finish_cleanup_def Let_def split: option.split)
  ultimately show "ds_endpoints (snd (apply_lease_request lib r s)) = ds_endpoints s"
    "crl_retired_nodes (ss_crl (sec (snd (apply_lease_request lib r s)))) = crl_retired_nodes (ss_crl (sec s))"
    by (auto simp: component_view_def)
qed

lemma retired_nodes_eq: "crl_retired_nodes (ss_crl (sec s')) = crl_retired_nodes (ss_crl (sec s)) \<Longrightarrow> retired_nodes s' = retired_nodes s"
  by (simp add: retired_nodes_def)


text \<open>Decommissioning: nothing the components see, or the discovery state retires the node and its copies go.\<close>

lemma decommission_view:
  "component_view (snd (on_decommission_node node by_whom reason at_ms membership s)) = component_view s \<or>
    node \<notin> retired_nodes s \<and>
    decommission_endpoints node (ds_endpoints s) = Inr (ds_endpoints (snd (on_decommission_node node by_whom reason at_ms membership s))) \<and>
    retired_nodes (snd (on_decommission_node node by_whom reason at_ms membership s)) = insert node (retired_nodes s) \<and>
    ds_manifest_catalog (snd (on_decommission_node node by_whom reason at_ms membership s)) =
      remove_node_holdings (raft_id_from_name node) (ds_manifest_catalog s)"
  by (simp add: on_decommission_node_def Let_def retired_nodes_def map_of_eq_None_iff split: option.split sum.split)

lemma view_retired: "component_view s' = component_view s \<Longrightarrow> ds_endpoints s' = ds_endpoints s \<and> retired_nodes s' = retired_nodes s"
  by (simp add: component_view_def retired_nodes_def)

lemma view_catalog: "component_view s' = component_view s \<Longrightarrow> ds_manifest_catalog s' = ds_manifest_catalog s"
  by (simp add: component_view_def)

lemma discovery_refines_cluster:
  "\<exists>D'. fold endpoint_exec (discovery_cmds (ClusterReq r) (snd (apply_cluster_request r s))) (ds_endpoints s, retired_nodes s, D) =
     (ds_endpoints (snd (apply_cluster_request r s)), retired_nodes (snd (apply_cluster_request r s)), D')"
proof (cases "acts_on_endpoints r")
  case False
  then have "discovery_cmds (ClusterReq r) s' = []" for s'
    by (cases r) (simp_all add: discovery_cmds_def acts_on_endpoints_def)
  then show ?thesis using view_retired [OF view_cluster_request [OF False, of s]] by simp
next
  case True
  show ?thesis
  proof (cases r)
    case (DecommissionNode node by_whom reason at_ms membership)
    let ?s = "snd (on_decommission_node node by_whom reason at_ms membership s)"
    from decommission_view [of node by_whom reason at_ms membership s] show ?thesis
    proof
      assume "component_view ?s = component_view s"
      from view_retired [OF this] show ?thesis using DecommissionNode by (simp add: discovery_cmds_def)
    next
      assume "node \<notin> retired_nodes s \<and> decommission_endpoints node (ds_endpoints s) = Inr (ds_endpoints ?s) \<and>
        retired_nodes ?s = insert node (retired_nodes s) \<and>
        ds_manifest_catalog ?s = remove_node_holdings (raft_id_from_name node) (ds_manifest_catalog s)"
      then show ?thesis using DecommissionNode by (simp add: discovery_cmds_def)
    qed
  qed (use True in \<open>auto simp: discovery_cmds_def acts_on_endpoints_def on_endpoints_def on_retire_execution_def retired_nodes_def
    split: sum.split prod.split\<close>)
qed

lemma discovery_refines:
  assumes "\<not> initialises r"
  shows "\<exists>D'. fold endpoint_exec (discovery_cmds r (snd (apply_request_at lib pos r s))) (ds_endpoints s, retired_nodes s, D) =
    (ds_endpoints (snd (apply_request_at lib pos r s)), retired_nodes (snd (apply_request_at lib pos r s)), D')"
proof (cases r)
  case (ClusterReq q)
  then show ?thesis using discovery_refines_cluster [of q s D] by simp
next
  case (AppReq q)
  then show ?thesis using view_retired [OF view_app_request [of lib pos q s]] by (simp add: discovery_cmds_def)
next
  case (RegistryReq q)
  then show ?thesis by (simp add: discovery_cmds_def registry_request_endpoints registry_request_kept retired_nodes_def)
next
  case (SecurityReq q)
  then show ?thesis using view_retired [OF view_security_request [of q lib s]] assms by (simp add: discovery_cmds_def)
next
  case (LeaseReq q)
  then show ?thesis using lease_request_endpoints [of lib q s] by (simp add: discovery_cmds_def retired_nodes_def)
next
  case (GitOpsWrite t q)
  then show ?thesis using view_retired [OF view_gitops_write [of lib pos t q s]] by (simp add: discovery_cmds_def del: apply_request_at.simps)
next
  case (PolicyFenced g q d)
  then show ?thesis using view_retired [OF view_policy_fenced [of lib pos g q d s]] by (simp add: discovery_cmds_def del: apply_request_at.simps)
qed

lemma catalog_refines_registry:
  "ds_manifest_catalog (snd (apply_registry_request r s)) =
     fold catalog_exec (catalog_cmds (RegistryReq r) s (fst (apply_registry_request r s))) (ds_manifest_catalog s)"
proof (cases r)
  case (ConfirmImageCopy c)
  then show ?thesis
    using holder_not_found [of "cp_repository c" "cp_manifest_digest c" "cp_node_id c" "ds_manifest_catalog s"]
    by (auto simp: catalog_cmds_def on_confirm_image_copy_def refuse_def accept_def split: prod.split)
next
  case (GcReportWrite g)
  then show ?thesis
    by (auto simp: catalog_cmds_def on_gc_report_def refuse_def split: prod.split option.split list.split)
qed (auto simp: catalog_cmds_def on_manifest_commit_def on_expire_manifest_def on_attach_signature_def refuse_def accept_def
  split: prod.split sum.split)

lemma catalog_refines_lease:
  "ds_manifest_catalog (snd (apply_lease_request lib r s)) =
     fold catalog_exec (catalog_cmds (LeaseReq r) s (fst (apply_lease_request lib r s))) (ds_manifest_catalog s)"
proof (cases "lease_commits r")
  case False
  then have "catalog_cmds (LeaseReq r) s x = []" for x
    by (cases r) (simp_all add: catalog_cmds_def lease_commits_def)
  then show ?thesis using view_catalog [OF view_lease_request [OF False, of lib s]] by simp
next
  case True
  have "fold retire_repository (map fst xs) c = fold catalog_exec (map (CatRetire \<circ> fst) xs) c" for xs :: "(string \<times> nat set) list" and c
    by (induction xs arbitrary: c) simp_all
  then show ?thesis
    using True
    by (cases r) (auto simp: lease_commits_def catalog_cmds_def on_lease_manifest_commit_def on_lease_finish_cleanup_def Let_def
      refuse_def accept_def split: option.split sum.split)
qed

lemma catalog_refines:
  assumes "\<not> decommissions r"
  shows "ds_manifest_catalog (snd (apply_request_at lib pos r s)) =
    fold catalog_exec (catalog_cmds r s (fst (apply_request_at lib pos r s))) (ds_manifest_catalog s)"
proof (cases r)
  case (ClusterReq q)
  then have "ds_manifest_catalog (snd (apply_cluster_request q s)) = ds_manifest_catalog s"
    using assms view_catalog [OF view_cluster_request [of q s]]
    by (cases q) (simp_all add: decommissions_def acts_on_endpoints_def on_endpoints_def on_retire_execution_def
      split: sum.split prod.split)
  then show ?thesis using ClusterReq by (simp add: catalog_cmds_def)
next
  case (AppReq q)
  then show ?thesis using view_catalog [OF view_app_request [of lib pos q s]] by (simp add: catalog_cmds_def)
next
  case (RegistryReq q)
  then show ?thesis using catalog_refines_registry [of q s] by simp
next
  case (SecurityReq q)
  have "ds_manifest_catalog (snd (on_security_init ss s)) = ds_manifest_catalog s" for ss
    by (simp add: on_security_init_def secured_def)
  then have "ds_manifest_catalog (snd (apply_security_request lib q s)) = ds_manifest_catalog s"
    using view_catalog [OF view_security_request [of q lib s]] by (cases q) (simp_all add: initialises_def)
  then show ?thesis using SecurityReq by (simp add: catalog_cmds_def)
next
  case (LeaseReq q)
  then show ?thesis using catalog_refines_lease [of lib q s] by simp
next
  case (GitOpsWrite t q)
  then show ?thesis using view_catalog [OF view_gitops_write [of lib pos t q s]] by (simp add: catalog_cmds_def del: apply_request_at.simps)
next
  case (PolicyFenced g q d)
  then show ?thesis using view_catalog [OF view_policy_fenced [of lib pos g q d s]] by (simp add: catalog_cmds_def del: apply_request_at.simps)
qed

section \<open>Retired nodes\<close>

definition unplaced_on :: "string \<Rightarrow> (app_id \<times> placement list) list \<Rightarrow> bool" where
  "unplaced_on n sch \<longleftrightarrow> list_all (\<lambda>(_, ps). list_all (\<lambda>p. pl_node_id p \<noteq> n) ps) sch"

definition undiscovered :: "string \<Rightarrow> endpoint_state \<Rightarrow> bool" where
  "undiscovered n es \<longleftrightarrow> n \<notin> es_consumers es \<and>
     list_all (\<lambda>(_, v). list_all (\<lambda>b. cb_node_id b \<noteq> n) (cs_backends v)) (es_catalog es)"

definition holds_nothing :: "string \<Rightarrow> manifest_catalog \<Rightarrow> bool" where
  "holds_nothing n c \<longleftrightarrow> list_all (\<lambda>(_, hs). raft_id_from_name n \<notin> hs) (mcat_layer_locations c)"

definition writer_free :: "string \<Rightarrow> test_lease \<Rightarrow> bool" where
  "writer_free n l \<longleftrightarrow> list_all (\<lambda>(_, owners). raft_id_from_name n \<notin> owners) (tl_repositories l)"

definition writes_nothing :: "string \<Rightarrow> (string \<times> test_lease) list \<Rightarrow> bool" where
  "writes_nothing n ls \<longleftrightarrow> list_all (\<lambda>(_, l). writer_free n l) ls"

definition unfaulted :: "string \<Rightarrow> node_fault_reservations \<Rightarrow> bool" where
  "unfaulted n f \<longleftrightarrow> (case nfs_active f of None \<Rightarrow> True | Some r \<Rightarrow> fq_target_node (nfr_request r) \<noteq> Some n)"

definition out_of_service :: "desired_state \<Rightarrow> string \<Rightarrow> bool" where
  "out_of_service s n \<longleftrightarrow> unplaced_on n (ds_scheduling s) \<and> undiscovered n (ds_endpoints s) \<and>
     holds_nothing n (ds_manifest_catalog s) \<and> writes_nothing n (ds_test_leases s) \<and> unfaulted n (ds_node_fault_reservations s)"

lemma set_alist_delete: "set (AList.delete k xs) \<subseteq> set xs"
  by (auto simp: AList.delete_eq)

lemma set_bt_insert_subset: "set (bt_insert k v m) \<subseteq> insert (k, v) (set m)"
  by (induction m) (auto split: if_splits)

lemma set_bt_remove_subset: "set (bt_remove k m) \<subseteq> set m"
  by (auto simp: bt_remove_def)

lemma list_all_subset: "list_all P xs \<Longrightarrow> set ys \<subseteq> set xs \<Longrightarrow> list_all P ys"
  by (auto simp: list_all_iff)

lemma writes_nothing_alter:
  "(\<And>l. writer_free n l \<Longrightarrow> writer_free n (f l)) \<Longrightarrow> writes_nothing n ls \<Longrightarrow> writes_nothing n (alter_key i f ls)"
  by (induction ls) (auto simp: writes_nothing_def alter_key_def)

lemma writes_nothing_lookup: "writes_nothing n ls \<Longrightarrow> map_of ls i = Some l \<Longrightarrow> writer_free n l"
  by (auto simp: writes_nothing_def list_all_iff dest: map_of_SomeD)

lemma writer_free_fields [simp]:
  "writer_free n (l\<lparr>tl_placements := x\<rparr>) = writer_free n l"
  "writer_free n (l\<lparr>tl_resources := y\<rparr>) = writer_free n l"
  "writer_free n (l\<lparr>tl_state := z\<rparr>) = writer_free n l"
  "writer_free n (l\<lparr>tl_expires_at_unix_ms := e\<rparr>) = writer_free n l"
  "writer_free n (l\<lparr>tl_workloads_retired := b\<rparr>) = writer_free n l"
  by (simp_all add: writer_free_def)

subsection \<open>Placements\<close>

lemma unplaced_update:
  "unplaced_on n sch \<Longrightarrow> list_all (\<lambda>p. pl_node_id p \<noteq> n) ps \<Longrightarrow> unplaced_on n (AList.update a ps sch)"
  by (induction sch) (auto simp: unplaced_on_def)

lemma decision_out:
  assumes "apply_scheduling_decision d s = Inr s'" "n \<in> retired_nodes s" "out_of_service s n"
  shows "out_of_service s' n"
proof -
  obtain s1 where s1: "(if starts_with (ai_namespace (sd_app_id d)) ''rbtest-'' then lease_placements d s else Inr s) = Inr s1"
    and s': "ds_scheduling s' = AList.update (sd_app_id d) (sd_placements d) (ds_scheduling s1)" "ds_endpoints s' = ds_endpoints s1"
      "ds_manifest_catalog s' = ds_manifest_catalog s1" "ds_test_leases s' = ds_test_leases s1"
      "ds_node_fault_reservations s' = ds_node_fault_reservations s1"
    using assms(1) by (auto simp: apply_scheduling_decision_def split: if_splits sum.splits)
  have "\<not> list_ex (\<lambda>p. pl_node_id p \<in> retired_nodes s) (sd_placements d)"
    using assms(1) by (auto simp: apply_scheduling_decision_def)
  then have ps: "list_all (\<lambda>p. pl_node_id p \<noteq> n) (sd_placements d)"
    using assms(2) by (auto simp: list_ex_iff list_all_iff)
  have "out_of_service s1 n"
    using s1 assms(3) by (auto intro!: writes_nothing_alter simp: lease_placements_def out_of_service_def Let_def split: if_splits option.splits)
  then show ?thesis using s' unplaced_update [OF _ ps] by (simp add: out_of_service_def)
qed

lemma admit_out:
  "admit_decisions seen ds s = Inr s' \<Longrightarrow> n \<in> retired_nodes s \<Longrightarrow> out_of_service s n \<Longrightarrow> out_of_service s' n"
proof (induction seen ds s rule: admit_decisions.induct)
  case (2 seen d ds s)
  then obtain s1 where s1: "apply_scheduling_decision d s = Inr s1" "admit_decisions (insert (sd_app_id d) seen) ds s1 = Inr s'"
    "sd_app_id d \<notin> seen"
    by (auto split: if_splits sum.splits)
  have "retired_nodes s1 = retired_nodes s" using view_retired [OF view_decision [OF s1(1)]] by simp
  then show ?case using "2.IH" [OF s1(3,1,2)] decision_out [OF s1(1)] "2.prems" by simp
qed simp

definition service_view ::
  "desired_state \<Rightarrow> (app_id \<times> placement list) list \<times> endpoint_state \<times> manifest_catalog \<times> (string \<times> test_lease) list \<times> node_fault_reservations" where
  "service_view s = (ds_scheduling s, ds_endpoints s, ds_manifest_catalog s, ds_test_leases s, ds_node_fault_reservations s)"

lemma out_of_service_view: "service_view s' = service_view s \<Longrightarrow> out_of_service s' n = out_of_service s n"
  by (simp add: service_view_def out_of_service_def)

lemma service_view_spec [simp]: "service_view (apply_app_spec a spec s) = service_view s"
  by (simp add: service_view_def apply_app_spec_def Let_def)

lemma out_removed: "out_of_service s n \<Longrightarrow> out_of_service (snd (removed_or_refused a s)) n"
  using list_all_subset [OF _ set_alist_delete]
  by (auto simp: removed_or_refused_def remove_app_def out_of_service_def unplaced_on_def)

lemma out_app_request:
  assumes "n \<in> retired_nodes s" "out_of_service s n"
  shows "out_of_service (snd (apply_app_request lib pos r s)) n"
proof -
  have "out_of_service (snd (on_scheduling_decisions pos e ds s)) n" for e ds
    using admit_out [of "{}" ds s _ n] assms by (auto simp: on_scheduling_decisions_def split: sum.split)
  moreover have frame: "out_of_service s' n" if "service_view s' = service_view s" for s'
    using out_of_service_view [OF that] assms(2) by simp
  moreover have "service_view (snd (on_app_spec a spec s)) = service_view s" for a spec
    by (simp add: on_app_spec_def split: option.split)
  ultimately show ?thesis
    using assms(2) out_removed [OF assms(2)]
    by (cases r) (simp_all add: on_app_stop_def on_app_delete_def on_app_release_def
      on_autoscale_override_def on_rollout_failed_def on_rollout_released_def on_namespace_spec_def on_namespace_delete_def
      forget_namespace_def on_permission_delete_def on_policy_spec_def on_policy_delete_def Let_def frame service_view_def
      split: option.split)
qed

subsection \<open>Image copies\<close>

definition unheld :: "nat \<Rightarrow> (string \<times> nat set) list \<Rightarrow> bool" where
  "unheld i locs \<longleftrightarrow> list_all (\<lambda>(_, hs). i \<notin> hs) locs"

lemma holds_nothing_unheld: "holds_nothing n c \<longleftrightarrow> unheld (raft_id_from_name n) (mcat_layer_locations c)"
  by (simp add: holds_nothing_def unheld_def)

lemma unheld_update_first:
  "unheld i locs \<Longrightarrow> (\<And>k hs. i \<notin> hs \<Longrightarrow> i \<notin> snd (f (k, hs))) \<Longrightarrow> unheld i (update_first P f locs)"
  by (induction locs) (auto simp: unheld_def case_prod_beta)

lemma unheld_add_holders: "unheld i locs \<Longrightarrow> i \<notin> nodes \<Longrightarrow> unheld i (add_holders nodes d locs)"
  by (auto simp: add_holders_def intro!: unheld_update_first) (auto simp: unheld_def)

lemma unheld_add_all: "unheld i locs \<Longrightarrow> i \<notin> nodes \<Longrightarrow> unheld i (foldl (\<lambda>locs l. add_holders nodes l locs) locs ds)"
  by (induction ds arbitrary: locs) (simp_all add: unheld_add_holders)

lemma unheld_gc_approve: "unheld i locs \<Longrightarrow> unheld i (snd (gc_approve referenced node ds locs))"
proof (induction ds arbitrary: locs)
  case (Cons d ds)
  have "unheld i (update_first (\<lambda>(k, _). k = d) (\<lambda>(k, hs). (k, hs - {node})) locs)"
    using Cons.prems by (rule unheld_update_first) auto
  then show ?case using Cons by (simp add: case_prod_beta split: option.split)
qed simp

lemma unheld_filter: "unheld i locs \<Longrightarrow> unheld i (filter P locs)"
  by (auto simp: unheld_def list_all_iff)

lemma commit_locations:
  "mcat_layer_locations (apply_manifest_commit c cat) =
     foldl (\<lambda>locs l. add_holders (mc_holder_nodes c) l locs) (mcat_layer_locations cat) (referenced_digests (mc_manifest c))"
  by (simp add: apply_manifest_commit_def Let_def set_clock_def put_row_def untag_rows_def split: option.split)

lemma unheld_drop_rows: "unheld i (mcat_layer_locations c) \<Longrightarrow> unheld i (mcat_layer_locations (drop_rows g cs c))"
  by (simp add: drop_rows_def Let_def unheld_filter)

lemma unheld_retire: "unheld i (mcat_layer_locations c) \<Longrightarrow> unheld i (mcat_layer_locations (retire_repository r c))"
  by (simp add: retire_repository_def Let_def unheld_drop_rows)

definition spares :: "string \<Rightarrow> catalog_cmd \<Rightarrow> bool" where
  "spares n cmd = (case cmd of
     CatCommit k \<Rightarrow> raft_id_from_name n \<notin> mc_holder_nodes k
   | CatHolder _ _ node \<Rightarrow> node \<noteq> raft_id_from_name n
   | _ \<Rightarrow> True)"

lemma holds_nothing_exec: "holds_nothing n c \<Longrightarrow> spares n cmd \<Longrightarrow> holds_nothing n (catalog_exec cmd c)"
  unfolding holds_nothing_unheld
  by (cases cmd) (auto simp: spares_def commit_locations unheld_add_all unheld_retire unheld_drop_rows unheld_gc_approve
    add_manifest_holder_def apply_gc_report_def apply_delete_tag_def untag_rows_def apply_expire_manifest_def
    apply_attach_signature_def claim_repository_def Let_def case_prod_beta split: option.split sum.split)

lemma holds_nothing_fold: "holds_nothing n c \<Longrightarrow> list_all (spares n) cmds \<Longrightarrow> holds_nothing n (fold catalog_exec cmds c)"
  by (induction cmds arbitrary: c) (simp_all add: holds_nothing_exec)

lemma retired_raft_id:
  "n \<in> retired_nodes s \<Longrightarrow> registry_node_retired (raft_id_from_name n) s"
  "n \<in> retired_nodes s \<Longrightarrow> \<not> list_ex (\<lambda>(name, _). let i = raft_id_from_name name in P i) (crl_retired_nodes (ss_crl (sec s))) \<Longrightarrow>
     \<not> P (raft_id_from_name n)"
  by (auto simp: retired_nodes_def registry_node_retired_def list_ex_iff Let_def)

lemma out_registry_request:
  assumes n: "n \<in> retired_nodes s" and out: "out_of_service s n"
  shows "out_of_service (snd (apply_registry_request r s)) n"
proof -
  let ?s = "snd (apply_registry_request r s)"
  let ?cmds = "catalog_cmds (RegistryReq r) s (fst (apply_registry_request r s))"
  have "ds_scheduling ?s = ds_scheduling s \<and> ds_endpoints ?s = ds_endpoints s \<and> ds_test_leases ?s = ds_test_leases s \<and>
    ds_node_fault_reservations ?s = ds_node_fault_reservations s"
    by (cases r) (auto simp: on_manifest_commit_def on_confirm_image_copy_def on_gc_report_def on_expire_manifest_def
      on_attach_signature_def split: prod.split option.split sum.split)
  moreover have "list_all (spares n) ?cmds"
    using retired_raft_id(1) [OF n]
      retired_raft_id(2) [OF n, of "\<lambda>i. im_pushed_by (mc_manifest k) = i \<or> i \<in> mc_holder_nodes k" for k]
    by (cases r) (auto simp: catalog_cmds_def spares_def on_manifest_commit_def on_confirm_image_copy_def refuse_def
      split: option.split council_response.split list.split)
  then have "holds_nothing n (ds_manifest_catalog ?s)"
    using out unfolding catalog_refines_registry by (simp add: out_of_service_def holds_nothing_fold)
  ultimately show ?thesis using out by (simp add: out_of_service_def)
qed

subsection \<open>Security and leases\<close>

lemma service_view_adopt [simp]: "service_view (adopt_namespace_key ns rs s) = service_view s"
  by (simp add: service_view_def adopt_namespace_key_def Let_def)

lemma service_view_secured [simp]: "service_view (secured s ss) = service_view s"
  by (simp add: service_view_def secured_def)

lemma service_view_security: "service_view (snd (apply_security_request lib r s)) = service_view s"
  by (cases r) (simp_all add: on_security_init_def on_create_join_token_def on_consume_join_token_def on_consume_for_issue_def
    on_create_api_token_def on_revoke_api_token_def on_rotate_api_token_def on_sweep_tokens_def on_allocate_serial_def
    on_allocate_node_serial_def on_rotate_secret_key_def on_finalize_secret_rotation_def on_revoke_certificate_def
    on_ca_begin_def on_ca_prepare_def on_ca_finalize_def on_acknowledge_trust_def Let_def
    split: option.split sum.split prod.split age_key_scope.split)

lemma out_update_lease:
  "out_of_service s n \<Longrightarrow> (\<And>l. writer_free n l \<Longrightarrow> writer_free n (f l)) \<Longrightarrow> out_of_service (update_lease i f s) n"
  by (simp add: out_of_service_def update_lease_def writes_nothing_alter)

lemma out_attach_resource: "out_of_service s n \<Longrightarrow> out_of_service (attach_resource i r s) n"
  by (simp add: attach_resource_def out_update_lease)

lemma writer_free_attach:
  assumes "attach_registry_writer repository node owner now l = Inr l'" "writer_free n l" "node \<noteq> raft_id_from_name n"
  shows "writer_free n l'"
proof -
  let ?owners = "case map_of (tl_repositories l) repository of None \<Rightarrow> {} | Some os \<Rightarrow> os"
  have l': "l' = l\<lparr>tl_repositories := bt_insert repository (insert node ?owners) (tl_repositories l)\<rparr>"
    using assms(1) by (auto simp: attach_registry_writer_def Let_def split: if_splits option.splits)
  have "raft_id_from_name n \<notin> ?owners"
    using assms(2) by (auto simp: writer_free_def list_all_iff dest: map_of_SomeD split: option.split)
  then show ?thesis
    using assms(2,3) set_bt_insert_subset [of repository "insert node ?owners" "tl_repositories l"]
    unfolding l' writer_free_def list_all_iff by fastforce
qed

lemma writer_free_alter: "writer_free n l \<Longrightarrow> writer_free n (l\<lparr>tl_repositories := alter_key r (\<lambda>owners. owners - {node}) (tl_repositories l)\<rparr>)"
  by (fastforce simp: writer_free_def alter_key_def list_all_iff split: if_splits)

lemma out_lease_writer:
  assumes n: "n \<in> retired_nodes s" and out: "out_of_service s n"
  shows "out_of_service (snd (on_lease_registry_writer i repository node owner now s)) n"
proof (cases "registry_node_retired node s")
  case False
  then have "node \<noteq> raft_id_from_name n" using retired_raft_id(1) [OF n] by auto
  moreover have "writer_free n l" if "map_of (ds_test_leases s) i = Some l" for l
    using out writes_nothing_lookup that by (auto simp: out_of_service_def)
  ultimately show ?thesis
    using out by (auto simp: on_lease_registry_writer_def intro!: out_update_lease dest: writer_free_attach split: option.split sum.split)
qed (use out in \<open>simp add: on_lease_registry_writer_def\<close>)

lemma writes_nothing_insert: "writes_nothing n ls \<Longrightarrow> writer_free n l \<Longrightarrow> writes_nothing n (bt_insert i l ls)"
  unfolding writes_nothing_def by (rule list_all_subset [where xs = "(i, l) # ls"]) (simp_all add: set_bt_insert_subset)

lemma out_lease_create: "out_of_service s n \<Longrightarrow> out_of_service (snd (on_lease_create l s)) n"
  by (auto simp: on_lease_create_def out_of_service_def writer_free_def split: option.split intro!: writes_nothing_insert)

lemma out_lease_commit:
  assumes n: "n \<in> retired_nodes s" and out: "out_of_service s n"
  shows "out_of_service (snd (on_lease_manifest_commit i now c s)) n"
proof -
  have "unheld (raft_id_from_name n) (mcat_layer_locations (apply_manifest_commit c cat))"
    if "claim_repository r i (ds_manifest_catalog s) = Inr cat" "\<not> registry_node_retired (im_pushed_by (mc_manifest c)) s"
      "permits_registry_commit l c now" for r cat l
  proof -
    have "raft_id_from_name n \<notin> mc_holder_nodes c"
      using that(2,3) retired_raft_id(1) [OF n] by (auto simp: permits_registry_commit_def)
    moreover have "mcat_layer_locations cat = mcat_layer_locations (ds_manifest_catalog s)"
      using that(1) by (auto simp: claim_repository_def split: if_splits option.splits)
    ultimately show ?thesis
      using out by (simp add: out_of_service_def holds_nothing_unheld commit_locations unheld_add_all)
  qed
  then show ?thesis
    using out by (auto simp: on_lease_manifest_commit_def out_of_service_def holds_nothing_unheld split: option.split sum.split)
qed

lemma out_lease_finish: "out_of_service s n \<Longrightarrow> out_of_service (snd (on_lease_finish_cleanup i s)) n"
proof -
  assume out: "out_of_service s n"
  have "unheld j (mcat_layer_locations (fold retire_repository rs c))" if "unheld j (mcat_layer_locations c)" for j rs c
    using that by (induction rs arbitrary: c) (simp_all add: unheld_retire)
  moreover have "writes_nothing n (bt_remove i (ds_test_leases s))"
    using out list_all_subset [OF _ set_bt_remove_subset] by (auto simp: out_of_service_def writes_nothing_def)
  ultimately show ?thesis
    using out by (auto simp: on_lease_finish_cleanup_def Let_def out_of_service_def holds_nothing_unheld split: option.split)
qed

lemma out_lease_spec: "out_of_service s n \<Longrightarrow> out_of_service (snd (on_lease_app_spec i now a spec s)) n"
proof -
  assume out: "out_of_service s n"
  have "out_of_service (apply_app_spec a spec (attach_resource i r s)) n" for r
    using out_of_service_view [OF service_view_spec] out_attach_resource [OF out] by blast
  then show ?thesis using out by (simp add: on_lease_app_spec_def Let_def split: option.split)
qed

lemma out_lease_request:
  assumes n: "n \<in> retired_nodes s" and out: "out_of_service s n"
  shows "out_of_service (snd (apply_lease_request lib r s)) n"
proof -
  have frame: "out_of_service s' n" if "service_view s' = service_view s0" "out_of_service s0 n" for s' s0
    using out_of_service_view [OF that(1)] that(2) by simp
  have tok: "out_of_service (secured (attach_resource i x s) ss) n" for i x ss
    by (rule frame [OF service_view_secured out_attach_resource [OF out]])
  have ns: "out_of_service ((attach_resource i x s)\<lparr>ds_namespaces := m\<rparr>) n" for i x m
    using out_attach_resource [OF out, of i x] by (simp add: out_of_service_def)
  have sec: "out_of_service (secured s ss) n" for ss by (rule frame [OF service_view_secured out])
  have del: "out_of_service (forget_namespace name s) n" for name using out by (simp add: forget_namespace_def out_of_service_def)
  show ?thesis
    using out out_lease_create [OF out] out_lease_writer [OF n out] out_lease_commit [OF n out] out_lease_finish [OF out]
      out_lease_spec [OF out] out_removed [OF out]
    by (cases r) (auto simp: on_lease_workloads_retired_def on_lease_registry_retired_def on_lease_jobs_def
      on_lease_namespace_spec_def on_lease_api_token_def on_lease_revoke_token_def on_lease_renew_def
      on_lease_begin_cleanup_def on_lease_cleanup_failed_def on_lease_placement_retired_def
      on_lease_app_delete_def on_lease_namespace_delete_def Let_def tok ns sec del writer_free_alter
      intro!: out_update_lease split: option.split sum.split test_lease_state.split)
qed

subsection \<open>Cluster operations\<close>

lemma unlisted_keep:
  "list_all (\<lambda>(_, v). list_all (\<lambda>b. cb_node_id b \<noteq> n) (cs_backends v)) cat \<Longrightarrow>
   list_all (\<lambda>(_, v). list_all (\<lambda>b. cb_node_id b \<noteq> n) (cs_backends v)) (keep_backends P cat)"
  by (fastforce simp: keep_backends_def list_all_iff)

lemma undiscovered_exec:
  assumes "n \<in> R" "undiscovered n es"
  shows "undiscovered n (fst (endpoint_exec cmd (es, R, D)))"
proof (cases cmd)
  case (PublishEndpoints g cat)
  then show ?thesis using assms
    by (auto simp: publish_endpoints_def undiscovered_def list_ex_iff list_all_iff split: sum.split)
qed (use assms in \<open>auto simp: register_endpoint_consumer_def acknowledge_endpoint_withdrawal_def discharge_endpoint_consumer_def
  retire_endpoint_execution_def decommission_endpoints_def undiscovered_def withdraw_def Let_def unlisted_keep
  split: sum.split prod.split\<close>)

lemma writer_free_release: "writer_free n l \<or> m = n \<Longrightarrow> writer_free n (release_node_of_lease m l)"
  by (fastforce simp: writer_free_def release_node_of_lease_def list_all_iff)

lemma unplaced_filter: "unplaced_on n sch \<or> m = n \<Longrightarrow> unplaced_on n (map (\<lambda>(a, ps). (a, filter (\<lambda>p. pl_node_id p \<noteq> m) ps)) sch)"
  by (fastforce simp: unplaced_on_def list_all_iff)

lemma holds_nothing_removed: "holds_nothing n c \<or> m = n \<Longrightarrow> holds_nothing n (remove_node_holdings (raft_id_from_name m) c)"
  by (fastforce simp: holds_nothing_def remove_node_holdings_def list_all_iff)

lemma writes_nothing_release:
  "writes_nothing n ls \<or> m = n \<Longrightarrow> writes_nothing n (map (\<lambda>(i, l). (i, release_node_of_lease m l)) ls)"
  using writer_free_release [of n _ m] by (fastforce simp: writes_nothing_def list_all_iff)

lemma unfaulted_free [simp]: "unfaulted n (f\<lparr>nfs_active := None\<rparr>)"
  by (simp add: unfaulted_def)

lemma undiscovered_decommission:
  assumes "decommission_endpoints m es = Inr es'" "undiscovered n es \<or> m = n"
  shows "undiscovered n es'"
  using assms by (fastforce simp: decommission_endpoints_def undiscovered_def keep_backends_def list_all_iff Let_def split: sum.splits)

lemma out_decommission:
  assumes "out_of_service s n \<or> node = n \<and> n \<notin> retired_nodes s \<and>
    n \<in> retired_nodes (snd (on_decommission_node node by_whom reason at_ms membership s))"
  shows "out_of_service (snd (on_decommission_node node by_whom reason at_ms membership s)) n"
proof -
  let ?s = "snd (on_decommission_node node by_whom reason at_ms membership s)"
  have "?s = s \<or> ds_scheduling ?s = map (\<lambda>(a, ps). (a, filter (\<lambda>p. pl_node_id p \<noteq> node) ps)) (ds_scheduling s) \<and>
      decommission_endpoints node (ds_endpoints s) = Inr (ds_endpoints ?s) \<and>
      ds_manifest_catalog ?s = remove_node_holdings (raft_id_from_name node) (ds_manifest_catalog s) \<and>
      ds_test_leases ?s = map (\<lambda>(i, l). (i, release_node_of_lease node l)) (ds_test_leases s) \<and>
      ds_node_fault_reservations ?s = (ds_node_fault_reservations s)\<lparr>nfs_active := None\<rparr>"
    by (simp add: on_decommission_node_def Let_def split: option.split sum.split)
  then show ?thesis
  proof
    assume "?s = s"
    then show ?thesis using assms by auto
  next
    assume s: "ds_scheduling ?s = map (\<lambda>(a, ps). (a, filter (\<lambda>p. pl_node_id p \<noteq> node) ps)) (ds_scheduling s) \<and>
      decommission_endpoints node (ds_endpoints s) = Inr (ds_endpoints ?s) \<and>
      ds_manifest_catalog ?s = remove_node_holdings (raft_id_from_name node) (ds_manifest_catalog s) \<and>
      ds_test_leases ?s = map (\<lambda>(i, l). (i, release_node_of_lease node l)) (ds_test_leases s) \<and>
      ds_node_fault_reservations ?s = (ds_node_fault_reservations s)\<lparr>nfs_active := None\<rparr>"
    have es: "undiscovered n (ds_endpoints ?s)"
      using undiscovered_decommission [of node "ds_endpoints s" "ds_endpoints ?s" n] s assms
      by (simp add: out_of_service_def) blast
    have parts: "unplaced_on n (ds_scheduling s) \<or> node = n" "holds_nothing n (ds_manifest_catalog s) \<or> node = n"
      "writes_nothing n (ds_test_leases s) \<or> node = n" using assms by (auto simp: out_of_service_def)
    show ?thesis
      unfolding out_of_service_def
      using es s unplaced_filter [OF parts(1)] holds_nothing_removed [OF parts(2)] writes_nothing_release [OF parts(3)] by simp
  qed
qed

lemma out_reserve:
  assumes n: "n \<in> retired_nodes s" and out: "out_of_service s n"
  shows "out_of_service (snd (on_reserve_node_fault r membership unavailable s)) n"
proof -
  have "unfaulted n rs" if "reserve_fault r (ds_node_fault_reservations s) = Inr rs"
    "\<not> (case fq_target_node (nfr_request r) of None \<Rightarrow> False | Some m \<Rightarrow> m \<in> retired_nodes s)" for rs
    using that out n by (auto simp: reserve_fault_def unfaulted_def out_of_service_def split: option.splits if_splits)
  then show ?thesis using out by (simp add: on_reserve_node_fault_def Let_def out_of_service_def split: sum.split)
qed

lemma out_cluster_request:
  assumes n: "n \<in> retired_nodes s" and out: "out_of_service s n"
  shows "out_of_service (snd (apply_cluster_request r s)) n"
proof -
  have und: "undiscovered n (fst (endpoint_exec cmd (ds_endpoints s, retired_nodes s, {})))" for cmd
    using n out by (simp add: undiscovered_exec out_of_service_def)
  have rel: "unfaulted n rs" if "release_fault k (ds_node_fault_reservations s) = Inr rs" for k rs
    using that out by (auto simp: release_fault_def out_of_service_def split: option.splits if_splits)
  show ?thesis
  proof (cases r)
    case (RegisterEndpointConsumer m)
    then show ?thesis using out und [of "RegisterConsumer m"] by (auto simp: on_endpoints_def out_of_service_def split: sum.split)
  next
    case (AcknowledgeEndpointWithdrawal m g)
    then show ?thesis using out und [of "AcknowledgeWithdrawal m g"] by (auto simp: on_endpoints_def out_of_service_def split: sum.split)
  next
    case (DischargeEndpointConsumer m)
    then show ?thesis using out und [of "DischargeConsumer m"] by (auto simp: on_endpoints_def out_of_service_def split: sum.split)
  next
    case (PublishEndpointCatalog g cat)
    then show ?thesis using out und [of "PublishEndpoints g cat"] by (auto simp: on_endpoints_def out_of_service_def split: sum.split)
  next
    case (RetireEndpointExecution m x)
    then show ?thesis using out und [of "RetireExecution m x"]
      by (auto simp: on_retire_execution_def out_of_service_def split: sum.split prod.split)
  next
    case (ReleaseNodeFault k)
    then show ?thesis using out rel by (auto simp: on_release_node_fault_def out_of_service_def split: sum.split)
  next
    case (ReserveNodeFault f membership unavailable)
    then show ?thesis using out_reserve [OF n out] by simp
  next
    case (DecommissionNode m by_whom reason at_ms membership)
    then show ?thesis using out_decommission out by simp
  qed (use out in \<open>simp_all add: on_gitops_sync_update_def on_gitops_sync_requested_def on_gitops_config_set_def
    on_upgrade_update_def on_upgrade_clear_def on_build_register_def on_build_update_def out_of_service_def Let_def
    split: option.split sum.split prod.split\<close>)
qed


subsection \<open>Every request\<close>

lemma out_request:
  assumes "n \<in> retired_nodes s" "out_of_service s n"
  shows "out_of_service (snd (apply_request_at lib pos r s)) n"
  using assms
proof (induction r)
  case (SecurityReq r)
  then show ?case using out_of_service_view [OF service_view_security] by simp
next
  case (GitOpsWrite t r)
  then have "out_of_service (s'\<lparr>ds_gitops_owned := g\<rparr>) n" if "s' = snd (apply_request_at lib pos r s)" for s' g
    using that by (simp add: out_of_service_def)
  then show ?case using GitOpsWrite by (auto simp: case_prod_beta split: option.split)
next
  case (PolicyFenced g r d)
  then have "out_of_service (declare_app a d (snd (apply_request_at lib pos r s))) n" for a
    by (simp add: out_of_service_def declare_app_def)
  then show ?case using PolicyFenced by (auto simp: case_prod_beta split: option.split)
qed (simp_all add: out_app_request out_registry_request out_lease_request out_cluster_request)

lemma retired_grow:
  "fold endpoint_exec cmds (es, R, D) = (es', R', D') \<Longrightarrow> R \<subseteq> R'"
proof (induction cmds arbitrary: es R D)
  case (Cons cmd cmds)
  obtain es1 R1 D1 where step: "endpoint_exec cmd (es, R, D) = (es1, R1, D1)" by (cases "endpoint_exec cmd (es, R, D)")
  have "R \<subseteq> R1" using step by (cases cmd) (auto split: sum.splits if_splits)
  then show ?case using Cons.IH [of es1 R1 D1] Cons.prems step by auto
qed simp

definition retired_ok :: "desired_state \<Rightarrow> bool" where
  "retired_ok s \<longleftrightarrow> (\<forall>n \<in> retired_nodes s. out_of_service s n)"

lemma retired_kept:
  assumes "\<not> initialises r" "\<not> decommissions r"
  shows "retired_nodes (snd (apply_request_at lib pos r s)) = retired_nodes s"
proof -
  let ?s = "snd (apply_request_at lib pos r s)"
  obtain D where refined: "fold endpoint_exec (discovery_cmds r ?s) (ds_endpoints s, retired_nodes s, {}) =
    (ds_endpoints ?s, retired_nodes ?s, D)"
    using discovery_refines [OF assms(1)] by blast
  have keeps: "fst (snd (endpoint_exec cmd (es, R, D))) = R" if "\<forall>node. cmd \<noteq> RetireNode node" for cmd es R D
    using that by (cases cmd) (auto split: sum.split prod.split)
  have "discovery_cmds r ?s = [] \<or> (\<exists>cmd. discovery_cmds r ?s = [cmd] \<and> (\<forall>node. cmd \<noteq> RetireNode node))"
  proof (cases r)
    case (ClusterReq q)
    then show ?thesis using assms(2) by (cases q) (simp_all add: discovery_cmds_def decommissions_def)
  qed (simp_all add: discovery_cmds_def)
  then show ?thesis
  proof
    assume "\<exists>cmd. discovery_cmds r ?s = [cmd] \<and> (\<forall>node. cmd \<noteq> RetireNode node)"
    then obtain cmd where "discovery_cmds r ?s = [cmd]" "\<forall>node. cmd \<noteq> RetireNode node" by blast
    then show ?thesis using refined keeps [of cmd "ds_endpoints s" "retired_nodes s" "{}"] by simp
  qed (use refined in simp)
qed

lemma newly_retired:
  assumes "\<not> initialises r" "n \<in> retired_nodes (snd (apply_request_at lib pos r s))" "n \<notin> retired_nodes s"
  shows "out_of_service (snd (apply_request_at lib pos r s)) n"
proof -
  have "decommissions r" using retired_kept assms by blast
  then obtain m by_whom reason at_ms membership where r: "r = ClusterReq (DecommissionNode m by_whom reason at_ms membership)"
    by (auto simp: decommissions_def split: raft_request.splits cluster_request.splits)
  have "n \<in> insert m (retired_nodes s)"
    using decommission_view [of m by_whom reason at_ms membership s] assms(2,3) r by (auto dest: view_retired)
  then have "m = n" using assms(3) by simp
  then show ?thesis using out_decommission [of s n m by_whom reason at_ms membership] assms(2,3) r by simp
qed

lemma retired_ok_request:
  assumes "\<not> initialises r" "retired_ok s"
  shows "retired_ok (snd (apply_request_at lib pos r s))"
  using newly_retired [OF assms(1)] out_request assms(2) unfolding retired_ok_def by blast

interpretation retirement_log: command_machine "council_exec lib" "\<lambda>entry. \<not> initialises (snd entry)" retired_ok
  by unfold_locales (simp add: council_exec_def retired_ok_request)


section \<open>The components along a log\<close>

text \<open>The commands a log gives the discovery state and the image catalogue.\<close>

fun discovery_run :: "library \<Rightarrow> (apply_position \<times> raft_request) list \<Rightarrow> desired_state \<Rightarrow> endpoint_cmd list" where
  "discovery_run lib [] s = []"
| "discovery_run lib (entry # log) s =
     discovery_cmds (snd entry) (council_exec lib entry s) @ discovery_run lib log (council_exec lib entry s)"

fun catalog_run :: "library \<Rightarrow> (apply_position \<times> raft_request) list \<Rightarrow> desired_state \<Rightarrow> catalog_cmd list" where
  "catalog_run lib [] s = []"
| "catalog_run lib (entry # log) s =
     catalog_cmds (snd entry) s (fst (apply_request_at lib (fst entry) (snd entry) s)) @ catalog_run lib log (council_exec lib entry s)"

lemma discovery_run_refines:
  "list_all (\<lambda>entry. \<not> initialises (snd entry)) log \<Longrightarrow>
   \<exists>D'. fold endpoint_exec (discovery_run lib log s) (ds_endpoints s, retired_nodes s, D) =
     (ds_endpoints (fold (council_exec lib) log s), retired_nodes (fold (council_exec lib) log s), D')"
proof (induction log arbitrary: s D)
  case (Cons entry log)
  let ?s = "council_exec lib entry s"
  obtain D1 where "fold endpoint_exec (discovery_cmds (snd entry) ?s) (ds_endpoints s, retired_nodes s, D) =
    (ds_endpoints ?s, retired_nodes ?s, D1)"
    using discovery_refines [of "snd entry" lib "fst entry" s D] Cons.prems by (auto simp: council_exec_def)
  then show ?case using Cons.IH [of ?s D1] Cons.prems by simp
qed simp

lemma catalog_run_refines:
  "list_all (\<lambda>entry. \<not> decommissions (snd entry)) log \<Longrightarrow>
   ds_manifest_catalog (fold (council_exec lib) log s) = fold catalog_exec (catalog_run lib log s) (ds_manifest_catalog s)"
  by (induction log arbitrary: s) (simp_all add: catalog_refines council_exec_def)

lemma endpoint_run_inv: "endpoint_inv t \<Longrightarrow> endpoint_inv (fold endpoint_exec cmds t)"
  by (induction cmds arbitrary: t) (simp_all add: endpoint_exec_inv)


definition demo_retirement :: "(apply_position \<times> raft_request) list" where
  "demo_retirement = [(demo_position, ClusterReq (RegisterEndpointConsumer ''a'')),
     (demo_position, ClusterReq (DecommissionNode ''a'' ''op'' ''broken'' 1 None)),
     (demo_position, ClusterReq (RegisterEndpointConsumer ''a''))]"

lemma demo_retirement_ok: "list_all (\<lambda>entry. \<not> initialises (snd entry)) demo_retirement"
  by (simp add: demo_retirement_def initialises_def)

lemma demo_retirement_runs:
  "retired_nodes (fold (council_exec demo_library) demo_retirement desired_default) = {''a''} \<and>
   discovery_run demo_library demo_retirement desired_default = [RegisterConsumer ''a'', RetireNode ''a'', RegisterConsumer ''a'']"
  by code_simp

lemmas demo_retirement_retires = demo_retirement_runs [THEN conjunct1]

lemma desired_default_starts: "ds_endpoints desired_default = endpoint_default" "retired_nodes desired_default = {}"
  by (simp_all add: desired_default_def retired_nodes_def security_default_def crl_default_def)


lemma retired_grow_run:
  "list_all (\<lambda>entry. \<not> initialises (snd entry)) log \<Longrightarrow> retired_nodes s \<subseteq> retired_nodes (fold (council_exec lib) log s)"
  using discovery_run_refines [of log lib s "{}"] retired_grow by blast




end
