(* ===== verification/Gossip_State.thy ===== *)
theory Gossip_State
  imports Resources Text
begin

text \<open>
  The membership table of the gossip protocol (\<open>mustard/state.rs\<close>, \<open>mustard/membership.rs\<close> and the
  updates of \<open>mustard/message.rs\<close>). Each node keeps a record per member and merges what it hears by
  \<open>resolve_conflict\<close>. The merge is the maximum of a linear order, so that nodes that know a member
  agree on it once they have heard the same updates, in whatever order and however often.

  An \<open>Instant\<close> is a number of nanoseconds, and \<open>duration_since\<close> saturates at zero. A socket address
  is an address with a port.
\<close>

section \<open>States of a member\<close>

datatype node_state = Alive | Suspect | Dead | Left

definition state_str :: "node_state \<Rightarrow> string" where
  "state_str s = (case s of Alive \<Rightarrow> ''alive'' | Suspect \<Rightarrow> ''suspect'' | Dead \<Rightarrow> ''dead'' | Left \<Rightarrow> ''left'')"

definition dissemination_priority :: "node_state \<Rightarrow> nat" where
  "dissemination_priority s = (case s of Dead \<Rightarrow> 3 | Left \<Rightarrow> 3 | Suspect \<Rightarrow> 2 | Alive \<Rightarrow> 1)"

definition is_down :: "node_state \<Rightarrow> bool" where
  "is_down s \<longleftrightarrow> s = Dead \<or> s = Left"

definition resolve_conflict :: "node_state \<Rightarrow> nat \<Rightarrow> node_state \<Rightarrow> nat \<Rightarrow> node_state \<times> nat" where
  "resolve_conflict old_state old_incarnation new_state new_incarnation =
     (if new_state = Left \<and> new_incarnation \<ge> old_incarnation then (Left, new_incarnation)
      else if old_state = Left \<and> old_incarnation \<ge> new_incarnation then (Left, old_incarnation)
      else if new_incarnation > old_incarnation then (new_state, new_incarnation)
      else if new_incarnation < old_incarnation then (old_state, old_incarnation)
      else if dissemination_priority new_state \<ge> dissemination_priority old_state then (new_state, new_incarnation)
      else (old_state, old_incarnation))"

section \<open>The membership table\<close>

record socket_addr =
  sa_ip :: string
  sa_port :: nat

record membership_update =
  mu_node_id :: node_id
  mu_address :: socket_addr
  mu_state :: node_state
  mu_incarnation :: nat

record council_roles =
  cr_council :: "node_id set"
  cr_leader :: "node_id option"

record resource_summary =
  rs_cpu_capacity_millicores :: nat
  rs_cpu_used_millicores :: nat
  rs_memory_capacity_mb :: nat
  rs_memory_used_mb :: nat
  rs_gpu_count :: nat
  rs_gpu_used :: nat
  rs_running_app_count :: nat
  rs_running_job_count :: nat

record node_membership =
  nm_node_id :: node_id
  nm_address :: socket_addr
  nm_state :: node_state
  nm_incarnation :: nat
  nm_first_seen :: int
  nm_last_ack :: int
  nm_state_changed :: int
  nm_resources :: "resource_summary option"
  nm_labels :: "(string \<times> string) list"
  nm_is_council :: bool
  nm_is_leader :: bool

type_synonym membership_table = "(node_id \<times> node_membership) list"

definition duration_since :: "int \<Rightarrow> int \<Rightarrow> int" where
  "duration_since now earlier = max 0 (now - earlier)"

definition new_member :: "node_id \<Rightarrow> socket_addr \<Rightarrow> nat \<Rightarrow> (string \<times> string) list \<Rightarrow> int \<Rightarrow> node_membership" where
  "new_member n address incarnation labels now =
     \<lparr>nm_node_id = n, nm_address = address, nm_state = Alive, nm_incarnation = incarnation, nm_first_seen = now,
      nm_last_ack = now, nm_state_changed = now, nm_resources = None, nm_labels = labels,
      nm_is_council = False, nm_is_leader = False\<rparr>"

definition apply_update :: "membership_update \<Rightarrow> int \<Rightarrow> membership_table \<Rightarrow> bool \<times> membership_table" where
  "apply_update u now t =
     (case map_of t (mu_node_id u) of
        Some m \<Rightarrow>
          let (state, incarnation) = resolve_conflict (nm_state m) (nm_incarnation m) (mu_state u) (mu_incarnation u)
          in if state \<noteq> nm_state m \<or> incarnation \<noteq> nm_incarnation m
             then (True, AList.update (mu_node_id u)
                    (m\<lparr>nm_state_changed := (if state \<noteq> nm_state m then now else nm_state_changed m),
                       nm_state := state, nm_incarnation := incarnation,
                       nm_last_ack := (if state = Alive then now else nm_last_ack m)\<rparr>) t)
             else (False, t)
      | None \<Rightarrow>
          if mu_state u = Alive
          then (True, AList.update (mu_node_id u) (new_member (mu_node_id u) (mu_address u) (mu_incarnation u) [] now) t)
          else (False, t))"

definition add_node ::
  "node_id \<Rightarrow> socket_addr \<Rightarrow> nat \<Rightarrow> (string \<times> string) list \<Rightarrow> int \<Rightarrow> membership_table \<Rightarrow> bool \<times> membership_table" where
  "add_node n address incarnation labels now t =
     (case map_of t n of
        Some m \<Rightarrow>
          if nm_state m = Left then (False, t)
          else let m1 = m\<lparr>nm_address := address\<rparr>;
                   m2 = (if incarnation > nm_incarnation m
                         then m1\<lparr>nm_incarnation := incarnation,
                                 nm_state_changed := (if nm_state m \<noteq> Alive then now else nm_state_changed m),
                                 nm_state := Alive\<rparr>
                         else m1)
               in (False, AList.update n (m2\<lparr>nm_last_ack := now\<rparr>) t)
      | None \<Rightarrow> (True, AList.update n (new_member n address incarnation labels now) t))"

definition suspect :: "node_id \<Rightarrow> int \<Rightarrow> membership_table \<Rightarrow> bool \<times> membership_table" where
  "suspect n now t =
     (case map_of t n of
        Some m \<Rightarrow> if nm_state m = Alive
          then (True, AList.update n (m\<lparr>nm_state := Suspect, nm_state_changed := now\<rparr>) t) else (False, t)
      | None \<Rightarrow> (False, t))"

definition declare_dead :: "node_id \<Rightarrow> int \<Rightarrow> membership_table \<Rightarrow> bool \<times> membership_table" where
  "declare_dead n now t =
     (case map_of t n of
        Some m \<Rightarrow> if \<not> is_down (nm_state m)
          then (True, AList.update n (m\<lparr>nm_state := Dead, nm_state_changed := now\<rparr>) t) else (False, t)
      | None \<Rightarrow> (False, t))"

definition reap_dead :: "membership_table \<Rightarrow> membership_table" where
  "reap_dead t = filter (\<lambda>(_, m). \<not> is_down (nm_state m)) t"

definition expired :: "int \<Rightarrow> int \<Rightarrow> node_membership \<Rightarrow> bool" where
  "expired timeout now m \<longleftrightarrow> is_down (nm_state m) \<and> duration_since now (nm_state_changed m) > timeout"

definition reap_expired_dead :: "int \<Rightarrow> int \<Rightarrow> membership_table \<Rightarrow> node_id list \<times> membership_table" where
  "reap_expired_dead timeout now t =
     (map fst (filter (\<lambda>(_, m). expired timeout now m) t), filter (\<lambda>(_, m). \<not> expired timeout now m) t)"

definition set_roles :: "council_roles \<Rightarrow> membership_table \<Rightarrow> membership_table" where
  "set_roles roles t = map (\<lambda>(n, m). (n, m\<lparr>nm_is_council := (n \<in> cr_council roles), nm_is_leader := (cr_leader roles = Some n)\<rparr>)) t"

definition alive_members :: "membership_table \<Rightarrow> node_membership list" where
  "alive_members t = filter (\<lambda>m. nm_state m = Alive) (map snd t)"

definition active_members :: "membership_table \<Rightarrow> node_membership list" where
  "active_members t = filter (\<lambda>m. \<not> is_down (nm_state m)) (map snd t)"

definition council_members :: "membership_table \<Rightarrow> node_membership list" where
  "council_members t = filter (\<lambda>m. nm_is_council m \<and> \<not> is_down (nm_state m)) (map snd t)"

definition leader_member :: "membership_table \<Rightarrow> node_membership option" where
  "leader_member t = find (\<lambda>m. nm_is_leader m \<and> \<not> is_down (nm_state m)) (map snd t)"

record membership_snapshot =
  ms_node_id :: node_id
  ms_address :: socket_addr
  ms_state :: node_state
  ms_incarnation :: nat
  ms_is_council :: bool
  ms_is_leader :: bool
  ms_labels :: "(string \<times> string) list"
  ms_first_seen :: int
  ms_resources :: "resource_summary option"

definition snapshot_of :: "node_membership \<Rightarrow> membership_snapshot" where
  "snapshot_of m = \<lparr>ms_node_id = nm_node_id m, ms_address = nm_address m, ms_state = nm_state m, ms_incarnation = nm_incarnation m,
     ms_is_council = nm_is_council m, ms_is_leader = nm_is_leader m, ms_labels = nm_labels m,
     ms_first_seen = nm_first_seen m, ms_resources = nm_resources m\<rparr>"

definition table_snapshot :: "membership_table \<Rightarrow> membership_snapshot list" where
  "table_snapshot t = map snapshot_of (active_members t)"

definition roster :: "membership_table \<Rightarrow> membership_snapshot list" where
  "roster t = map (snapshot_of \<circ> snd) t"

section \<open>Merging\<close>

text \<open>What a table claims of a member, and the order on claims: the incarnation first, then the severity of the state.\<close>

type_synonym claim = "node_state \<times> nat"

definition severity :: "node_state \<Rightarrow> nat" where
  "severity s = (case s of Alive \<Rightarrow> 0 | Suspect \<Rightarrow> 1 | Dead \<Rightarrow> 2 | Left \<Rightarrow> 3)"

definition precedence :: "claim \<Rightarrow> nat" where
  "precedence c = 4 * snd c + severity (fst c)"

definition resolve_claim :: "claim \<Rightarrow> claim \<Rightarrow> claim" where
  "resolve_claim old new = resolve_conflict (fst old) (snd old) (fst new) (snd new)"

lemma severity_less: "severity s < 4"
  by (cases s) (simp_all add: severity_def)

lemma severity_inject: "severity s = severity s' \<longleftrightarrow> s = s'"
  by (cases s; cases s') (simp_all add: severity_def)

lemma precedence_inject: "precedence c = precedence d \<longleftrightarrow> c = d"
proof
  assume eq: "precedence c = precedence d"
  have "precedence x div 4 = snd x" "precedence x mod 4 = severity (fst x)" for x
    using severity_less [of "fst x"] by (simp_all add: precedence_def)
  then have "snd c = snd d" "severity (fst c) = severity (fst d)" using eq by metis+
  then show "c = d" by (simp add: severity_inject prod_eq_iff)
qed simp

lemma resolve_max: "resolve_claim c d = (if precedence c \<le> precedence d then d else c)"
proof -
  have "snd c < snd d \<Longrightarrow> precedence c < precedence d" "snd d < snd c \<Longrightarrow> precedence d < precedence c"
    using severity_less [of "fst c"] severity_less [of "fst d"] by (simp_all add: precedence_def)
  then show ?thesis
    by (cases "fst c"; cases "fst d")
      (auto simp: resolve_claim_def resolve_conflict_def dissemination_priority_def precedence_def severity_def prod_eq_iff not_le
        split: if_splits)
qed

text \<open>A join that picks the argument of the larger key does not depend on the order or the number of its arguments.\<close>

locale keyed_join =
  fixes key :: "'a \<Rightarrow> 'k::linorder" and join :: "'a \<Rightarrow> 'a \<Rightarrow> 'a"
  assumes key_inject: "key x = key y \<Longrightarrow> x = y"
    and join_larger: "join x y = (if key x \<le> key y then y else x)"
begin

lemma fold_join_upper: "x \<in> insert a (set xs) \<Longrightarrow> key x \<le> key (fold (\<lambda>y acc. join acc y) xs a)"
proof (induction xs arbitrary: a x)
  case (Cons y ys)
  have "key a \<le> key (join a y)" "key y \<le> key (join a y)" by (auto simp: join_larger)
  moreover have "key (join a y) \<le> key (fold (\<lambda>y acc. join acc y) ys (join a y))" using Cons.IH by simp
  ultimately show ?case using Cons by (auto intro: order_trans)
qed simp

lemma fold_join_member: "fold (\<lambda>y acc. join acc y) xs a \<in> insert a (set xs)"
proof (induction xs arbitrary: a)
  case (Cons y ys)
  have "join a y = a \<or> join a y = y" by (simp add: join_larger)
  then show ?case using Cons.IH [of "join a y"] by auto
qed simp

lemma fold_join_same:
  assumes "set xs = set ys"
  shows "fold (\<lambda>y acc. join acc y) xs a = fold (\<lambda>y acc. join acc y) ys a"
  using fold_join_member [of xs a] fold_join_member [of ys a] fold_join_upper [of _ a xs] fold_join_upper [of _ a ys] assms
  by (intro key_inject antisym) auto

end

interpretation claims: keyed_join precedence resolve_claim
  by unfold_locales (simp_all add: precedence_inject resolve_max)

definition claim_of :: "membership_table \<Rightarrow> node_id \<Rightarrow> claim option" where
  "claim_of t n = map_option (\<lambda>m. (nm_state m, nm_incarnation m)) (map_of t n)"

abbreviation update_claim :: "membership_update \<Rightarrow> claim" where
  "update_claim u \<equiv> (mu_state u, mu_incarnation u)"

lemma claim_known: "claim_of t n = Some c \<Longrightarrow> \<exists>m. map_of t n = Some m \<and> c = (nm_state m, nm_incarnation m)"
  by (auto simp: claim_of_def)

lemma claim_update [simp]:
  "claim_of (AList.update k m t) n = (if n = k then Some (nm_state m, nm_incarnation m) else claim_of t n)"
  by (simp add: claim_of_def update_conv')

text \<open>An update is merged into the claim about a known member and touches no other.\<close>

lemma apply_update_claim:
  "claim_of (snd (apply_update u now t)) n =
     (if n \<noteq> mu_node_id u then claim_of t n
      else case claim_of t n of
        Some c \<Rightarrow> Some (resolve_claim c (update_claim u))
      | None \<Rightarrow> if mu_state u = Alive then Some (update_claim u) else None)"
proof (cases "map_of t (mu_node_id u)")
  case None
  then show ?thesis by (auto simp: apply_update_def new_member_def claim_of_def update_conv')
next
  case (Some m)
  then have c: "claim_of t (mu_node_id u) = Some (nm_state m, nm_incarnation m)" by (simp add: claim_of_def)
  obtain s i where r: "resolve_conflict (nm_state m) (nm_incarnation m) (mu_state u) (mu_incarnation u) = (s, i)" by fastforce
  show ?thesis using Some c r by (auto simp: apply_update_def resolve_claim_def)
qed

fun apply_updates :: "(membership_update \<times> int) list \<Rightarrow> membership_table \<Rightarrow> membership_table" where
  "apply_updates [] t = t"
| "apply_updates ((u, now) # us) t = apply_updates us (snd (apply_update u now t))"

lemma apply_updates_claim:
  "claim_of t n = Some c \<Longrightarrow>
   claim_of (apply_updates us t) n =
     Some (fold (\<lambda>d acc. resolve_claim acc d) (map update_claim (filter (\<lambda>u. mu_node_id u = n) (map fst us))) c)"
  by (induction us t arbitrary: c rule: apply_updates.induct) (auto simp: apply_update_claim)

text \<open>
  C14: Gossip converges. Two nodes that hold the same claim about a member and hear the same updates, in any
  order, at any times and any number of times, hold the same claim about it afterwards: the one of the
  highest incarnation they know, and at that incarnation the most severe (left over dead over suspect over alive).
\<close>

theorem membership_converges:
  assumes "claim_of t n = Some c" "claim_of t' n = Some c" "set (map fst us) = set (map fst us')"
  shows "\<exists>d. claim_of (apply_updates us t) n = Some d \<and> claim_of (apply_updates us' t') n = Some d \<and>
    d \<in> insert c (update_claim ` {u \<in> set (map fst us). mu_node_id u = n}) \<and>
    precedence c \<le> precedence d \<and> (\<forall>u \<in> set (map fst us). mu_node_id u = n \<longrightarrow> precedence (update_claim u) \<le> precedence d)"
proof -
  let ?cs = "\<lambda>us. map update_claim (filter (\<lambda>u. mu_node_id u = n) (map fst us))"
  let ?d = "fold (\<lambda>d acc. resolve_claim acc d) (?cs us) c"
  have sets: "set (?cs us) = update_claim ` {u \<in> set (map fst us). mu_node_id u = n}" by auto
  have "set (?cs us) = set (?cs us')" using assms(3) by auto
  then have "fold (\<lambda>d acc. resolve_claim acc d) (?cs us') c = ?d" using claims.fold_join_same [of "?cs us'" "?cs us"] by simp
  then have "claim_of (apply_updates us t) n = Some ?d" "claim_of (apply_updates us' t') n = Some ?d"
    using apply_updates_claim [OF assms(1), of us] apply_updates_claim [OF assms(2), of us'] by simp_all
  moreover have "?d \<in> insert c (update_claim ` {u \<in> set (map fst us). mu_node_id u = n})"
    using claims.fold_join_member [of "?cs us" c] unfolding sets .
  moreover have "precedence x \<le> precedence ?d" if "x \<in> insert c (update_claim ` {u \<in> set (map fst us). mu_node_id u = n})" for x
    using claims.fold_join_upper [of x c "?cs us"] that unfolding sets .
  ultimately show ?thesis by blast
qed

definition demo_addr :: socket_addr where
  "demo_addr = \<lparr>sa_ip = ''10.0.0.1'', sa_port = 7946\<rparr>"

definition demo_update :: "node_state \<Rightarrow> nat \<Rightarrow> membership_update" where
  "demo_update s i = \<lparr>mu_node_id = ''b'', mu_address = demo_addr, mu_state = s, mu_incarnation = i\<rparr>"

theorem membership_converges_witness:
  "let t = snd (add_node ''b'' demo_addr 1 [] 0 []);
       us = [(demo_update Suspect 1, 5), (demo_update Alive 2, 6), (demo_update Dead 1, 7)];
       us' = [(demo_update Dead 1, 1), (demo_update Alive 2, 2), (demo_update Suspect 1, 3), (demo_update Dead 1, 4)]
   in claim_of (apply_updates us t) ''b'' = Some (Alive, 2) \<and>
      claim_of (apply_updates us' t) ''b'' = claim_of (apply_updates us t) ''b''"
proof -
  let ?t = "snd (add_node ''b'' demo_addr 1 [] 0 [])"
  let ?us = "[(demo_update Suspect 1, 5), (demo_update Alive 2, 6), (demo_update Dead 1, 7)]"
  let ?us' = "[(demo_update Dead 1, 1), (demo_update Alive 2, 2), (demo_update Suspect 1, 3), (demo_update Dead 1, 4)]"
  have "claim_of ?t ''b'' = Some (Alive, 1)" by code_simp
  moreover have "set (map fst ?us) = set (map fst ?us')" by auto
  ultimately have "\<exists>d. claim_of (apply_updates ?us ?t) ''b'' = Some d \<and> claim_of (apply_updates ?us' ?t) ''b'' = Some d"
    using membership_converges [of ?t "''b''" "(Alive, 1)" ?t ?us ?us'] by blast
  moreover have "claim_of (apply_updates ?us ?t) ''b'' = Some (Alive, 2)" by code_simp
  ultimately show ?thesis by (auto simp: Let_def)
qed

end
