(* ===== verification/Gossip_Queue.thy ===== *)
theory Gossip_Queue
  imports Gossip_State Transition_Systems "HOL-Library.Product_Lexorder" "HOL-Library.Multiset"
begin

text \<open>
  The queue of updates that ride on outgoing messages (\<open>mustard/dissemination.rs\<close>). The binary heap
  is the list of its entries. Which of several maximal entries \<open>pop\<close> takes, and in which order \<open>drain\<close> and the
  values of a hash map come, is not specified by the standard library: both are arguments (\<open>hc_tie\<close>, \<open>hc_order\<close>), and
  what is shown holds for all of them. The encoded length of an update is computed by the postcard
  crate and is an argument too.
\<close>

record queued_update =
  qu_update :: membership_update
  qu_remaining_broadcasts :: nat
  qu_refutation :: bool

definition rank :: "membership_update \<Rightarrow> nat \<times> nat" where
  "rank u = (mu_incarnation u, dissemination_priority (mu_state u))"

definition queue_key :: "queued_update \<Rightarrow> bool \<times> nat \<times> nat" where
  "queue_key q = (qu_refutation q, dissemination_priority (mu_state (qu_update q)), qu_remaining_broadcasts q)"

definition MAX_PIGGYBACK_UPDATES :: nat where
  "MAX_PIGGYBACK_UPDATES = 8"

definition MIN_COMPACT_THRESHOLD :: nat where
  "MIN_COMPACT_THRESHOLD = 1024"

definition HARD_CAP :: nat where
  "HARD_CAP = 65536"

definition queued_supersedes :: "queued_update \<Rightarrow> queued_update \<Rightarrow> bool" where
  "queued_supersedes q existing \<longleftrightarrow> rank (qu_update q) > rank (qu_update existing)"

record node_entries =
  ne_best :: "nat \<times> nat"
  ne_queued :: nat

record dissemination_queue =
  dq_queue :: "queued_update list"
  dq_newest :: "(node_id \<times> node_entries) list"

record heap_choices =
  hc_tie :: "queued_update list \<Rightarrow> nat"
  hc_order :: "queued_update list \<Rightarrow> queued_update list"

definition queue_new :: dissemination_queue where
  "queue_new = \<lparr>dq_queue = [], dq_newest = []\<rparr>"

abbreviation qu_node :: "queued_update \<Rightarrow> node_id" where
  "qu_node q \<equiv> mu_node_id (qu_update q)"

fun bit_length :: "nat \<Rightarrow> nat" where
  "bit_length n = (if n = 0 then 0 else Suc (bit_length (n div 2)))"

declare bit_length.simps [simp del]

definition broadcast_count :: "nat \<Rightarrow> nat" where
  "broadcast_count cluster_size = (if cluster_size \<le> 1 then 6 else max (bit_length (cluster_size - 1) * 3) 6)"

text \<open>Coalescing keeps the best entry of each node; the first one met wins among equals.\<close>

definition coalesce :: "queued_update list \<Rightarrow> (node_id \<times> queued_update) list" where
  "coalesce drained = foldl (\<lambda>newest q.
     case map_of newest (qu_node q) of
       Some existing \<Rightarrow> if \<not> queued_supersedes q existing then newest else AList.update (qu_node q) q newest
     | None \<Rightarrow> AList.update (qu_node q) q newest) [] drained"

definition compact :: "heap_choices \<Rightarrow> dissemination_queue \<Rightarrow> dissemination_queue" where
  "compact hc q =
     (let kept = hc_order hc (map snd (coalesce (hc_order hc (dq_queue q))));
          remaining = (if length kept > HARD_CAP then take HARD_CAP (rev (sort_key queue_key (rev kept))) else kept)
      in \<lparr>dq_queue = remaining,
          dq_newest = foldl (\<lambda>m e. AList.update (qu_node e) \<lparr>ne_best = rank (qu_update e), ne_queued = 1\<rparr> m) [] remaining\<rparr>)"

definition push :: "heap_choices \<Rightarrow> membership_update \<Rightarrow> nat \<Rightarrow> bool \<Rightarrow> dissemination_queue \<Rightarrow> dissemination_queue" where
  "push hc u cluster_size refutation q =
     (let entry = \<lparr>qu_update = u, qu_remaining_broadcasts = broadcast_count cluster_size, qu_refutation = refutation\<rparr>;
          pushed = (\<lambda>entries. q\<lparr>dq_newest := AList.update (mu_node_id u) entries (dq_newest q), dq_queue := dq_queue q @ [entry]\<rparr>);
          settled = (\<lambda>q'. if length (dq_queue q') > max (sat_mul64 cluster_size 2) MIN_COMPACT_THRESHOLD then compact hc q' else q')
      in case map_of (dq_newest q) (mu_node_id u) of
           Some entries \<Rightarrow>
             if ne_best entries > rank u then q
             else settled (pushed \<lparr>ne_best = rank u, ne_queued = ne_queued entries + 1\<rparr>)
         | None \<Rightarrow> settled (pushed \<lparr>ne_best = rank u, ne_queued = 1\<rparr>))"

definition enqueue :: "heap_choices \<Rightarrow> membership_update \<Rightarrow> nat \<Rightarrow> dissemination_queue \<Rightarrow> dissemination_queue" where
  "enqueue hc u cluster_size q = push hc u cluster_size False q"

definition enqueue_refutation :: "heap_choices \<Rightarrow> membership_update \<Rightarrow> nat \<Rightarrow> dissemination_queue \<Rightarrow> dissemination_queue" where
  "enqueue_refutation hc u cluster_size q = push hc u cluster_size True q"

definition maxima :: "queued_update list \<Rightarrow> nat list" where
  "maxima q = filter (\<lambda>i. list_all (\<lambda>e. queue_key e \<le> queue_key (q ! i)) q) [0..<length q]"

definition heap_pop :: "(queued_update list \<Rightarrow> nat) \<Rightarrow> queued_update list \<Rightarrow> (queued_update \<times> queued_update list) option" where
  "heap_pop tie q =
     (case maxima q of
        [] \<Rightarrow> None
      | ms \<Rightarrow> let i = ms ! (tie q mod length ms) in Some (q ! i, take i q @ drop (Suc i) q))"

definition forget :: "node_id \<Rightarrow> dissemination_queue \<Rightarrow> dissemination_queue" where
  "forget n q =
     (case map_of (dq_newest q) n of
        Some entries \<Rightarrow>
          if ne_queued entries - 1 = 0 then q\<lparr>dq_newest := AList.delete n (dq_newest q)\<rparr>
          else q\<lparr>dq_newest := AList.update n (entries\<lparr>ne_queued := ne_queued entries - 1\<rparr>) (dq_newest q)\<rparr>
      | None \<Rightarrow> q)"

definition stale :: "queued_update \<Rightarrow> dissemination_queue \<Rightarrow> bool" where
  "stale e q \<longleftrightarrow> (case map_of (dq_newest q) (qu_node e) of
     Some entries \<Rightarrow> ne_best entries > rank (qu_update e) | None \<Rightarrow> False)"

lemma heap_pop_Some:
  assumes "heap_pop tie q = Some (e, rest)"
  shows "mset q = add_mset e (mset rest)" "\<forall>x \<in> set q. queue_key x \<le> queue_key e"
proof -
  obtain ms where ms: "maxima q = ms" "ms \<noteq> []" using assms by (cases "maxima q") (auto simp: heap_pop_def)
  let ?i = "ms ! (tie q mod length ms)"
  have i: "?i \<in> set ms" using ms by simp
  have e: "e = q ! ?i" "rest = take ?i q @ drop (Suc ?i) q"
    using assms ms by (auto simp: heap_pop_def Let_def split: list.splits)
  have lt: "?i < length q" and top: "list_all (\<lambda>x. queue_key x \<le> queue_key (q ! ?i)) q" using i ms(1) by (auto simp: maxima_def)
  have "q = take ?i q @ q ! ?i # drop (Suc ?i) q" using lt by (rule id_take_nth_drop)
  then have "mset q = add_mset (q ! ?i) (mset (take ?i q @ drop (Suc ?i) q))"
    by (metis mset.simps(2) mset_append union_mset_add_mset_right)
  then show "mset q = add_mset e (mset rest)" using e by simp
  show "\<forall>x \<in> set q. queue_key x \<le> queue_key e" using top e by (simp add: list_all_iff)
qed

lemma heap_pop_length: "heap_pop tie q = Some (e, rest) \<Longrightarrow> length q = Suc (length rest)"
  using heap_pop_Some(1) [of tie q e rest] by (metis size_add_mset size_mset)

lemma heap_pop_None: "heap_pop tie q = None \<longleftrightarrow> q = []"
proof
  assume none: "heap_pop tie q = None"
  show "q = []"
  proof (rule ccontr)
    assume "q \<noteq> []"
    then obtain e where e: "e \<in> set q" "\<forall>x \<in> set q. queue_key x \<le> queue_key e"
      using Max_in [of "queue_key ` set q"] Max_ge [of "queue_key ` set q"] by fastforce
    then obtain i where "i < length q" "q ! i = e" by (auto simp: in_set_conv_nth)
    then have "i \<in> set (maxima q)" using e(2) by (auto simp: maxima_def list_all_iff)
    then show False using none by (auto simp: heap_pop_def Let_def split: list.splits)
  qed
qed (simp add: heap_pop_def maxima_def)

lemma forget_queue [simp]: "dq_queue (forget n q) = dq_queue q"
  by (simp add: forget_def split: option.split)

function select_loop ::
  "(queued_update list \<Rightarrow> nat) \<Rightarrow> (membership_update \<Rightarrow> nat) \<Rightarrow> nat \<Rightarrow> nat \<Rightarrow> membership_update list \<Rightarrow> queued_update list \<Rightarrow>
     dissemination_queue \<Rightarrow> membership_update list \<times> queued_update list \<times> dissemination_queue" where
  "select_loop tie encoded_len max_count room selected sent q =
     (if length selected < max_count then
        case heap_pop tie (dq_queue q) of
          None \<Rightarrow> (selected, sent, q)
        | Some (entry, rest) \<Rightarrow>
            let q1 = q\<lparr>dq_queue := rest\<rparr>
            in if stale entry q1 then select_loop tie encoded_len max_count room selected sent (forget (qu_node entry) q1)
               else let cost = encoded_len (qu_update entry)
                    in if cost > room then (selected, sent, q1\<lparr>dq_queue := rest @ [entry]\<rparr>)
                       else let left = qu_remaining_broadcasts entry - 1
                            in if left > 0
                               then select_loop tie encoded_len max_count (room - cost) (selected @ [qu_update entry])
                                 (sent @ [entry\<lparr>qu_remaining_broadcasts := left\<rparr>]) q1
                               else select_loop tie encoded_len max_count (room - cost) (selected @ [qu_update entry]) sent
                                 (forget (qu_node entry) q1)
      else (selected, sent, q))"
  by pat_completeness auto

termination
  by (relation "measure (\<lambda>(tie, len, mx, room, sel, sent, q). length (dq_queue q))") (auto dest: heap_pop_length)

declare select_loop.simps [simp del]

definition select_updates_within ::
  "heap_choices \<Rightarrow> (membership_update \<Rightarrow> nat) \<Rightarrow> nat \<Rightarrow> nat \<Rightarrow> dissemination_queue \<Rightarrow> membership_update list \<times> dissemination_queue" where
  "select_updates_within hc encoded_len byte_budget max_count q =
     (let (selected, sent, q') = select_loop (hc_tie hc) encoded_len max_count byte_budget [] [] q
      in (selected, q'\<lparr>dq_queue := dq_queue q' @ sent\<rparr>))"

definition select_updates :: "heap_choices \<Rightarrow> (membership_update \<Rightarrow> nat) \<Rightarrow> dissemination_queue \<Rightarrow> membership_update list \<times> dissemination_queue" where
  "select_updates hc encoded_len q = select_updates_within hc encoded_len u64_max MAX_PIGGYBACK_UPDATES q"

section \<open>The queue and its index\<close>

text \<open>
  \<open>tracked es newest\<close>: the index counts the entries about each node and knows a rank that none of them exceeds, and
  every entry has broadcasts left. \<open>sent\<close> entries, which a selection has set aside, count as queued.
\<close>

definition about :: "node_id \<Rightarrow> queued_update multiset \<Rightarrow> nat" where
  "about n es = size {#e \<in># es. qu_node e = n#}"

definition tracked :: "queued_update multiset \<Rightarrow> (node_id \<times> node_entries) list \<Rightarrow> bool" where
  "tracked es newest \<longleftrightarrow>
     (\<forall>n. case map_of newest n of None \<Rightarrow> about n es = 0 | Some ne \<Rightarrow> ne_queued ne = about n es \<and> 0 < about n es) \<and>
     (\<forall>e ne. e \<in># es \<longrightarrow> map_of newest (qu_node e) = Some ne \<longrightarrow> rank (qu_update e) \<le> ne_best ne) \<and>
     (\<forall>e. e \<in># es \<longrightarrow> 0 < qu_remaining_broadcasts e)"

definition queue_ok :: "dissemination_queue \<Rightarrow> bool" where
  "queue_ok q \<longleftrightarrow> tracked (mset (dq_queue q)) (dq_newest q)"

lemma about_add [simp]: "about n (add_mset e es) = (if qu_node e = n then Suc (about n es) else about n es)"
  by (simp add: about_def)

lemma about_pos: "0 < about n es \<longleftrightarrow> (\<exists>e. e \<in># es \<and> qu_node e = n)"
  by (auto simp: about_def nonempty_has_size [symmetric] filter_mset_eq_conv multiset_eq_iff)

lemma tracked_entry:
  assumes "tracked es newest" "e \<in># es"
  obtains ne where "map_of newest (qu_node e) = Some ne" "rank (qu_update e) \<le> ne_best ne" "ne_queued ne = about (qu_node e) es"
    "0 < qu_remaining_broadcasts e"
proof -
  have pos: "0 < about (qu_node e) es" using assms(2) about_pos by blast
  have index: "case map_of newest (qu_node e) of None \<Rightarrow> about (qu_node e) es = 0
      | Some ne \<Rightarrow> ne_queued ne = about (qu_node e) es \<and> 0 < about (qu_node e) es"
    using assms(1) by (simp add: tracked_def)
  then obtain ne where ne: "map_of newest (qu_node e) = Some ne" "ne_queued ne = about (qu_node e) es"
    using pos by (cases "map_of newest (qu_node e)") auto
  moreover have "rank (qu_update e) \<le> ne_best ne" using assms ne(1) by (simp add: tracked_def)
  ultimately show ?thesis using that assms by (simp add: tracked_def)
qed

lemma tracked_forget:
  assumes "tracked (add_mset e es) (dq_newest q)"
  shows "tracked es (dq_newest (forget (qu_node e) q))"
proof -
  obtain ne where ne: "map_of (dq_newest q) (qu_node e) = Some ne" "ne_queued ne = Suc (about (qu_node e) es)"
    using tracked_entry [OF assms, of e] by auto
  have index: "case map_of (dq_newest q) n of None \<Rightarrow> about n (add_mset e es) = 0
      | Some ne \<Rightarrow> ne_queued ne = about n (add_mset e es) \<and> 0 < about n (add_mset e es)" for n
    using assms by (simp add: tracked_def)
  have new: "map_of (dq_newest (forget (qu_node e) q)) n =
      (if n = qu_node e then (if about n es = 0 then None else Some (ne\<lparr>ne_queued := about n es\<rparr>)) else map_of (dq_newest q) n)" for n
    using ne by (simp add: forget_def update_conv' delete_conv')
  have "case map_of (dq_newest (forget (qu_node e) q)) n of None \<Rightarrow> about n es = 0
      | Some ne \<Rightarrow> ne_queued ne = about n es \<and> 0 < about n es" for n
    using index [of n] unfolding new by (auto split: option.splits)
  moreover have "rank (qu_update x) \<le> ne_best ne'"
    if "x \<in># es" "map_of (dq_newest (forget (qu_node e) q)) (qu_node x) = Some ne'" for x ne'
    using that ne(1) assms unfolding new by (auto simp: tracked_def split: if_splits)
  ultimately show ?thesis using assms by (simp add: tracked_def)
qed

lemma tracked_requeue:
  assumes "tracked (add_mset e es) newest" "0 < r"
  shows "tracked (add_mset (e\<lparr>qu_remaining_broadcasts := r\<rparr>) es) newest"
proof -
  have same: "about n (add_mset (e\<lparr>qu_remaining_broadcasts := r\<rparr>) es) = about n (add_mset e es)" for n by simp
  show ?thesis using assms unfolding tracked_def same by auto
qed

lemma forget_best: "map_of (dq_newest (forget n q)) m = Some ne \<Longrightarrow> \<exists>ne'. map_of (dq_newest q) m = Some ne' \<and> ne_best ne = ne_best ne'"
  by (auto simp: forget_def update_conv' delete_conv' split: option.splits if_splits)

section \<open>Selecting\<close>

text \<open>One round of the loop, as the cases a proof about it has.\<close>

lemma select_loop_tracked:
  assumes "select_loop tie len mx room selected sent q = (selected', sent', q')"
    "tracked (mset (dq_queue q) + mset sent) (dq_newest q)"
    "\<And>n ne. map_of (dq_newest q) n = Some ne \<Longrightarrow> ne_best ne = best n"
  shows "tracked (mset (dq_queue q') + mset sent') (dq_newest q') \<and>
    (\<exists>new. selected' = selected @ new \<and> length selected' \<le> max mx (length selected) \<and> sum_list (map len new) \<le> room \<and>
      (\<forall>u \<in> set new. rank u = best (mu_node_id u)))"
  using assms
proof (induction tie len mx room selected sent q rule: select_loop.induct)
  case (1 tie len mx room selected sent q)
  note loop = "1.prems"(1) [unfolded select_loop.simps [of tie len mx room selected sent q]]
  show ?case
  proof (cases "length selected < mx")
    case False
    then show ?thesis using loop "1.prems"(2) by auto
  next
    case more: True
    show ?thesis
    proof (cases "heap_pop tie (dq_queue q)")
      case None
      then show ?thesis using loop more "1.prems"(2) by auto
    next
      case (Some popped)
      obtain entry rest where pop: "heap_pop tie (dq_queue q) = Some (entry, rest)" using Some by (cases popped) auto
      let ?q1 = "q\<lparr>dq_queue := rest\<rparr>"
      let ?left = "qu_remaining_broadcasts entry - 1"
      have m: "mset (dq_queue q) = add_mset entry (mset rest)" using heap_pop_Some(1) [OF pop] .
      have tr: "tracked (add_mset entry (mset rest + mset sent)) (dq_newest ?q1)" using "1.prems"(2) m by simp
      obtain ne where ne: "map_of (dq_newest q) (qu_node entry) = Some ne" "rank (qu_update entry) \<le> ne_best ne"
        "0 < qu_remaining_broadcasts entry"
        using tracked_entry [OF tr, of entry] by auto
      have best': "ne_best ne' = best n" if "map_of (dq_newest (forget (qu_node entry) ?q1)) n = Some ne'" for n ne'
        using forget_best [OF that] "1.prems"(3) by auto
      show ?thesis
      proof (cases "stale entry ?q1")
        case True
        then show ?thesis
          using "1.IH"(1) [OF more pop refl refl True] loop more pop tracked_forget [OF tr] best' by (simp add: Let_def)
      next
        case fresh: False
        have rank: "rank (qu_update entry) = best (qu_node entry)"
          using fresh ne(1,2) "1.prems"(3) [OF ne(1)] by (simp add: stale_def)
        show ?thesis
        proof (cases "len (qu_update entry) > room")
          case True
          then have "selected' = selected" "sent' = sent" "q' = ?q1\<lparr>dq_queue := rest @ [entry]\<rparr>"
            using loop more pop fresh by (simp_all add: Let_def)
          then show ?thesis using tr more by simp
        next
          case fits: False
          let ?sel = "selected @ [qu_update entry]" and ?room = "room - len (qu_update entry)"
          have extend: "\<exists>new. selected' = selected @ new \<and> length selected' \<le> max mx (length selected) \<and>
              sum_list (map len new) \<le> room \<and> (\<forall>u \<in> set new. rank u = best (mu_node_id u))"
            if "selected' = ?sel @ new" "length selected' \<le> max mx (length ?sel)" "sum_list (map len new) \<le> ?room"
              "\<forall>u \<in> set new. rank u = best (mu_node_id u)" for new
            using that more fits rank by (intro exI [of _ "qu_update entry # new"]) auto
          show ?thesis
          proof (cases "?left > 0")
            case True
            have "tracked (mset (dq_queue ?q1) + mset (sent @ [entry\<lparr>qu_remaining_broadcasts := ?left\<rparr>])) (dq_newest ?q1)"
              using tracked_requeue [OF tr True] by simp
            from "1.IH"(2) [OF more pop refl refl fresh refl fits refl True _ this] show ?thesis
              using loop more pop fresh fits True extend "1.prems"(3) by (auto simp: Let_def)
          next
            case over: False
            from "1.IH"(3) [OF more pop refl refl fresh refl fits refl over _ _ best'] show ?thesis
              using loop more pop fresh fits over extend tracked_forget [OF tr] by (auto simp: Let_def)
          qed
        qed
      qed
    qed
  qed
qed

text \<open>A refutation that nothing outranks goes out first.\<close>

lemma select_loop_refutation:
  assumes "select_loop tie len mx room [] sent q = (selected, sent', q')" "0 < mx"
    "tracked (mset (dq_queue q) + mset sent) (dq_newest q)" "e0 \<in> set (dq_queue q)" "qu_refutation e0"
    "\<And>ne. map_of (dq_newest q) (qu_node e0) = Some ne \<Longrightarrow> ne_best ne = rank (qu_update e0)"
    "\<forall>e \<in> set (dq_queue q). qu_refutation e \<longrightarrow> qu_node e = qu_node e0"
    "\<forall>e \<in> set (dq_queue q). qu_refutation e \<longrightarrow> rank (qu_update e) = rank (qu_update e0) \<longrightarrow> len (qu_update e) \<le> room"
  shows "\<exists>u us. selected = u # us \<and> mu_node_id u = qu_node e0 \<and> rank u = rank (qu_update e0)"
  using assms
proof (induction tie len mx room "[] :: membership_update list" sent q rule: select_loop.induct)
  case (1 tie len mx room sent q)
  note loop = "1.prems"(1) [unfolded select_loop.simps [of tie len mx room "[]" sent q]]
  have "dq_queue q \<noteq> []" using "1.prems"(4) by auto
  then obtain entry rest where pop: "heap_pop tie (dq_queue q) = Some (entry, rest)" using heap_pop_None [of tie "dq_queue q"] by auto
  let ?q1 = "q\<lparr>dq_queue := rest\<rparr>"
  have m: "mset (dq_queue q) = add_mset entry (mset rest)" using heap_pop_Some(1) [OF pop] .
  have sets: "set (dq_queue q) = insert entry (set rest)" using m by (metis set_mset_add_mset_insert set_mset_mset)
  have "queue_key e0 \<le> queue_key entry" using heap_pop_Some(2) [OF pop] "1.prems"(4) by blast
  then have ref: "qu_refutation entry" using "1.prems"(5) by (simp add: queue_key_def less_eq_prod_def less_prod_def)
  then have node: "qu_node entry = qu_node e0" using "1.prems"(7) sets by auto
  have tr: "tracked (add_mset entry (mset rest + mset sent)) (dq_newest ?q1)" using "1.prems"(3) m by simp
  obtain ne where ne: "map_of (dq_newest q) (qu_node e0) = Some ne" "rank (qu_update entry) \<le> ne_best ne"
    using tracked_entry [OF tr, of entry] node by auto
  have best: "ne_best ne = rank (qu_update e0)" using "1.prems"(6) [OF ne(1)] .
  show ?case
  proof (cases "stale entry ?q1")
    case True
    then have "entry \<noteq> e0" using ne(1) best by (auto simp: stale_def)
    then have e0: "e0 \<in> set (dq_queue (forget (qu_node entry) ?q1))" using "1.prems"(4) sets by simp
    have kept: "ne_best ne' = rank (qu_update e0)" if "map_of (dq_newest (forget (qu_node entry) ?q1)) (qu_node e0) = Some ne'" for ne'
      using forget_best [OF that] "1.prems"(6) by auto
    have next_round: "select_loop tie len mx room [] sent (forget (qu_node entry) ?q1) = (selected, sent', q')"
      using loop "1.prems"(2) pop True by (simp add: Let_def)
    have tr': "tracked (mset (dq_queue (forget (qu_node entry) ?q1)) + mset sent) (dq_newest (forget (qu_node entry) ?q1))"
      using tracked_forget [OF tr] by simp
    show ?thesis
      by (rule "1.hyps"(1) [OF _ pop refl refl True next_round "1.prems"(2) tr' e0 "1.prems"(5) kept])
        (use "1.prems"(2,7,8) sets in simp_all)
  next
    case False
    then have rank: "rank (qu_update entry) = rank (qu_update e0)" using ne best node by (simp add: stale_def)
    then have fits: "len (qu_update entry) \<le> room" using "1.prems"(8) ref sets by simp
    obtain sel sent2 q2 where rest: "(selected, sent', q') = (sel, sent2, q2)" "\<exists>new. sel = [qu_update entry] @ new"
    proof -
      have inv: "\<exists>new. fst (select_loop tie len mx r [qu_update entry] sn qq) = [qu_update entry] @ new"
        if "tracked (mset (dq_queue qq) + mset sn) (dq_newest qq)" for r sn qq
        using select_loop_tracked [of tie len mx r "[qu_update entry]" sn qq _ _ _ "\<lambda>n. ne_best (the (map_of (dq_newest qq) n))"] that
        by (cases "select_loop tie len mx r [qu_update entry] sn qq") auto
      show thesis
      proof (cases "0 < qu_remaining_broadcasts entry - 1")
        case True
        have "tracked (mset (dq_queue ?q1) + mset (sent @ [entry\<lparr>qu_remaining_broadcasts := qu_remaining_broadcasts entry - 1\<rparr>])) (dq_newest ?q1)"
          using tracked_requeue [OF tr True] by simp
        from inv [OF this, of "room - len (qu_update entry)"] show thesis
          using that loop "1.prems"(2) pop False fits True by (auto simp: Let_def)
      next
        case over: False
        have "tracked (mset (dq_queue (forget (qu_node entry) ?q1)) + mset sent) (dq_newest (forget (qu_node entry) ?q1))"
          using tracked_forget [OF tr] by simp
        from inv [OF this, of "room - len (qu_update entry)"] show thesis
          using that loop "1.prems"(2) pop False fits over by (auto simp: Let_def)
      qed
    qed
    then show ?thesis using rank node by auto
  qed
qed

section \<open>Pushing\<close>

lemma tracked_insert:
  assumes "tracked es newest" "\<And>ne. map_of newest (qu_node e) = Some ne \<Longrightarrow> ne_best ne \<le> rank (qu_update e)"
    "k = Suc (about (qu_node e) es)" "0 < qu_remaining_broadcasts e"
  shows "tracked (add_mset e es) (AList.update (qu_node e) \<lparr>ne_best = rank (qu_update e), ne_queued = k\<rparr> newest)"
proof -
  let ?newest = "AList.update (qu_node e) \<lparr>ne_best = rank (qu_update e), ne_queued = k\<rparr> newest"
  have index: "case map_of newest n of None \<Rightarrow> about n es = 0 | Some ne \<Rightarrow> ne_queued ne = about n es \<and> 0 < about n es" for n
    using assms(1) by (simp add: tracked_def)
  have "case map_of ?newest n of None \<Rightarrow> about n (add_mset e es) = 0
      | Some ne \<Rightarrow> ne_queued ne = about n (add_mset e es) \<and> 0 < about n (add_mset e es)" for n
    using index [of n] assms(3) by (auto simp: update_conv' split: option.splits)
  moreover have "rank (qu_update x) \<le> ne_best ne"
    if "x \<in># add_mset e es" "map_of ?newest (qu_node x) = Some ne" for x ne
  proof (cases "qu_node x = qu_node e")
    case True
    then have best: "ne_best ne = rank (qu_update e)" using that(2) by (auto simp: update_conv' split: if_splits)
    show ?thesis
    proof (cases "x = e")
      case False
      then have "x \<in># es" using that(1) by simp
      then obtain ne' where "map_of newest (qu_node e) = Some ne'" "rank (qu_update x) \<le> ne_best ne'"
        using tracked_entry [OF assms(1)] True by metis
      then show ?thesis using assms(2) best by force
    qed (simp add: best)
  next
    case False
    then show ?thesis using that assms(1) by (auto simp: tracked_def update_conv' split: if_splits)
  qed
  ultimately show ?thesis using assms(1,4) by (simp add: tracked_def)
qed

lemma tracked_index:
  assumes "distinct (map qu_node xs)" "\<forall>e \<in> set xs. 0 < qu_remaining_broadcasts e"
  shows "tracked (mset xs) (foldl (\<lambda>m e. AList.update (qu_node e) \<lparr>ne_best = rank (qu_update e), ne_queued = 1\<rparr> m) [] xs)"
  using assms
proof (induction xs rule: rev_induct)
  case (snoc x xs)
  let ?m = "foldl (\<lambda>m e. AList.update (qu_node e) \<lparr>ne_best = rank (qu_update e), ne_queued = 1\<rparr> m) [] xs"
  have tr: "tracked (mset xs) ?m" using snoc by simp
  have "\<not> 0 < about (qu_node x) (mset xs)" unfolding about_pos using snoc.prems(1) by (simp add: image_iff) metis
  then have none: "about (qu_node x) (mset xs) = 0" by simp
  have "case map_of ?m (qu_node x) of None \<Rightarrow> about (qu_node x) (mset xs) = 0
      | Some ne \<Rightarrow> ne_queued ne = about (qu_node x) (mset xs) \<and> 0 < about (qu_node x) (mset xs)"
    using tr unfolding tracked_def by blast
  then have "map_of ?m (qu_node x) = None" using none by (cases "map_of ?m (qu_node x)") simp_all
  then show ?case using tracked_insert [OF tr, of x 1] none snoc.prems by simp
qed (simp add: tracked_def about_def)

definition fair :: "heap_choices \<Rightarrow> bool" where
  "fair hc \<longleftrightarrow> (\<forall>xs. mset (hc_order hc xs) = mset xs)"

lemma set_update_subset: "set (AList.update k v m) \<subseteq> insert (k, v) (set m)"
  by (induction m) auto

lemma coalesce_kept:
  "distinct (map fst (coalesce xs)) \<and> (\<forall>(n, e) \<in> set (coalesce xs). qu_node e = n \<and> e \<in> set xs)"
proof (induction xs rule: rev_induct)
  case (snoc x xs)
  have step: "coalesce (xs @ [x]) = coalesce xs \<or> coalesce (xs @ [x]) = AList.update (qu_node x) x (coalesce xs)"
    by (simp add: coalesce_def split: option.split)
  then show ?case using snoc set_update_subset [of "qu_node x" x "coalesce xs"] by (auto simp: distinct_update)
qed (simp add: coalesce_def)

lemma compact_ok:
  assumes "fair hc" "queue_ok q"
  shows "queue_ok (compact hc q)"
proof -
  have perm: "mset (hc_order hc xs) = mset xs" for xs using assms(1) by (simp add: fair_def)
  let ?c = "coalesce (hc_order hc (dq_queue q))"
  let ?kept = "hc_order hc (map snd ?c)"
  have c: "distinct (map fst ?c)" "\<forall>(n, e) \<in> set ?c. qu_node e = n \<and> e \<in> set (hc_order hc (dq_queue q))"
    using coalesce_kept by auto
  have "map qu_node (map snd ?c) = map fst ?c" using c(2) by (auto simp: case_prod_beta)
  then have "distinct (map qu_node (map snd ?c))" using c(1) by (simp only:)
  then have dist: "distinct (map qu_node ?kept)"
    using mset_eq_imp_distinct_iff [of "map qu_node ?kept" "map qu_node (map snd ?c)"] perm [of "map snd ?c"]
    by (metis mset_map)
  have "set ?kept \<subseteq> set (dq_queue q)"
    using c(2) mset_eq_setD [OF perm] by fastforce
  then have pos: "\<forall>e \<in> set ?kept. 0 < qu_remaining_broadcasts e"
    using assms(2) by (auto simp: queue_ok_def tracked_def)
  let ?sorted = "rev (sort_key queue_key (rev ?kept))"
  have "distinct (map qu_node ?sorted)"
    using dist mset_eq_imp_distinct_iff [of "map qu_node ?sorted" "map qu_node ?kept"] by simp
  then have "distinct (map qu_node (take HARD_CAP ?sorted))" by (simp flip: take_map)
  moreover have "\<forall>e \<in> set (take HARD_CAP ?sorted). 0 < qu_remaining_broadcasts e"
    using pos set_take_subset [of HARD_CAP ?sorted] by auto
  ultimately show ?thesis
    using tracked_index dist pos by (simp add: compact_def Let_def queue_ok_def)
qed

lemma broadcast_count_pos: "0 < broadcast_count n"
  by (simp add: broadcast_count_def max_def)

section \<open>What a queue keeps\<close>

lemma select_loop_frame:
  assumes "select_loop tie len mx room selected sent q = (selected', sent', q')"
    "\<And>e. e \<in> set (dq_queue q) \<union> set sent \<Longrightarrow> Q (qu_update e) (qu_refutation e)"
    "\<And>m ne. map_of (dq_newest q) m = Some ne \<Longrightarrow> B m (ne_best ne)"
  shows "(\<forall>e \<in> set (dq_queue q') \<union> set sent'. Q (qu_update e) (qu_refutation e)) \<and>
    (\<forall>m ne. map_of (dq_newest q') m = Some ne \<longrightarrow> B m (ne_best ne))"
  using assms
proof (induction tie len mx room selected sent q rule: select_loop.induct)
  case (1 tie len mx room selected sent q)
  note loop = "1.prems"(1) [unfolded select_loop.simps [of tie len mx room selected sent q]]
  show ?case
  proof (cases "length selected < mx \<and> heap_pop tie (dq_queue q) \<noteq> None")
    case False
    then have "sent' = sent" "q' = q" using loop by (auto split: if_splits option.splits)
    then show ?thesis using "1.prems"(2,3) by blast
  next
    case True
    then obtain entry rest where pop: "heap_pop tie (dq_queue q) = Some (entry, rest)" and more: "length selected < mx" by auto
    let ?q1 = "q\<lparr>dq_queue := rest\<rparr>"
    let ?left = "qu_remaining_broadcasts entry - 1"
    have sets: "set (dq_queue q) = insert entry (set rest)"
      using heap_pop_Some(1) [OF pop] by (metis set_mset_add_mset_insert set_mset_mset)
    have forgotten: "B m (ne_best ne)" if "map_of (dq_newest (forget (qu_node entry) ?q1)) m = Some ne" for m ne
      using forget_best [OF that] "1.prems"(3) by auto
    have kept: "Q (qu_update e) (qu_refutation e)" if "e \<in> insert entry (set rest \<union> set sent)" for e
      using that "1.prems"(2) sets by auto
    show ?thesis
    proof (cases "stale entry ?q1")
      case True
      show ?thesis
        by (rule "1.IH"(1) [OF more pop refl refl True _ _ forgotten]) (use loop more pop True kept in \<open>auto simp: Let_def\<close>)
    next
      case fresh: False
      show ?thesis
      proof (cases "len (qu_update entry) > room")
        case True
        then have "sent' = sent" "q' = ?q1\<lparr>dq_queue := rest @ [entry]\<rparr>" using loop more pop fresh by (simp_all add: Let_def)
        then show ?thesis using kept "1.prems"(3) by auto
      next
        case fits: False
        show ?thesis
        proof (cases "?left > 0")
          case True
          show ?thesis
            by (rule "1.IH"(2) [OF more pop refl refl fresh refl fits refl True])
              (use loop more pop fresh fits True kept "1.prems"(3) in \<open>auto simp: Let_def\<close>)
        next
          case over: False
          show ?thesis
            by (rule "1.IH"(3) [OF more pop refl refl fresh refl fits refl over _ _ forgotten])
              (use loop more pop fresh fits over kept in \<open>auto simp: Let_def\<close>)
        qed
      qed
    qed
  qed
qed

lemma select_frame:
  assumes "\<forall>e \<in> set (dq_queue q). Q (qu_update e) (qu_refutation e)" "\<forall>m ne. map_of (dq_newest q) m = Some ne \<longrightarrow> B m (ne_best ne)"
  shows "(\<forall>e \<in> set (dq_queue (snd (select_updates_within hc len budget mx q))). Q (qu_update e) (qu_refutation e)) \<and>
    (\<forall>m ne. map_of (dq_newest (snd (select_updates_within hc len budget mx q))) m = Some ne \<longrightarrow> B m (ne_best ne))"
  using select_loop_frame [of "hc_tie hc" len mx budget "[]" "[]" q _ _ _ Q B] assms
  by (auto simp: select_updates_within_def split: prod.split)

abbreviation index_of :: "queued_update list \<Rightarrow> (node_id \<times> node_entries) list" where
  "index_of es \<equiv> foldl (\<lambda>m e. AList.update (qu_node e) \<lparr>ne_best = rank (qu_update e), ne_queued = 1\<rparr> m) [] es"

lemma index_best: "map_of (index_of es) m = Some ne \<Longrightarrow> \<exists>e \<in> set es. qu_node e = m \<and> ne_best ne = rank (qu_update e)"
  by (induction es rule: rev_induct) (auto simp: update_conv' split: if_splits)

lemma compact_entries: "fair hc \<Longrightarrow> set (dq_queue (compact hc q)) \<subseteq> set (dq_queue q)"
proof -
  assume "fair hc"
  then have perm: "set (hc_order hc xs) = set xs" for xs by (metis fair_def mset_eq_setD)
  let ?kept = "hc_order hc (map snd (coalesce (hc_order hc (dq_queue q))))"
  have inside: "set ?kept \<subseteq> set (dq_queue q)"
    using coalesce_kept [of "hc_order hc (dq_queue q)"] perm by fastforce
  have "set (take HARD_CAP (rev (sort_key queue_key (rev ?kept)))) \<subseteq> set (rev (sort_key queue_key (rev ?kept)))"
    by (rule set_take_subset)
  then have "set (take HARD_CAP (rev (sort_key queue_key (rev ?kept)))) \<subseteq> set ?kept" by simp
  from subset_trans [OF this inside] inside show ?thesis unfolding compact_def Let_def by simp
qed

lemma compact_index: "dq_newest (compact hc q) = index_of (dq_queue (compact hc q))"
  by (simp add: compact_def Let_def)

lemma push_cases:
  obtains "push hc u k r q = q" "\<exists>ne. map_of (dq_newest q) (mu_node_id u) = Some ne \<and> ne_best ne > rank u"
  | q' j where "push hc u k r q = q' \<or> push hc u k r q = compact hc q'"
    "q' = q\<lparr>dq_newest := AList.update (mu_node_id u) \<lparr>ne_best = rank u, ne_queued = j\<rparr> (dq_newest q),
      dq_queue := dq_queue q @ [\<lparr>qu_update = u, qu_remaining_broadcasts = broadcast_count k, qu_refutation = r\<rparr>]\<rparr>"
    "queue_ok q \<Longrightarrow> queue_ok q'" "\<And>ne. map_of (dq_newest q) (mu_node_id u) = Some ne \<Longrightarrow> ne_best ne \<le> rank u"
proof -
  let ?e = "\<lparr>qu_update = u, qu_remaining_broadcasts = broadcast_count k, qu_refutation = r\<rparr>"
  let ?q = "\<lambda>j. q\<lparr>dq_newest := AList.update (mu_node_id u) \<lparr>ne_best = rank u, ne_queued = j\<rparr> (dq_newest q), dq_queue := dq_queue q @ [?e]\<rparr>"
  have index: "queue_ok q \<Longrightarrow> case map_of (dq_newest q) (mu_node_id u) of None \<Rightarrow> about (mu_node_id u) (mset (dq_queue q)) = 0
      | Some ne \<Rightarrow> ne_queued ne = about (mu_node_id u) (mset (dq_queue q)) \<and> 0 < about (mu_node_id u) (mset (dq_queue q))"
    unfolding queue_ok_def tracked_def by blast
  have ok: "queue_ok (?q j)" if "queue_ok q" "\<And>ne. map_of (dq_newest q) (mu_node_id u) = Some ne \<Longrightarrow> ne_best ne \<le> rank u"
    "j = Suc (about (mu_node_id u) (mset (dq_queue q)))" for j
    using that tracked_insert [of "mset (dq_queue q)" "dq_newest q" ?e j] broadcast_count_pos by (simp add: queue_ok_def)
  show ?thesis
  proof (cases "map_of (dq_newest q) (mu_node_id u)")
    case None
    show ?thesis
    proof (rule that(2) [of "?q 1" 1])
      show "queue_ok q \<Longrightarrow> queue_ok (?q 1)" using ok [of 1] index None by simp
    qed (use None in \<open>simp_all add: push_def Let_def\<close>)
  next
    case (Some ne)
    show ?thesis
    proof (cases "ne_best ne > rank u")
      case True
      then show ?thesis using that(1) Some by (simp add: push_def Let_def)
    next
      case False
      show ?thesis
      proof (rule that(2) [of "?q (ne_queued ne + 1)" "ne_queued ne + 1"])
        show "queue_ok q \<Longrightarrow> queue_ok (?q (ne_queued ne + 1))" using ok [of "ne_queued ne + 1"] index Some False by simp
      qed (use Some False in \<open>simp_all add: push_def Let_def\<close>)
    qed
  qed
qed

lemma push_ok: "fair hc \<Longrightarrow> queue_ok q \<Longrightarrow> queue_ok (push hc u k refutation q)"
  by (rule push_cases [of hc u k refutation q]) (auto simp: compact_ok)

lemma push_frame:
  assumes "fair hc" "queue_ok q"
  shows "\<forall>e \<in> set (dq_queue (push hc u k r q)). e \<in> set (dq_queue q) \<or> qu_update e = u \<and> qu_refutation e = r"
    and "map_of (dq_newest (push hc u k r q)) m = Some ne \<Longrightarrow>
      (\<exists>ne'. map_of (dq_newest q) m = Some ne' \<and> ne_best ne \<le> ne_best ne') \<or> m = mu_node_id u \<and> ne_best ne \<le> rank u"
proof -
  let ?goal = "\<lambda>p. (\<forall>e \<in> set (dq_queue p). e \<in> set (dq_queue q) \<or> qu_update e = u \<and> qu_refutation e = r) \<and>
    (\<forall>m ne. map_of (dq_newest p) m = Some ne \<longrightarrow>
      (\<exists>ne'. map_of (dq_newest q) m = Some ne' \<and> ne_best ne \<le> ne_best ne') \<or> m = mu_node_id u \<and> ne_best ne \<le> rank u)"
  have "?goal (push hc u k r q)"
  proof (rule push_cases [of hc u k r q])
    fix q' j
    assume push: "push hc u k r q = q' \<or> push hc u k r q = compact hc q'"
      and q': "q' = q\<lparr>dq_newest := AList.update (mu_node_id u) \<lparr>ne_best = rank u, ne_queued = j\<rparr> (dq_newest q),
        dq_queue := dq_queue q @ [\<lparr>qu_update = u, qu_remaining_broadcasts = broadcast_count k, qu_refutation = r\<rparr>]\<rparr>"
      and ok: "queue_ok q \<Longrightarrow> queue_ok q'"
    have plain: "?goal q'" unfolding q' by (auto simp: update_conv' split: if_splits)
    have "\<exists>ne'. map_of (dq_newest q') m = Some ne' \<and> ne_best ne \<le> ne_best ne'"
      if idx: "map_of (dq_newest (compact hc q')) m = Some ne" for m ne
    proof -
      obtain e where e: "e \<in> set (dq_queue (compact hc q'))" "qu_node e = m" "ne_best ne = rank (qu_update e)"
        using index_best [of "dq_queue (compact hc q')" m ne] idx unfolding compact_index by blast
      then have "e \<in># mset (dq_queue q')" using compact_entries [OF assms(1)] by auto
      then show ?thesis using tracked_entry [of "mset (dq_queue q')" "dq_newest q'" e] ok assms(2) e by (metis queue_ok_def)
    qed
    moreover have "(\<exists>ne'. map_of (dq_newest q) m = Some ne' \<and> ne_best ne \<le> ne_best ne') \<or> m = mu_node_id u \<and> ne_best ne \<le> rank u"
      if "map_of (dq_newest q') m = Some ne1" "ne_best ne \<le> ne_best ne1" for m ne ne1
      using plain that order_trans [OF that(2)] by blast
    ultimately have "?goal (compact hc q')" using plain compact_entries [OF assms(1), of q'] by blast
    then show ?thesis using push plain by (elim disjE) (simp_all only:)
  qed auto
  then show "\<forall>e \<in> set (dq_queue (push hc u k r q)). e \<in> set (dq_queue q) \<or> qu_update e = u \<and> qu_refutation e = r"
    and "map_of (dq_newest (push hc u k r q)) m = Some ne \<Longrightarrow>
      (\<exists>ne'. map_of (dq_newest q) m = Some ne' \<and> ne_best ne \<le> ne_best ne') \<or> m = mu_node_id u \<and> ne_best ne \<le> rank u"
    by blast+
qed

text \<open>
  \<open>leads u q\<close>: the update \<open>u\<close> is queued as a refutation, outranks everything else about its node, and all
  refutations are about that node.
\<close>

definition leads :: "membership_update \<Rightarrow> dissemination_queue \<Rightarrow> bool" where
  "leads u q \<longleftrightarrow> queue_ok q \<and>
     (\<exists>e \<in> set (dq_queue q). qu_update e = u \<and> qu_refutation e \<and>
        (\<forall>x \<in> set (dq_queue q). qu_node x = mu_node_id u \<longrightarrow> x = e \<or> rank (qu_update x) < rank u)) \<and>
     (\<forall>x \<in> set (dq_queue q). qu_refutation x \<longrightarrow> qu_node x = mu_node_id u) \<and>
     (\<exists>ne. map_of (dq_newest q) (mu_node_id u) = Some ne \<and> ne_best ne = rank u)"

lemma coalesce_largest:
  "x \<in> set xs \<Longrightarrow> \<exists>e. map_of (coalesce xs) (qu_node x) = Some e \<and> rank (qu_update x) \<le> rank (qu_update e)"
proof (induction xs arbitrary: x rule: rev_induct)
  case (snoc y ys)
  have step: "coalesce (ys @ [y]) = (case map_of (coalesce ys) (qu_node y) of
      Some existing \<Rightarrow> if \<not> queued_supersedes y existing then coalesce ys else AList.update (qu_node y) y (coalesce ys)
    | None \<Rightarrow> AList.update (qu_node y) y (coalesce ys))"
    unfolding coalesce_def by simp
  show ?case
  proof (cases "qu_node x = qu_node y")
    case True
    have old: "rank (qu_update x) \<le> rank (qu_update e)" if "x \<in> set ys" "map_of (coalesce ys) (qu_node y) = Some e" for e
      using snoc.IH [OF that(1)] that(2) True by auto
    have none: "x \<notin> set ys" if "map_of (coalesce ys) (qu_node y) = None" using snoc.IH [of x] that True by auto
    show ?thesis
      using snoc.prems old none True unfolding step
      by (auto simp: queued_supersedes_def update_conv' not_less split: option.split dest: less_imp_le order_trans)
  next
    case False
    then have "x \<in> set ys" using snoc.prems by auto
    then show ?thesis using snoc.IH False unfolding step by (auto simp: update_conv' split: option.split)
  qed
qed simp

lemma desc_sort_first:
  assumes "e \<in> set xs" "\<And>x. x \<in> set xs \<Longrightarrow> x \<noteq> e \<Longrightarrow> queue_key x < queue_key e" "0 < k"
  shows "e \<in> set (take k (rev (sort_key queue_key (rev xs))))"
proof -
  let ?s = "sort_key queue_key (rev xs)"
  have all: "set ?s = set xs" by simp
  then obtain ys z where split: "?s = ys @ [z]" using assms(1) by (cases ?s rule: rev_cases) auto
  have "sorted (map queue_key ?s)" by simp
  then have below: "queue_key x \<le> queue_key z" if "x \<in> set ys" for x
    using that unfolding split by (auto simp: sorted_append)
  have "z \<in> set xs" "e \<in> set ys \<or> e = z" using assms(1) all unfolding split by auto
  then have "z = e" using below [of e] assms(2) [of z] by (auto simp: not_le [symmetric])
  then show ?thesis using assms(3) unfolding split by (cases k) simp_all
qed

lemma compact_leads:
  assumes "fair hc" "leads u q"
  shows "leads u (compact hc q)"
proof -
  obtain e where e: "e \<in> set (dq_queue q)" "qu_update e = u" "qu_refutation e"
    "\<And>x. x \<in> set (dq_queue q) \<Longrightarrow> qu_node x = mu_node_id u \<Longrightarrow> x = e \<or> rank (qu_update x) < rank u"
    using assms(2) unfolding leads_def by blast
  have refs: "qu_node x = mu_node_id u" if "x \<in> set (dq_queue q)" "qu_refutation x" for x
    using assms(2) that unfolding leads_def by blast
  have ok: "queue_ok q" using assms(2) by (simp add: leads_def)
  have perm: "set (hc_order hc xs) = set xs" for xs using assms(1) by (metis fair_def mset_eq_setD)
  let ?c = "coalesce (hc_order hc (dq_queue q))"
  have kept: "qu_node x = n \<and> x \<in> set (dq_queue q)" if "(n, x) \<in> set ?c" for n x
    using coalesce_kept [of "hc_order hc (dq_queue q)"] that perm by auto
  obtain x where x: "map_of ?c (mu_node_id u) = Some x" "rank u \<le> rank (qu_update x)"
    using coalesce_largest [of e "hc_order hc (dq_queue q)"] e(1,2) perm by auto
  then have "x = e" using kept [OF map_of_SomeD [OF x(1)]] e(4) by fastforce
  then have "e \<in> set (map snd ?c)" using map_of_SomeD [OF x(1)] by force
  then have here: "e \<in> set (hc_order hc (map snd ?c))" using perm by simp
  have only: "y = e" if y: "y \<in> set (hc_order hc (map snd ?c))" "qu_node y = mu_node_id u" for y
  proof -
    obtain n where n: "(n, y) \<in> set ?c" using y(1) perm by auto
    then have "n = mu_node_id u" using kept y(2) by auto
    then have "map_of ?c (mu_node_id u) = Some y" using n coalesce_kept by (metis map_of_is_SomeI)
    then show ?thesis using x(1) \<open>x = e\<close> by simp
  qed
  have "queue_key y < queue_key e" if "y \<in> set (hc_order hc (map snd ?c))" "y \<noteq> e" for y
  proof -
    have "y \<in> set (dq_queue q)" using that(1) perm kept by auto
    then have "\<not> qu_refutation y" using only [OF that(1)] that(2) refs by blast
    then show ?thesis using e(3) by (simp add: queue_key_def less_prod_def)
  qed
  from desc_sort_first [OF here this, of HARD_CAP] have "e \<in> set (dq_queue (compact hc q))"
    using here by (simp add: compact_def Let_def HARD_CAP_def)
  moreover have inside: "y = e" if "y \<in> set (dq_queue (compact hc q))" "qu_node y = mu_node_id u" for y
  proof (rule only [OF _ that(2)])
    show "y \<in> set (hc_order hc (map snd ?c))"
      using that(1) set_take_subset [of HARD_CAP "rev (sort_key queue_key (rev (hc_order hc (map snd ?c))))"]
      by (auto simp: compact_def Let_def split: if_splits)
  qed
  moreover have ok': "queue_ok (compact hc q)" using compact_ok [OF assms(1) ok] .
  moreover have "\<exists>ne. map_of (dq_newest (compact hc q)) (mu_node_id u) = Some ne \<and> ne_best ne = rank u"
  proof -
    obtain ne where ne: "map_of (dq_newest (compact hc q)) (mu_node_id u) = Some ne"
      using tracked_entry [of "mset (dq_queue (compact hc q))" "dq_newest (compact hc q)" e] ok' \<open>e \<in> set (dq_queue (compact hc q))\<close> e(2)
      by (auto simp: queue_ok_def)
    then obtain y where "y \<in> set (dq_queue (compact hc q))" "qu_node y = mu_node_id u" "ne_best ne = rank (qu_update y)"
      using index_best [of "dq_queue (compact hc q)" "mu_node_id u" ne] unfolding compact_index by blast
    then show ?thesis using ne inside e(2) by blast
  qed
  ultimately show ?thesis
    unfolding leads_def using e(2,3) refs compact_entries [OF assms(1), of q] by blast
qed

lemma push_other_leads:
  assumes "fair hc" "leads u q" "mu_node_id v \<noteq> mu_node_id u"
  shows "leads u (push hc v k False q)"
proof (rule push_cases [of hc v k False q])
  fix q' j
  assume push: "push hc v k False q = q' \<or> push hc v k False q = compact hc q'"
    and q': "q' = q\<lparr>dq_newest := AList.update (mu_node_id v) \<lparr>ne_best = rank v, ne_queued = j\<rparr> (dq_newest q),
      dq_queue := dq_queue q @ [\<lparr>qu_update = v, qu_remaining_broadcasts = broadcast_count k, qu_refutation = False\<rparr>]\<rparr>"
    and ok: "queue_ok q \<Longrightarrow> queue_ok q'"
  have "leads u q'"
    using assms(2,3) ok unfolding leads_def q' by (auto simp: update_conv')
  then show ?thesis using push compact_leads [OF assms(1)] by auto
qed (use assms(2) in simp)

lemma push_refutation_leads:
  assumes "fair hc" "queue_ok q" "\<And>ne. map_of (dq_newest q) (mu_node_id u) = Some ne \<Longrightarrow> ne_best ne < rank u"
    "\<forall>e \<in> set (dq_queue q). qu_refutation e \<longrightarrow> qu_node e = mu_node_id u"
  shows "leads u (push hc u k True q)"
proof (rule push_cases [of hc u k True q])
  fix q' j
  assume push: "push hc u k True q = q' \<or> push hc u k True q = compact hc q'"
    and q': "q' = q\<lparr>dq_newest := AList.update (mu_node_id u) \<lparr>ne_best = rank u, ne_queued = j\<rparr> (dq_newest q),
      dq_queue := dq_queue q @ [\<lparr>qu_update = u, qu_remaining_broadcasts = broadcast_count k, qu_refutation = True\<rparr>]\<rparr>"
    and ok: "queue_ok q \<Longrightarrow> queue_ok q'"
  have lower: "rank (qu_update x) < rank u" if "x \<in> set (dq_queue q)" "qu_node x = mu_node_id u" for x
    using tracked_entry [of "mset (dq_queue q)" "dq_newest q" x] assms(2,3) that by (metis order_le_less_trans queue_ok_def set_mset_mset)
  have "leads u q'"
    using ok assms(2,4) lower unfolding leads_def q' by (auto simp: update_conv')
  then show ?thesis using push compact_leads [OF assms(1)] by auto
next
  assume "\<exists>ne. map_of (dq_newest q) (mu_node_id u) = Some ne \<and> ne_best ne > rank u"
  then show ?thesis using assms(3) by force
qed

lemma leads_selected:
  assumes "leads u q" "0 < mx" "len u \<le> budget" "select_updates_within hc len budget mx q = (selected, q')"
  shows "\<exists>v. v \<in> set selected \<and> mu_node_id v = mu_node_id u"
    and "\<forall>v \<in> set selected. mu_node_id v = mu_node_id u \<longrightarrow> rank v = rank u"
proof -
  obtain sent q1 where loop: "select_loop (hc_tie hc) len mx budget [] [] q = (selected, sent, q1)"
    using assms(4) by (auto simp: select_updates_within_def split: prod.splits)
  have tr: "tracked (mset (dq_queue q) + mset []) (dq_newest q)" using assms(1) by (simp add: leads_def queue_ok_def)
  obtain e where e: "e \<in> set (dq_queue q)" "qu_update e = u" "qu_refutation e"
    "\<And>x. x \<in> set (dq_queue q) \<Longrightarrow> qu_node x = mu_node_id u \<Longrightarrow> x = e \<or> rank (qu_update x) < rank u"
    using assms(1) unfolding leads_def by blast
  obtain ne where ne: "map_of (dq_newest q) (mu_node_id u) = Some ne" "ne_best ne = rank u" using assms(1) unfolding leads_def by blast
  have fits: "\<forall>x \<in> set (dq_queue q). qu_refutation x \<longrightarrow> rank (qu_update x) = rank (qu_update e) \<longrightarrow> len (qu_update x) \<le> budget"
    using assms(1,3) e(2,4) unfolding leads_def by (metis less_irrefl)
  have "\<exists>v vs. selected = v # vs \<and> mu_node_id v = qu_node e \<and> rank v = rank (qu_update e)"
    by (rule select_loop_refutation [OF loop assms(2) tr e(1,3) _ _ fits]) (use assms(1) e(2) ne in \<open>auto simp: leads_def\<close>)
  then show "\<exists>v. v \<in> set selected \<and> mu_node_id v = mu_node_id u" using e(2) by auto
  show "\<forall>v \<in> set selected. mu_node_id v = mu_node_id u \<longrightarrow> rank v = rank u"
    using select_loop_tracked [OF loop tr, of "\<lambda>n. ne_best (the (map_of (dq_newest q) n))"] ne by auto
qed

text \<open>
  \<open>own_queue x r q\<close>: the queue of the node \<open>x\<close>, whose refutations are all its own, with nothing about \<open>x\<close> that
  outranks the incarnation \<open>r\<close>.
\<close>

definition own_queue :: "node_id \<Rightarrow> nat \<Rightarrow> dissemination_queue \<Rightarrow> bool" where
  "own_queue x r q \<longleftrightarrow> queue_ok q \<and> (\<forall>e \<in> set (dq_queue q). qu_refutation e \<longrightarrow> qu_node e = x) \<and>
     (\<forall>ne. map_of (dq_newest q) x = Some ne \<longrightarrow> fst (ne_best ne) \<le> r)"

lemma own_queue_mono: "own_queue x r q \<Longrightarrow> r \<le> r' \<Longrightarrow> own_queue x r' q"
  unfolding own_queue_def using order_trans by blast

lemma own_queue_push:
  assumes "fair hc" "own_queue x r q" "refutation \<Longrightarrow> mu_node_id u = x" "mu_node_id u = x \<Longrightarrow> mu_incarnation u \<le> r"
  shows "own_queue x r (push hc u k refutation q)"
proof -
  have ok: "queue_ok q" using assms(2) by (simp add: own_queue_def)
  have below: "fst a \<le> fst b" if "a \<le> b" for a b :: "nat \<times> nat" using that by (auto simp: less_eq_prod_def)
  have "\<forall>e \<in> set (dq_queue (push hc u k refutation q)). qu_refutation e \<longrightarrow> qu_node e = x"
    using push_frame(1) [OF assms(1) ok, of u k refutation] assms(2,3) unfolding own_queue_def by blast
  moreover have "fst (ne_best ne) \<le> r" if ne: "map_of (dq_newest (push hc u k refutation q)) x = Some ne" for ne
    using push_frame(2) [OF assms(1) ok ne]
  proof
    assume "\<exists>ne'. map_of (dq_newest q) x = Some ne' \<and> ne_best ne \<le> ne_best ne'"
    then show ?thesis using assms(2) below unfolding own_queue_def by (meson order_trans)
  next
    assume "x = mu_node_id u \<and> ne_best ne \<le> rank u"
    then show ?thesis using assms(4) below [of "ne_best ne" "rank u"] by (simp add: rank_def)
  qed
  ultimately show ?thesis using push_ok [OF assms(1) ok] by (simp add: own_queue_def)
qed

lemma own_queue_refutation:
  assumes "fair hc" "own_queue (mu_node_id u) r q" "r < mu_incarnation u"
  shows "leads u (push hc u k True q)"
proof (rule push_refutation_leads [OF assms(1)])
  show "ne_best ne < rank u" if "map_of (dq_newest q) (mu_node_id u) = Some ne" for ne
    using assms(2,3) that by (auto simp: own_queue_def rank_def less_prod_def)
qed (use assms(2) in \<open>simp_all add: own_queue_def\<close>)

lemma select_ok: "queue_ok q \<Longrightarrow> queue_ok (snd (select_updates_within hc len budget mx q))"
  using select_loop_tracked [of "hc_tie hc" len mx budget "[]" "[]" q _ _ _ "\<lambda>n. ne_best (the (map_of (dq_newest q) n))"]
  by (auto simp: select_updates_within_def queue_ok_def split: prod.split)

lemma own_queue_select: "own_queue x r q \<Longrightarrow> own_queue x r (snd (select_updates_within hc len budget mx q))"
  using select_frame [of q "\<lambda>u refutation. refutation \<longrightarrow> mu_node_id u = x" "\<lambda>m best. m = x \<longrightarrow> fst best \<le> r" hc len budget mx]
    select_ok [of q hc len budget mx]
  unfolding own_queue_def by blast

section \<open>Runs of the queue\<close>

datatype queue_op = Push heap_choices membership_update nat bool | Select heap_choices "membership_update \<Rightarrow> nat" nat nat

fun queue_exec :: "queue_op \<Rightarrow> dissemination_queue \<Rightarrow> dissemination_queue" where
  "queue_exec (Push hc u k refutation) q = push hc u k refutation q"
| "queue_exec (Select hc len budget mx) q = snd (select_updates_within hc len budget mx q)"

fun queue_op_ok :: "queue_op \<Rightarrow> bool" where
  "queue_op_ok (Push hc u k refutation) = fair hc"
| "queue_op_ok (Select hc len budget mx) = True"

interpretation gossip_queue: command_machine queue_exec queue_op_ok queue_ok
proof
  fix q and c :: queue_op
  assume "queue_ok q" "queue_op_ok c"
  then show "queue_ok (queue_exec c q)" by (cases c) (simp_all add: push_ok select_ok)
qed

lemma queue_new_ok: "queue_ok queue_new"
  by (simp add: queue_ok_def queue_new_def tracked_def about_def)

text \<open>
  C25: What rides on a message fits it and is up to date. Whatever was queued and selected before, a selection takes
  at most the allowed number of updates, their encoded size stays within the room of the datagram, and no
  selected update is outranked by one still queued about the same node: a superseded update is never sent.
\<close>

theorem piggyback_fits_and_current:
  assumes "list_all queue_op_ok ops" "q = fold queue_exec ops queue_new"
    "select_updates_within hc encoded_len byte_budget max_count q = (selected, q')"
  shows "length selected \<le> max_count \<and> sum_list (map encoded_len selected) \<le> byte_budget \<and>
    (\<forall>u \<in> set selected. \<forall>e \<in> set (dq_queue q). qu_node e = mu_node_id u \<longrightarrow> rank (qu_update e) \<le> rank u)"
proof -
  have "queue_ok q" using gossip_queue.run_inv [OF queue_new_ok] assms(1,2) by (simp add: list_all_iff)
  then have tr: "tracked (mset (dq_queue q) + mset []) (dq_newest q)" by (simp add: queue_ok_def)
  let ?best = "\<lambda>n. ne_best (the (map_of (dq_newest q) n))"
  obtain sent q1 where loop: "select_loop (hc_tie hc) encoded_len max_count byte_budget [] [] q = (selected, sent, q1)"
    using assms(3) by (auto simp: select_updates_within_def split: prod.splits)
  have sel: "length selected \<le> max_count" "sum_list (map encoded_len selected) \<le> byte_budget"
    "\<forall>u \<in> set selected. rank u = ?best (mu_node_id u)"
    using select_loop_tracked [OF loop tr, of ?best] by auto
  have "rank (qu_update e) \<le> ?best (qu_node e)" if "e \<in> set (dq_queue q)" for e
    using tracked_entry [OF tr, of e] that by (metis add.right_neutral mset.simps(1) option.sel set_mset_mset)
  then show ?thesis using sel by fastforce
qed

definition demo_choices :: heap_choices where
  "demo_choices = \<lparr>hc_tie = (\<lambda>_. 0), hc_order = (\<lambda>es. es)\<rparr>"

theorem piggyback_fits_and_current_witness:
  "let ops = [Push demo_choices (demo_update Suspect 1) 5 False, Push demo_choices (demo_update Alive 2) 5 False,
              Push demo_choices (demo_update Dead 2) 5 False];
       selected = fst (select_updates_within demo_choices (\<lambda>_. 30) 100 8 (fold queue_exec ops queue_new))
   in selected = [demo_update Dead 2] \<and> length selected \<le> 8 \<and> sum_list (map (\<lambda>_. 30 :: nat) selected) \<le> 100"
proof -
  let ?ops = "[Push demo_choices (demo_update Suspect 1) 5 False, Push demo_choices (demo_update Alive 2) 5 False,
              Push demo_choices (demo_update Dead 2) 5 False]"
  let ?r = "select_updates_within demo_choices (\<lambda>_. 30) 100 8 (fold queue_exec ?ops queue_new)"
  have "list_all queue_op_ok ?ops" by (simp add: fair_def demo_choices_def)
  from piggyback_fits_and_current [OF this refl, of demo_choices "\<lambda>_. 30" 100 8 "fst ?r" "snd ?r"]
  have "length (fst ?r) \<le> 8 \<and> sum_list (map (\<lambda>_. 30 :: nat) (fst ?r)) \<le> 100" by (simp only: prod.collapse simp_thms)
  moreover have "fst ?r = [demo_update Dead 2]" by code_simp
  ultimately show ?thesis by (simp only: Let_def simp_thms)
qed


end
