(* ===== verification/Gossip.thy ===== *)
theory Gossip
  imports Gossip_Queue
begin

text \<open>
  A node of the gossip protocol (\<open>mustard/protocol.rs\<close>, \<open>mustard/message.rs\<close>, \<open>mustard/directory.rs\<close>): the messages, the
  directory learned from them, and the handlers of a node. A handler takes the state and gives back the datagrams to
  send and the new state. The probe cycle waits for an acknowledgement while it goes on handling messages, so it is cut at
  these waits: \<open>cycle_start\<close>, \<open>cycle_relays\<close> and \<open>cycle_failed\<close>, with the target kept in \<open>mn_probe\<close>.

  What happens outside the node is an argument (\<open>surroundings\<close>): the clock, read once per event, the random choices, the
  switch that quiesces a node, and the choices of the binary heap. Sizes on the wire are those of the postcard crate
  (\<open>codec\<close>). Authentication tags are put on and checked by the transport. The table is iterated in the
  order of its list, which stands for the order of the hash map. Log lines are not modelled.
\<close>

section \<open>Messages\<close>

definition MAX_DATAGRAM_BYTES :: nat where
  "MAX_DATAGRAM_BYTES = 1400"

definition MAX_SYNC_DATAGRAMS :: nat where
  "MAX_SYNC_DATAGRAMS = 8"

definition MAX_SYNC_ENTRIES :: nat where
  "MAX_SYNC_ENTRIES = MAX_PIGGYBACK_UPDATES * MAX_SYNC_DATAGRAMS"

definition MAX_DIRECTORY_LABELS :: nat where
  "MAX_DIRECTORY_LABELS = 16"

definition MAX_DIRECTORY_LABEL_LEN :: nat where
  "MAX_DIRECTORY_LABEL_LEN = 64"

definition MAX_DIRECTORY_LABEL_BYTES :: nat where
  "MAX_DIRECTORY_LABEL_BYTES = 512"

record leader_hint =
  lh_node_id :: node_id
  lh_term :: nat
  lh_recovery_epoch :: nat
  lh_api_address :: socket_addr
  lh_reporting_address :: socket_addr

record recovery_claim =
  rc_epoch :: nat
  rc_id :: "nat option"

record job_capabilities =
  jc_host :: bool
  jc_host_limits :: bool
  jc_containers :: bool
  jc_singleton_images :: bool
  jc_singleton_image_limits :: bool
  jc_encrypted_env :: bool
  jc_network_policy :: bool
  jc_mount_isolation :: bool
  jc_binaries :: bool

record directory_extension =
  de_node_id :: node_id
  de_api_address :: socket_addr
  de_reporting_address :: socket_addr
  de_leader :: "leader_hint option"
  de_labels :: "(string \<times> string) list"
  de_disk_pressured :: bool
  de_recovery_epoch :: "nat option"
  de_recovery_id :: "nat option"
  de_jobs :: "job_capabilities option"

datatype gossip_payload =
    Ping "membership_update list"
  | PingReq node_id node_id "membership_update list"
  | Ack "membership_update list" "node_id option"
  | Sync "membership_update list" bool

record gossip_message =
  gm_version :: nat
  gm_state_format :: nat
  gm_sender :: node_id
  gm_incarnation :: nat
  gm_sequence :: nat
  gm_payload :: gossip_payload
  gm_extension :: "directory_extension option"

fun payload_updates :: "gossip_payload \<Rightarrow> membership_update list" where
  "payload_updates (Ping us) = us"
| "payload_updates (PingReq _ _ us) = us"
| "payload_updates (Ack us _) = us"
| "payload_updates (Sync us _) = us"

fun with_updates :: "membership_update list \<Rightarrow> gossip_payload \<Rightarrow> gossip_payload" where
  "with_updates us (Ping _) = Ping us"
| "with_updates us (PingReq t r _) = PingReq t r us"
| "with_updates us (Ack _ r) = Ack us r"
| "with_updates us (Sync _ w) = Sync us w"

definition CURRENT_PROTOCOL :: nat where
  "CURRENT_PROTOCOL = 57"

definition CURRENT_STATE :: nat where
  "CURRENT_STATE = 73"

record codec =
  cd_message_len :: "gossip_message \<Rightarrow> nat"
  cd_extension_len :: "directory_extension \<Rightarrow> nat"
  cd_update_len :: "membership_update \<Rightarrow> nat"

definition message_encoded_len :: "codec \<Rightarrow> gossip_message \<Rightarrow> nat" where
  "message_encoded_len cd m =
     sat_add64 (cd_message_len cd (m\<lparr>gm_extension := None\<rparr>)) (case gm_extension m of None \<Rightarrow> 0 | Some e \<Rightarrow> cd_extension_len cd e)"

definition piggyback_room :: "codec \<Rightarrow> gossip_message \<Rightarrow> nat" where
  "piggyback_room cd m = MAX_DATAGRAM_BYTES - message_encoded_len cd m"

definition attach_extension :: "codec \<Rightarrow> directory_extension \<Rightarrow> gossip_message \<Rightarrow> nat \<times> gossip_message" where
  "attach_extension cd e m =
     (let m0 = m\<lparr>gm_extension := None\<rparr>; room = piggyback_room cd m0; cost = cd_extension_len cd e
      in if cost > room then (room, m0) else (room - cost, m0\<lparr>gm_extension := Some e\<rparr>))"

text \<open>The labels that fit a datagram, in key order: over-long entries are skipped, and the budget ends the list.\<close>

fun bounded_from :: "nat \<Rightarrow> nat \<Rightarrow> (string \<times> string) list \<Rightarrow> (string \<times> string) list" where
  "bounded_from kept used [] = []"
| "bounded_from kept used ((k, v) # labels) =
     (if kept \<ge> MAX_DIRECTORY_LABELS then []
      else if length k > MAX_DIRECTORY_LABEL_LEN \<or> length v > MAX_DIRECTORY_LABEL_LEN then bounded_from kept used labels
      else if used + (length k + length v) > MAX_DIRECTORY_LABEL_BYTES then []
      else (k, v) # bounded_from (Suc kept) (used + (length k + length v)) labels)"

definition bounded_labels :: "(string \<times> string) list \<Rightarrow> (string \<times> string) list" where
  "bounded_labels labels = bounded_from 0 0 labels"

section \<open>The directory\<close>

record node_endpoints =
  ne_api_address :: socket_addr
  ne_reporting_address :: socket_addr

record node_directory =
  nd_endpoints :: "(node_id \<times> node_endpoints) list"
  nd_labels :: "(node_id \<times> (string \<times> string) list) list"
  nd_disk_pressured :: "node_id set"
  nd_recovery_claims :: "(node_id \<times> recovery_claim option) list"
  nd_jobs :: "(node_id \<times> job_capabilities) list"
  nd_leader :: "leader_hint option"

definition directory_default :: node_directory where
  "directory_default = \<lparr>nd_endpoints = [], nd_labels = [], nd_disk_pressured = {}, nd_recovery_claims = [], nd_jobs = [], nd_leader = None\<rparr>"

definition hint_order :: "leader_hint \<Rightarrow> nat \<times> nat" where
  "hint_order h = (lh_recovery_epoch h, lh_term h)"

definition observe_hint :: "leader_hint \<Rightarrow> node_directory \<Rightarrow> bool \<times> node_directory" where
  "observe_hint hint d =
     (let newer = (case nd_leader d of
            Some current \<Rightarrow> hint_order hint > hint_order current \<or> hint_order hint = hint_order current \<and> hint \<noteq> current
          | None \<Rightarrow> True)
      in (newer, if newer then d\<lparr>nd_leader := Some hint\<rparr> else d))"

definition observe :: "directory_extension \<Rightarrow> node_directory \<Rightarrow> bool \<times> node_directory" where
  "observe e d =
     (let n = de_node_id e;
          endpoints = \<lparr>ne_api_address = de_api_address e, ne_reporting_address = de_reporting_address e\<rparr>;
          c1 = (map_of (nd_endpoints d) n \<noteq> Some endpoints);
          c2 = (map_of (nd_labels d) n \<noteq> Some (de_labels e));
          c3 = (de_disk_pressured e \<noteq> (n \<in> nd_disk_pressured d));
          c4 = (map_of (nd_jobs d) n \<noteq> de_jobs e);
          claim = map_option (\<lambda>epoch. \<lparr>rc_epoch = epoch, rc_id = de_recovery_id e\<rparr>) (de_recovery_epoch e);
          c5 = (map_of (nd_recovery_claims d) n \<noteq> Some claim);
          d1 = d\<lparr>nd_endpoints := (if c1 then AList.update n endpoints (nd_endpoints d) else nd_endpoints d),
                 nd_labels := (if c2 then AList.update n (de_labels e) (nd_labels d) else nd_labels d),
                 nd_disk_pressured := (if de_disk_pressured e then insert n (nd_disk_pressured d) else nd_disk_pressured d - {n}),
                 nd_jobs := (case de_jobs e of Some jobs \<Rightarrow> AList.update n jobs (nd_jobs d) | None \<Rightarrow> AList.delete n (nd_jobs d)),
                 nd_recovery_claims := AList.update n claim (nd_recovery_claims d)\<rparr>;
          (c6, d2) = (case de_leader e of Some hint \<Rightarrow> observe_hint hint d1 | None \<Rightarrow> (False, d1))
      in (c1 \<or> c2 \<or> c3 \<or> c4 \<or> c5 \<or> c6, d2))"

text \<open>Without an advertised endpoint the port is shifted as a signed 32-bit number and cut to 16 bits.\<close>

definition directory_api_address :: "node_id \<Rightarrow> socket_addr \<Rightarrow> int \<Rightarrow> node_directory \<Rightarrow> socket_addr" where
  "directory_api_address n gossip_address offset d =
     (case map_of (nd_endpoints d) n of
        Some endpoints \<Rightarrow> ne_api_address endpoints
      | None \<Rightarrow> gossip_address\<lparr>sa_port := nat ((int (sa_port gossip_address) + offset) mod 65536)\<rparr>)"

definition prune :: "node_id list \<Rightarrow> node_directory \<Rightarrow> bool \<times> node_directory" where
  "prune reaped d =
     (length (filter (\<lambda>(n, _). n \<notin> set reaped) (nd_endpoints d)) \<noteq> length (nd_endpoints d),
      d\<lparr>nd_endpoints := filter (\<lambda>(n, _). n \<notin> set reaped) (nd_endpoints d),
        nd_labels := filter (\<lambda>(n, _). n \<notin> set reaped) (nd_labels d),
        nd_disk_pressured := nd_disk_pressured d - set reaped,
        nd_recovery_claims := filter (\<lambda>(n, _). n \<notin> set reaped) (nd_recovery_claims d),
        nd_jobs := filter (\<lambda>(n, _). n \<notin> set reaped) (nd_jobs d)\<rparr>)"

section \<open>A node\<close>

definition MAX_PENDING_RELAYS :: nat where
  "MAX_PENDING_RELAYS = 64"

definition MAX_LEAVE_FANOUT :: nat where
  "MAX_LEAVE_FANOUT = 10"

definition MAX_REJOIN_CONTACTS :: nat where
  "MAX_REJOIN_CONTACTS = 16"

record gossip_config =
  gc_protocol_interval :: int
  gc_probe_timeout :: int
  gc_suspicion_timeout :: int
  gc_indirect_probe_count :: nat
  gc_cleanup_timeout :: int
  gc_push_pull_interval :: int

definition gossip_config_default :: gossip_config where
  "gossip_config_default = \<lparr>gc_protocol_interval = 500000000, gc_probe_timeout = 200000000, gc_suspicion_timeout = 5000000000,
     gc_indirect_probe_count = 3, gc_cleanup_timeout = 60000000000, gc_push_pull_interval = 10000000000\<rparr>"

record pending_relay =
  pr_target :: node_id
  pr_requester :: node_id
  pr_expires :: int

type_synonym digest_row = "node_id \<times> node_state \<times> nat \<times> bool \<times> bool \<times> socket_addr \<times> (string \<times> string) list"

record mustard_node =
  mn_node_id :: node_id
  mn_address :: socket_addr
  mn_incarnation :: nat
  mn_membership :: membership_table
  mn_dissemination :: dissemination_queue
  mn_config :: gossip_config
  mn_membership_watch :: "membership_snapshot list option"
  mn_roster_watch :: "membership_snapshot list option"
  mn_last_published_roster_digest :: "digest_row list"
  mn_rejoin_watch :: "bool option"
  mn_synced_watch :: "bool option"
  mn_last_published_digest :: "digest_row list"
  mn_left :: bool
  mn_seeds :: "socket_addr list"
  mn_rejoin_contacts :: "(node_id \<times> socket_addr) list"
  mn_advertised :: "(socket_addr \<times> socket_addr) option"
  mn_advertised_labels :: "(string \<times> string) list"
  mn_leader_hint :: "leader_hint option"
  mn_disk_pressured :: bool
  mn_job_capabilities :: "job_capabilities option"
  mn_recovery_claim :: "recovery_claim option"
  mn_council_roles :: "council_roles option"
  mn_directory :: node_directory
  mn_directory_watch :: "node_directory option"
  mn_next_push_pull :: int
  mn_sync_cursor :: nat
  mn_sequences :: "(node_id \<times> nat) list"
  mn_pending_relays :: "pending_relay list"
  mn_probe :: "(node_id \<times> socket_addr) option"
  mn_sequence :: nat

record surroundings =
  en_now :: int
  en_quiesced :: bool
  en_choose :: nat
  en_sample :: "nat \<Rightarrow> nat list"
  en_heap :: heap_choices

type_synonym datagrams = "(socket_addr \<times> gossip_message) list"

definition mustard_new :: "node_id \<Rightarrow> socket_addr \<Rightarrow> gossip_config \<Rightarrow> int \<Rightarrow> nat \<Rightarrow> mustard_node" where
  "mustard_new n address config now sequence =
     \<lparr>mn_node_id = n, mn_address = address, mn_incarnation = 1, mn_membership = snd (add_node n address 1 [] now []),
      mn_dissemination = queue_new, mn_config = config, mn_membership_watch = None, mn_roster_watch = None,
      mn_last_published_roster_digest = [], mn_rejoin_watch = None, mn_synced_watch = None, mn_last_published_digest = [],
      mn_left = False, mn_seeds = [], mn_rejoin_contacts = [], mn_advertised = None, mn_advertised_labels = [],
      mn_leader_hint = None, mn_disk_pressured = False, mn_job_capabilities = None, mn_recovery_claim = None,
      mn_council_roles = None, mn_directory = directory_default, mn_directory_watch = None, mn_next_push_pull = now,
      mn_sync_cursor = 0, mn_sequences = [], mn_pending_relays = [], mn_probe = None, mn_sequence = sequence\<rparr>"

definition publish_directory :: "mustard_node \<Rightarrow> mustard_node" where
  "publish_directory n = n\<lparr>mn_directory_watch := map_option (\<lambda>_. mn_directory n) (mn_directory_watch n)\<rparr>"

definition relabel :: "node_id \<Rightarrow> (string \<times> string) list \<Rightarrow> mustard_node \<Rightarrow> mustard_node" where
  "relabel m labels n = n\<lparr>mn_membership := AList.map_entry m (\<lambda>r. r\<lparr>nm_labels := labels\<rparr>) (mn_membership n)\<rparr>"

definition set_advertised_endpoints :: "nat \<Rightarrow> nat \<Rightarrow> (string \<times> string) list \<Rightarrow> mustard_node \<Rightarrow> mustard_node" where
  "set_advertised_endpoints api_port reporting_port labels n =
     (let api = (mn_address n)\<lparr>sa_port := api_port\<rparr>; reporting = (mn_address n)\<lparr>sa_port := reporting_port\<rparr>; d = mn_directory n
      in publish_directory (relabel (mn_node_id n) labels (n\<lparr>mn_advertised := Some (api, reporting), mn_advertised_labels := labels,
           mn_directory := d\<lparr>nd_endpoints := AList.update (mn_node_id n) \<lparr>ne_api_address = api, ne_reporting_address = reporting\<rparr> (nd_endpoints d),
             nd_labels := AList.update (mn_node_id n) labels (nd_labels d)\<rparr>\<rparr>)))"

definition local_extension :: "mustard_node \<Rightarrow> directory_extension option" where
  "local_extension n =
     (case mn_advertised n of
        None \<Rightarrow> None
      | Some (api, reporting) \<Rightarrow>
          let leader = (case (mn_leader_hint n, nd_leader (mn_directory n)) of
                (Some a, Some b) \<Rightarrow> Some (if hint_order a \<ge> hint_order b then a else b)
              | (Some a, None) \<Rightarrow> Some a
              | (None, b) \<Rightarrow> b)
          in Some \<lparr>de_node_id = mn_node_id n, de_api_address = api, de_reporting_address = reporting, de_leader = leader,
                   de_labels = bounded_labels (mn_advertised_labels n), de_disk_pressured = mn_disk_pressured n,
                   de_recovery_epoch = map_option rc_epoch (mn_recovery_claim n),
                   de_recovery_id = Option.bind (mn_recovery_claim n) rc_id, de_jobs = mn_job_capabilities n\<rparr>)"

definition refresh_own_job_capabilities :: "mustard_node \<Rightarrow> mustard_node" where
  "refresh_own_job_capabilities n =
     (let d = mn_directory n; own = mn_job_capabilities n; changed = (map_of (nd_jobs d) (mn_node_id n) \<noteq> own);
          n1 = n\<lparr>mn_directory := d\<lparr>nd_jobs := (case own of
             Some jobs \<Rightarrow> AList.update (mn_node_id n) jobs (nd_jobs d) | None \<Rightarrow> AList.delete (mn_node_id n) (nd_jobs d))\<rparr>\<rparr>
      in if changed then publish_directory n1 else n1)"

definition message_new :: "gossip_payload \<Rightarrow> mustard_node \<Rightarrow> gossip_message \<times> mustard_node" where
  "message_new payload n =
     (\<lparr>gm_version = CURRENT_PROTOCOL mod 256, gm_state_format = CURRENT_STATE, gm_sender = mn_node_id n,
       gm_incarnation = mn_incarnation n, gm_sequence = mn_sequence n, gm_payload = payload, gm_extension = None\<rparr>,
      n\<lparr>mn_sequence := add64 (mn_sequence n) 1\<rparr>)"

definition update_of :: "node_membership \<Rightarrow> membership_update" where
  "update_of m = \<lparr>mu_node_id = nm_node_id m, mu_address = nm_address m, mu_state = nm_state m, mu_incarnation = nm_incarnation m\<rparr>"

definition claim_about :: "codec \<Rightarrow> nat \<Rightarrow> node_id option \<Rightarrow> mustard_node \<Rightarrow> membership_update option" where
  "claim_about cd room peer n =
     (case Option.bind peer (map_of (mn_membership n)) of
        Some m \<Rightarrow> if nm_state m \<noteq> Alive \<and> cd_update_len cd (update_of m) \<le> room then Some (update_of m) else None
      | None \<Rightarrow> None)"

definition probe_message ::
  "codec \<Rightarrow> surroundings \<Rightarrow> gossip_payload \<Rightarrow> node_id option \<Rightarrow> mustard_node \<Rightarrow> gossip_message \<times> mustard_node" where
  "probe_message cd en payload peer n =
     (let (m0, n1) = message_new payload n;
          (room, m) = (case local_extension n1 of Some e \<Rightarrow> attach_extension cd e m0 | None \<Rightarrow> (piggyback_room cd m0, m0));
          claim = claim_about cd room peer n1;
          (room1, slots) = (case claim of
             Some c \<Rightarrow> (room - cd_update_len cd c, MAX_PIGGYBACK_UPDATES - 1) | None \<Rightarrow> (room, MAX_PIGGYBACK_UPDATES));
          (selected, q) = select_updates_within (en_heap en) (cd_update_len cd) room1 slots (mn_dissemination n1);
          us = (case claim of Some c \<Rightarrow> c # filter (\<lambda>u. mu_node_id u \<noteq> mu_node_id c) selected | None \<Rightarrow> selected)
      in (m\<lparr>gm_payload := with_updates us (gm_payload m)\<rparr>, n1\<lparr>mn_dissemination := q\<rparr>))"

definition admit_sequence :: "gossip_message \<Rightarrow> mustard_node \<Rightarrow> bool \<times> mustard_node" where
  "admit_sequence m n =
     (case map_of (mn_sequences n) (gm_sender m) of
        Some latest \<Rightarrow> if gm_sequence m \<le> latest then (False, n)
          else (True, n\<lparr>mn_sequences := AList.update (gm_sender m) (gm_sequence m) (mn_sequences n)\<rparr>)
      | None \<Rightarrow> (True, n\<lparr>mn_sequences := AList.update (gm_sender m) (gm_sequence m) (mn_sequences n)\<rparr>))"

definition ingest_extension :: "directory_extension \<Rightarrow> mustard_node \<Rightarrow> mustard_node" where
  "ingest_extension e n =
     (let (changed, d) = observe e (mn_directory n);
          n1 = relabel (de_node_id e) (de_labels e) (n\<lparr>mn_directory := d\<rparr>)
      in if changed then publish_directory n1 else n1)"

definition ping :: "codec \<Rightarrow> surroundings \<Rightarrow> socket_addr \<Rightarrow> node_id option \<Rightarrow> mustard_node \<Rightarrow> datagrams \<times> mustard_node" where
  "ping cd en address peer n = (let (m, n1) = probe_message cd en (Ping []) peer n in ([(address, m)], n1))"

text \<open>Pings in turn, each with the state the one before left.\<close>

fun ping_each :: "codec \<Rightarrow> surroundings \<Rightarrow> (mustard_node \<Rightarrow> socket_addr \<Rightarrow> node_id option) \<Rightarrow> socket_addr list \<Rightarrow> mustard_node \<Rightarrow> datagrams \<times> mustard_node" where
  "ping_each cd en peer_of [] n = ([], n)"
| "ping_each cd en peer_of (address # addresses) n =
     (let (out, n1) = ping cd en address (peer_of n address) n; (out', n2) = ping_each cd en peer_of addresses n1 in (out @ out', n2))"

definition peer_at :: "mustard_node \<Rightarrow> socket_addr \<Rightarrow> node_id option" where
  "peer_at n address = map_option nm_node_id (find (\<lambda>m. nm_address m = address) (map snd (mn_membership n)))"

definition ping_seeds :: "codec \<Rightarrow> surroundings \<Rightarrow> mustard_node \<Rightarrow> datagrams \<times> mustard_node" where
  "ping_seeds cd en n = ping_each cd en peer_at (mn_seeds n) n"

definition ping_rejoin_contact :: "codec \<Rightarrow> surroundings \<Rightarrow> mustard_node \<Rightarrow> datagrams \<times> mustard_node" where
  "ping_rejoin_contact cd en n =
     (case mn_rejoin_contacts n of
        [] \<Rightarrow> ([], n)
      | (node, address) # contacts \<Rightarrow>
          let n1 = n\<lparr>mn_rejoin_contacts := contacts @ [(node, address)]\<rparr>
          in if map_option nm_state (map_of (mn_membership n1) node) = Some Alive then ([], n1) else ping cd en address (Some node) n1)"

definition membership_digest :: "membership_snapshot list \<Rightarrow> digest_row list" where
  "membership_digest snapshot = sort_key fst (map (\<lambda>m. (ms_node_id m, ms_state m, ms_incarnation m, ms_is_council m, ms_is_leader m,
     ms_address m, ms_labels m)) snapshot)"

definition publish_membership :: "mustard_node \<Rightarrow> mustard_node" where
  "publish_membership n =
     (let n1 = (case mn_council_roles n of Some roles \<Rightarrow> n\<lparr>mn_membership := set_roles roles (mn_membership n)\<rparr> | None \<Rightarrow> n);
          snapshot = table_snapshot (mn_membership n1); digest = membership_digest snapshot;
          n2 = (if digest \<noteq> mn_last_published_digest n1
                then n1\<lparr>mn_membership_watch := map_option (\<lambda>_. snapshot) (mn_membership_watch n1), mn_last_published_digest := digest\<rparr>
                else n1);
          all_members = roster (mn_membership n2); roster_digest = membership_digest all_members
      in if mn_roster_watch n2 \<noteq> None \<and> roster_digest \<noteq> mn_last_published_roster_digest n2
         then n2\<lparr>mn_roster_watch := Some all_members, mn_last_published_roster_digest := roster_digest\<rparr> else n2)"

definition add_seed :: "node_id \<Rightarrow> socket_addr \<Rightarrow> int \<Rightarrow> mustard_node \<Rightarrow> mustard_node" where
  "add_seed seed address now n = n\<lparr>mn_membership := snd (add_node seed address 1 [] now (mn_membership n))\<rparr>"

definition disseminate :: "surroundings \<Rightarrow> membership_update \<Rightarrow> mustard_node \<Rightarrow> mustard_node" where
  "disseminate en u n = n\<lparr>mn_dissemination := enqueue (en_heap en) u (length (mn_membership n)) (mn_dissemination n)\<rparr>"

definition leave :: "codec \<Rightarrow> surroundings \<Rightarrow> mustard_node \<Rightarrow> datagrams \<times> mustard_node" where
  "leave cd en n =
     (let n1 = n\<lparr>mn_left := True, mn_membership := AList.map_entry (mn_node_id n)
                   (\<lambda>m. m\<lparr>nm_state := Left, nm_state_changed := en_now en\<rparr>) (mn_membership n)\<rparr>;
          n2 = disseminate en \<lparr>mu_node_id = mn_node_id n, mu_address = mn_address n, mu_state = Left, mu_incarnation = mn_incarnation n\<rparr> n1;
          peers = take MAX_LEAVE_FANOUT (map nm_address (filter (\<lambda>m. nm_node_id m \<noteq> mn_node_id n) (alive_members (mn_membership n2))))
      in ping_each cd en (\<lambda>_ _. None) peers n2)"

definition refute :: "surroundings \<Rightarrow> nat \<Rightarrow> mustard_node \<Rightarrow> mustard_node" where
  "refute en offending_incarnation n =
     (let incarnation = add64 (max (mn_incarnation n) offending_incarnation) 1;
          u = \<lparr>mu_node_id = mn_node_id n, mu_address = mn_address n, mu_state = Alive, mu_incarnation = incarnation\<rparr>;
          t = snd (apply_update u (en_now en) (mn_membership n))
      in n\<lparr>mn_incarnation := incarnation, mn_membership := t,
           mn_dissemination := enqueue_refutation (en_heap en) u (length t) (mn_dissemination n)\<rparr>)"

definition refutable :: "mustard_node \<Rightarrow> node_state \<Rightarrow> bool" where
  "refutable n s = (case s of Suspect \<Rightarrow> True | Dead \<Rightarrow> True | Left \<Rightarrow> \<not> mn_left n | Alive \<Rightarrow> False)"

definition handle_update :: "surroundings \<Rightarrow> membership_update \<Rightarrow> mustard_node \<Rightarrow> mustard_node" where
  "handle_update en u n =
     (let (changed, t) = apply_update u (en_now en) (mn_membership n);
          n1 = n\<lparr>mn_membership := t\<rparr>;
          n2 = (if changed then disseminate en u n1 else n1)
      in if mu_node_id u = mn_node_id n2 \<and> refutable n2 (mu_state u) then refute en (mu_incarnation u) n2 else n2)"

definition expect_relay_ack :: "int \<Rightarrow> node_id \<Rightarrow> node_id \<Rightarrow> mustard_node \<Rightarrow> mustard_node" where
  "expect_relay_ack now target requester n =
     (let live = filter (\<lambda>r. pr_expires r > now) (mn_pending_relays n);
          kept = (if length live \<ge> MAX_PENDING_RELAYS then tl live else live)
      in n\<lparr>mn_pending_relays := kept @ [\<lparr>pr_target = target, pr_requester = requester, pr_expires = now + gc_probe_timeout (mn_config n)\<rparr>]\<rparr>)"

fun forward_to :: "codec \<Rightarrow> surroundings \<Rightarrow> node_id \<Rightarrow> node_id list \<Rightarrow> mustard_node \<Rightarrow> datagrams \<times> mustard_node" where
  "forward_to cd en target [] n = ([], n)"
| "forward_to cd en target (requester # requesters) n =
     (case map_of (mn_membership n) requester of
        None \<Rightarrow> forward_to cd en target requesters n
      | Some m \<Rightarrow>
          let (ack, n1) = probe_message cd en (Ack [] (Some target)) (Some requester) n;
              (out, n2) = forward_to cd en target requesters n1
          in ((nm_address m, ack) # out, n2))"

definition forward_relay_acks :: "codec \<Rightarrow> surroundings \<Rightarrow> node_id \<Rightarrow> mustard_node \<Rightarrow> datagrams \<times> mustard_node" where
  "forward_relay_acks cd en target n =
     (let live = filter (\<lambda>r. pr_expires r > en_now en) (mn_pending_relays n)
      in forward_to cd en target (map pr_requester (filter (\<lambda>r. pr_target r = target) live))
           (n\<lparr>mn_pending_relays := filter (\<lambda>r. pr_target r \<noteq> target) live\<rparr>))"

function chunks_of :: "nat \<Rightarrow> 'a list \<Rightarrow> 'a list list" where
  "chunks_of k xs = (if xs = [] \<or> k = 0 then [] else take k xs # chunks_of k (drop k xs))"
  by pat_completeness auto

termination
  by (relation "measure (\<lambda>(k, xs). length xs)") auto

declare chunks_of.simps [simp del]

definition membership_window :: "mustard_node \<Rightarrow> membership_update list \<times> mustard_node" where
  "membership_window n =
     (let entries = map (update_of \<circ> snd) (mn_membership n)
      in if length entries \<le> MAX_SYNC_ENTRIES then (entries, n)
         else let sorted = sort_key mu_node_id entries; start = mn_sync_cursor n mod length sorted
              in (take MAX_SYNC_ENTRIES (drop start (sorted @ sorted)), n\<lparr>mn_sync_cursor := start + MAX_SYNC_ENTRIES\<rparr>))"

fun send_chunks :: "socket_addr \<Rightarrow> bool \<Rightarrow> membership_update list list \<Rightarrow> mustard_node \<Rightarrow> datagrams \<times> mustard_node" where
  "send_chunks target wants_reply [] n = ([], n)"
| "send_chunks target wants_reply (us # uss) n =
     (let (m, n1) = message_new (Sync us wants_reply) n; (out, n2) = send_chunks target False uss n1 in ((target, m) # out, n2))"

definition send_membership :: "socket_addr \<Rightarrow> bool \<Rightarrow> mustard_node \<Rightarrow> datagrams \<times> mustard_node" where
  "send_membership target wants_reply n =
     (let (window, n1) = membership_window n in send_chunks target wants_reply (chunks_of MAX_PIGGYBACK_UPDATES window) n1)"

definition remember_contact :: "node_id \<Rightarrow> socket_addr \<Rightarrow> mustard_node \<Rightarrow> mustard_node" where
  "remember_contact sender from n =
     (let contacts = filter (\<lambda>(node, _). node \<noteq> sender) (mn_rejoin_contacts n) @ [(sender, from)]
      in n\<lparr>mn_rejoin_contacts := (if length contacts > MAX_REJOIN_CONTACTS then tl contacts else contacts)\<rparr>)"

definition acknowledged :: "node_id \<Rightarrow> int \<Rightarrow> mustard_node \<Rightarrow> mustard_node" where
  "acknowledged m now n = n\<lparr>mn_membership := AList.map_entry m (\<lambda>r. r\<lparr>
     nm_state_changed := (if nm_state r = Suspect then now else nm_state_changed r),
     nm_state := (if nm_state r = Suspect then Alive else nm_state r), nm_last_ack := now\<rparr>) (mn_membership n)\<rparr>"

text \<open>The answer to a message, once its updates are merged.\<close>

definition answer :: "codec \<Rightarrow> surroundings \<Rightarrow> socket_addr \<Rightarrow> gossip_message \<Rightarrow> mustard_node \<Rightarrow> datagrams \<times> mustard_node" where
  "answer cd en from m n =
     (case gm_payload m of
        Ping _ \<Rightarrow>
          let (ack, n1) = probe_message cd en (Ack [] None) (Some (gm_sender m)) n in ([(from, ack)], n1)
      | PingReq target requester _ \<Rightarrow>
          (case map_of (mn_membership n) target of
             Some r \<Rightarrow> let (out, n1) = ping cd en (nm_address r) None n in (out, expect_relay_ack (en_now en) target requester n1)
           | None \<Rightarrow> ([], n))
      | Sync _ wants_reply \<Rightarrow>
          let n1 = (if gm_sender m \<noteq> mn_node_id n then n\<lparr>mn_synced_watch := map_option (\<lambda>_. True) (mn_synced_watch n)\<rparr> else n)
          in if wants_reply then send_membership from False n1 else ([], n1)
      | Ack _ relayed_for \<Rightarrow>
          let n1 = (if relayed_for = None \<and> gm_sender m \<noteq> mn_node_id n
                    then n\<lparr>mn_rejoin_watch := map_option (\<lambda>_. True) (mn_rejoin_watch n)\<rparr> else n);
              n2 = acknowledged (case relayed_for of Some vouched \<Rightarrow> vouched | None \<Rightarrow> gm_sender m) (en_now en) n1
          in if relayed_for = None then forward_relay_acks cd en (gm_sender m) n2 else ([], n2))"

text \<open>Everything a message is merged for: its extension, its sender, its updates.\<close>

definition merge_message :: "surroundings \<Rightarrow> socket_addr \<Rightarrow> gossip_message \<Rightarrow> mustard_node \<Rightarrow> mustard_node" where
  "merge_message en from m n =
     (let extension = (case gm_extension m of Some e \<Rightarrow> if de_node_id e = gm_sender m then Some e else None | None \<Rightarrow> None);
          n1 = (case extension of Some e \<Rightarrow> ingest_extension e n | None \<Rightarrow> n);
          n2 = (if gm_sender m \<noteq> mn_node_id n1 \<and> from \<noteq> mn_address n1 then remember_contact (gm_sender m) from n1 else n1);
          (is_new, t) = add_node (gm_sender m) from (gm_incarnation m) [] (en_now en) (mn_membership n2);
          n3 = n2\<lparr>mn_membership := t\<rparr>;
          n4 = (case extension of Some e \<Rightarrow> relabel (de_node_id e) (de_labels e) n3 | None \<Rightarrow> n3);
          n5 = (if is_new then disseminate en
                  \<lparr>mu_node_id = gm_sender m, mu_address = from, mu_state = Alive, mu_incarnation = gm_incarnation m\<rparr> n4 else n4)
      in fold (handle_update en) (payload_updates (gm_payload m)) n5)"

definition handle_message ::
  "codec \<Rightarrow> surroundings \<Rightarrow> socket_addr \<Rightarrow> gossip_message \<Rightarrow> mustard_node \<Rightarrow> bool \<times> datagrams \<times> mustard_node" where
  "handle_message cd en from m n =
     (if gm_version m \<noteq> CURRENT_PROTOCOL mod 256 \<or> gm_state_format m \<noteq> CURRENT_STATE then (False, [], n)
      else let (admitted, n0) = (if gm_sender m \<noteq> mn_node_id n then admit_sequence m n else (True, n))
           in if \<not> admitted then (False, [], n)
              else let (out, n1) = answer cd en from m (merge_message en from m n0) in (True, out, n1))"

section \<open>The probe cycle\<close>

definition membership_incarnation_of :: "mustard_node \<Rightarrow> node_id \<Rightarrow> nat" where
  "membership_incarnation_of n m = (case map_of (mn_membership n) m of Some r \<Rightarrow> nm_incarnation r | None \<Rightarrow> 0)"

definition promote :: "surroundings \<Rightarrow> node_id \<times> socket_addr \<Rightarrow> mustard_node \<Rightarrow> mustard_node" where
  "promote en suspected n =
     (let (m, address) = suspected; (changed, t) = declare_dead m (en_now en) (mn_membership n); n1 = n\<lparr>mn_membership := t\<rparr>
      in if changed then disseminate en \<lparr>mu_node_id = m, mu_address = address, mu_state = Dead,
             mu_incarnation = membership_incarnation_of n1 m\<rparr> n1 else n1)"

definition promote_expired_suspects :: "surroundings \<Rightarrow> mustard_node \<Rightarrow> mustard_node" where
  "promote_expired_suspects en n =
     fold (promote en) (map (\<lambda>m. (nm_node_id m, nm_address m)) (filter (\<lambda>m. nm_state m = Suspect \<and> nm_node_id m \<noteq> mn_node_id n \<and>
       duration_since (en_now en) (nm_state_changed m) > gc_suspicion_timeout (mn_config n)) (map snd (mn_membership n)))) n"

definition draw_one :: "nat \<Rightarrow> 'a list \<Rightarrow> 'a option" where
  "draw_one draw xs = (if xs = [] then None else Some (xs ! (draw mod length xs)))"

definition pick_probe_target :: "surroundings \<Rightarrow> mustard_node \<Rightarrow> (node_id \<times> socket_addr) option" where
  "pick_probe_target en n =
     map_option (\<lambda>m. (nm_node_id m, nm_address m)) (draw_one (en_choose en)
       (sort_key nm_node_id (filter (\<lambda>m. nm_node_id m \<noteq> mn_node_id n) (active_members (mn_membership n)))))"

definition pick_relays :: "surroundings \<Rightarrow> node_id \<Rightarrow> mustard_node \<Rightarrow> socket_addr list" where
  "pick_relays en target n =
     (let candidates = sort_key nm_node_id (filter (\<lambda>m. nm_node_id m \<noteq> mn_node_id n \<and> nm_node_id m \<noteq> target)
            (alive_members (mn_membership n)));
          count = min (gc_indirect_probe_count (mn_config n)) (length candidates)
      in map (\<lambda>i. nm_address (candidates ! i)) (take count (filter (\<lambda>i. i < length candidates) (en_sample en (length candidates)))))"

definition push_pull :: "surroundings \<Rightarrow> mustard_node \<Rightarrow> bool \<times> datagrams \<times> mustard_node" where
  "push_pull en n =
     (case draw_one (en_choose en) (sort_key nm_node_id (filter (\<lambda>m. nm_node_id m \<noteq> mn_node_id n) (alive_members (mn_membership n)))) of
        None \<Rightarrow> (False, [], n)
      | Some m \<Rightarrow> let (out, n1) = send_membership (nm_address m) True n in (True, out, n1))"

definition reap :: "surroundings \<Rightarrow> mustard_node \<Rightarrow> mustard_node" where
  "reap en n =
     (let (reaped, t) = reap_expired_dead (gc_cleanup_timeout (mn_config n)) (en_now en) (mn_membership n); n1 = n\<lparr>mn_membership := t\<rparr>
      in if reaped = [] then n1
         else let n2 = n1\<lparr>mn_sequences := filter (\<lambda>(m, _). m \<notin> set reaped) (mn_sequences n1)\<rparr>;
                  (changed, d) = prune reaped (mn_directory n2); n3 = n2\<lparr>mn_directory := d\<rparr>
              in if changed then publish_directory n3 else n3)"

definition retire_left_contacts :: "mustard_node \<Rightarrow> mustard_node" where
  "retire_left_contacts n = n\<lparr>mn_rejoin_contacts := filter (\<lambda>(node, _).
     case map_of (mn_membership n) node of None \<Rightarrow> True | Some m \<Rightarrow> nm_state m \<noteq> Left) (mn_rejoin_contacts n)\<rparr>"

definition cycle_start :: "codec \<Rightarrow> surroundings \<Rightarrow> mustard_node \<Rightarrow> datagrams \<times> mustard_node" where
  "cycle_start cd en n =
     (if en_quiesced en then ([], n\<lparr>mn_probe := None\<rparr>)
      else let n1 = reap en (promote_expired_suspects en (retire_left_contacts (refresh_own_job_capabilities n)));
               (out1, n2) = ping_rejoin_contact cd en n1;
               (synced, out2, n3) = (if en_now en \<ge> mn_next_push_pull n2 then push_pull en n2 else (False, [], n2));
               n4 = (if synced then n3\<lparr>mn_next_push_pull := en_now en + gc_push_pull_interval (mn_config n3)\<rparr> else n3);
               target = pick_probe_target en n4; n5 = n4\<lparr>mn_probe := target\<rparr>;
               (out3, n6) = (case target of
                  None \<Rightarrow> ping_seeds cd en n5 | Some (_, address) \<Rightarrow> ping cd en address None n5)
           in (out1 @ out2 @ out3, n6))"

fun request_relays :: "codec \<Rightarrow> surroundings \<Rightarrow> node_id \<Rightarrow> socket_addr list \<Rightarrow> mustard_node \<Rightarrow> datagrams \<times> mustard_node" where
  "request_relays cd en target [] n = ([], n)"
| "request_relays cd en target (relay # relays) n =
     (let (m, n1) = probe_message cd en (PingReq target (mn_node_id n) []) None n;
          (out, n2) = request_relays cd en target relays n1
      in ((relay, m) # out, n2))"

definition cycle_relays :: "codec \<Rightarrow> surroundings \<Rightarrow> mustard_node \<Rightarrow> datagrams \<times> mustard_node" where
  "cycle_relays cd en n =
     (case mn_probe n of None \<Rightarrow> ([], n) | Some (target, _) \<Rightarrow> request_relays cd en target (pick_relays en target n) n)"

definition cycle_failed :: "surroundings \<Rightarrow> mustard_node \<Rightarrow> mustard_node" where
  "cycle_failed en n =
     (case mn_probe n of
        None \<Rightarrow> n
      | Some (target, address) \<Rightarrow>
          let n0 = n\<lparr>mn_probe := None\<rparr>
          in if en_quiesced en then n0
             else let (changed, t) = suspect target (en_now en) (mn_membership n0); n1 = n0\<lparr>mn_membership := t\<rparr>
                  in if changed then disseminate en \<lparr>mu_node_id = target, mu_address = address, mu_state = Suspect,
                         mu_incarnation = membership_incarnation_of n1 target\<rparr> n1 else n1)"

section \<open>Runs of a node\<close>

text \<open>
  The events of a node: a datagram arrives, a probe cycle starts, its target has not answered in time, has not answered
  through the relays either, or has answered; the node leaves; it publishes its table; and the runtime changes what the node advertises.
\<close>

datatype gossip_event =
    Receive socket_addr gossip_message
  | CycleStart
  | NoDirectAck
  | NoAck
  | GotAck
  | Leave
  | Publish
  | Advertise "leader_hint option" bool "job_capabilities option" "recovery_claim option" "council_roles option"

fun gossip_exec :: "codec \<Rightarrow> surroundings \<times> gossip_event \<Rightarrow> mustard_node \<Rightarrow> mustard_node" where
  "gossip_exec cd (en, Receive from m) n = snd (snd (handle_message cd en from m n))"
| "gossip_exec cd (en, CycleStart) n = snd (cycle_start cd en n)"
| "gossip_exec cd (en, NoDirectAck) n = snd (cycle_relays cd en n)"
| "gossip_exec cd (en, NoAck) n = cycle_failed en n"
| "gossip_exec cd (en, GotAck) n = n\<lparr>mn_probe := None\<rparr>"
| "gossip_exec cd (en, Leave) n = snd (leave cd en n)"
| "gossip_exec cd (en, Publish) n = publish_membership n"
| "gossip_exec cd (en, Advertise hint pressured jobs claim roles) n =
     n\<lparr>mn_leader_hint := hint, mn_disk_pressured := pressured, mn_job_capabilities := jobs, mn_recovery_claim := claim,
       mn_council_roles := roles\<rparr>"

end
