(* ===== verification/Gossip_Safety.thy ===== *)
theory Gossip_Safety
  imports Gossip
begin

text \<open>
  What gossip guarantees: a running node never holds itself down, a replayed message is ignored, and a member that is
  wrongly suspected, declared dead or reported as departed clears its name with one exchange.
\<close>

section \<open>What sending leaves alone\<close>

text \<open>Sending changes the queue, the sequence counter and the window of the next exchange, and nothing else.\<close>

definition sent_from :: "mustard_node \<Rightarrow> mustard_node \<Rightarrow> bool" where
  "sent_from n n' \<longleftrightarrow> (\<exists>q k c. n' = n\<lparr>mn_dissemination := q, mn_sequence := k, mn_sync_cursor := c\<rparr>)"

lemma sent_from_refl [simp]: "sent_from n n"
  unfolding sent_from_def by (rule exI [of _ "mn_dissemination n"], rule exI [of _ "mn_sequence n"], rule exI [of _ "mn_sync_cursor n"]) simp

lemma sent_from_trans: "sent_from a b \<Longrightarrow> sent_from b c \<Longrightarrow> sent_from a c"
  unfolding sent_from_def by force

lemma sent_from_fields:
  assumes "sent_from n n'"
  shows "mn_node_id n' = mn_node_id n" "mn_address n' = mn_address n" "mn_incarnation n' = mn_incarnation n"
    "mn_membership n' = mn_membership n" "mn_left n' = mn_left n" "mn_sequences n' = mn_sequences n" "mn_probe n' = mn_probe n"
    "mn_config n' = mn_config n"
  using assms by (auto simp: sent_from_def)

lemma sent_message_new: "sent_from n (snd (message_new payload n))"
  unfolding sent_from_def message_new_def
  by (rule exI [of _ "mn_dissemination n"], rule exI [of _ "add64 (mn_sequence n) 1"], rule exI [of _ "mn_sync_cursor n"]) simp

lemma sent_queue: "sent_from n (n\<lparr>mn_dissemination := q\<rparr>)"
  unfolding sent_from_def by (rule exI [of _ q], rule exI [of _ "mn_sequence n"], rule exI [of _ "mn_sync_cursor n"]) simp

lemma sent_cursor: "sent_from n (n\<lparr>mn_sync_cursor := c\<rparr>)"
  unfolding sent_from_def by (rule exI [of _ "mn_dissemination n"], rule exI [of _ "mn_sequence n"], rule exI [of _ c]) simp

lemma sent_probe_message: "sent_from n (snd (probe_message cd en payload peer n))"
  using sent_from_trans [OF sent_message_new sent_queue] by (simp add: probe_message_def Let_def case_prod_beta)

lemma sent_ping: "sent_from n (snd (ping cd en address peer n))"
  using sent_probe_message by (simp add: ping_def Let_def case_prod_beta)

lemma sent_ping_each: "sent_from n (snd (ping_each cd en peer_of addresses n))"
  by (induction addresses arbitrary: n) (auto simp: Let_def case_prod_beta intro: sent_from_trans sent_ping)

lemma sent_forward_to: "sent_from n (snd (forward_to cd en target requesters n))"
  by (induction requesters arbitrary: n) (auto simp: Let_def case_prod_beta intro: sent_from_trans sent_probe_message split: option.split)

lemma sent_request_relays: "sent_from n (snd (request_relays cd en target relays n))"
  by (induction relays arbitrary: n) (auto simp: Let_def case_prod_beta intro: sent_from_trans sent_probe_message)

lemma sent_chunks: "sent_from n (snd (send_chunks target w uss n))"
  by (induction uss arbitrary: n w) (auto simp: Let_def case_prod_beta intro: sent_from_trans [OF sent_message_new])

lemma sent_membership: "sent_from n (snd (send_membership target w n))"
proof -
  have "sent_from n (snd (membership_window n))"
    using sent_cursor by (simp add: membership_window_def Let_def)
  then show ?thesis
    using sent_from_trans [OF _ sent_chunks] by (simp add: send_membership_def Let_def case_prod_beta)
qed

lemma sent_push_pull: "sent_from n (snd (snd (push_pull en n)))"
  using sent_membership by (simp add: push_pull_def Let_def case_prod_beta split: option.split)

lemmas sending = sent_probe_message sent_ping sent_ping_each sent_forward_to sent_request_relays sent_membership sent_push_pull

lemmas sending_fields = sending [THEN sent_from_fields(1)] sending [THEN sent_from_fields(2)] sending [THEN sent_from_fields(3)]
  sending [THEN sent_from_fields(4)] sending [THEN sent_from_fields(5)] sending [THEN sent_from_fields(6)] sending [THEN sent_from_fields(7)]
  sending [THEN sent_from_fields(8)]

declare sending_fields [simp]

lemma disseminate_fields [simp]:
  "mn_node_id (disseminate en u n) = mn_node_id n" "mn_incarnation (disseminate en u n) = mn_incarnation n"
  "mn_membership (disseminate en u n) = mn_membership n" "mn_left (disseminate en u n) = mn_left n"
  "mn_sequences (disseminate en u n) = mn_sequences n" "mn_probe (disseminate en u n) = mn_probe n"
  "mn_address (disseminate en u n) = mn_address n"
  by (simp_all add: disseminate_def)

lemma publish_directory_fields [simp]:
  "mn_node_id (publish_directory n) = mn_node_id n" "mn_incarnation (publish_directory n) = mn_incarnation n"
  "mn_membership (publish_directory n) = mn_membership n" "mn_left (publish_directory n) = mn_left n"
  "mn_sequences (publish_directory n) = mn_sequences n" "mn_probe (publish_directory n) = mn_probe n"
  "mn_dissemination (publish_directory n) = mn_dissemination n" "mn_address (publish_directory n) = mn_address n"
  by (simp_all add: publish_directory_def)

lemma relabel_fields [simp]:
  "mn_node_id (relabel m ls n) = mn_node_id n" "mn_incarnation (relabel m ls n) = mn_incarnation n"
  "mn_left (relabel m ls n) = mn_left n" "mn_sequences (relabel m ls n) = mn_sequences n" "mn_probe (relabel m ls n) = mn_probe n"
  "mn_dissemination (relabel m ls n) = mn_dissemination n" "mn_address (relabel m ls n) = mn_address n"
  by (simp_all add: relabel_def)

lemma ingest_fields [simp]:
  "mn_node_id (ingest_extension e n) = mn_node_id n" "mn_incarnation (ingest_extension e n) = mn_incarnation n"
  "mn_membership (ingest_extension e n) = mn_membership (relabel (de_node_id e) (de_labels e) n)" "mn_left (ingest_extension e n) = mn_left n"
  "mn_sequences (ingest_extension e n) = mn_sequences n" "mn_probe (ingest_extension e n) = mn_probe n"
  "mn_dissemination (ingest_extension e n) = mn_dissemination n" "mn_address (ingest_extension e n) = mn_address n"
  by (simp_all add: ingest_extension_def Let_def case_prod_beta relabel_def)

lemma remember_fields [simp]:
  "mn_node_id (remember_contact s a n) = mn_node_id n" "mn_incarnation (remember_contact s a n) = mn_incarnation n"
  "mn_membership (remember_contact s a n) = mn_membership n" "mn_left (remember_contact s a n) = mn_left n"
  "mn_sequences (remember_contact s a n) = mn_sequences n" "mn_probe (remember_contact s a n) = mn_probe n"
  "mn_dissemination (remember_contact s a n) = mn_dissemination n"
  by (simp_all add: remember_contact_def Let_def)

lemma acknowledged_fields [simp]:
  "mn_node_id (acknowledged m now n) = mn_node_id n" "mn_incarnation (acknowledged m now n) = mn_incarnation n"
  "mn_left (acknowledged m now n) = mn_left n" "mn_sequences (acknowledged m now n) = mn_sequences n"
  "mn_probe (acknowledged m now n) = mn_probe n" "mn_dissemination (acknowledged m now n) = mn_dissemination n"
  by (simp_all add: acknowledged_def)

lemma refute_fields [simp]:
  "mn_node_id (refute en i n) = mn_node_id n" "mn_left (refute en i n) = mn_left n" "mn_sequences (refute en i n) = mn_sequences n"
  "mn_probe (refute en i n) = mn_probe n" "mn_incarnation (refute en i n) = add64 (max (mn_incarnation n) i) 1"
  "mn_address (refute en i n) = mn_address n"
  by (simp_all add: refute_def Let_def)

lemma expect_fields [simp]:
  "mn_node_id (expect_relay_ack now t r n) = mn_node_id n" "mn_incarnation (expect_relay_ack now t r n) = mn_incarnation n"
  "mn_membership (expect_relay_ack now t r n) = mn_membership n" "mn_left (expect_relay_ack now t r n) = mn_left n"
  "mn_sequences (expect_relay_ack now t r n) = mn_sequences n" "mn_probe (expect_relay_ack now t r n) = mn_probe n"
  "mn_dissemination (expect_relay_ack now t r n) = mn_dissemination n"
  by (simp_all add: expect_relay_ack_def Let_def)

lemma handle_update_fields [simp]:
  "mn_node_id (handle_update en u n) = mn_node_id n" "mn_left (handle_update en u n) = mn_left n"
  "mn_sequences (handle_update en u n) = mn_sequences n" "mn_probe (handle_update en u n) = mn_probe n"
  "mn_address (handle_update en u n) = mn_address n"
  by (simp_all add: handle_update_def Let_def case_prod_beta)

lemma handle_updates_fields [simp]:
  "mn_node_id (fold (handle_update en) us n) = mn_node_id n" "mn_left (fold (handle_update en) us n) = mn_left n"
  "mn_sequences (fold (handle_update en) us n) = mn_sequences n" "mn_probe (fold (handle_update en) us n) = mn_probe n"
  "mn_address (fold (handle_update en) us n) = mn_address n"
  by (induction us arbitrary: n) simp_all

lemma merge_fields [simp]:
  "mn_node_id (merge_message en from m n) = mn_node_id n" "mn_left (merge_message en from m n) = mn_left n"
  "mn_sequences (merge_message en from m n) = mn_sequences n" "mn_probe (merge_message en from m n) = mn_probe n"
  by (simp_all add: merge_message_def Let_def case_prod_beta split: option.split)

lemma answer_fields [simp]:
  "mn_node_id (snd (answer cd en from m n)) = mn_node_id n" "mn_incarnation (snd (answer cd en from m n)) = mn_incarnation n"
  "mn_left (snd (answer cd en from m n)) = mn_left n" "mn_sequences (snd (answer cd en from m n)) = mn_sequences n"
  "mn_probe (snd (answer cd en from m n)) = mn_probe n"
  by (simp_all add: answer_def forward_relay_acks_def Let_def case_prod_beta split: gossip_payload.split option.split)

section \<open>Claims through the handlers\<close>

lemma claim_map_entry:
  "claim_of (AList.map_entry k f t) m =
     (if m = k then map_option (\<lambda>r. (nm_state (f r), nm_incarnation (f r))) (map_of t k) else claim_of t m)"
  by (auto simp: claim_of_def map_of_map_entry split: option.split)

lemma relabel_claim [simp]: "claim_of (mn_membership (relabel k ls n)) m = claim_of (mn_membership n) m"
  by (simp add: relabel_def claim_map_entry) (simp add: claim_of_def)

lemma acknowledged_claim:
  "claim_of (mn_membership (acknowledged k now n)) m =
     (if m = k then map_option (\<lambda>(s, i). (if s = Suspect then Alive else s, i)) (claim_of (mn_membership n) m) else claim_of (mn_membership n) m)"
  by (simp add: acknowledged_def claim_map_entry) (simp add: claim_of_def map_option.compositionality comp_def)

lemma add_node_claim:
  "claim_of (snd (add_node k address i ls now t)) m =
     (if m \<noteq> k then claim_of t m
      else case claim_of t m of
        None \<Rightarrow> Some (Alive, i)
      | Some (s, j) \<Rightarrow> Some (if s \<noteq> Left \<and> j < i then (Alive, i) else (s, j)))"
proof (cases "map_of t k")
  case None
  then show ?thesis by (auto simp: add_node_def new_member_def claim_of_def update_conv')
next
  case (Some r)
  then show ?thesis by (auto simp: add_node_def Let_def claim_of_def update_conv')
qed

lemma set_roles_claim [simp]: "claim_of (set_roles roles t) m = claim_of t m"
proof -
  have "map_of (set_roles roles t) m = map_option (\<lambda>r. r\<lparr>nm_is_council := (m \<in> cr_council roles), nm_is_leader := (cr_leader roles = Some m)\<rparr>) (map_of t m)"
    by (induction t) (auto simp: set_roles_def)
  then show ?thesis by (simp add: claim_of_def map_option.compositionality comp_def)
qed

lemma map_of_filter_keep: "map_of t k = Some v \<Longrightarrow> P (k, v) \<Longrightarrow> map_of (filter P t) k = Some v"
  by (induction t) (auto split: if_splits)

lemma reap_claim: "claim_of t m = Some (s, i) \<Longrightarrow> \<not> is_down s \<Longrightarrow> claim_of (snd (reap_expired_dead timeout now t)) m = Some (s, i)"
  by (auto simp: claim_of_def reap_expired_dead_def expired_def intro!: map_of_filter_keep)

lemma declare_dead_claim: "m \<noteq> k \<Longrightarrow> claim_of (snd (declare_dead k now t)) m = claim_of t m"
  by (auto simp: declare_dead_def split: option.split)

lemma suspect_claim: "m \<noteq> k \<Longrightarrow> claim_of (snd (suspect k now t)) m = claim_of t m"
  by (auto simp: suspect_def split: option.split)

lemma handle_update_other:
  assumes "m \<noteq> mn_node_id n"
  shows "claim_of (mn_membership (handle_update en u n)) m = claim_of (snd (apply_update u (en_now en) (mn_membership n))) m"
proof -
  have "claim_of (mn_membership (refute en i n')) m = claim_of (mn_membership n') m" if "m \<noteq> mn_node_id n'" for i n'
    using that by (simp add: refute_def Let_def apply_update_claim)
  then show ?thesis using assms by (simp add: handle_update_def Let_def case_prod_beta)
qed

lemma handle_updates_other:
  assumes "m \<noteq> mn_node_id n"
  shows "claim_of (mn_membership (fold (handle_update en) us n)) m = claim_of (apply_updates (map (\<lambda>u. (u, en_now en)) us) (mn_membership n)) m"
proof -
  have same: "claim_of (apply_updates us t) m = claim_of (apply_updates us t') m" if "claim_of t m = claim_of t' m" for us t t'
    using that
  proof (induction us arbitrary: t t')
    case (Cons p us)
    obtain u now where p: "p = (u, now)" by (cases p)
    have "claim_of (snd (apply_update u now t)) m = claim_of (snd (apply_update u now t')) m"
      using Cons.prems unfolding apply_update_claim by auto
    from Cons.IH [OF this] show ?case unfolding p by simp
  qed simp
  show ?thesis
    using assms
  proof (induction us arbitrary: n)
    case (Cons u us)
    then show ?case using same [OF handle_update_other [OF Cons.prems, of en u]] by simp
  qed simp
qed

text \<open>A node that has not left answers every claim about itself that is not \<open>Alive\<close>.\<close>

lemma handle_update_self:
  assumes "claim_of (mn_membership n) (mn_node_id n) = Some (Alive, r)" "\<not> mn_left n"
    "mu_node_id u = mn_node_id n" "max (mn_incarnation n) (mu_incarnation u) < u64_max"
  shows "claim_of (mn_membership (handle_update en u n)) (mn_node_id n) =
    Some (Alive, if mu_state u = Alive then max r (mu_incarnation u) else max r (max (mn_incarnation n) (mu_incarnation u) + 1))"
proof -
  have alive: "resolve_claim (Alive, a) (Alive, b) = (Alive, max a b)" for a b
    by (auto simp: resolve_max precedence_def severity_def)
  have lower: "resolve_claim (s, i) (Alive, j) = (Alive, j)" if "i < j" for s i j
    using that severity_less [of s] by (simp add: resolve_max precedence_def severity_def)
  let ?j = "max (mn_incarnation n) (mu_incarnation u) + 1"
  have j: "add64 (max (mn_incarnation n) (mu_incarnation u)) 1 = ?j" using assms(4) by (simp add: add64_exact)
  show ?thesis
  proof (cases "mu_state u = Alive")
    case True
    then show ?thesis
      using assms alive by (simp add: handle_update_def Let_def case_prod_beta apply_update_claim refutable_def)
  next
    case False
    then have ref: "refutable n' (mu_state u)" if "mn_left n' = mn_left n" for n'
      using that assms(2) by (cases "mu_state u") (simp_all add: refutable_def)
    have "resolve_claim (resolve_claim (Alive, r) (update_claim u)) (Alive, ?j) = (Alive, max r ?j)"
    proof (cases "resolve_claim (Alive, r) (update_claim u) = update_claim u")
      case True
      have "r \<le> mu_incarnation u"
      proof (rule ccontr)
        assume "\<not> r \<le> mu_incarnation u"
        then have "precedence (update_claim u) < precedence (Alive, r)"
          using severity_less [of "mu_state u"] by (simp add: precedence_def severity_def)
        then show False using True False by (simp add: resolve_max split: if_splits)
      qed
      then show ?thesis using True lower [of "mu_incarnation u" ?j "mu_state u"] by simp
    next
      case False
      then have "resolve_claim (Alive, r) (update_claim u) = (Alive, r)" by (simp add: resolve_max split: if_splits)
      then show ?thesis using alive by simp
    qed
    then show ?thesis
      using assms(1,3) False ref j
      by (simp add: handle_update_def Let_def case_prod_beta refute_def apply_update_claim)
  qed
qed

section \<open>Well-formed tables\<close>

definition table_ok :: "membership_table \<Rightarrow> bool" where
  "table_ok t \<longleftrightarrow> distinct (map fst t) \<and> list_all (\<lambda>(k, m). nm_node_id m = k) t"

definition node_ok :: "mustard_node \<Rightarrow> bool" where
  "node_ok n \<longleftrightarrow> table_ok (mn_membership n) \<and> map_option fst (mn_probe n) \<noteq> Some (mn_node_id n)"

lemma table_ok_lookup: "table_ok t \<Longrightarrow> map_of t k = Some m \<Longrightarrow> nm_node_id m = k"
  by (auto simp: table_ok_def list_all_iff dest: map_of_SomeD)

lemma table_ok_update: "table_ok t \<Longrightarrow> nm_node_id m = k \<Longrightarrow> table_ok (AList.update k m t)"
  using set_update_subset [of k m t] by (auto simp: table_ok_def list_all_iff distinct_update)

lemma table_ok_map_entry:
  assumes "table_ok t" "\<And>m. nm_node_id (f m) = nm_node_id m"
  shows "table_ok (AList.map_entry k f t)"
proof -
  have "list_all (\<lambda>(k, m). nm_node_id m = k) t \<Longrightarrow> list_all (\<lambda>(k, m). nm_node_id m = k) (AList.map_entry k f t)"
    using assms(2) by (induction t) auto
  then show ?thesis using assms(1) by (simp add: table_ok_def distinct_map_entry)
qed

lemma table_ok_filter: "table_ok t \<Longrightarrow> table_ok (filter P t)"
  by (auto simp: table_ok_def list_all_iff distinct_map_filter)

lemma table_ok_apply: "table_ok t \<Longrightarrow> table_ok (snd (apply_update u now t))"
  using table_ok_lookup [of t "mu_node_id u"]
  by (auto simp: apply_update_def new_member_def Let_def case_prod_beta intro!: table_ok_update split: option.split)

lemma table_ok_add: "table_ok t \<Longrightarrow> table_ok (snd (add_node k address i ls now t))"
  using table_ok_lookup [of t k] by (auto simp: add_node_def new_member_def Let_def intro!: table_ok_update split: option.split)

lemma table_ok_suspect: "table_ok t \<Longrightarrow> table_ok (snd (suspect k now t))"
  using table_ok_lookup [of t k] by (auto simp: suspect_def intro!: table_ok_update split: option.split)

lemma table_ok_dead: "table_ok t \<Longrightarrow> table_ok (snd (declare_dead k now t))"
  using table_ok_lookup [of t k] by (auto simp: declare_dead_def intro!: table_ok_update split: option.split)

lemma table_ok_roles: "table_ok t \<Longrightarrow> table_ok (set_roles roles t)"
  by (auto simp: table_ok_def set_roles_def list_all_iff comp_def case_prod_beta)

lemma table_ok_refute: "table_ok (mn_membership n) \<Longrightarrow> table_ok (mn_membership (refute en i n))"
  by (simp add: refute_def Let_def table_ok_apply)

lemma table_ok_handle_update: "table_ok (mn_membership n) \<Longrightarrow> table_ok (mn_membership (handle_update en u n))"
  using table_ok_apply [of "mn_membership n" u "en_now en"]
  by (auto simp: handle_update_def Let_def case_prod_beta intro: table_ok_refute)

lemma table_ok_handle_updates: "table_ok (mn_membership n) \<Longrightarrow> table_ok (mn_membership (fold (handle_update en) us n))"
  by (induction us arbitrary: n) (simp_all add: table_ok_handle_update)

lemma table_ok_relabel: "table_ok (mn_membership n) \<Longrightarrow> table_ok (mn_membership (relabel k ls n))"
  by (simp add: relabel_def table_ok_map_entry)

lemma table_ok_merge: "table_ok (mn_membership n) \<Longrightarrow> table_ok (mn_membership (merge_message en from m n))"
  unfolding merge_message_def Let_def case_prod_beta
  by (rule table_ok_handle_updates) (auto simp: table_ok_relabel table_ok_add split: option.split)

lemma answer_membership:
  "mn_membership (snd (answer cd en from m n)) =
     (case gm_payload m of
        Ack _ relayed_for \<Rightarrow> mn_membership (acknowledged (case relayed_for of Some vouched \<Rightarrow> vouched | None \<Rightarrow> gm_sender m) (en_now en) n)
      | _ \<Rightarrow> mn_membership n)"
  by (auto simp: answer_def forward_relay_acks_def Let_def case_prod_beta acknowledged_def split: gossip_payload.split option.split)

lemma table_ok_answer: "table_ok (mn_membership n) \<Longrightarrow> table_ok (mn_membership (snd (answer cd en from m n)))"
  by (simp add: answer_membership acknowledged_def table_ok_map_entry split: gossip_payload.split)

section \<open>The probe cycle\<close>

lemma refresh_fields [simp]:
  "mn_node_id (refresh_own_job_capabilities n) = mn_node_id n" "mn_incarnation (refresh_own_job_capabilities n) = mn_incarnation n"
  "mn_membership (refresh_own_job_capabilities n) = mn_membership n" "mn_left (refresh_own_job_capabilities n) = mn_left n"
  "mn_sequences (refresh_own_job_capabilities n) = mn_sequences n" "mn_dissemination (refresh_own_job_capabilities n) = mn_dissemination n"
  by (simp_all add: refresh_own_job_capabilities_def Let_def)

lemma retire_contacts_fields [simp]:
  "mn_node_id (retire_left_contacts n) = mn_node_id n" "mn_incarnation (retire_left_contacts n) = mn_incarnation n"
  "mn_membership (retire_left_contacts n) = mn_membership n" "mn_left (retire_left_contacts n) = mn_left n"
  "mn_sequences (retire_left_contacts n) = mn_sequences n" "mn_dissemination (retire_left_contacts n) = mn_dissemination n"
  by (simp_all add: retire_left_contacts_def)

lemma promote_fields [simp]:
  "mn_node_id (promote en s n) = mn_node_id n" "mn_incarnation (promote en s n) = mn_incarnation n"
  "mn_left (promote en s n) = mn_left n" "mn_sequences (promote en s n) = mn_sequences n"
  "mn_membership (promote en s n) = snd (declare_dead (fst s) (en_now en) (mn_membership n))"
  by (simp_all add: promote_def Let_def case_prod_beta)

lemma promote_fold_fields [simp]:
  "mn_node_id (fold (promote en) ss n) = mn_node_id n" "mn_incarnation (fold (promote en) ss n) = mn_incarnation n"
  "mn_left (fold (promote en) ss n) = mn_left n" "mn_sequences (fold (promote en) ss n) = mn_sequences n"
  by (induction ss arbitrary: n) simp_all

lemma promote_suspects_fields [simp]:
  "mn_node_id (promote_expired_suspects en n) = mn_node_id n" "mn_incarnation (promote_expired_suspects en n) = mn_incarnation n"
  "mn_left (promote_expired_suspects en n) = mn_left n" "mn_sequences (promote_expired_suspects en n) = mn_sequences n"
  by (simp_all add: promote_expired_suspects_def)

lemma promote_fold_table: "table_ok (mn_membership n) \<Longrightarrow> table_ok (mn_membership (fold (promote en) ss n))"
  by (induction ss arbitrary: n) (simp_all add: table_ok_dead)

lemma promote_fold_claim:
  "\<forall>s \<in> set ss. fst s \<noteq> m \<Longrightarrow> claim_of (mn_membership (fold (promote en) ss n)) m = claim_of (mn_membership n) m"
  by (induction ss arbitrary: n) (auto simp: declare_dead_claim)

lemma reap_fields [simp]:
  "mn_node_id (reap en n) = mn_node_id n" "mn_incarnation (reap en n) = mn_incarnation n" "mn_left (reap en n) = mn_left n"
  "mn_membership (reap en n) = snd (reap_expired_dead (gc_cleanup_timeout (mn_config n)) (en_now en) (mn_membership n))"
  "mn_dissemination (reap en n) = mn_dissemination n"
  by (simp_all add: reap_def Let_def case_prod_beta)

lemma reap_sequences:
  "mn_sequences (reap en n) = filter (\<lambda>(m, _). m \<notin> set (fst (reap_expired_dead (gc_cleanup_timeout (mn_config n)) (en_now en) (mn_membership n))))
     (mn_sequences n)"
  by (cases "fst (reap_expired_dead (gc_cleanup_timeout (mn_config n)) (en_now en) (mn_membership n))")
    (simp_all add: reap_def Let_def case_prod_beta)

lemma contact_fields [simp]:
  "mn_node_id (snd (ping_rejoin_contact cd en n)) = mn_node_id n" "mn_incarnation (snd (ping_rejoin_contact cd en n)) = mn_incarnation n"
  "mn_left (snd (ping_rejoin_contact cd en n)) = mn_left n" "mn_membership (snd (ping_rejoin_contact cd en n)) = mn_membership n"
  "mn_sequences (snd (ping_rejoin_contact cd en n)) = mn_sequences n"
  by (simp_all add: ping_rejoin_contact_def Let_def split: list.split)

abbreviation swept_node :: "surroundings \<Rightarrow> mustard_node \<Rightarrow> mustard_node" where
  "swept_node en n \<equiv> reap en (promote_expired_suspects en (retire_left_contacts (refresh_own_job_capabilities n)))"

lemma cycle_start_fields [simp]:
  "mn_node_id (snd (cycle_start cd en n)) = mn_node_id n" "mn_incarnation (snd (cycle_start cd en n)) = mn_incarnation n"
  "mn_left (snd (cycle_start cd en n)) = mn_left n"
  "mn_membership (snd (cycle_start cd en n)) = (if en_quiesced en then mn_membership n else mn_membership (swept_node en n))"
  "mn_sequences (snd (cycle_start cd en n)) = (if en_quiesced en then mn_sequences n else mn_sequences (swept_node en n))"
  by (simp_all add: cycle_start_def Let_def case_prod_beta promote_expired_suspects_def ping_seeds_def split: option.split)

lemma probe_target_other:
  assumes "table_ok (mn_membership n)" "pick_probe_target en n = Some (target, address)"
  shows "target \<noteq> mn_node_id n"
proof -
  have drawn: "draw_one k xs = Some x \<Longrightarrow> x \<in> set xs" for k and xs :: "node_membership list" and x
    by (auto simp: draw_one_def split: if_splits)
  obtain m where m: "m \<in> set (sort_key nm_node_id (filter (\<lambda>m. nm_node_id m \<noteq> mn_node_id n) (active_members (mn_membership n))))"
    "target = nm_node_id m"
    using assms(2) by (auto simp: pick_probe_target_def simp del: set_sort dest!: drawn)
  then show ?thesis by simp
qed

lemma pick_probe_target_cong:
  "mn_membership n = mn_membership n' \<Longrightarrow> mn_node_id n = mn_node_id n' \<Longrightarrow> pick_probe_target en n = pick_probe_target en n'"
  by (simp add: pick_probe_target_def)

lemma cycle_start_probe:
  "mn_probe (snd (cycle_start cd en n)) = (if en_quiesced en then None else pick_probe_target en (swept_node en n))"
proof (cases "en_quiesced en")
  case False
  let ?n2 = "snd (ping_rejoin_contact cd en (swept_node en n))"
  let ?p = "if en_now en \<ge> mn_next_push_pull ?n2 then push_pull en ?n2 else (False, [], ?n2)"
  let ?n4 = "if fst ?p then snd (snd ?p)\<lparr>mn_next_push_pull := en_now en + gc_push_pull_interval (mn_config (snd (snd ?p)))\<rparr> else snd (snd ?p)"
  have "mn_membership ?n4 = mn_membership (swept_node en n)" "mn_node_id ?n4 = mn_node_id (swept_node en n)" by simp_all
  from pick_probe_target_cong [OF this] have target: "pick_probe_target en ?n4 = pick_probe_target en (swept_node en n)" .
  have "mn_probe (snd (cycle_start cd en n)) = pick_probe_target en ?n4"
    unfolding cycle_start_def Let_def case_prod_beta using False by (simp add: ping_seeds_def split: option.split)
  then show ?thesis using False target by simp
qed (simp add: cycle_start_def)

lemma table_ok_swept: "table_ok (mn_membership n) \<Longrightarrow> table_ok (mn_membership (swept_node en n))"
  by (simp add: reap_expired_dead_def table_ok_filter promote_expired_suspects_def promote_fold_table)

lemma node_ok_exec:
  assumes "node_ok n"
  shows "node_ok (gossip_exec cd (en, e) n)"
proof (cases e)
  case (Receive a m)
  have "node_ok (snd (answer cd en a m (merge_message en a m n0)))" if "node_ok n0" for n0
    using that by (simp add: node_ok_def table_ok_answer table_ok_merge)
  moreover have "node_ok (snd (admit_sequence m n))" using assms by (simp add: node_ok_def admit_sequence_def split: option.split)
  ultimately show ?thesis using assms Receive by (simp add: handle_message_def Let_def case_prod_beta)
next
  case CycleStart
  have "target \<noteq> mn_node_id n" if "mn_probe (snd (cycle_start cd en n)) = Some (target, address)" for target address
    using that probe_target_other [of "swept_node en n" en target address] table_ok_swept assms
    by (auto simp: cycle_start_probe node_ok_def promote_expired_suspects_def split: if_splits)
  then show ?thesis using CycleStart assms table_ok_swept by (auto simp: node_ok_def split: option.split)
next
  case NoAck
  then show ?thesis using assms
    by (auto simp: node_ok_def cycle_failed_def Let_def case_prod_beta table_ok_suspect split: option.split)
next
  case Leave
  then show ?thesis using assms by (auto simp: node_ok_def leave_def Let_def table_ok_map_entry split: option.split)
next
  case Publish
  then show ?thesis using assms
    by (auto simp: node_ok_def publish_membership_def Let_def table_ok_roles split: option.split)
qed (use assms in \<open>auto simp: node_ok_def cycle_relays_def split: option.split\<close>)

interpretation gossip_run: command_machine "gossip_exec cd" "\<lambda>_. True" node_ok
proof
  fix n and c :: "surroundings \<times> gossip_event"
  assume "node_ok n"
  then show "node_ok (gossip_exec cd c n)" by (cases c) (simp add: node_ok_exec)
qed

lemma node_ok_new: "node_ok (mustard_new k address config now sequence)"
  by (simp add: node_ok_def mustard_new_def add_node_def new_member_def table_ok_def)

section \<open>Replayed messages\<close>

text \<open>The sender stays a member in every state of the run.\<close>

fun stays_member :: "codec \<Rightarrow> node_id \<Rightarrow> (surroundings \<times> gossip_event) list \<Rightarrow> mustard_node \<Rightarrow> bool" where
  "stays_member cd s [] n = True"
| "stays_member cd s (e # es) n \<longleftrightarrow> (s \<in> fst ` set (mn_membership (gossip_exec cd e n)) \<and> stays_member cd s es (gossip_exec cd e n))"

definition heard :: "node_id \<Rightarrow> nat \<Rightarrow> mustard_node \<Rightarrow> bool" where
  "heard s k n \<longleftrightarrow> (case map_of (mn_sequences n) s of None \<Rightarrow> False | Some latest \<Rightarrow> k \<le> latest)"

lemma map_of_without: "s \<notin> A \<Longrightarrow> map_of (filter (\<lambda>(m, _). m \<notin> A) xs) s = map_of xs s"
  by (induction xs) auto

lemma swept_sequences:
  assumes "table_ok (mn_membership n)" "s \<in> fst ` set (mn_membership (swept_node en n))"
  shows "map_of (mn_sequences (swept_node en n)) s = map_of (mn_sequences n) s"
proof -
  let ?n1 = "promote_expired_suspects en (retire_left_contacts (refresh_own_job_capabilities n))"
  let ?gone = "\<lambda>p. expired (gc_cleanup_timeout (mn_config ?n1)) (en_now en) (snd p)"
  let ?reaped = "map fst (filter ?gone (mn_membership ?n1))"
  have "table_ok (mn_membership ?n1)" using assms(1) by (simp add: promote_expired_suspects_def promote_fold_table)
  then have "distinct (map fst (mn_membership ?n1))" by (simp add: table_ok_def)
  moreover have "s \<in> fst ` set (filter (\<lambda>p. \<not> ?gone p) (mn_membership ?n1))"
    using assms(2) by (simp add: reap_expired_dead_def case_prod_beta)
  ultimately have s: "s \<notin> set ?reaped" by (auto simp: distinct_map inj_on_def)
  have "mn_sequences (swept_node en n) = filter (\<lambda>(m, _). m \<notin> set ?reaped) (mn_sequences ?n1)"
    by (simp add: reap_sequences reap_expired_dead_def case_prod_beta)
  then show ?thesis using map_of_without [OF s] by (simp add: promote_expired_suspects_def)
qed

lemma heard_exec:
  assumes "node_ok n" "heard s k n" "s \<in> fst ` set (mn_membership (gossip_exec cd (en, e) n))"
  shows "heard s k (gossip_exec cd (en, e) n)"
proof (cases e)
  case (Receive a m)
  then show ?thesis using assms(2)
    by (auto simp: heard_def handle_message_def admit_sequence_def Let_def case_prod_beta update_conv' split: option.splits)
next
  case CycleStart
  then show ?thesis using assms swept_sequences [of n s en] by (auto simp: heard_def node_ok_def split: if_splits)
next
  case NoAck
  then show ?thesis using assms(2) by (auto simp: heard_def cycle_failed_def Let_def case_prod_beta split: option.splits)
next
  case Leave
  then show ?thesis using assms(2) by (auto simp: heard_def leave_def Let_def)
next
  case Publish
  then show ?thesis using assms(2) by (auto simp: heard_def publish_membership_def Let_def split: option.split)
qed (use assms(2) in \<open>auto simp: heard_def cycle_relays_def split: option.splits\<close>)

lemma heard_run:
  "node_ok n \<Longrightarrow> heard s k n \<Longrightarrow> stays_member cd s es n \<Longrightarrow> heard s k (fold (gossip_exec cd) es n)"
proof (induction es arbitrary: n)
  case (Cons e es)
  obtain en ev where e: "e = (en, ev)" by (cases e)
  show ?case using Cons.IH [of "gossip_exec cd e n"] Cons.prems heard_exec [of n s k cd en ev] node_ok_exec [of n cd en ev] e by simp
qed simp

lemma exec_node_id [simp]: "mn_node_id (gossip_exec cd e n) = mn_node_id n"
  by (cases e; cases "snd e") (auto simp: handle_message_def admit_sequence_def Let_def case_prod_beta cycle_relays_def cycle_failed_def
    leave_def publish_membership_def split: option.split)

lemma run_node_id [simp]: "mn_node_id (fold (gossip_exec cd) es n) = mn_node_id n"
  by (induction es arbitrary: n) simp_all

lemma accepted_answer:
  assumes "handle_message cd en src m n = (True, out, n1)" "gm_sender m \<noteq> mn_node_id n"
  shows "answer cd en src m (merge_message en src m (n\<lparr>mn_sequences := AList.update (gm_sender m) (gm_sequence m) (mn_sequences n)\<rparr>)) = (out, n1)"
  using assms by (auto simp: handle_message_def admit_sequence_def Let_def case_prod_beta split: if_splits option.splits)

lemma accepted_sequences:
  assumes "handle_message cd en src m n = (True, out, n1)" "gm_sender m \<noteq> mn_node_id n"
  shows "mn_sequences n1 = AList.update (gm_sender m) (gm_sequence m) (mn_sequences n)"
  using arg_cong [OF accepted_answer [OF assms], of "mn_sequences \<circ> snd"] by simp

text \<open>
  C13: A replayed message is ignored. Once a node has accepted a message of another node, the same message, whoever sends
  it again and from whatever address, is dropped without changing anything or being answered, for as long as its sender
  stays in the membership table.
\<close>

theorem replayed_message_ignored:
  assumes "n = fold (gossip_exec cd) before (mustard_new k address config now sequence)"
    "handle_message cd en from m n = (True, out, n1)" "gm_sender m \<noteq> mn_node_id n"
    "stays_member cd (gm_sender m) events n1"
  shows "handle_message cd en' from' m (fold (gossip_exec cd) events n1) = (False, [], fold (gossip_exec cd) events n1)"
proof -
  let ?n2 = "fold (gossip_exec cd) events n1"
  have ok: "node_ok n" using gossip_run.run_inv [OF node_ok_new] assms(1) by simp
  have n1: "n1 = gossip_exec cd (en, Receive from m) n" using assms(2) by simp
  have "mn_sequences n1 = AList.update (gm_sender m) (gm_sequence m) (mn_sequences n)"
    using accepted_sequences [OF assms(2,3)] .
  then have "heard (gm_sender m) (gm_sequence m) n1" by (simp add: heard_def update_conv')
  then have heard: "heard (gm_sender m) (gm_sequence m) ?n2" using heard_run node_ok_exec [OF ok] assms(4) n1 by metis
  have "mn_node_id ?n2 = mn_node_id n" unfolding n1 by (simp only: run_node_id exec_node_id)
  then show ?thesis
    using heard assms(3) by (auto simp: handle_message_def admit_sequence_def heard_def split: option.splits)
qed

definition demo_codec :: codec where
  "demo_codec = \<lparr>cd_message_len = (\<lambda>m. 40 + 30 * length (payload_updates (gm_payload m))), cd_extension_len = (\<lambda>_. 200), cd_update_len = (\<lambda>_. 30)\<rparr>"

definition demo_surroundings :: "int \<Rightarrow> surroundings" where
  "demo_surroundings now = \<lparr>en_now = now, en_quiesced = False, en_choose = 0, en_sample = (\<lambda>k. [0..<k]), en_heap = demo_choices\<rparr>"

definition demo_mustard :: "node_id \<Rightarrow> mustard_node" where
  "demo_mustard k = mustard_new k (demo_addr\<lparr>sa_ip := k\<rparr>) gossip_config_default 0 5"

definition demo_ping :: "membership_update list \<Rightarrow> gossip_message" where
  "demo_ping us = fst (message_new (Ping us) (demo_mustard ''c''))"

theorem replayed_message_ignored_witness:
  "let m = demo_ping [demo_update Suspect 1]; r = handle_message demo_codec (demo_surroundings 1) demo_addr m (demo_mustard ''b'');
       events = [(demo_surroundings 2, CycleStart), (demo_surroundings 300000002, NoAck)]; n2 = fold (gossip_exec demo_codec) events (snd (snd r))
   in fst r \<and> fst (snd r) \<noteq> [] \<and> handle_message demo_codec (demo_surroundings 9) (demo_addr\<lparr>sa_port := 1\<rparr>) m n2 = (False, [], n2)"
proof -
  let ?m = "demo_ping [demo_update Suspect 1]"
  let ?r = "handle_message demo_codec (demo_surroundings 1) demo_addr ?m (demo_mustard ''b'')"
  let ?events = "[(demo_surroundings 2, CycleStart), (demo_surroundings 300000002, NoAck)]"
  let ?n2 = "fold (gossip_exec demo_codec) ?events (snd (snd ?r))"
  have "demo_mustard ''b'' = fold (gossip_exec demo_codec) [] (mustard_new ''b'' (demo_addr\<lparr>sa_ip := ''b''\<rparr>) gossip_config_default 0 5)"
    by (simp add: demo_mustard_def)
  moreover have accepted: "fst ?r" "fst (snd ?r) \<noteq> []" by code_simp+
  then have "?r = (True, fst (snd ?r), snd (snd ?r))" by (metis prod.collapse)
  moreover have "gm_sender ?m \<noteq> mn_node_id (demo_mustard ''b'')" by code_simp
  moreover have "stays_member demo_codec (gm_sender ?m) ?events (snd (snd ?r))" by code_simp
  ultimately have "handle_message demo_codec (demo_surroundings 9) (demo_addr\<lparr>sa_port := 1\<rparr>) ?m ?n2 = (False, [], ?n2)"
    by (rule replayed_message_ignored)
  then show ?thesis using accepted by (simp only: Let_def simp_thms)
qed

section \<open>A running node\<close>

definition limit :: nat where
  "limit = 2 ^ 63"

fun event_updates :: "gossip_event \<Rightarrow> membership_update list" where
  "event_updates (Receive src m) = payload_updates (gm_payload m)"
| "event_updates _ = []"

definition self_alive :: "mustard_node \<Rightarrow> bool" where
  "self_alive n \<longleftrightarrow> mn_left n \<or> (\<exists>i. claim_of (mn_membership n) (mn_node_id n) = Some (Alive, i))"

lemma handle_update_incarnation: "mn_incarnation (handle_update en u n) \<le> max (mn_incarnation n) (mu_incarnation u) + 1"
proof -
  have "add64 x 1 \<le> x + 1" for x by (simp only: add64_def mod_less_eq_dividend)
  then show ?thesis by (simp add: handle_update_def Let_def case_prod_beta le_SucI)
qed

lemma handle_update_alive:
  assumes "self_alive n" "max (mn_incarnation n) (mu_incarnation u) < u64_max"
  shows "self_alive (handle_update en u n)"
proof (cases "mn_left n")
  case False
  then obtain r where r: "claim_of (mn_membership n) (mn_node_id n) = Some (Alive, r)" using assms(1) by (auto simp: self_alive_def)
  show ?thesis
  proof (cases "mu_node_id u = mn_node_id n")
    case True
    then show ?thesis using handle_update_self [OF r False True assms(2), of en] by (auto simp: self_alive_def)
  next
    case False
    then have "mn_membership (handle_update en u n) = snd (apply_update u (en_now en) (mn_membership n))"
      by (simp add: handle_update_def Let_def case_prod_beta)
    then show ?thesis using r False by (auto simp: self_alive_def apply_update_claim)
  qed
qed (simp add: self_alive_def)

lemma handle_updates_alive:
  assumes "self_alive n" "\<forall>u \<in> set us. mu_incarnation u < limit" "mn_incarnation n \<le> limit + k" "k + length us < limit"
  shows "self_alive (fold (handle_update en) us n) \<and> mn_incarnation (fold (handle_update en) us n) \<le> limit + k + length us"
  using assms
proof (induction us arbitrary: n k)
  case (Cons u us)
  have "max (mn_incarnation n) (mu_incarnation u) < u64_max" using Cons.prems by (simp add: limit_def)
  then have "self_alive (handle_update en u n)" using handle_update_alive Cons.prems(1) by blast
  moreover have "mn_incarnation (handle_update en u n) \<le> limit + Suc k"
    using handle_update_incarnation [of en u n] Cons.prems by (auto simp: max_def split: if_splits)
  ultimately show ?case using Cons.IH [of "handle_update en u n" "Suc k"] Cons.prems by simp
qed simp

lemma add_node_alive:
  assumes "claim_of t m = Some (Alive, i)"
  shows "\<exists>j. claim_of (snd (add_node k address x ls now t)) m = Some (Alive, j)"
  using assms by (auto simp: add_node_claim)

lemma merge_alive:
  assumes "self_alive n" "\<forall>u \<in> set (payload_updates (gm_payload m)). mu_incarnation u < limit" "mn_incarnation n \<le> limit + k"
    "k + length (payload_updates (gm_payload m)) < limit"
  shows "self_alive (merge_message en src m n) \<and> mn_incarnation (merge_message en src m n) \<le> limit + k + length (payload_updates (gm_payload m))"
  unfolding merge_message_def Let_def case_prod_beta
proof (rule handle_updates_alive [OF _ assms(2) _ assms(4)], goal_cases)
  case 1
  show ?case
    using assms(1) add_node_alive by (auto simp: self_alive_def split: option.split)
next
  case 2
  show ?case using assms(3) by (auto split: option.split)
qed

lemma answer_alive: "self_alive n \<Longrightarrow> self_alive (snd (answer cd en src m n))"
proof -
  have "claim_of (mn_membership (acknowledged k now n)) x = Some (Alive, i)" if "claim_of (mn_membership n) x = Some (Alive, i)" for k now x i
    using that by (cases "x = k") (auto simp: acknowledged_claim)
  then show "self_alive n \<Longrightarrow> ?thesis" by (auto simp: self_alive_def answer_membership split: gossip_payload.split)
qed

lemma swept_alive:
  assumes "self_alive n" "table_ok (mn_membership n)"
  shows "self_alive (swept_node en n)"
proof (cases "mn_left n")
  case False
  then obtain i where i: "claim_of (mn_membership n) (mn_node_id n) = Some (Alive, i)" using assms(1) by (auto simp: self_alive_def)
  have "claim_of (mn_membership (promote_expired_suspects en (retire_left_contacts (refresh_own_job_capabilities n)))) (mn_node_id n) = Some (Alive, i)"
    unfolding promote_expired_suspects_def by (subst promote_fold_claim) (auto simp: i)
  from reap_claim [OF this] show ?thesis using False by (auto simp: self_alive_def is_down_def promote_expired_suspects_def)
qed (simp add: self_alive_def promote_expired_suspects_def)

lemma exec_alive:
  assumes "node_ok n" "self_alive n" "\<forall>u \<in> set (event_updates e). mu_incarnation u < limit" "mn_incarnation n \<le> limit + k"
    "k + length (event_updates e) < limit"
  shows "self_alive (gossip_exec cd (en, e) n) \<and> mn_incarnation (gossip_exec cd (en, e) n) \<le> limit + k + length (event_updates e)"
proof (cases e)
  case (Receive src m)
  have merged: "self_alive (snd (answer cd en src m (merge_message en src m n0))) \<and>
      mn_incarnation (snd (answer cd en src m (merge_message en src m n0))) \<le> limit + k + length (event_updates e)"
    if "self_alive n0" "mn_incarnation n0 = mn_incarnation n" for n0
    using merge_alive [OF that(1), of m k en src] answer_alive assms(3-5) that(2) Receive by simp
  have "self_alive (snd (admit_sequence m n))" "mn_incarnation (snd (admit_sequence m n)) = mn_incarnation n"
    using assms(2) by (simp_all add: self_alive_def admit_sequence_def split: option.split)
  from merged [OF this] merged [OF assms(2) refl] show ?thesis
    using assms(2,4) Receive by (simp add: handle_message_def Let_def case_prod_beta)
next
  case CycleStart
  then show ?thesis using assms(2,4) swept_alive [OF assms(2), of en] assms(1) by (auto simp: self_alive_def node_ok_def)
next
  case NoAck
  have "claim_of (snd (suspect target now (mn_membership n))) (mn_node_id n) = claim_of (mn_membership n) (mn_node_id n)"
    if "mn_probe n = Some (target, address)" for target address now
    using that assms(1) by (intro suspect_claim) (auto simp: node_ok_def)
  then show ?thesis using NoAck assms(2,4)
    by (auto simp: self_alive_def cycle_failed_def Let_def case_prod_beta split: option.split)
next
  case Leave
  then show ?thesis using assms(4) by (auto simp: self_alive_def leave_def Let_def)
next
  case Publish
  then show ?thesis using assms(2,4) by (auto simp: self_alive_def publish_membership_def Let_def split: option.split)
qed (use assms(2,4) in \<open>auto simp: self_alive_def cycle_relays_def split: option.split\<close>)

lemma run_alive:
  "node_ok n \<Longrightarrow> self_alive n \<Longrightarrow> list_all (\<lambda>(en, e). list_all (\<lambda>u. mu_incarnation u < limit) (event_updates e)) es \<Longrightarrow>
   mn_incarnation n \<le> limit + k \<Longrightarrow> k + (\<Sum>(en, e) \<leftarrow> es. length (event_updates e)) < limit \<Longrightarrow>
   self_alive (fold (gossip_exec cd) es n)"
proof (induction es arbitrary: n k)
  case (Cons x es)
  obtain en e where x: "x = (en, e)" by (cases x)
  have "self_alive (gossip_exec cd x n) \<and> mn_incarnation (gossip_exec cd x n) \<le> limit + (k + length (event_updates e))"
    using exec_alive [of n e k cd en] Cons.prems x by (simp add: list_all_iff)
  then show ?case
    using Cons.IH [of "gossip_exec cd x n" "k + length (event_updates e)"] Cons.prems node_ok_exec [of n cd en e] x by simp
qed simp



end
