(* ===== verification/Gossip_Refutation.thy ===== *)
theory Gossip_Refutation
  imports Gossip_Safety
begin

text \<open>
  A node clears its name. A running node keeps its queue ready to carry a refutation (\<open>ready\<close>, kept by every event), so the
  acknowledgement of a ping that tells the node it is held down brings the refutation back to the sender of the ping.
\<close>

section \<open>A queue ready to refute\<close>

definition ready :: "mustard_node \<Rightarrow> bool" where
  "ready n \<longleftrightarrow> mn_left n \<or>
     (\<exists>r. claim_of (mn_membership n) (mn_node_id n) = Some (Alive, r) \<and> own_queue (mn_node_id n) r (mn_dissemination n))"

lemma readyI:
  "claim_of (mn_membership n) (mn_node_id n) = Some (Alive, r) \<Longrightarrow> own_queue (mn_node_id n) r (mn_dissemination n) \<Longrightarrow> ready n"
  by (auto simp: ready_def)

lemma readyE:
  assumes "ready n" "\<not> mn_left n"
  obtains r where "claim_of (mn_membership n) (mn_node_id n) = Some (Alive, r)" "own_queue (mn_node_id n) r (mn_dissemination n)"
  using assms by (auto simp: ready_def)

lemma ready_self: "ready n \<Longrightarrow> self_alive n"
  by (auto simp: ready_def self_alive_def)

subsection \<open>Sending\<close>

lemma own_message_new [simp]: "mn_dissemination (snd (message_new payload n)) = mn_dissemination n"
  by (simp add: message_new_def)

lemma own_probe_message: "own_queue x r (mn_dissemination n) \<Longrightarrow> own_queue x r (mn_dissemination (snd (probe_message cd en payload peer n)))"
  using own_queue_select [of x r "mn_dissemination (snd (message_new payload n))"] by (simp add: probe_message_def Let_def case_prod_beta)

lemma own_ping: "own_queue x r (mn_dissemination n) \<Longrightarrow> own_queue x r (mn_dissemination (snd (ping cd en address peer n)))"
  using own_probe_message by (simp add: ping_def Let_def case_prod_beta)

lemma own_ping_each: "own_queue x r (mn_dissemination n) \<Longrightarrow> own_queue x r (mn_dissemination (snd (ping_each cd en peer_of addresses n)))"
  by (induction addresses arbitrary: n) (simp_all add: Let_def case_prod_beta own_ping)

lemma own_forward_to: "own_queue x r (mn_dissemination n) \<Longrightarrow> own_queue x r (mn_dissemination (snd (forward_to cd en target requesters n)))"
  by (induction requesters arbitrary: n) (simp_all add: Let_def case_prod_beta own_probe_message split: option.split)

lemma own_request_relays: "own_queue x r (mn_dissemination n) \<Longrightarrow> own_queue x r (mn_dissemination (snd (request_relays cd en target relays n)))"
  by (induction relays arbitrary: n) (simp_all add: Let_def case_prod_beta own_probe_message)

lemma chunks_queue [simp]: "mn_dissemination (snd (send_chunks target w uss n)) = mn_dissemination n"
  by (induction uss arbitrary: n w) (simp_all add: Let_def case_prod_beta)

lemma membership_queue [simp]: "mn_dissemination (snd (send_membership target w n)) = mn_dissemination n"
  by (simp add: send_membership_def membership_window_def Let_def case_prod_beta)

lemma push_pull_queue [simp]: "mn_dissemination (snd (snd (push_pull en n))) = mn_dissemination n"
  by (simp add: push_pull_def Let_def case_prod_beta split: option.split)

lemma expect_queue [simp]: "mn_dissemination (expect_relay_ack now t r n) = mn_dissemination n"
  by (simp add: expect_relay_ack_def Let_def)

lemma own_disseminate:
  assumes "fair (en_heap en)" "own_queue x r (mn_dissemination n)" "mu_node_id u = x \<Longrightarrow> mu_incarnation u \<le> r"
  shows "own_queue x r (mn_dissemination (disseminate en u n))"
  using own_queue_push [OF assms(1,2), of False u] assms(3) by (simp add: disseminate_def enqueue_def)

lemma own_answer: "own_queue x r (mn_dissemination n) \<Longrightarrow> own_queue x r (mn_dissemination (snd (answer cd en src m n)))"
  by (auto simp: answer_def forward_relay_acks_def Let_def case_prod_beta own_probe_message own_ping own_forward_to
    split: gossip_payload.split option.split)

lemma ready_answer:
  assumes "ready n"
  shows "ready (snd (answer cd en src m n))"
proof (cases "mn_left n")
  case False
  with assms obtain r where r: "claim_of (mn_membership n) (mn_node_id n) = Some (Alive, r)" "own_queue (mn_node_id n) r (mn_dissemination n)"
    by (rule readyE)
  have "claim_of (mn_membership (acknowledged k now n)) (mn_node_id n) = Some (Alive, r)" for k now
    using r(1) by (cases "mn_node_id n = k") (auto simp: acknowledged_claim)
  then have "claim_of (mn_membership (snd (answer cd en src m n))) (mn_node_id n) = Some (Alive, r)"
    using r(1) by (auto simp: answer_membership split: gossip_payload.split)
  then show ?thesis using own_answer [OF r(2)] by (simp add: readyI)
qed (simp add: ready_def)

subsection \<open>Merging\<close>

text \<open>An update as it is merged and passed on, before the node answers it.\<close>

definition noted :: "surroundings \<Rightarrow> membership_update \<Rightarrow> mustard_node \<Rightarrow> mustard_node" where
  "noted en u n = (let (changed, t) = apply_update u (en_now en) (mn_membership n); n1 = n\<lparr>mn_membership := t\<rparr>
     in if changed then disseminate en u n1 else n1)"

lemma noted_fields [simp]:
  "mn_node_id (noted en u n) = mn_node_id n" "mn_left (noted en u n) = mn_left n" "mn_incarnation (noted en u n) = mn_incarnation n"
  "mn_address (noted en u n) = mn_address n" "mn_membership (noted en u n) = snd (apply_update u (en_now en) (mn_membership n))"
  by (simp_all add: noted_def Let_def case_prod_beta)

lemma handle_update_noted:
  "handle_update en u n =
     (if mu_node_id u = mn_node_id n \<and> refutable n (mu_state u) then refute en (mu_incarnation u) (noted en u n) else noted en u n)"
  by (cases "mu_state u") (simp_all add: handle_update_def noted_def Let_def case_prod_beta refutable_def)

lemma own_noted:
  assumes "fair (en_heap en)" "own_queue x r (mn_dissemination n)" "mu_node_id u = x \<Longrightarrow> mu_incarnation u \<le> r"
  shows "own_queue x r (mn_dissemination (noted en u n))"
  using own_disseminate [of en x r "n\<lparr>mn_membership := snd (apply_update u (en_now en) (mn_membership n))\<rparr>" u] assms
  by (simp add: noted_def Let_def case_prod_beta)

lemma ready_handle_update:
  assumes "fair (en_heap en)" "ready n" "max (mn_incarnation n) (mu_incarnation u) < u64_max"
  shows "ready (handle_update en u n)"
proof (cases "mn_left n")
  case running: False
  with assms(2) obtain r where r: "claim_of (mn_membership n) (mn_node_id n) = Some (Alive, r)" "own_queue (mn_node_id n) r (mn_dissemination n)"
    by (rule readyE)
  show ?thesis
  proof (cases "mu_node_id u = mn_node_id n")
    case True
    let ?j = "max (mn_incarnation n) (mu_incarnation u) + 1"
    obtain s where s: "claim_of (mn_membership (handle_update en u n)) (mn_node_id n) = Some (Alive, s)" "r \<le> s" "mu_incarnation u \<le> s"
      "mu_state u \<noteq> Alive \<Longrightarrow> ?j \<le> s"
      using handle_update_self [OF r(1) running True assms(3), of en] by (cases "mu_state u = Alive") auto
    have j: "add64 (max (mn_incarnation n) (mu_incarnation u)) 1 = ?j" using assms(3) by (simp add: add64_exact)
    note own = own_queue_mono [OF r(2) s(2)]
    have two: "own_queue (mn_node_id n) s (mn_dissemination (noted en u n))"
      using own_noted [OF assms(1) own] s(3) by simp
    have "own_queue (mn_node_id n) s (mn_dissemination (handle_update en u n))"
    proof (cases "refutable n (mu_state u)")
      case refuted: True
      then have "mu_state u \<noteq> Alive" by (auto simp: refutable_def)
      then have "own_queue (mn_node_id n) s (mn_dissemination (refute en (mu_incarnation u) (noted en u n)))"
        using own_queue_push [OF assms(1) two] s(4) j by (simp add: refute_def enqueue_refutation_def Let_def)
      then show ?thesis using refuted True by (simp add: handle_update_noted)
    qed (simp add: two handle_update_noted)
    then show ?thesis using s(1) by (simp add: readyI)
  next
    case False
    have "own_queue (mn_node_id n) r (mn_dissemination (handle_update en u n))"
      using own_noted [OF assms(1) r(2)] False by (simp add: handle_update_noted)
    moreover have "claim_of (mn_membership (handle_update en u n)) (mn_node_id n) = Some (Alive, r)"
      using r(1) False by (simp add: handle_update_noted apply_update_claim)
    ultimately show ?thesis by (simp add: readyI)
  qed
qed (simp add: ready_def)

lemma ready_handle_updates:
  assumes "fair (en_heap en)" "ready n" "\<forall>u \<in> set us. mu_incarnation u < limit" "mn_incarnation n \<le> limit + k" "k + length us < limit"
  shows "ready (fold (handle_update en) us n)"
  using assms(2-)
proof (induction us arbitrary: n k)
  case (Cons u us)
  have "max (mn_incarnation n) (mu_incarnation u) < u64_max" using Cons.prems by (simp add: limit_def)
  then have "ready (handle_update en u n)" using ready_handle_update assms(1) Cons.prems(1) by blast
  moreover have "mn_incarnation (handle_update en u n) \<le> limit + Suc k"
    using handle_update_incarnation [of en u n] Cons.prems by (auto simp: max_def split: if_splits)
  ultimately show ?case using Cons.IH [of "handle_update en u n" "Suc k"] Cons.prems by simp
qed simp

text \<open>The state a message's updates are merged into.\<close>

definition introduced :: "surroundings \<Rightarrow> socket_addr \<Rightarrow> gossip_message \<Rightarrow> mustard_node \<Rightarrow> mustard_node" where
  "introduced en src m n = merge_message en src (m\<lparr>gm_payload := with_updates [] (gm_payload m)\<rparr>) n"

lemma no_updates [simp]: "payload_updates (with_updates us p) = us"
  by (cases p) simp_all

lemma merge_introduced: "merge_message en src m n = fold (handle_update en) (payload_updates (gm_payload m)) (introduced en src m n)"
  unfolding introduced_def merge_message_def
  by (cases m) (simp only: gossip_message.simps no_updates fold_Nil id_apply Let_def case_prod_beta)

lemma introduced_fields [simp]:
  "mn_node_id (introduced en src m n) = mn_node_id n" "mn_left (introduced en src m n) = mn_left n"
  "mn_incarnation (introduced en src m n) = mn_incarnation n"
  unfolding introduced_def merge_message_def Let_def case_prod_beta by (simp_all split: option.split)

lemma introduced_claim:
  "claim_of (mn_membership (introduced en src m n)) x =
     claim_of (snd (add_node (gm_sender m) src (gm_incarnation m) [] (en_now en) (mn_membership n))) x"
  unfolding introduced_def merge_message_def Let_def case_prod_beta by (simp add: add_node_claim split: option.split)

lemma introduced_form:
  obtains n4 t where "introduced en src m n = (if fst (add_node (gm_sender m) src (gm_incarnation m) [] (en_now en) t)
      then disseminate en \<lparr>mu_node_id = gm_sender m, mu_address = src, mu_state = Alive, mu_incarnation = gm_incarnation m\<rparr> n4 else n4)"
    "mn_dissemination n4 = mn_dissemination n" "\<And>x. claim_of t x = claim_of (mn_membership n) x"
proof -
  let ?ext = "case gm_extension m of Some e \<Rightarrow> if de_node_id e = gm_sender m then Some e else None | None \<Rightarrow> None"
  let ?n1 = "case ?ext of Some e \<Rightarrow> ingest_extension e n | None \<Rightarrow> n"
  let ?n2 = "if gm_sender m \<noteq> mn_node_id ?n1 \<and> src \<noteq> mn_address ?n1 then remember_contact (gm_sender m) src ?n1 else ?n1"
  let ?n3 = "?n2\<lparr>mn_membership := snd (add_node (gm_sender m) src (gm_incarnation m) [] (en_now en) (mn_membership ?n2))\<rparr>"
  let ?n4 = "case ?ext of Some e \<Rightarrow> relabel (de_node_id e) (de_labels e) ?n3 | None \<Rightarrow> ?n3"
  have n1: "mn_dissemination ?n1 = mn_dissemination n" "claim_of (mn_membership ?n1) x = claim_of (mn_membership n) x" for x
    by (cases ?ext; simp)+
  have n4: "mn_dissemination ?n4 = mn_dissemination ?n1" by (cases ?ext; simp)
  show thesis
  proof (rule that [of "mn_membership ?n2" ?n4])
    show "introduced en src m n = (if fst (add_node (gm_sender m) src (gm_incarnation m) [] (en_now en) (mn_membership ?n2))
      then disseminate en \<lparr>mu_node_id = gm_sender m, mu_address = src, mu_state = Alive, mu_incarnation = gm_incarnation m\<rparr> ?n4 else ?n4)"
      unfolding introduced_def merge_message_def
      by (cases m) (simp only: gossip_message.simps no_updates fold_Nil id_apply Let_def case_prod_beta)
    show "mn_dissemination ?n4 = mn_dissemination n" using n4 n1(1) by (rule trans)
    show "claim_of (mn_membership ?n2) x = claim_of (mn_membership n) x" for x using n1(2) by simp
  qed
qed

lemma introduced_own:
  assumes "fair (en_heap en)" "own_queue (mn_node_id n) r (mn_dissemination n)" "claim_of (mn_membership n) (mn_node_id n) = Some (Alive, r)"
  shows "own_queue (mn_node_id n) r (mn_dissemination (introduced en src m n))"
proof -
  have known: "gm_sender m \<noteq> mn_node_id n" if "fst (add_node (gm_sender m) src (gm_incarnation m) [] now t)" "claim_of t (mn_node_id n) = Some (Alive, r)"
    for now t using that by (auto simp: add_node_def claim_of_def Let_def)
  show ?thesis
    by (rule introduced_form [of en src m n]) (use assms known in \<open>auto intro!: own_disseminate\<close>)
qed

lemma ready_introduced:
  assumes "fair (en_heap en)" "ready n"
  shows "ready (introduced en src m n)"
proof (cases "mn_left n")
  case False
  with assms(2) obtain r where r: "claim_of (mn_membership n) (mn_node_id n) = Some (Alive, r)" "own_queue (mn_node_id n) r (mn_dissemination n)"
    by (rule readyE)
  have "\<exists>r'. claim_of (mn_membership (introduced en src m n)) (mn_node_id n) = Some (Alive, r') \<and> r \<le> r'"
    unfolding introduced_claim add_node_claim r(1) by simp
  then obtain r' where "claim_of (mn_membership (introduced en src m n)) (mn_node_id n) = Some (Alive, r')" "r \<le> r'" by blast
  then show ?thesis using own_queue_mono [OF introduced_own [OF assms(1) r(2,1)]] by (simp add: readyI)
qed (simp add: ready_def)

subsection \<open>Runs\<close>

lemma ready_sent:
  assumes "ready n" "sent_from n n'" "\<And>x r. own_queue x r (mn_dissemination n) \<Longrightarrow> own_queue x r (mn_dissemination n')"
  shows "ready n'"
  using assms sent_from_fields [OF assms(2)] unfolding ready_def by metis

lemma own_promote:
  assumes "fair (en_heap en)" "own_queue x r (mn_dissemination n)" "fst s \<noteq> x"
  shows "own_queue x r (mn_dissemination (promote en s n))"
  using assms by (auto simp: promote_def Let_def case_prod_beta intro!: own_disseminate)

lemma own_promote_fold:
  assumes "fair (en_heap en)" "own_queue x r (mn_dissemination n)" "\<forall>s \<in> set ss. fst s \<noteq> x"
  shows "own_queue x r (mn_dissemination (fold (promote en) ss n))"
  using assms(2,3) by (induction ss arbitrary: n) (simp_all add: own_promote [OF assms(1)])

lemma ready_swept:
  assumes "fair (en_heap en)" "ready n"
  shows "ready (swept_node en n)"
proof (cases "mn_left n")
  case False
  with assms(2) obtain r where r: "claim_of (mn_membership n) (mn_node_id n) = Some (Alive, r)" "own_queue (mn_node_id n) r (mn_dissemination n)"
    by (rule readyE)
  let ?n1 = "promote_expired_suspects en (retire_left_contacts (refresh_own_job_capabilities n))"
  have "claim_of (mn_membership ?n1) (mn_node_id n) = Some (Alive, r)"
    unfolding promote_expired_suspects_def by (subst promote_fold_claim) (auto simp: r)
  moreover have "own_queue (mn_node_id n) r (mn_dissemination ?n1)"
    unfolding promote_expired_suspects_def by (rule own_promote_fold [OF assms(1)]) (auto simp: r)
  ultimately show ?thesis
    using reap_claim [of "mn_membership ?n1" "mn_node_id n" Alive r] by (intro readyI [of _ r]) (simp_all add: is_down_def)
qed (simp add: ready_def)

lemma ready_cycle_start:
  assumes "fair (en_heap en)" "ready n"
  shows "ready (snd (cycle_start cd en n))"
proof (cases "en_quiesced en")
  case False
  have swept_node: "ready (swept_node en n)" using ready_swept [OF assms] .
  have own: "own_queue x r (mn_dissemination (snd (cycle_start cd en n)))" if "own_queue x r (mn_dissemination (swept_node en n))" for x r
    using that False unfolding cycle_start_def Let_def case_prod_beta
    by (auto simp: ping_seeds_def ping_rejoin_contact_def Let_def own_ping own_ping_each simp del: reap_fields split: option.split list.split)
  show ?thesis
    using swept_node own False unfolding ready_def by (auto simp del: reap_fields(4,5) simp: promote_expired_suspects_def)
qed (use assms(2) in \<open>simp add: cycle_start_def ready_def\<close>)

lemma ready_merge:
  assumes "fair (en_heap en)" "ready n" "\<forall>u \<in> set (payload_updates (gm_payload m)). mu_incarnation u < limit" "mn_incarnation n \<le> limit + k"
    "k + length (payload_updates (gm_payload m)) < limit"
  shows "ready (merge_message en src m n)"
  using ready_handle_updates [OF assms(1) ready_introduced [OF assms(1,2)] assms(3), of src m k] assms(4,5) by (simp add: merge_introduced)

lemma ready_exec:
  assumes "fair (en_heap en)" "node_ok n" "ready n" "\<forall>u \<in> set (event_updates e). mu_incarnation u < limit" "mn_incarnation n \<le> limit + k"
    "k + length (event_updates e) < limit"
  shows "ready (gossip_exec cd (en, e) n)"
proof (cases e)
  case (Receive src m)
  have merged: "ready (snd (answer cd en src m (merge_message en src m n0)))" if "ready n0" "mn_incarnation n0 = mn_incarnation n" for n0
    using ready_answer ready_merge [OF assms(1) that(1), of m k src] assms(4-6) that(2) Receive by simp
  have "ready (snd (admit_sequence m n))" "mn_incarnation (snd (admit_sequence m n)) = mn_incarnation n"
    using assms(3) by (simp_all add: ready_def admit_sequence_def split: option.split)
  from merged [OF this] merged [OF assms(3) refl] show ?thesis
    using assms(3) Receive by (simp add: handle_message_def Let_def case_prod_beta)
next
  case CycleStart
  then show ?thesis using ready_cycle_start [OF assms(1,3)] by simp
next
  case NoDirectAck
  then show ?thesis using assms(3) ready_sent [OF assms(3) sent_request_relays own_request_relays]
    by (auto simp: cycle_relays_def split: option.split)
next
  case NoAck
  have "claim_of (snd (suspect target now (mn_membership n))) (mn_node_id n) = claim_of (mn_membership n) (mn_node_id n)"
    if "mn_probe n = Some (target, address)" for target address now
    using that assms(2) by (intro suspect_claim) (auto simp: node_ok_def)
  moreover have "target \<noteq> mn_node_id n" if "mn_probe n = Some (target, address)" for target address
    using that assms(2) by (auto simp: node_ok_def)
  ultimately show ?thesis using NoAck assms(3)
    by (auto simp: ready_def cycle_failed_def Let_def case_prod_beta intro!: own_disseminate assms(1) split: option.split)
next
  case Leave
  then show ?thesis by (auto simp: ready_def leave_def Let_def)
next
  case Publish
  then show ?thesis using assms(3) by (auto simp: ready_def publish_membership_def Let_def split: option.split)
qed (use assms(3) in \<open>auto simp: ready_def\<close>)

lemma ready_run:
  "node_ok n \<Longrightarrow> ready n \<Longrightarrow>
   list_all (\<lambda>(en, e). fair (en_heap en) \<and> list_all (\<lambda>u. mu_incarnation u < limit) (event_updates e)) es \<Longrightarrow>
   mn_incarnation n \<le> limit + k \<Longrightarrow> k + (\<Sum>(en, e) \<leftarrow> es. length (event_updates e)) < limit \<Longrightarrow>
   ready (fold (gossip_exec cd) es n) \<and>
   mn_incarnation (fold (gossip_exec cd) es n) \<le> limit + (k + (\<Sum>(en, e) \<leftarrow> es. length (event_updates e)))"
proof (induction es arbitrary: n k)
  case (Cons x es)
  obtain en e where x: "x = (en, e)" by (cases x)
  have "ready (gossip_exec cd x n)" using ready_exec [of en n e k cd] Cons.prems x by (simp add: list_all_iff)
  moreover have "mn_incarnation (gossip_exec cd x n) \<le> limit + (k + length (event_updates e))"
    using exec_alive [of n e k cd en] ready_self [OF Cons.prems(2)] Cons.prems x by (simp add: list_all_iff)
  ultimately show ?case
    using Cons.IH [of "gossip_exec cd x n" "k + length (event_updates e)"] Cons.prems node_ok_exec [of n cd en e] x by (simp add: add.assoc)
qed simp

lemma ready_new: "ready (mustard_new k address config now sequence)"
  by (simp add: ready_def mustard_new_def add_node_def new_member_def claim_of_def own_queue_def queue_new_ok) (simp add: queue_new_def)

section \<open>Messages with claims\<close>

text \<open>The room of a datagram besides its updates.\<close>

definition spare :: "codec \<Rightarrow> gossip_message \<Rightarrow> nat" where
  "spare cd m = piggyback_room cd (m\<lparr>gm_payload := with_updates [] (gm_payload m)\<rparr>)"

lemma attach_room:
  assumes "gm_extension m = None" "attach_extension cd e m = (room, m')"
  shows "room = piggyback_room cd m'" "gm_extension m' = None \<or> gm_extension m' = Some e" "m' = m\<lparr>gm_extension := gm_extension m'\<rparr>"
proof -
  have "MAX_DATAGRAM_BYTES - sat_add64 a b = MAX_DATAGRAM_BYTES - a - b" for a b
    by (auto simp: sat_add64_def MAX_DATAGRAM_BYTES_def)
  then show "room = piggyback_room cd m'" "gm_extension m' = None \<or> gm_extension m' = Some e" "m' = m\<lparr>gm_extension := gm_extension m'\<rparr>"
    using assms
    by (cases m; auto simp: attach_extension_def piggyback_room_def message_encoded_len_def Let_def split: if_splits)+
qed

text \<open>The updates of a message: the claim about the peer first, then what the queue gives.\<close>

definition probe_updates :: "codec \<Rightarrow> surroundings \<Rightarrow> nat \<Rightarrow> node_id option \<Rightarrow> mustard_node \<Rightarrow> membership_update list" where
  "probe_updates cd en room peer n =
     (case claim_about cd room peer n of
        Some c \<Rightarrow> c # filter (\<lambda>u. mu_node_id u \<noteq> mu_node_id c) (fst (select_updates_within (en_heap en) (cd_update_len cd)
                   (room - cd_update_len cd c) (MAX_PIGGYBACK_UPDATES - 1) (mn_dissemination n)))
      | None \<Rightarrow> fst (select_updates_within (en_heap en) (cd_update_len cd) room MAX_PIGGYBACK_UPDATES (mn_dissemination n)))"

lemma with_updates_twice [simp]: "with_updates us (with_updates vs p) = with_updates us p"
  by (cases p) simp_all

lemma probe_message_parts:
  assumes "probe_message cd en payload peer n = (m, n1)" "with_updates [] payload = payload"
  shows "gm_version m = CURRENT_PROTOCOL mod 256" "gm_state_format m = CURRENT_STATE" "gm_sender m = mn_node_id n"
    "gm_incarnation m = mn_incarnation n" "gm_payload m = with_updates (probe_updates cd en (spare cd m) peer n) payload"
proof -
  let ?m0 = "fst (message_new payload n)" and ?n0 = "snd (message_new payload n)"
  let ?r = "case local_extension ?n0 of Some e \<Rightarrow> attach_extension cd e ?m0 | None \<Rightarrow> (piggyback_room cd ?m0, ?m0)"
  have m0: "gm_extension ?m0 = None" "gm_payload ?m0 = payload" "gm_version ?m0 = CURRENT_PROTOCOL mod 256"
    "gm_state_format ?m0 = CURRENT_STATE" "gm_sender ?m0 = mn_node_id n" "gm_incarnation ?m0 = mn_incarnation n"
    by (simp_all add: message_new_def)
  have r: "fst ?r = piggyback_room cd (snd ?r)" "snd ?r = ?m0\<lparr>gm_extension := gm_extension (snd ?r)\<rparr>"
  proof -
    show "fst ?r = piggyback_room cd (snd ?r)"
      using attach_room(1) [OF m0(1) prod.collapse [symmetric]] by (simp split: option.split)
    show "snd ?r = ?m0\<lparr>gm_extension := gm_extension (snd ?r)\<rparr>"
    proof (cases "local_extension ?n0")
      case None
      then show ?thesis using m0(1) by simp
    next
      case (Some e)
      then show ?thesis using attach_room(3) [OF m0(1) prod.collapse [symmetric], of cd e] by simp
    qed
  qed
  obtain room m' where rm: "?r = (room, m')" by fastforce
  have m': "m' = ?m0\<lparr>gm_extension := gm_extension m'\<rparr>" "room = piggyback_room cd m'" using r rm by simp_all
  have fields: "gm_version m' = CURRENT_PROTOCOL mod 256" "gm_state_format m' = CURRENT_STATE" "gm_sender m' = mn_node_id n"
    "gm_incarnation m' = mn_incarnation n" "gm_payload m' = payload"
    by (subst m'(1), simp add: m0)+
  have claim: "claim_about cd room peer ?n0 = claim_about cd room peer n" by (simp add: claim_about_def message_new_def)
  have out: "m = m'\<lparr>gm_payload := with_updates (probe_updates cd en room peer n) payload\<rparr>"
    using assms(1) rm claim fields(5)
    by (simp add: probe_message_def probe_updates_def Let_def case_prod_beta split: option.splits)
  have "m'\<lparr>gm_payload := payload\<rparr> = m'" using fields(5) by simp
  then have "spare cd m = room" using assms(2) by (simp add: out spare_def m'(2))
  then show "gm_version m = CURRENT_PROTOCOL mod 256" "gm_state_format m = CURRENT_STATE" "gm_sender m = mn_node_id n"
    "gm_incarnation m = mn_incarnation n" "gm_payload m = with_updates (probe_updates cd en (spare cd m) peer n) payload"
    using fields by (simp_all add: out)
qed

section \<open>Clearing a name\<close>

lemma leads_noted:
  assumes "fair (en_heap en)" "leads u (mn_dissemination n)" "mu_node_id v \<noteq> mu_node_id u"
  shows "leads u (mn_dissemination (noted en v n))"
  using push_other_leads [OF assms] assms(2) by (simp add: noted_def Let_def case_prod_beta disseminate_def enqueue_def)

lemma leads_handle_updates:
  assumes "fair (en_heap en)" "leads u (mn_dissemination n)" "mu_node_id u = mn_node_id n" "\<forall>v \<in> set us. mu_node_id v \<noteq> mn_node_id n"
  shows "leads u (mn_dissemination (fold (handle_update en) us n)) \<and> mn_incarnation (fold (handle_update en) us n) = mn_incarnation n"
  using assms(2-) by (induction us arbitrary: n) (simp_all add: handle_update_noted leads_noted [OF assms(1)])

text \<open>A node told that it is held down queues a refutation at a higher incarnation, ahead of all else about it.\<close>

lemma refuting_merge:
  assumes "fair (en_heap en)" "\<not> mn_left n" "claim_of (mn_membership n) (mn_node_id n) = Some (Alive, r)"
    "own_queue (mn_node_id n) r (mn_dissemination n)" "r \<le> max (mn_incarnation n) i" "max (mn_incarnation n) i < u64_max"
    "payload_updates (gm_payload m) = c # rest" "mu_node_id c = mn_node_id n" "update_claim c = (s, i)" "s \<noteq> Alive"
    "\<forall>v \<in> set rest. mu_node_id v \<noteq> mn_node_id n"
  shows "mn_incarnation (merge_message en src m n) = max (mn_incarnation n) i + 1"
    "\<exists>address. leads \<lparr>mu_node_id = mn_node_id n, mu_address = address, mu_state = Alive, mu_incarnation = max (mn_incarnation n) i + 1\<rparr>
       (mn_dissemination (merge_message en src m n))"
proof -
  let ?j = "max (mn_incarnation n) i + 1" and ?n0 = "introduced en src m n"
  let ?u = "\<lparr>mu_node_id = mn_node_id n, mu_address = mn_address ?n0, mu_state = Alive, mu_incarnation = ?j\<rparr>"
  have j: "add64 (max (mn_incarnation n) i) 1 = ?j" using assms(6) by (simp add: add64_exact)
  have "own_queue (mn_node_id n) (max (mn_incarnation n) i) (mn_dissemination ?n0)"
    using own_queue_mono [OF introduced_own [OF assms(1,4,3)] assms(5)] .
  then have "own_queue (mn_node_id n) (max (mn_incarnation n) i) (mn_dissemination (noted en c ?n0))"
    by (rule own_noted [OF assms(1)]) (use assms(9) in simp)
  then have "leads ?u (mn_dissemination (refute en i (noted en c ?n0)))"
    using own_queue_refutation [OF assms(1), of ?u "max (mn_incarnation n) i"] j by (simp add: refute_def enqueue_refutation_def Let_def)
  moreover have "refutable ?n0 (mu_state c)" using assms(2,9,10) by (cases s) (simp_all add: refutable_def)
  then have "handle_update en c ?n0 = refute en i (noted en c ?n0)" using assms(8,9) by (simp add: handle_update_noted)
  ultimately have "leads ?u (mn_dissemination (merge_message en src m n)) \<and> mn_incarnation (merge_message en src m n) = ?j"
    using leads_handle_updates [OF assms(1), of ?u "refute en i (noted en c ?n0)" rest] assms(7,11) j by (simp add: merge_introduced)
  then show "mn_incarnation (merge_message en src m n) = ?j"
    "\<exists>address. leads \<lparr>mu_node_id = mn_node_id n, mu_address = address, mu_state = Alive, mu_incarnation = ?j\<rparr>
       (mn_dissemination (merge_message en src m n))" by blast+
qed

text \<open>A refutation at the head of the queue goes out with the next message that has room for it, and nothing else about its node does.\<close>

lemma leads_sent:
  assumes "leads u (mn_dissemination n)" "mu_node_id u \<noteq> mn_node_id p" "table_ok (mn_membership n)"
    "\<And>v. mu_node_id v \<in> {mu_node_id u, mn_node_id p} \<Longrightarrow> cd_update_len cd v \<le> len" "2 * len \<le> room"
  shows "\<exists>v \<in> set (probe_updates cd en room (Some (mn_node_id p)) n). mu_node_id v = mu_node_id u"
    "\<forall>v \<in> set (probe_updates cd en room (Some (mn_node_id p)) n). mu_node_id v = mu_node_id u \<longrightarrow> rank v = rank u"
proof -
  have fits: "cd_update_len cd u \<le> len" using assms(4) by simp
  have sel: "(\<exists>v. v \<in> set (fst (select_updates_within (en_heap en) (cd_update_len cd) budget mx (mn_dissemination n))) \<and> mu_node_id v = mu_node_id u) \<and>
     (\<forall>v \<in> set (fst (select_updates_within (en_heap en) (cd_update_len cd) budget mx (mn_dissemination n))). mu_node_id v = mu_node_id u \<longrightarrow> rank v = rank u)"
    if "len \<le> budget" "0 < mx" for budget mx
    using leads_selected [where len = "cd_update_len cd" and hc = "en_heap en", OF assms(1) that(2) order_trans [OF fits that(1)] prod.collapse [symmetric]] by blast
  have other: "mu_node_id c = mn_node_id p" "cd_update_len cd c \<le> len" if c: "claim_about cd room (Some (mn_node_id p)) n = Some c" for c
  proof -
    obtain m where m: "map_of (mn_membership n) (mn_node_id p) = Some m" "c = update_of m"
      using c by (auto simp: claim_about_def split: option.splits if_splits)
    then show "mu_node_id c = mn_node_id p" using table_ok_lookup [OF assms(3)] by (simp add: update_of_def)
    then show "cd_update_len cd c \<le> len" using assms(4) by simp
  qed
  have "(\<exists>v \<in> set (probe_updates cd en room (Some (mn_node_id p)) n). mu_node_id v = mu_node_id u) \<and>
    (\<forall>v \<in> set (probe_updates cd en room (Some (mn_node_id p)) n). mu_node_id v = mu_node_id u \<longrightarrow> rank v = rank u)"
  proof (cases "claim_about cd room (Some (mn_node_id p)) n")
    case None
    then show ?thesis using sel [of room MAX_PIGGYBACK_UPDATES] assms(5) by (auto simp: probe_updates_def MAX_PIGGYBACK_UPDATES_def)
  next
    case (Some c)
    have "len \<le> room - cd_update_len cd c" using other(2) [OF Some] assms(5) by simp
    from sel [OF this, of "MAX_PIGGYBACK_UPDATES - 1"] show ?thesis
      using Some other(1) [OF Some] assms(2) by (auto simp: probe_updates_def MAX_PIGGYBACK_UPDATES_def)
  qed
  then show "\<exists>v \<in> set (probe_updates cd en room (Some (mn_node_id p)) n). mu_node_id v = mu_node_id u"
    "\<forall>v \<in> set (probe_updates cd en room (Some (mn_node_id p)) n). mu_node_id v = mu_node_id u \<longrightarrow> rank v = rank u" by blast+
qed

lemma rank_alive: "rank v = rank u \<Longrightarrow> mu_state u = Alive \<Longrightarrow> update_claim v = (Alive, mu_incarnation u)"
  by (cases "mu_state v") (simp_all add: rank_def dissemination_priority_def)

text \<open>A node that hears the refutation holds its sender alive at the incarnation of the refutation.\<close>

lemma informed:
  assumes "x \<noteq> mn_node_id n" "claim_of (mn_membership n) x = Some (s, i)" "i < j"
    "gm_sender a = x" "gm_incarnation a = j" "gm_payload a = Ack us None"
    "\<forall>v \<in> set us. mu_node_id v = x \<longrightarrow> update_claim v = (Alive, j)" "\<exists>v \<in> set us. mu_node_id v = x"
  shows "claim_of (mn_membership (snd (answer cd en src a (merge_message en src a n)))) x = Some (Alive, j)"
proof -
  let ?n0 = "introduced en src a n" and ?cs = "map update_claim (filter (\<lambda>v. mu_node_id v = x) us)"
  obtain c where c: "claim_of (mn_membership ?n0) x = Some c" "precedence c \<le> precedence (Alive, j)"
  proof (cases "s = Left")
    case True
    then have "claim_of (mn_membership ?n0) x = Some (Left, i)" unfolding introduced_claim add_node_claim assms(2) using assms(4) by simp
    then show ?thesis using that assms(3) by (simp add: precedence_def severity_def)
  next
    case False
    then have "claim_of (mn_membership ?n0) x = Some (Alive, j)" unfolding introduced_claim add_node_claim assms(2) using assms(3-5) by simp
    then show ?thesis using that by simp
  qed
  have "claim_of (mn_membership (merge_message en src a n)) x = Some (fold (\<lambda>d acc. resolve_claim acc d) ?cs c)"
    unfolding merge_introduced using assms(1,6) handle_updates_other [of x ?n0 en us] apply_updates_claim [OF c(1)] by (simp add: comp_def)
  moreover have "set ?cs = {(Alive, j)}" using assms(7,8) by auto
  then have "fold (\<lambda>d acc. resolve_claim acc d) ?cs c = fold (\<lambda>d acc. resolve_claim acc d) [(Alive, j)] c" by (intro claims.fold_join_same) simp
  ultimately have "claim_of (mn_membership (merge_message en src a n)) x = Some (Alive, j)" using c(2) by (simp add: resolve_max)
  then show ?thesis using assms(4,6) by (simp add: answer_membership acknowledged_claim)
qed

lemma accepted_ping:
  assumes "handle_message cd en src q n = (True, [(src', a)], n1)" "gm_sender q \<noteq> mn_node_id n" "gm_payload q = Ping us"
  shows "\<exists>n0. n0 = merge_message en src q (n\<lparr>mn_sequences := AList.update (gm_sender q) (gm_sequence q) (mn_sequences n)\<rparr>) \<and>
    probe_message cd en (Ack [] None) (Some (gm_sender q)) n0 = (a, n1)"
  using accepted_answer [OF assms(1,2)] assms(3) by (auto simp: answer_def Let_def split: prod.splits)

text \<open>What a ping of a member held down starts with.\<close>

lemma held_down_ping:
  assumes "ping cd en to (Some x) p = ([(to, q)], p1)" "table_ok (mn_membership p)" "claim_of (mn_membership p) x = Some (s, i)" "s \<noteq> Alive"
    "\<And>v. mu_node_id v = x \<Longrightarrow> cd_update_len cd v \<le> spare cd q"
  shows "\<exists>c rest. gm_payload q = Ping (c # rest) \<and> mu_node_id c = x \<and> update_claim c = (s, i) \<and> (\<forall>v \<in> set rest. mu_node_id v \<noteq> x)"
    "gm_sender q = mn_node_id p" "sent_from p p1"
proof -
  have probe: "probe_message cd en (Ping []) (Some x) p = (q, p1)" using assms(1) by (auto simp: ping_def Let_def split: prod.splits)
  obtain m where m: "map_of (mn_membership p) x = Some m" "nm_state m = s" "nm_incarnation m = i" using claim_known [OF assms(3)] by auto
  have id: "mu_node_id (update_of m) = x" using table_ok_lookup [OF assms(2) m(1)] by (simp add: update_of_def)
  have "claim_about cd (spare cd q) (Some x) p = Some (update_of m)"
    using m assms(4) assms(5) [OF id] by (simp add: claim_about_def)
  then have "\<exists>rest. probe_updates cd en (spare cd q) (Some x) p = update_of m # rest \<and> (\<forall>v \<in> set rest. mu_node_id v \<noteq> x)"
    using id by (auto simp: probe_updates_def)
  then show "\<exists>c rest. gm_payload q = Ping (c # rest) \<and> mu_node_id c = x \<and> update_claim c = (s, i) \<and> (\<forall>v \<in> set rest. mu_node_id v \<noteq> x)"
    using probe_message_parts(5) [OF probe] id m(2,3) by (auto simp: update_of_def)
  show "gm_sender q = mn_node_id p" using probe_message_parts(3) [OF probe] by simp
  show "sent_from p p1" using sent_ping [of p cd en to "Some x"] assms(1) by simp
qed

definition healthy_run :: "(surroundings \<times> gossip_event) list \<Rightarrow> bool" where
  "healthy_run events \<longleftrightarrow>
     list_all (\<lambda>(en, e). fair (en_heap en) \<and> list_all (\<lambda>u. mu_incarnation u < limit) (event_updates e)) events \<and>
     (\<Sum>(en, e) \<leftarrow> events. length (event_updates e)) < limit - 1"

text \<open>
  C6: A node clears its name. A node that another holds to be suspect, dead or even departed, and that is in truth running,
  is held alive again after one exchange: the ping to the node tells it of the claim, the node raises its incarnation
  above the claim, and the acknowledgement brings the refutation back, past everything else in the queues of both.
  The datagrams have to leave room for the claims about the two, and the running node must not itself know of an
  incarnation of its own later than the claim. What the sender of the ping does before the acknowledgement
  arrives does not matter, unless it hears of a later claim.
\<close>

theorem refutation_restores_member:
  assumes "n = fold (gossip_exec cd) events (mustard_new x address config now sequence)" "healthy_run events" "\<not> mn_left n"
    "p = fold (gossip_exec cd) events' (mustard_new y address' config' now' sequence')" "x \<noteq> y"
    "claim_of (mn_membership p) x = Some (s, i)" "s \<noteq> Alive" "i < limit"
    "claim_of (mn_membership n) x = Some (Alive, r)" "r \<le> max (mn_incarnation n) i"
    "\<And>v. mu_node_id v \<in> {x, y} \<Longrightarrow> cd_update_len cd v \<le> len"
    "ping cd en to (Some x) p = ([(to, q)], p1)" "len \<le> spare cd q"
    "handle_message cd en1 src q n = (True, [(src', a)], n1)" "fair (en_heap en1)" "2 * len \<le> spare cd a"
    "p2 = fold (gossip_exec cd) later p1" "claim_of (mn_membership p2) x = Some (s', i')" "i' \<le> i"
    "handle_message cd en2 src'' a p2 = (True, out, p3)"
  shows "i < mn_incarnation n1 \<and> claim_of (mn_membership p3) x = Some (Alive, mn_incarnation n1)"
proof -
  let ?n0 = "n\<lparr>mn_sequences := AList.update (gm_sender q) (gm_sequence q) (mn_sequences n)\<rparr>"
  let ?nm = "merge_message en1 src q ?n0" and ?j = "max (mn_incarnation n) i + 1"
  have ids: "mn_node_id n = x" "mn_node_id p = y" using assms(1,4) by (simp_all add: mustard_new_def)
  have p_ok: "table_ok (mn_membership p)" using gossip_run.run_inv [OF node_ok_new, of events'] assms(4) by (simp add: node_ok_def)
  have n_ok: "table_ok (mn_membership n)" using gossip_run.run_inv [OF node_ok_new, of events] assms(1) by (simp add: node_ok_def)
  have run: "ready n \<and> mn_incarnation n \<le> limit + (0 + (\<Sum>(en, e) \<leftarrow> events. length (event_updates e)))"
    using ready_run [OF node_ok_new ready_new, of events _ _ _ _ _ 0 cd] assms(1,2) by (simp add: healthy_run_def mustard_new_def limit_def)
  then have bound: "max (mn_incarnation n) i < u64_max" using assms(2,8) by (simp add: healthy_run_def limit_def)
  have own: "own_queue x r (mn_dissemination n)" using run assms(3,9) ids(1) by (auto simp: ready_def)
  obtain c rest where q: "gm_payload q = Ping (c # rest)" "mu_node_id c = x" "update_claim c = (s, i)" "\<forall>v \<in> set rest. mu_node_id v \<noteq> x"
    using held_down_ping(1) [OF assms(12) p_ok assms(6,7)] assms(11,13) order_trans by blast
  have sender: "gm_sender q = y" "mn_node_id p1 = y"
    using held_down_ping(2,3) [OF assms(12) p_ok assms(6,7)] assms(11,13) order_trans ids(2) sent_from_fields(1) by fastforce+
  have probe: "probe_message cd en1 (Ack [] None) (Some y) ?nm = (a, n1)"
    using accepted_ping [OF assms(14) _ q(1)] sender(1) ids(1) assms(5) by auto
  have j: "mn_incarnation ?nm = ?j"
    using refuting_merge(1) [of en1 ?n0 r i q c rest s src] assms(3,7,9,10,15) own bound q ids(1) by simp
  obtain addr where lead: "leads \<lparr>mu_node_id = x, mu_address = addr, mu_state = Alive, mu_incarnation = ?j\<rparr> (mn_dissemination ?nm)"
    using refuting_merge(2) [of en1 ?n0 r i q c rest s src] assms(3,7,9,10,15) own bound q ids(1) by auto
  have inc: "mn_incarnation n1 = ?j" using sent_from_fields(3) [OF sent_probe_message, of cd en1 "Ack [] None" "Some y" ?nm] probe j by simp
  have a: "gm_sender a = x" "gm_incarnation a = ?j" "gm_payload a = Ack (probe_updates cd en1 (spare cd a) (Some y) ?nm) None"
    using probe_message_parts [OF probe] j ids(1) by simp_all
  have nm_ok: "table_ok (mn_membership ?nm)" using n_ok by (simp add: table_ok_merge)
  have sent: "\<exists>v \<in> set (probe_updates cd en1 (spare cd a) (Some y) ?nm). mu_node_id v = x"
    "\<forall>v \<in> set (probe_updates cd en1 (spare cd a) (Some y) ?nm). mu_node_id v = x \<longrightarrow> update_claim v = (Alive, ?j)"
    using leads_sent [OF lead _ nm_ok, where p = p and cd = cd and len = len and room = "spare cd a" and en = en1] ids(2) assms(5,11,16)
      rank_alive [of _ "\<lparr>mu_node_id = x, mu_address = addr, mu_state = Alive, mu_incarnation = ?j\<rparr>"] by auto
  have other: "x \<noteq> mn_node_id p2" using assms(5,17) sender(2) by simp
  have "answer cd en2 src'' a (merge_message en2 src'' a (p2\<lparr>mn_sequences := AList.update (gm_sender a) (gm_sequence a) (mn_sequences p2)\<rparr>)) = (out, p3)"
    using accepted_answer [OF assms(20)] a(1) other by simp
  then have "claim_of (mn_membership p3) x = Some (Alive, ?j)"
    using informed [of x "p2\<lparr>mn_sequences := AList.update (gm_sender a) (gm_sequence a) (mn_sequences p2)\<rparr>" s' i' ?j a _ cd en2 src'']
      other assms(18,19) a sent by simp
  then show ?thesis using inc by simp
qed

definition demo_holder :: mustard_node where
  "demo_holder = fold (gossip_exec demo_codec) [(demo_surroundings 1, Receive demo_addr (fst (message_new
     (Ping [demo_update Alive 1, demo_update Left 4]) (demo_mustard ''d''))))] (demo_mustard ''c'')"

definition demo_probe :: "datagrams \<times> mustard_node" where
  "demo_probe = ping demo_codec (demo_surroundings 2) demo_addr (Some ''b'') demo_holder"

definition demo_reply :: "bool \<times> datagrams \<times> mustard_node" where
  "demo_reply = handle_message demo_codec (demo_surroundings 3) demo_addr (snd (hd (fst demo_probe))) (demo_mustard ''b'')"

theorem refutation_restores_member_witness:
  "claim_of (mn_membership demo_holder) ''b'' = Some (Left, 4) \<and>
   (let p3 = snd (snd (handle_message demo_codec (demo_surroundings 4) demo_addr (snd (hd (fst (snd demo_reply)))) (snd demo_probe)))
    in claim_of (mn_membership p3) ''b'' = Some (Alive, 5))"
proof -
  let ?q = "snd (hd (fst demo_probe))" and ?a = "snd (hd (fst (snd demo_reply)))"
  let ?r = "handle_message demo_codec (demo_surroundings 4) demo_addr ?a (snd demo_probe)"
  have held: "claim_of (mn_membership demo_holder) ''b'' = Some (Left, 4)" by code_simp
  have n: "demo_mustard ''b'' = fold (gossip_exec demo_codec) [] (mustard_new ''b'' (demo_addr\<lparr>sa_ip := ''b''\<rparr>) gossip_config_default 0 5)"
    by (simp add: demo_mustard_def)
  have len: "cd_update_len demo_codec v \<le> 30" for v by (simp add: demo_codec_def)
  have one: "ping demo_codec (demo_surroundings 2) demo_addr (Some ''b'') demo_holder = ([(demo_addr, ?q)], snd demo_probe)"
    by (simp add: demo_probe_def ping_def Let_def case_prod_beta)
  have "fst demo_reply" "map fst (fst (snd demo_reply)) = [demo_addr]" by code_simp+
  then have two: "handle_message demo_codec (demo_surroundings 3) demo_addr ?q (demo_mustard ''b'') = (True, [(demo_addr, ?a)], snd (snd demo_reply))"
    by (auto simp: demo_reply_def [symmetric] prod_eq_iff)
  have "fst ?r" by code_simp
  then have three: "?r = (True, fst (snd ?r), snd (snd ?r))" by (simp add: prod_eq_iff)
  have room: "30 \<le> spare demo_codec ?q" "2 * 30 \<le> spare demo_codec ?a" by code_simp+
  have own: "claim_of (mn_membership (demo_mustard ''b'')) ''b'' = Some (Alive, 1)" "\<not> mn_left (demo_mustard ''b'')" by code_simp+
  have idle: "snd demo_probe = fold (gossip_exec demo_codec) [] (snd demo_probe)" by simp
  have still: "claim_of (mn_membership (snd demo_probe)) ''b'' = Some (Left, 4)" by code_simp
  have "4 < mn_incarnation (snd (snd demo_reply)) \<and>
    claim_of (mn_membership (snd (snd ?r))) ''b'' = Some (Alive, mn_incarnation (snd (snd demo_reply)))"
    by (rule refutation_restores_member [OF n _ own(2) demo_holder_def [unfolded demo_mustard_def [of "''c''"]] _ held _ _ own(1) _ len one room(1)
        two _ room(2) idle still _ three])
      (simp_all add: healthy_run_def limit_def fair_def demo_surroundings_def demo_choices_def)
  moreover have "mn_incarnation (snd (snd demo_reply)) = 5" by code_simp
  ultimately show ?thesis using held by (simp only: Let_def simp_thms)
qed

end
