(* ===== verification/Spec2Isabelle.thy ===== *)
theory Spec2Isabelle
  imports Grant_Plan Scheduler Deploy Reports Quota Test_Lease Council_Components Gossip_Refutation
begin

text \<open>
  A verification development for Reliaburger, a cluster orchestrator written in Rust. Nodes gossip
  and report to a leader; a council of nodes replicates one desired state through Raft; the leader plans
  placements, rollouts and batch work against it; the nodes run what it says. The development
  models the parts that decide: the data, the planning functions and the replicated state
  machine. File names below are relative to \<open>src/src/\<close>.

  \<^bold>\<open>Conventions.\<close> A \<open>u32\<close> or \<open>u64\<close> is a natural number, and the operations that can wrap or
  saturate are written out at their width (\<open>add32\<close>, \<open>add64\<close>, \<open>sat_add64\<close>, \<open>checked_add64\<close>). A
  \<open>BTreeMap\<close> is an association list kept sorted (\<open>bt_insert\<close>, \<open>bt_remove\<close>, \<open>bt_ok\<close>), a
  \<open>HashMap\<close> an association list without repeated keys, whose order stands for the order of iteration. A \<open>String\<close> is the list of its bytes, a
  \<open>SystemTime\<close> an integer of nanoseconds. A \<open>Result\<close> is a sum with the error on the left; error messages
  are constructors. Functions of other crates (digests, signature checks) are arguments, collected for the
  state machine in the record \<open>library\<close>. Every recursion terminates, so that no definition needs fuel.

  \<^bold>\<open>Batch work\<close> (\<open>meat/index_set.rs\<close>, \<open>meat/task_array.rs\<close>, \<open>meat/task_array_state.rs\<close>).
  \<open>Index_Set\<close> models the range sets and shows that each operation computes the set operation on canonical
  ranges and that serialisation is canonical. \<open>Task_Array\<close> holds the specification of an array and shows that its chunks
  partition its tasks. \<open>Task_Array_State\<close> models the leader's state of an array with all of its operations,
  \<open>Task_Array_Invariant\<close> proves the invariant \<open>ta_wf\<close> for each of them, and \<open>Task_Array_Safety\<close> reads off what the invariant
  gives: every reachable state passes \<open>validate_snapshot\<close>, a report of a superseded attempt is never
  applied, a completed chunk stays completed, and the summary counts every task once. \<open>Grant_Plan\<close>
  models the planning of grants and shows that a plan can always be applied and stays within the room.

  \<^bold>\<open>Placement\<close> (\<open>meat/types.rs\<close>, \<open>meat/cluster_state.rs\<close>, \<open>meat/filter.rs\<close>, \<open>meat/score.rs\<close>,
  \<open>meat/scheduler.rs\<close>, \<open>meat/admission.rs\<close>, \<open>meat/quota.rs\<close>). \<open>Resources\<close>, \<open>Cluster_State\<close>, \<open>App_Spec\<close> and \<open>Workload\<close>
  hold the data; \<open>Scheduler\<close> models the filters, the score and the placement loop and shows that no node is
  overcommitted, that replicas spread, that replicas stay unplaced only when no node can take them, and that the order of
  the node table does not matter. \<open>Quota\<close> models the quota ledger of a planning pass and shows that no
  namespace exceeds its quota and that saturation never changes a decision. \<open>Config_Units\<close> models the textual quantities
  of a configuration and their round trip.

  \<^bold>\<open>Rollouts and reports\<close> (\<open>meat/deploy_types.rs\<close>, \<open>bun/deploy_worker.rs\<close>, \<open>reporting/\<close>). \<open>Deploy\<close> models the phases of
  a deploy and the planner of its steps: capacity stays within the declared bounds at every step, every
  run ends, and a rollout whose starts and stops succeed completes. \<open>Reports\<close> models the aggregation of node reports across
  leader changes and shows that a published view is current.

  \<^bold>\<open>Gossip\<close> (\<open>mustard/state.rs\<close>, \<open>mustard/membership.rs\<close>, \<open>mustard/dissemination.rs\<close>, \<open>mustard/message.rs\<close>,
  \<open>mustard/directory.rs\<close>, \<open>mustard/protocol.rs\<close>). \<open>Gossip_State\<close> models the claims about members and the table that merges
  them, and shows that nodes that hear the same claims agree. \<open>Gossip_Queue\<close> models the queue of updates that ride on messages: a
  selection fits its datagram, carries no outranked update and puts a refutation first. \<open>Gossip\<close> models a node with all of its
  handlers as a function of the event and of its surroundings (clock, random choices, sizes on the wire); the probe cycle
  is cut where the code waits, since other messages are handled meanwhile. \<open>Gossip_Safety\<close> shows that replayed messages have no
  effect and that a running node never holds itself down, and \<open>Gossip_Refutation\<close> that one exchange restores a member that is wrongly held
  suspect, dead or departed.

  \<^bold>\<open>What the council replicates\<close> (\<open>sesame/types.rs\<close>, \<open>pickle/types.rs\<close>, \<open>onion/\<close>, \<open>testkit/lease.rs\<close>, \<open>council/types.rs\<close>).
  \<open>Security\<close> holds tokens, certificate authorities and secret keys, \<open>Registry\<close> the image catalogue (its tables agree
  along every log; garbage collection keeps the last copy), \<open>Image_Reference\<close> the parsing of image names, \<open>Endpoints\<close> service
  discovery (an execution is released only when nothing refers to it), \<open>Test_Lease\<close> the leases of test runs, \<open>Operations\<close> ownership,
  permissions, faults, builds, GitOps and upgrades, and \<open>Desired_State\<close> the record of them all.

  \<^bold>\<open>The state machine\<close> (\<open>council/state_machine.rs\<close>). \<open>Council\<close> has one handler per request and
  the dispatcher \<open>apply_request_at\<close>. \<open>Council_Refusals\<close> shows that a refused request changes nothing. \<open>Council_Apps\<close>
  shows that the tables keyed by app stay consistent and that a controller keeps its app. \<open>Council_Security\<close> shows that an
  administrator token is never lost and that the key of a stored secret stays, and exhibits two defects of key rotation.
  \<open>Council_Components\<close> shows that the machine drives discovery and catalogue through their own operations only, so that
  the invariants of those components hold inside the council, and that a decommissioned node never comes back.

  \<^bold>\<open>Shared interfaces.\<close> \<open>Transition_Systems\<close> holds the locales \<open>invariant_system\<close> (a step relation with an inductive invariant)
  and \<open>command_machine\<close> (a state machine whose admissible commands keep an invariant), interpreted for task arrays, the quota pass, the
  catalogue, discovery, the gossip queue and a gossip node, and four times for the council. \<open>Gossip_State\<close> has the interface \<open>keyed_join\<close> of
  a merge that takes the larger claim, \<open>Index_Set\<close> the interface \<open>index_set\<close> that the task array relies on, \<open>Scheduler\<close>
  the loop \<open>greedy_spread\<close> and \<open>Config_Units\<close> the contract \<open>quantity_syntax\<close> of a textual quantity. \<open>Prelude\<close> and \<open>Text\<close> hold the
  machine integers, maps, lists and strings.

  \<^bold>\<open>Not modelled.\<close> The Raft library, log storage and network transport of the council, and the transport of gossip with its message authentication; the container runtimes, the
  kernel programs and the firewall (\<open>grill\<close>, \<open>onion/ebpf\<close>, \<open>firewall\<close>), which act on the operating system; the HTTP
  servers and clients, the command line and the web pages (\<open>bun\<close>, \<open>relish\<close>, \<open>brioche\<close>, \<open>wrapper\<close>, \<open>pickle/api.rs\<close>); the stores of
  metrics and logs (\<open>mayo\<close>, \<open>ketchup\<close>), which call a query engine; the cryptography of \<open>sesame\<close>; and the evaluation of
  policies, which runs an expression language of another crate.
\<close>

end
